(* ===== verification/Prelude.thy ===== *)
theory Prelude
  imports Main
begin

text \<open>
  What every component shares: the state-and-error computations in which the stateful Go
  methods are written, the rules that carry an invariant or a postcondition through them,
  Go's 64-bit signed arithmetic, and small lemmas on maps and lists.

  A Go method that reads and writes shared state and returns \<open>(T, error)\<close> is a function
  from a world to a result and the next world. The result is \<open>Inl e\<close> where the method
  returns a non-nil error, \<open>Inr v\<close> otherwise; the world is returned in both cases, so a
  write that precedes an error return stays in the model.
\<close>

section \<open>State and errors\<close>

type_synonym ('w, 'e, 'a) gom = "'w \<Rightarrow> ('e + 'a) \<times> 'w"

definition retE :: "'a \<Rightarrow> ('w, 'e, 'a) gom" where
  "retE a = (\<lambda>w. (Inr a, w))"

definition throwE :: "'e \<Rightarrow> ('w, 'e, 'a) gom" where
  "throwE e = (\<lambda>w. (Inl e, w))"

definition bindE :: "('w, 'e, 'a) gom \<Rightarrow> ('a \<Rightarrow> ('w, 'e, 'b) gom) \<Rightarrow> ('w, 'e, 'b) gom" where
  "bindE m f = (\<lambda>w. case m w of (Inl e, w') \<Rightarrow> (Inl e, w') | (Inr a, w') \<Rightarrow> f a w')"

definition seqE :: "('w, 'e, 'a) gom \<Rightarrow> ('w, 'e, 'b) gom \<Rightarrow> ('w, 'e, 'b) gom" where
  "seqE m n = bindE m (\<lambda>_. n)"

text \<open>The Go idiom \<open>if err := m(); err != nil { ... }\<close>: the error is a value of the program.\<close>

definition tryE :: "('w, 'e, 'a) gom \<Rightarrow> ('w, 'f, 'e + 'a) gom" where
  "tryE m = (\<lambda>w. case m w of (r, w') \<Rightarrow> (Inr r, w'))"

definition getE :: "('w \<Rightarrow> 'a) \<Rightarrow> ('w, 'e, 'a) gom" where
  "getE f = (\<lambda>w. (Inr (f w), w))"

definition modE :: "('w \<Rightarrow> 'w) \<Rightarrow> ('w, 'e, unit) gom" where
  "modE f = (\<lambda>w. (Inr (), f w))"

definition liftE :: "'e + 'a \<Rightarrow> ('w, 'e, 'a) gom" where
  "liftE r = (\<lambda>w. (r, w))"

definition guardE :: "bool \<Rightarrow> 'e \<Rightarrow> ('w, 'e, unit) gom" where
  "guardE b e = (if b then throwE e else retE ())"

fun eachE :: "('x \<Rightarrow> ('w, 'e, unit) gom) \<Rightarrow> 'x list \<Rightarrow> ('w, 'e, unit) gom" where
  "eachE f [] = retE ()"
| "eachE f (x # xs) = seqE (f x) (eachE f xs)"

fun mapE :: "('x \<Rightarrow> ('w, 'e, 'y) gom) \<Rightarrow> 'x list \<Rightarrow> ('w, 'e, 'y list) gom" where
  "mapE f [] = retE []"
| "mapE f (x # xs) = bindE (f x) (\<lambda>y. bindE (mapE f xs) (\<lambda>ys. retE (y # ys)))"

text \<open>A loop that carries local variables from one round to the next.\<close>

fun foldE :: "('s \<Rightarrow> 'x \<Rightarrow> ('w, 'e, 's) gom) \<Rightarrow> 's \<Rightarrow> 'x list \<Rightarrow> ('w, 'e, 's) gom" where
  "foldE f s [] = retE s"
| "foldE f s (x # xs) = bindE (f s x) (\<lambda>s'. foldE f s' xs)"

lemmas gom_defs = retE_def throwE_def bindE_def seqE_def tryE_def getE_def modE_def liftE_def guardE_def

lemma bindE_run [simp]:
  "bindE (retE a) f = f a"
  "bindE (throwE e) f = throwE e"
  "seqE (retE a) n = n"
  "seqE (throwE e) n = throwE e"
  by (simp_all add: gom_defs fun_eq_iff)

lemma retE_run [simp]: "retE a w = (Inr a, w)"
  and throwE_run [simp]: "throwE e w = (Inl e, w)"
  and getE_run [simp]: "getE g w = (Inr (g w), w)"
  and modE_run [simp]: "modE h w = (Inr (), h w)"
  and liftE_run [simp]: "liftE r w = (r, w)"
  by (simp_all add: gom_defs)

lemma guardE_simps [simp]:
  "b \<Longrightarrow> guardE b e = throwE e"
  "\<not> b \<Longrightarrow> guardE b e = retE ()"
  by (simp_all add: guardE_def)

lemma bindE_Inr: "m w = (Inr a, w') \<Longrightarrow> bindE m f w = f a w'"
  and bindE_Inl: "m w = (Inl e, w') \<Longrightarrow> bindE m f w = (Inl e, w')"
  and seqE_Inr: "m w = (Inr a, w') \<Longrightarrow> seqE m n w = n w'"
  and seqE_Inl: "m w = (Inl e, w') \<Longrightarrow> seqE m n w = (Inl e, w')"
  by (simp_all add: gom_defs)

lemma bindE_get [simp]: "bindE (getE g) f w = f (g w) w"
  and bindE_mod [simp]: "seqE (modE h) n w = n (h w)"
  and bindE_lift [simp]: "bindE (liftE (Inr a)) f = f a" "bindE (liftE (Inl e)) f = throwE e"
  and bindE_try: "bindE (tryE m) f w = (case m w of (r, w') \<Rightarrow> f r w')"
  by (auto simp: gom_defs fun_eq_iff split: prod.splits)

lemma bindE_assoc: "bindE (bindE m f) g = bindE m (\<lambda>a. bindE (f a) g)"
  by (auto simp: gom_defs fun_eq_iff split: prod.splits sum.splits)

lemma bindE_InrE:
  assumes "bindE m f w = (Inr b, w'')"
  obtains a w' where "m w = (Inr a, w')" "f a w' = (Inr b, w'')"
  using assms by (auto simp: bindE_def split: prod.splits sum.splits)

lemma seqE_InrE:
  assumes "seqE m n w = (Inr b, w'')"
  obtains a w' where "m w = (Inr a, w')" "n w' = (Inr b, w'')"
  using assms by (auto simp: seqE_def elim: bindE_InrE)

lemma guardE_InrE:
  assumes "guardE c e w = (Inr u, w')"
  obtains "\<not> c" "w' = w"
  using assms by (auto simp: guardE_def split: if_splits)

lemma liftE_InrE:
  assumes "liftE r w = (Inr u, w')"
  obtains "r = Inr u" "w' = w"
  using assms by simp

lemma pair_InrE:
  assumes "(case v of (x, y) \<Rightarrow> f x y) w = (Inr u, w')"
  obtains x y where "v = (x, y)" "f x y w = (Inr u, w')"
  using assms by (cases v) simp

lemma tryE_InrE:
  assumes "tryE m w = (Inr r, w')"
  obtains "m w = (r, w')"
  using assms by (auto simp: tryE_def split: prod.splits)

text \<open>Reading the run of a concrete computation off its evaluation.\<close>

lemma run_fst: "fst m = Inr a \<Longrightarrow> \<exists>w'. m = (Inr a, w')"
  by (cases m) simp

lemma run_fstE:
  assumes "fst m = Inr a" obtains w' where "m = (Inr a, w')"
  using assms by (cases m) simp

lemma run_fst_Inl:
  assumes "fst m = Inl e" obtains w' where "m = (Inl e, w')"
  using assms by (cases m) simp

lemma run_case: "(case m of (Inr a, w') \<Rightarrow> P a w' | _ \<Rightarrow> False) \<Longrightarrow> \<exists>a w'. m = (Inr a, w') \<and> P a w'"
  by (auto split: prod.splits sum.splits)

section \<open>Invariants and postconditions\<close>

text \<open>
  \<open>triple P m Q E\<close>: run from a world with \<open>P\<close>, the computation ends in a world with
  \<open>Q a\<close> when it returns \<open>a\<close> and in one with \<open>E e\<close> when it returns the error \<open>e\<close>.
  \<open>keeps I m\<close> is the special case of one predicate kept on both exits.
\<close>

definition triple ::
  "('w \<Rightarrow> bool) \<Rightarrow> ('w, 'e, 'a) gom \<Rightarrow> ('a \<Rightarrow> 'w \<Rightarrow> bool) \<Rightarrow> ('e \<Rightarrow> 'w \<Rightarrow> bool) \<Rightarrow> bool" where
  "triple P m Q E \<longleftrightarrow>
     (\<forall>w. P w \<longrightarrow> (case m w of (Inr a, w') \<Rightarrow> Q a w' | (Inl e, w') \<Rightarrow> E e w'))"

definition keeps :: "('w \<Rightarrow> bool) \<Rightarrow> ('w, 'e, 'a) gom \<Rightarrow> bool" where
  "keeps I m \<longleftrightarrow> (\<forall>w. I w \<longrightarrow> I (snd (m w)))"

named_theorems keeps_rules

lemma keepsD: "keeps I m \<Longrightarrow> I w \<Longrightarrow> m w = (r, w') \<Longrightarrow> I w'"
  by (force simp: keeps_def)

lemma keeps_snd: "keeps I m \<Longrightarrow> I w \<Longrightarrow> I (snd (m w))"
  by (simp add: keeps_def)

lemma keepsI: "(\<And>w r w'. I w \<Longrightarrow> m w = (r, w') \<Longrightarrow> I w') \<Longrightarrow> keeps I m"
  unfolding keeps_def by (metis prod.collapse)

lemma keeps_ret [keeps_rules]: "keeps I (retE a)"
  and keeps_throw [keeps_rules]: "keeps I (throwE e)"
  and keeps_get [keeps_rules]: "keeps I (getE g)"
  and keeps_lift [keeps_rules]: "keeps I (liftE r)"
  and keeps_guard [keeps_rules]: "keeps I (guardE b e)"
  by (auto simp: keeps_def guardE_def)

lemma keeps_mod: "(\<And>w. I w \<Longrightarrow> I (h w)) \<Longrightarrow> keeps I (modE h)"
  by (simp add: keeps_def)

lemma keeps_bind [keeps_rules]:
  assumes "keeps I m" "\<And>a. keeps I (f a)"
  shows "keeps I (bindE m f)"
  using assms by (fastforce simp: keeps_def bindE_def split: prod.splits sum.splits)

lemma keeps_seq [keeps_rules]: "keeps I m \<Longrightarrow> keeps I n \<Longrightarrow> keeps I (seqE m n)"
  by (simp add: seqE_def keeps_bind)

lemma keeps_try [keeps_rules]: "keeps I m \<Longrightarrow> keeps I (tryE m)"
  by (auto simp: keeps_def tryE_def split: prod.splits)

lemma keeps_if [keeps_rules]:
  "(b \<Longrightarrow> keeps I m) \<Longrightarrow> (\<not> b \<Longrightarrow> keeps I n) \<Longrightarrow> keeps I (if b then m else n)"
  by simp

lemma keeps_option [keeps_rules]:
  "keeps I m \<Longrightarrow> (\<And>x. keeps I (f x)) \<Longrightarrow> keeps I (case v of None \<Rightarrow> m | Some x \<Rightarrow> f x)"
  by (cases v) simp_all

lemma keeps_sum [keeps_rules]:
  "(\<And>e. keeps I (g e)) \<Longrightarrow> (\<And>x. keeps I (f x)) \<Longrightarrow>
   keeps I (case v of Inl e \<Rightarrow> g e | Inr x \<Rightarrow> f x)"
  by (cases v) simp_all

lemma keeps_prod [keeps_rules]: "(\<And>x y. keeps I (f x y)) \<Longrightarrow> keeps I (case v of (x, y) \<Rightarrow> f x y)"
  by (cases v) simp

lemma keeps_let [keeps_rules]: "keeps I (f v) \<Longrightarrow> keeps I (let x = v in f x)"
  by simp

lemma keeps_each [keeps_rules]: "(\<And>x. keeps I (f x)) \<Longrightarrow> keeps I (eachE f xs)"
  by (induction xs) (auto intro: keeps_rules)

lemma keeps_map [keeps_rules]: "(\<And>x. keeps I (f x)) \<Longrightarrow> keeps I (mapE f xs)"
  by (induction xs) (auto intro: keeps_rules)

lemma keeps_fold [keeps_rules]: "(\<And>s x. keeps I (f s x)) \<Longrightarrow> keeps I (foldE f s xs)"
  by (induction xs arbitrary: s) (auto intro: keeps_rules)

text \<open>A loop invariant over the local variables, the elements done so far and the world.\<close>

lemma foldE_inv:
  assumes "foldE f s xs w = (Inr s', w')" and "J [] s w"
    and "\<And>done s x w s1 w1. J done s w \<Longrightarrow> x \<in> set xs \<Longrightarrow> f s x w = (Inr s1, w1) \<Longrightarrow> J (done @ [x]) s1 w1"
  shows "J xs s' w'"
proof -
  have "J (d @ ys) s' w'"
    if "foldE f s ys w = (Inr s', w')" "J d s w" "set ys \<subseteq> set xs" for d ys s w
    using that
  proof (induction ys arbitrary: d s w)
    case (Cons y ys)
    then obtain s1 w1 where 1: "f s y w = (Inr s1, w1)" "foldE f s1 ys w1 = (Inr s', w')"
      by (auto elim: bindE_InrE)
    then have "J (d @ [y]) s1 w1" using assms(3) Cons.prems by simp
    from Cons.IH [OF 1(2) this] Cons.prems show ?case by simp
  qed simp
  from this [OF assms(1) assms(2)] show ?thesis by simp
qed

lemma keeps_triple: "triple I m (\<lambda>_. I) (\<lambda>_. I) \<longleftrightarrow> keeps I m"
  unfolding triple_def keeps_def by (metis (no_types, lifting) prod.case_eq_if sum.case_eq_if)

text \<open>The predicate transformer rules used where the result matters as well as the state.\<close>

lemma triple_bind:
  assumes "triple P m R E" "\<And>a. triple (R a) (f a) Q E"
  shows "triple P (bindE m f) Q E"
  using assms
  by (auto simp: triple_def bindE_def split: prod.splits sum.splits) fastforce+

lemma triple_conseq:
  assumes "triple P m Q E" "\<And>w. P' w \<Longrightarrow> P w" "\<And>a w. Q a w \<Longrightarrow> Q' a w" "\<And>e w. E e w \<Longrightarrow> E' e w"
  shows "triple P' m Q' E'"
  using assms by (fastforce simp: triple_def split: prod.splits sum.splits)

lemma tripleD:
  "triple P m Q E \<Longrightarrow> P w \<Longrightarrow> m w = (Inr a, w') \<Longrightarrow> Q a w'"
  "triple P m Q E \<Longrightarrow> P w \<Longrightarrow> m w = (Inl e, w') \<Longrightarrow> E e w'"
  by (fastforce simp: triple_def)+

section \<open>Errors\<close>

text \<open>\<open>throws K m\<close>: every error \<open>m\<close> returns satisfies \<open>K\<close>.\<close>

definition throws :: "('e \<Rightarrow> bool) \<Rightarrow> ('w, 'e, 'a) gom \<Rightarrow> bool" where
  "throws K m \<longleftrightarrow> (\<forall>w e w'. m w = (Inl e, w') \<longrightarrow> K e)"

named_theorems throws_rules

lemma throwsD: "throws K m \<Longrightarrow> m w = (Inl e, w') \<Longrightarrow> K e"
  by (auto simp: throws_def)

lemma throws_bind [throws_rules]:
  assumes "throws K m" "\<And>a. throws K (f a)"
  shows "throws K (bindE m f)"
  using assms unfolding throws_def bindE_def by (auto split: prod.splits sum.splits)

lemma throws_seq [throws_rules]: "throws K m \<Longrightarrow> throws K n \<Longrightarrow> throws K (seqE m n)"
  by (simp add: seqE_def throws_bind)

lemma throws_base [throws_rules]:
  "throws K (retE a)"
  "throws K (tryE m)"
  "throws K (getE g)"
  "throws K (modE h)"
  "K e \<Longrightarrow> throws K (throwE e)"
  "K e \<Longrightarrow> throws K (guardE b e)"
  "(\<And>e. r = Inl e \<Longrightarrow> K e) \<Longrightarrow> throws K (liftE r)"
  by (auto simp: throws_def gom_defs split: prod.splits)

lemma throws_if [throws_rules]: "(b \<Longrightarrow> throws K m) \<Longrightarrow> (\<not> b \<Longrightarrow> throws K n) \<Longrightarrow> throws K (if b then m else n)"
  by simp

lemma throws_option [throws_rules]:
  "throws K m \<Longrightarrow> (\<And>x. throws K (f x)) \<Longrightarrow> throws K (case v of None \<Rightarrow> m | Some x \<Rightarrow> f x)"
  by (cases v) simp_all

lemma throws_sum [throws_rules]:
  "(\<And>e. throws K (g e)) \<Longrightarrow> (\<And>x. throws K (f x)) \<Longrightarrow> throws K (case v of Inl e \<Rightarrow> g e | Inr x \<Rightarrow> f x)"
  by (cases v) simp_all

text \<open>An error of the whole comes from the first part, with the world it left, or from the rest.\<close>

lemma bindE_InlE:
  assumes "bindE m f w = (Inl e, w'')"
  obtains "m w = (Inl e, w'')" | a w' where "m w = (Inr a, w')" "f a w' = (Inl e, w'')"
  using assms by (auto simp: bindE_def split: prod.splits sum.splits)

lemma seqE_InlE:
  assumes "seqE m n w = (Inl e, w'')"
  obtains "m w = (Inl e, w'')" | a w' where "m w = (Inr a, w')" "n w' = (Inl e, w'')"
  using assms by (auto simp: seqE_def elim: bindE_InlE)

section \<open>Frames\<close>

text \<open>\<open>frame g m\<close>: the computation does not change what \<open>g\<close> reads of the world.\<close>

definition frame :: "('w \<Rightarrow> 'b) \<Rightarrow> ('w, 'e, 'a) gom \<Rightarrow> bool" where
  "frame g m \<longleftrightarrow> (\<forall>w. g (snd (m w)) = g w)"

lemma frame_keeps: "frame g m \<longleftrightarrow> (\<forall>v. keeps (\<lambda>w. g w = v) m)"
  by (auto simp: frame_def keeps_def)

lemma frameD: "frame g m \<Longrightarrow> m w = (r, w') \<Longrightarrow> g w' = g w"
  unfolding frame_def by (metis snd_conv)

lemma keeps_frame: "frame g m \<Longrightarrow> keeps (\<lambda>w. P (g w)) m"
  by (simp add: frame_def keeps_def)

section \<open>Go integers\<close>

text \<open>
  A Go \<open>int64\<close> (and \<open>int\<close>, 64 bits on every supported platform) is an \<open>int\<close>
  together with the wrap-around of each addition and multiplication. Division truncates
  towards zero; a division by zero panics, which \<open>go_div\<close> shows as \<open>None\<close>.
\<close>

definition wrap64 :: "int \<Rightarrow> int" where
  "wrap64 x = (x + 2 ^ 63) mod 2 ^ 64 - 2 ^ 63"

definition in64 :: "int \<Rightarrow> bool" where
  "in64 x \<longleftrightarrow> - (2 ^ 63) \<le> x \<and> x < 2 ^ 63"

definition go_div :: "int \<Rightarrow> int \<Rightarrow> int option" where
  "go_div a b = (if b = 0 then None else Some (wrap64 (sgn a * sgn b * (\<bar>a\<bar> div \<bar>b\<bar>))))"

lemma wrap64_id [simp]: "in64 x \<Longrightarrow> wrap64 x = x"
  by (simp add: wrap64_def in64_def)

lemma in64_wrap64 [simp]: "in64 (wrap64 x)"
proof -
  have "0 \<le> (x + 2 ^ 63) mod 2 ^ 64" "(x + 2 ^ 63) mod 2 ^ 64 < (2 :: int) ^ 64"
    by simp_all
  then show ?thesis by (simp add: wrap64_def in64_def)
qed

lemma in64_between: "in64 a \<Longrightarrow> in64 b \<Longrightarrow> a \<le> x \<Longrightarrow> x \<le> b \<Longrightarrow> in64 x"
  by (simp add: in64_def)

lemma wrap64_add_wrap [simp]: "wrap64 (wrap64 x + y) = wrap64 (x + y)"
  by (simp add: wrap64_def algebra_simps mod_simps)

lemma go_div_nonneg:
  assumes "0 \<le> a" "0 < b" "in64 a"
  shows "go_div a b = Some (a div b)"
proof -
  have "0 \<le> a div b" "a div b \<le> a"
    using assms zdiv_mono2 [of a 1 b] by (simp_all add: pos_imp_zdiv_nonneg_iff)
  then have "in64 (a div b)"
    using assms(3) by (simp add: in64_def)
  then show ?thesis
    using assms by (cases "a = 0") (simp_all add: go_div_def sgn_if)
qed

section \<open>Maps and lists\<close>

text \<open>Go's \<open>for k := range m { if p(k, v) { delete(m, k) } }\<close>.\<close>

definition prune :: "('k \<Rightarrow> 'v \<Rightarrow> bool) \<Rightarrow> ('k \<rightharpoonup> 'v) \<Rightarrow> ('k \<rightharpoonup> 'v)" where
  "prune p m = (\<lambda>k. case m k of None \<Rightarrow> None | Some v \<Rightarrow> if p k v then None else Some v)"

lemma prune_Some [simp]: "prune p m k = Some v \<longleftrightarrow> m k = Some v \<and> \<not> p k v"
  by (auto simp: prune_def split: option.splits)

lemma prune_None: "prune p m k = None \<longleftrightarrow> (\<forall>v. m k = Some v \<longrightarrow> p k v)"
  by (auto simp: prune_def split: option.splits)

lemma dom_prune_subset: "dom (prune p m) \<subseteq> dom m"
  by (auto simp: dom_def)

text \<open>The loop that returns the first element with a property.\<close>

fun find_first :: "('a \<Rightarrow> bool) \<Rightarrow> 'a list \<Rightarrow> 'a option" where
  "find_first p [] = None"
| "find_first p (x # xs) = (if p x then Some x else find_first p xs)"

lemma find_first_SomeD: "find_first p xs = Some x \<Longrightarrow> x \<in> set xs \<and> p x"
  by (induction xs) (auto split: if_splits)

lemma find_first_None: "find_first p xs = None \<longleftrightarrow> (\<forall>x \<in> set xs. \<not> p x)"
  by (induction xs) auto

lemma find_first_mono_map:
  "(\<And>x. x \<in> set xs \<Longrightarrow> p (f x) = p x) \<Longrightarrow> find_first p (map f xs) = map_option f (find_first p xs)"
  by (induction xs) auto

end
