(* ===== verification/GoLib.thy ===== *)
theory GoLib
  imports Prelude "HOL-Library.Sublist" "HOL-Library.Char_ord" "HOL-Library.List_Lexorder"
begin

text \<open>
  The part of Go's standard library the program computes with, on byte strings: package
  \<open>strings\<close>, the decimal, hexadecimal and unpadded URL base64 codecs, and instants of time.
  A Go string is a sequence of bytes, so it is an Isabelle \<open>string\<close> (a \<open>char\<close> is a byte)
  and \<open>length\<close> is Go's \<open>len\<close>.

  The Unicode case tables are not written out: \<open>to_lower\<close> takes the function that Go
  applies to a string with a byte above 127 as an argument, and computes the ASCII case.
\<close>

section \<open>Package strings\<close>

definition has_prefix :: "string \<Rightarrow> string \<Rightarrow> bool" where
  "has_prefix s p = prefix p s"

definition has_suffix :: "string \<Rightarrow> string \<Rightarrow> bool" where
  "has_suffix s p = suffix p s"

definition trim_prefix :: "string \<Rightarrow> string \<Rightarrow> string" where
  "trim_prefix s p = (if prefix p s then drop (length p) s else s)"

definition trim_suffix :: "string \<Rightarrow> string \<Rightarrow> string" where
  "trim_suffix s p = (if suffix p s then take (length s - length p) s else s)"

fun str_contains :: "string \<Rightarrow> string \<Rightarrow> bool" where
  "str_contains [] sub = (sub = [])"
| "str_contains (c # s) sub = (prefix sub (c # s) \<or> str_contains s sub)"

text \<open>\<open>strings.Split\<close> at a one-byte separator and \<open>strings.Join\<close> with it.\<close>

fun split_on :: "char \<Rightarrow> string \<Rightarrow> string list" where
  "split_on c [] = [[]]"
| "split_on c (x # xs) =
     (if x = c then [] # split_on c xs
      else (case split_on c xs of [] \<Rightarrow> [[x]] | y # ys \<Rightarrow> (x # y) # ys))"

fun join_with :: "string \<Rightarrow> string list \<Rightarrow> string" where
  "join_with sep [] = []"
| "join_with sep [x] = x"
| "join_with sep (x # y # zs) = x @ sep @ join_with sep (y # zs)"

text \<open>\<open>strings.Cut\<close> at a one-byte separator.\<close>

fun cut :: "char \<Rightarrow> string \<Rightarrow> (string \<times> string) option" where
  "cut c [] = None"
| "cut c (x # xs) =
     (if x = c then Some ([], xs) else map_option (\<lambda>(a, b). (x # a, b)) (cut c xs))"

lemma split_on_nonempty [simp]: "split_on c s \<noteq> []"
  by (cases s) (auto split: list.splits)

lemma join_split [simp]: "join_with [c] (split_on c s) = s"
proof (induction s)
  case (Cons x xs)
  show ?case
    by (cases "split_on c xs") (use Cons in \<open>auto split: list.splits\<close>,
        (metis join_with.simps list.exhaust append_Cons)+)
qed simp

lemma split_on_parts: "p \<in> set (split_on c s) \<Longrightarrow> c \<notin> set p"
  by (induction s arbitrary: p) (auto split: list.splits if_splits)

lemma split_on_append:
  "c \<notin> set p \<Longrightarrow> split_on c (p @ c # s) = p # split_on c s"
  by (induction p) auto

lemma split_on_concat: "split_on c (p @ c # s) = split_on c p @ split_on c s"
  by (induction p) (auto split: list.splits)

lemma split_on_single: "c \<notin> set p \<Longrightarrow> split_on c p = [p]"
  by (induction p) auto

lemma split_join:
  "ps \<noteq> [] \<Longrightarrow> (\<And>p. p \<in> set ps \<Longrightarrow> c \<notin> set p) \<Longrightarrow> split_on c (join_with [c] ps) = ps"
  by (induction "[c]" ps rule: join_with.induct) (auto simp: split_on_single split_on_append)

lemma join_with_Cons: "ps \<noteq> [] \<Longrightarrow> join_with sep (p # ps) = p @ sep @ join_with sep ps"
  by (cases ps) simp_all

lemma join_with_append:
  "ps \<noteq> [] \<Longrightarrow> qs \<noteq> [] \<Longrightarrow> join_with sep (ps @ qs) = join_with sep ps @ sep @ join_with sep qs"
  by (induction sep ps rule: join_with.induct) (auto simp: join_with_Cons)

subsection \<open>TrimSpace\<close>

text \<open>
  The UTF-8 encodings of the code points with the property White\_Space, which is what
  \<open>unicode.IsSpace\<close> tests. No encoding is a proper part of another character's, so
  stripping byte sequences is stripping characters.
\<close>

definition space_seqs :: "string list" where
  "space_seqs =
     [[CHR 0x09], [CHR 0x0A], [CHR 0x0B], [CHR 0x0C], [CHR 0x0D], [CHR 0x20],
      [CHR 0xC2, CHR 0x85], [CHR 0xC2, CHR 0xA0], [CHR 0xE1, CHR 0x9A, CHR 0x80],
      [CHR 0xE2, CHR 0x80, CHR 0xA8], [CHR 0xE2, CHR 0x80, CHR 0xA9], [CHR 0xE2, CHR 0x80, CHR 0xAF],
      [CHR 0xE2, CHR 0x81, CHR 0x9F], [CHR 0xE3, CHR 0x80, CHR 0x80], [CHR 0xE2, CHR 0x80, CHR 0x80],
      [CHR 0xE2, CHR 0x80, CHR 0x81], [CHR 0xE2, CHR 0x80, CHR 0x82], [CHR 0xE2, CHR 0x80, CHR 0x83],
      [CHR 0xE2, CHR 0x80, CHR 0x84], [CHR 0xE2, CHR 0x80, CHR 0x85], [CHR 0xE2, CHR 0x80, CHR 0x86],
      [CHR 0xE2, CHR 0x80, CHR 0x87], [CHR 0xE2, CHR 0x80, CHR 0x88], [CHR 0xE2, CHR 0x80, CHR 0x89],
      [CHR 0xE2, CHR 0x80, CHR 0x8A]]"

lemma space_seqs_nonempty: "p \<in> set space_seqs \<Longrightarrow> p \<noteq> []"
  by (auto simp: space_seqs_def)

function strip_seqs :: "string list \<Rightarrow> string \<Rightarrow> string" where
  "strip_seqs ps s =
     (case find_first (\<lambda>p. p \<noteq> [] \<and> prefix p s) ps of
        None \<Rightarrow> s
      | Some p \<Rightarrow> strip_seqs ps (drop (length p) s))"
  by pat_completeness auto
termination
  by (relation "measure (\<lambda>(ps, s). length s)")
     (auto dest!: find_first_SomeD simp: prefix_def)

declare strip_seqs.simps [simp del]

definition trim_left :: "string \<Rightarrow> string" where
  "trim_left s = strip_seqs space_seqs s"

definition trim_right :: "string \<Rightarrow> string" where
  "trim_right s = rev (strip_seqs (map rev space_seqs) (rev s))"

definition trim_space :: "string \<Rightarrow> string" where
  "trim_space s = trim_right (trim_left s)"

lemma strip_seqs_stable:
  "find_first (\<lambda>p. p \<noteq> [] \<and> prefix p (strip_seqs ps s)) ps = None"
proof (induction ps s rule: strip_seqs.induct)
  case (1 ps s)
  then show ?case
    by (cases "find_first (\<lambda>p. p \<noteq> [] \<and> prefix p s) ps") (simp_all add: strip_seqs.simps [of ps s])
qed

lemma strip_seqs_fixed:
  "find_first (\<lambda>p. p \<noteq> [] \<and> prefix p s) ps = None \<Longrightarrow> strip_seqs ps s = s"
  by (simp add: strip_seqs.simps)

lemma strip_seqs_suffix: "suffix (strip_seqs ps s) s"
proof (induction ps s rule: strip_seqs.induct)
  case (1 ps s)
  then show ?case
    by (cases "find_first (\<lambda>p. p \<noteq> [] \<and> prefix p s) ps")
       (auto simp: strip_seqs.simps [of ps s] intro: suffix_order.trans suffix_drop)
qed

lemma trim_right_prefix: "prefix (trim_right s) s"
  using strip_seqs_suffix [of "map rev space_seqs" "rev s"]
  by (simp add: trim_right_def suffix_to_prefix)

lemma length_trim_space: "length (trim_space s) \<le> length s"
proof -
  have "length (trim_left s) \<le> length s"
    unfolding trim_left_def by (rule suffix_length_le [OF strip_seqs_suffix])
  then show ?thesis
    unfolding trim_space_def
    using prefix_length_le [OF trim_right_prefix [of "trim_left s"]] by simp
qed

lemma trim_space_idem [simp]: "trim_space (trim_space s) = trim_space s"
proof -
  let ?l = "trim_left s"
  have "find_first (\<lambda>p. p \<noteq> [] \<and> prefix p ?l) space_seqs = None"
    unfolding trim_left_def by (rule strip_seqs_stable)
  then have "find_first (\<lambda>p. p \<noteq> [] \<and> prefix p (trim_right ?l)) space_seqs = None"
    using prefix_order.trans [OF _ trim_right_prefix [of ?l]] unfolding find_first_None by blast
  then have "trim_left (trim_right ?l) = trim_right ?l"
    unfolding trim_left_def by (rule strip_seqs_fixed)
  moreover have "trim_right (trim_right ?l) = trim_right ?l"
    unfolding trim_right_def by (simp add: strip_seqs_fixed strip_seqs_stable)
  ultimately show ?thesis by (simp add: trim_space_def)
qed

lemma trim_space_Nil [simp]: "trim_space [] = []"
  using length_trim_space [of "[]"] by simp

subsection \<open>Case\<close>

definition is_ascii :: "string \<Rightarrow> bool" where
  "is_ascii s = list_all (\<lambda>c. of_char c < (128 :: nat)) s"

definition lower_ascii :: "char \<Rightarrow> char" where
  "lower_ascii c =
     (let n = of_char c :: nat in if 65 \<le> n \<and> n \<le> 90 then char_of (n + 32) else c)"

definition upper_ascii :: "char \<Rightarrow> char" where
  "upper_ascii c =
     (let n = of_char c :: nat in if 97 \<le> n \<and> n \<le> 122 then char_of (n - 32) else c)"

definition to_lower :: "(string \<Rightarrow> string) \<Rightarrow> string \<Rightarrow> string" where
  "to_lower unicode_lower s = (if is_ascii s then map lower_ascii s else unicode_lower s)"

section \<open>Numbers\<close>

definition is_digit :: "char \<Rightarrow> bool" where
  "is_digit c \<longleftrightarrow> (let n = of_char c :: nat in 48 \<le> n \<and> n \<le> 57)"

definition digit_val :: "char \<Rightarrow> int" where
  "digit_val c = int (of_char c) - 48"

definition digits_val :: "string \<Rightarrow> int" where
  "digits_val ds = foldl (\<lambda>n d. 10 * n + digit_val d) 0 ds"

text \<open>\<open>strconv.ParseInt(s, 10, 64)\<close>; \<open>None\<close> is a non-nil error.\<close>

definition parse_int :: "string \<Rightarrow> int option" where
  "parse_int s =
     (let (neg, ds) = (case s of [] \<Rightarrow> (False, [])
                       | c # cs \<Rightarrow> if c = CHR ''+'' then (False, cs)
                                   else if c = CHR ''-'' then (True, cs) else (False, s));
          v = (if neg then - digits_val ds else digits_val ds)
      in if ds \<noteq> [] \<and> list_all is_digit ds \<and> in64 v then Some v else None)"

fun nat_dec :: "nat \<Rightarrow> string" where
  "nat_dec n = (if n < 10 then [char_of (48 + n)] else nat_dec (n div 10) @ [char_of (48 + n mod 10)])"

declare nat_dec.simps [simp del]

definition int_dec :: "int \<Rightarrow> string" where
  "int_dec i = (if i < 0 then CHR ''-'' # nat_dec (nat (- i)) else nat_dec (nat i))"

lemma is_digit_char_of: "n < 10 \<Longrightarrow> is_digit (char_of (48 + n :: nat))"
  by (simp add: is_digit_def Let_def)

lemma nat_dec_digits: "list_all is_digit (nat_dec n)"
proof (induction n rule: nat_dec.induct)
  case (1 n)
  then show ?case by (subst nat_dec.simps) (auto simp: is_digit_char_of)
qed

lemma nat_dec_nonempty: "nat_dec n \<noteq> []"
  by (subst nat_dec.simps) simp

lemma nat_dec_val: "digits_val (nat_dec n) = int n"
proof (induction n rule: nat_dec.induct)
  case (1 n)
  have d: "digit_val (char_of (48 + m :: nat)) = int m" if "m < 10" for m
    using that by (simp add: digit_val_def)
  show ?case
  proof (cases "n < 10")
    case True
    then show ?thesis by (subst nat_dec.simps) (simp add: digits_val_def d)
  next
    case False
    with 1 show ?thesis
      by (subst nat_dec.simps) (simp add: digits_val_def d zdiv_int zmod_int)
  qed
qed

text \<open>Printing a number and parsing it back.\<close>

lemma parse_int_dec: "in64 i \<Longrightarrow> parse_int (int_dec i) = Some i"
proof -
  assume i: "in64 i"
  have ne: "nat_dec n = c # cs \<Longrightarrow> c \<noteq> CHR ''+'' \<and> c \<noteq> CHR ''-''" for n c cs
    using nat_dec_digits [of n] by (auto simp: is_digit_def)
  show ?thesis
  proof (cases "i < 0")
    case True
    then show ?thesis
      using i by (simp add: parse_int_def int_dec_def nat_dec_val nat_dec_digits nat_dec_nonempty)
  next
    case False
    obtain c cs where c: "nat_dec (nat i) = c # cs"
      using nat_dec_nonempty by (cases "nat_dec (nat i)") auto
    then have "digits_val (c # cs) = i" "list_all is_digit (c # cs)"
      using nat_dec_val [of "nat i"] nat_dec_digits [of "nat i"] False by auto
    then show ?thesis
      using i False ne [OF c] by (simp add: parse_int_def int_dec_def c)
  qed
qed

section \<open>Hexadecimal\<close>

definition hex_digit :: "nat \<Rightarrow> char" where
  "hex_digit n = (if n < 10 then char_of (48 + n) else char_of (87 + n))"

definition hex_encode :: "string \<Rightarrow> string" where
  "hex_encode bs = concat (map (\<lambda>b. [hex_digit (of_char b div 16), hex_digit (of_char b mod 16)]) bs)"

definition hex_val :: "char \<Rightarrow> nat option" where
  "hex_val c = (let n = of_char c :: nat in
     if 48 \<le> n \<and> n \<le> 57 then Some (n - 48)
     else if 97 \<le> n \<and> n \<le> 102 then Some (n - 87)
     else if 65 \<le> n \<and> n \<le> 70 then Some (n - 55) else None)"

text \<open>\<open>hex.DecodeString\<close>: \<open>None\<close> is an odd length or a byte that is no digit.\<close>

fun hex_decode :: "string \<Rightarrow> string option" where
  "hex_decode [] = Some []"
| "hex_decode [_] = None"
| "hex_decode (a # b # cs) =
     (case (hex_val a, hex_val b, hex_decode cs) of
        (Some x, Some y, Some ds) \<Rightarrow> Some (char_of (16 * x + y) # ds)
      | _ \<Rightarrow> None)"

lemma hex_val_digit: "n < 16 \<Longrightarrow> hex_val (hex_digit n) = Some n"
  by (auto simp: hex_val_def hex_digit_def Let_def)

lemma length_hex_encode [simp]: "length (hex_encode bs) = 2 * length bs"
  by (induction bs) (simp_all add: hex_encode_def)

lemma of_char_lt: "(of_char c :: nat) < 256"
  by (rule nat_of_char_less_256)

lemma hex_roundtrip: "hex_decode (hex_encode bs) = Some bs"
proof (induction bs)
  case (Cons b bs)
  have "(of_char b :: nat) div 16 < 16" using of_char_lt [of b] by linarith
  with Cons show ?case by (simp add: hex_encode_def hex_val_digit)
qed (simp add: hex_encode_def)

section \<open>Unpadded URL base64\<close>

text \<open>
  \<open>base64.RawURLEncoding\<close>. The decoder skips carriage returns and line feeds and ignores the
  unused low bits of the last character, as Go's does outside its strict mode.
\<close>

definition b64_char :: "nat \<Rightarrow> char" where
  "b64_char n = (if n < 26 then char_of (65 + n) else if n < 52 then char_of (71 + n)
     else if n < 62 then char_of (n - 4) else if n = 62 then CHR ''-'' else CHR ''_'')"

definition b64_val :: "char \<Rightarrow> nat option" where
  "b64_val c = (let n = of_char c :: nat in
     if 65 \<le> n \<and> n \<le> 90 then Some (n - 65)
     else if 97 \<le> n \<and> n \<le> 122 then Some (n - 71)
     else if 48 \<le> n \<and> n \<le> 57 then Some (n + 4)
     else if n = 45 then Some 62 else if n = 95 then Some 63 else None)"

fun sextets :: "nat list \<Rightarrow> nat list" where
  "sextets [] = []"
| "sextets [a] = [a div 4, a mod 4 * 16]"
| "sextets [a, b] = [a div 4, a mod 4 * 16 + b div 16, b mod 16 * 4]"
| "sextets (a # b # c # r) =
     [a div 4, a mod 4 * 16 + b div 16, b mod 16 * 4 + c div 64, c mod 64] @ sextets r"

fun octets :: "nat list \<Rightarrow> nat list option" where
  "octets [] = Some []"
| "octets [p] = None"
| "octets [p, q] = Some [p * 4 + q div 16]"
| "octets [p, q, r] = Some [p * 4 + q div 16, q mod 16 * 16 + r div 4]"
| "octets (p # q # r # s # rest) =
     map_option ((@) [p * 4 + q div 16, q mod 16 * 16 + r div 4, r mod 4 * 64 + s]) (octets rest)"

definition b64_encode :: "string \<Rightarrow> string" where
  "b64_encode bs = map b64_char (sextets (map of_char bs))"

definition b64_decode :: "string \<Rightarrow> string option" where
  "b64_decode s =
     (let vs = map b64_val (filter (\<lambda>c. c \<noteq> CHR 0x0A \<and> c \<noteq> CHR 0x0D) s)
      in if list_all (\<lambda>v. v \<noteq> None) vs then map_option (map char_of) (octets (map the vs)) else None)"

lemma octets_sextets: "list_all (\<lambda>b. b < 256) bs \<Longrightarrow> octets (sextets bs) = Some bs"
proof (induction bs rule: sextets.induct)
  case (2 a)
  then show ?case by simp
next
  case (3 a b)
  then have "(a mod 4 * 16 + b div 16) div 16 = a mod 4" "(a mod 4 * 16 + b div 16) mod 16 = b div 16"
    by (auto simp: div_add1_eq mod_add_eq less_mult_imp_div_less)
  then show ?case by (simp add: mult.commute)
next
  case (4 a b c r)
  then have "(a mod 4 * 16 + b div 16) div 16 = a mod 4" "(a mod 4 * 16 + b div 16) mod 16 = b div 16"
    "(b mod 16 * 4 + c div 64) div 4 = b mod 16" "(b mod 16 * 4 + c div 64) mod 4 = c div 64"
    by (auto simp: less_mult_imp_div_less)
  with 4 show ?case by (simp add: mult.commute)
qed simp

lemma sextets_lt: "list_all (\<lambda>b. b < 256) bs \<Longrightarrow> x \<in> set (sextets bs) \<Longrightarrow> x < 64"
  by (induction bs rule: sextets.induct) (auto simp: less_mult_imp_div_less; linarith)+

lemma b64_val_char: "n < 64 \<Longrightarrow> b64_val (b64_char n) = Some n"
  by (auto simp: b64_val_def b64_char_def Let_def)

lemma b64_char_no_newline: "n < 64 \<Longrightarrow> b64_char n \<noteq> CHR 0x0A \<and> b64_char n \<noteq> CHR 0x0D"
  using b64_val_char [of n] by (auto simp: b64_val_def)

lemma b64_roundtrip: "b64_decode (b64_encode bs) = Some bs"
proof -
  let ?ns = "map of_char bs :: nat list"
  have all: "list_all (\<lambda>b. b < 256) ?ns"
    by (simp add: list_all_iff of_char_lt)
  have fil: "filter (\<lambda>c. c \<noteq> CHR 0x0A \<and> c \<noteq> CHR 0x0D) (b64_encode bs) = b64_encode bs"
    unfolding b64_encode_def filter_id_conv using sextets_lt [OF all] b64_char_no_newline by auto
  have vals: "map b64_val (b64_encode bs) = map Some (sextets ?ns)"
    unfolding b64_encode_def using sextets_lt [OF all] b64_val_char by auto
  have "map the (map b64_val (b64_encode bs)) = sextets ?ns"
    unfolding vals by (simp add: comp_def)
  then show ?thesis
    unfolding b64_decode_def Let_def fil
    by (simp add: vals list_all_iff octets_sextets [OF all] comp_def)
qed

section \<open>Instants of time\<close>

text \<open>
  A \<open>time.Time\<close> is its count of nanoseconds since the Unix epoch. The zero value is the
  first of January of year 1. A difference of two instants is a count of nanoseconds; Go
  saturates it at 292 years, far outside the timeouts it is compared with.
\<close>

type_synonym time = int

definition second :: int where
  "second = 1000000000"

definition minute :: int where
  "minute = 60 * second"

definition millisecond :: int where
  "millisecond = 1000000"

definition time_zero :: time where
  "time_zero = - 62135596800 * second"

definition unix :: "time \<Rightarrow> int" where
  "unix t = t div second"

definition unix_milli :: "time \<Rightarrow> int" where
  "unix_milli t = t div millisecond"

definition of_unix_milli :: "int \<Rightarrow> time" where
  "of_unix_milli ms = ms * millisecond"

text \<open>What an instant becomes after a trip through a millisecond column.\<close>

definition trunc_ms :: "time \<Rightarrow> time" where
  "trunc_ms t = of_unix_milli (unix_milli t)"

lemma unix_milli_of [simp]: "unix_milli (of_unix_milli ms) = ms"
  by (simp add: unix_milli_def of_unix_milli_def millisecond_def)

lemma trunc_ms_idem [simp]: "trunc_ms (trunc_ms t) = trunc_ms t"
  by (simp add: trunc_ms_def)

lemma trunc_ms_bounds: "trunc_ms t \<le> t" "t < trunc_ms t + millisecond"
  by (simp_all add: trunc_ms_def unix_milli_def of_unix_milli_def millisecond_def)

end
