(* ===== verification/Models.thy ===== *)
theory Models
  imports GoLib
begin

text \<open>
  The transport-neutral data of \<open>backend/internal/models\<close>: the discovered device, the
  transfer capabilities it advertises and the events of the discovery registry.
\<close>

record capabilities =
  capAvailableStorage :: int
  capProtocolVersion :: int
  capMaxChunkSize :: int
  capCompressionSupport :: bool
  capTransferSupport :: bool

text \<open>\<open>ConnectionUnset\<close> is the empty string, the zero value of the Go type.\<close>

datatype connection_state = ConnectionOnline | ConnectionOffline | ConnectionUnset

record device =
  dID :: string
  dName :: string
  dHostname :: string
  dType :: string
  dPlatform :: string
  dLocalIP :: string
  dPort :: int
  dAppVersion :: string
  dLastSeen :: time
  dOnline :: bool
  dConnectionState :: connection_state
  dAvailableStorage :: int
  dTransferCapability :: bool
  dSupportedProtocolVersion :: int
  dMaximumChunkSize :: int
  dCompressionSupport :: bool
  dIdentityHint :: string
  dPairingAvailable :: bool

datatype discovery_event_type =
  EventDeviceDiscovered | EventDeviceUpdated | EventDeviceOffline | EventDeviceRemoved

record discovery_event =
  deType :: discovery_event_type
  deDevice :: device
  deTimestamp :: time

end
