(* ===== verification/TransferModels.thy ===== *)
theory TransferModels
  imports Models
begin

text \<open>
  The data of \<open>backend/internal/transfer/models.go\<close> and the errors of \<open>errors.go\<close>.
  A Go pointer to a time is a \<open>time option\<close>. \<open>ConflictPolicy\<close> is the string the API
  receives, because \<open>validPolicy\<close> decides which strings are policies.
\<close>

section \<open>Errors\<close>

text \<open>
  An error is the sentinel that \<open>errors.Is\<close> finds in it and its text. \<open>ErrOther\<close> stands
  for an error of the operating system, the database, the network or a plain
  \<open>errors.New\<close>; \<open>ErrCanceled\<close> for the cancellation of a request context.
\<close>

datatype terr_kind =
    ErrNotFound | ErrInvalidRequest | ErrInvalidState | ErrUntrustedDevice
  | ErrApprovalRequired | ErrUnauthorized | ErrChecksumMismatch | ErrPathTraversal
  | ErrConflictResolution | ErrInsufficientStorage | ErrCanceled | ErrOther

datatype terr = TErr (terr_kind: terr_kind) (terr_text: string)

fun sentinel_text :: "terr_kind \<Rightarrow> string" where
  "sentinel_text ErrNotFound = ''transfer not found''"
| "sentinel_text ErrInvalidRequest = ''invalid transfer request''"
| "sentinel_text ErrInvalidState = ''operation is not valid for the current transfer state''"
| "sentinel_text ErrUntrustedDevice = ''device is not trusted''"
| "sentinel_text ErrApprovalRequired = ''transfer requires approval''"
| "sentinel_text ErrUnauthorized = ''invalid transfer session token''"
| "sentinel_text ErrChecksumMismatch = ''checksum verification failed''"
| "sentinel_text ErrPathTraversal = ''unsafe transfer path''"
| "sentinel_text ErrConflictResolution = ''destination conflict requires a decision''"
| "sentinel_text ErrInsufficientStorage = ''insufficient storage available at destination''"
| "sentinel_text ErrCanceled = ''context canceled''"
| "sentinel_text ErrOther = []"

definition plain :: "terr_kind \<Rightarrow> terr" where
  "plain k = TErr k (sentinel_text k)"

text \<open>\<open>fmt.Errorf("%w: detail", sentinel)\<close>.\<close>

definition wrapped :: "terr_kind \<Rightarrow> string \<Rightarrow> terr" where
  "wrapped k d = TErr k (sentinel_text k @ '': '' @ d)"

definition other :: "string \<Rightarrow> terr" where
  "other d = TErr ErrOther d"

lemma terr_kind_simps [simp]:
  "terr_kind (plain k) = k" "terr_kind (wrapped k d) = k" "terr_kind (other d) = ErrOther"
  by (simp_all add: plain_def wrapped_def other_def)

section \<open>States, files and transfers\<close>

definition ProtocolVersion :: int where
  "ProtocolVersion = 1"

datatype status =
    StatusQueued | StatusPreparing | StatusConnecting | StatusNegotiating | StatusSending
  | StatusReceiving | StatusPaused | StatusResuming | StatusCompleted | StatusCancelled
  | StatusFailed | StatusVerifying

datatype direction = DirectionOutbound | DirectionInbound

definition ConflictPrompt :: string where "ConflictPrompt = ''prompt''"
definition ConflictOverwrite :: string where "ConflictOverwrite = ''overwrite''"
definition ConflictRename :: string where "ConflictRename = ''rename''"

lemma policies_distinct [simp]:
  "ConflictPrompt \<noteq> ConflictOverwrite" "ConflictPrompt \<noteq> ConflictRename"
  "ConflictOverwrite \<noteq> ConflictPrompt" "ConflictOverwrite \<noteq> ConflictRename"
  "ConflictRename \<noteq> ConflictPrompt" "ConflictRename \<noteq> ConflictOverwrite"
  by (simp_all add: ConflictPrompt_def ConflictOverwrite_def ConflictRename_def)

datatype chunk_status = ChunkPending | ChunkComplete | ChunkFailed

record transfer_file =
  fID :: string
  fRelativePath :: string
  fDirectory :: bool
  fSourcePath :: string
  fDestinationPath :: string
  fSize :: int
  fChecksum :: string
  fChunkSize :: int
  fChunkCount :: int

record transfer =
  tID :: string
  tDirection :: direction
  tDeviceID :: string
  tDeviceName :: string
  tDeviceHostname :: string
  tDevicePlatform :: string
  tRemoteAddress :: string
  tFilename :: string
  tPath :: string
  tSourcePaths :: "string list"
  tFiles :: "transfer_file list"
  tSize :: int
  tChecksum :: string
  tStatus :: status
  tProgress :: int
  tSpeed :: int
  tETASeconds :: int
  tStartedAt :: "time option"
  tFinishedAt :: "time option"
  tCreatedAt :: time
  tUpdatedAt :: time
  tError :: string
  tAttempts :: int
  tPriority :: int
  tApproved :: bool
  tApprovalRequired :: bool
  tConflictPolicy :: string
  tChunkSize :: int
  tCompression :: bool
  tProtocolVersion :: int
  tSessionToken :: string
  tSessionTokenHash :: string

text \<open>Go's zero value \<open>Transfer{}\<close>, over which the composite literals of the code are written.\<close>

definition transfer_zero :: transfer where
  "transfer_zero = \<lparr>tID = [], tDirection = DirectionOutbound, tDeviceID = [], tDeviceName = [],
     tDeviceHostname = [], tDevicePlatform = [], tRemoteAddress = [], tFilename = [], tPath = [],
     tSourcePaths = [], tFiles = [], tSize = 0, tChecksum = [], tStatus = StatusQueued,
     tProgress = 0, tSpeed = 0, tETASeconds = 0, tStartedAt = None, tFinishedAt = None,
     tCreatedAt = time_zero, tUpdatedAt = time_zero, tError = [], tAttempts = 0, tPriority = 0,
     tApproved = False, tApprovalRequired = False, tConflictPolicy = [], tChunkSize = 0,
     tCompression = False, tProtocolVersion = 0, tSessionToken = [], tSessionTokenHash = []\<rparr>"

record chunk =
  kTransferID :: string
  kFileID :: string
  kIndex :: int
  kOffset :: int
  kSize :: int
  kChecksum :: string
  kStatus :: chunk_status
  kAttempts :: int
  kUpdatedAt :: time

record queue_request =
  qDeviceID :: string
  qPaths :: "string list"
  qConflictPolicy :: string

record staging_session =
  sgID :: string
  sgCreatedAt :: time

record stage_queue_request =
  sqDeviceID :: string
  sqRoots :: "string list"
  sqConflictPolicy :: string

record offer =
  oTransferID :: string
  oDeviceID :: string
  oDeviceName :: string
  oDeviceHostname :: string
  oDevicePlatform :: string
  oSessionToken :: string
  oFilename :: string
  oSize :: int
  oFiles :: "transfer_file list"
  oChunkSize :: int
  oCompression :: bool
  oProtocolVersion :: int

record offer_response =
  orTransferID :: string
  orStatus :: status
  orApproved :: bool

record peer_authentication =
  paDeviceID :: string
  paTimestamp :: string
  paNonce :: string
  paSignature :: string

text \<open>\<open>ResumeMap.Chunks\<close>: for a file with a complete chunk, the complete indices in the order read.\<close>

record resume_map =
  rmTransferID :: string
  rmStatus :: status
  rmApproved :: bool
  rmChunks :: "string \<rightharpoonup> int list"

record accept_request =
  aDestinationPath :: string
  aConflictPolicy :: string

datatype event_type =
    EventQueueUpdated | EventProgress | EventPaused | EventResumed | EventCompleted
  | EventFailed | EventVerification

record event =
  evType :: event_type
  evTransfer :: transfer
  evTimestamp :: time

definition validPolicy :: "string \<Rightarrow> bool" where
  "validPolicy p \<longleftrightarrow> p = ConflictPrompt \<or> p = ConflictOverwrite \<or> p = ConflictRename"

fun findFile :: "transfer_file list \<Rightarrow> string \<Rightarrow> transfer_file option" where
  "findFile [] i = None"
| "findFile (f # fs) i = (if fID f = i then Some f else findFile fs i)"

lemma findFile_SomeD: "findFile fs i = Some f \<Longrightarrow> f \<in> set fs \<and> fID f = i"
  by (induction fs) (auto split: if_splits)

end
