(* ===== verification/TransferStore.thy ===== *)
theory TransferStore
  imports TransferModels "HOL-Library.Product_Lexorder"
begin

text \<open>
  The durable store of the transfer engine (\<open>store.go\<close>, \<open>sqlite_store.go\<close> and the tables of
  \<open>database/migrations.go\<close>): the seven tables as lists of rows in row order, the
  statements of each method on them, the invariant that ties the four mirror tables to the
  status column, and the interface \<open>transfer_store\<close> the engine relies on, interpreted here.

  A method is one transaction, so it is one function of the database; its failures
  (a closed connection, a full disk) leave the database unchanged and are injected where
  the engine calls it. JSON, which only carries the list \<open>source_paths\<close>, is left out: the
  column holds the list. SQL leaves the order of equal sort keys open; the model takes row
  order.
\<close>

section \<open>Tables\<close>

record transfer_row =
  rID :: string
  rDirection :: direction
  rDeviceID :: string
  rDeviceName :: string
  rDeviceHostname :: string
  rDevicePlatform :: string
  rRemoteAddress :: string
  rFilename :: string
  rPath :: string
  rSourcePaths :: "string list"
  rSize :: int
  rChecksum :: string
  rStatus :: status
  rProgress :: int
  rSpeed :: int
  rETASeconds :: int
  rStartedAt :: "int option"
  rFinishedAt :: "int option"
  rCreatedAt :: int
  rUpdatedAt :: int
  rError :: string
  rAttempts :: int
  rPriority :: int
  rApproved :: bool
  rApprovalRequired :: bool
  rConflictPolicy :: string
  rChunkSize :: int
  rCompression :: bool
  rProtocolVersion :: int
  rSessionToken :: string
  rSessionTokenHash :: string

record tdb =
  dbTransfers :: "transfer_row list"
  dbFiles :: "(string \<times> transfer_file) list"
  dbChunks :: "chunk list"
  dbQueued :: "(string \<times> int \<times> int) list"
  dbHistory :: "(string \<times> status \<times> int) list"
  dbFailed :: "(string \<times> string \<times> int) list"
  dbPaused :: "(string \<times> int) list"

definition empty_db :: tdb where
  "empty_db = \<lparr>dbTransfers = [], dbFiles = [], dbChunks = [], dbQueued = [], dbHistory = [],
     dbFailed = [], dbPaused = []\<rparr>"

text \<open>\<open>INSERT ... ON CONFLICT(key) DO UPDATE\<close>; the conflicting row keeps its place.\<close>

fun upsert :: "('r \<Rightarrow> 'k) \<Rightarrow> ('r \<Rightarrow> 'r \<Rightarrow> 'r) \<Rightarrow> 'r \<Rightarrow> 'r list \<Rightarrow> 'r list" where
  "upsert key upd r [] = [r]"
| "upsert key upd r (x # xs) = (if key x = key r then upd x r # xs else x # upsert key upd r xs)"

definition select :: "('r \<Rightarrow> 'k) \<Rightarrow> 'k \<Rightarrow> 'r list \<Rightarrow> 'r option" where
  "select key k rows = find_first (\<lambda>r. key r = k) rows"

definition delete_rows :: "('r \<Rightarrow> bool) \<Rightarrow> 'r list \<Rightarrow> 'r list" where
  "delete_rows p rows = filter (\<lambda>r. \<not> p r) rows"

lemma set_map_upsert:
  assumes "\<And>x. key (upd x r) = key r"
  shows "key ` set (upsert key upd r xs) = insert (key r) (key ` set xs)"
    and "key x \<in> key ` set (upsert key upd r xs) \<longleftrightarrow> key x = key r \<or> key x \<in> key ` set xs"
proof -
  show "key ` set (upsert key upd r xs) = insert (key r) (key ` set xs)"
    using assms by (induction xs) auto
  then show "key x \<in> key ` set (upsert key upd r xs) \<longleftrightarrow> key x = key r \<or> key x \<in> key ` set xs"
    by simp
qed

lemma distinct_upsert:
  assumes "\<And>x. key (upd x r) = key r"
  shows "distinct (map key xs) \<Longrightarrow> distinct (map key (upsert key upd r xs))"
proof (induction xs)
  case (Cons x xs)
  then show ?case
    using assms set_map_upsert(2) [where key = key and upd = upd and r = r and xs = xs and x = x]
    by auto
qed simp

lemma select_upsert:
  assumes "\<And>x. key (upd x r) = key r"
  shows "select key k (upsert key upd r xs) =
    (if k = key r then Some (case select key k xs of None \<Rightarrow> r | Some x \<Rightarrow> upd x r)
     else select key k xs)"
  using assms by (induction xs) (auto simp: select_def)

lemma filter_upsert_other:
  assumes "\<not> p r" "\<And>x. key x = key r \<Longrightarrow> \<not> p x" "\<And>x. \<not> p (upd x r)"
  shows "filter p (upsert key upd r xs) = filter p xs"
  using assms by (induction xs) auto

lemma select_SomeD: "select key k rows = Some r \<Longrightarrow> r \<in> set rows \<and> key r = k"
  by (auto simp: select_def dest: find_first_SomeD)

lemma select_None: "select key k rows = None \<longleftrightarrow> k \<notin> key ` set rows"
  by (auto simp: select_def find_first_None)

lemma select_delete: "(\<And>r. r \<in> set rows \<Longrightarrow> key r = k \<Longrightarrow> \<not> p r) \<Longrightarrow>
    select key k (delete_rows p rows) = select key k rows"
  by (induction rows) (auto simp: select_def delete_rows_def)

lemma select_delete_distinct:
  "distinct (map key rows) \<Longrightarrow>
   select key k (delete_rows p rows) =
     (case select key k rows of None \<Rightarrow> None | Some r \<Rightarrow> if p r then None else Some r)"
  by (induction rows)
     (auto simp: select_def delete_rows_def find_first_None dest!: find_first_SomeD split: option.splits)

lemma select_distinct: "distinct (map key rows) \<Longrightarrow> r \<in> set rows \<Longrightarrow> select key (key r) rows = Some r"
  by (induction rows) (auto simp: select_def image_iff)

text \<open>The primary key of a chunk within its transfer, in the order \<open>ListChunks\<close> reads.\<close>

datatype chunk_key = ChunkKey (ck_file: string) (ck_index: int)

instantiation chunk_key :: linorder
begin

definition less_eq_chunk_key :: "chunk_key \<Rightarrow> chunk_key \<Rightarrow> bool" where
  "less_eq_chunk_key a b \<longleftrightarrow>
     ck_file a < ck_file b \<or> ck_file a = ck_file b \<and> ck_index a \<le> ck_index b"

definition less_chunk_key :: "chunk_key \<Rightarrow> chunk_key \<Rightarrow> bool" where
  "less_chunk_key a b \<longleftrightarrow>
     ck_file a < ck_file b \<or> ck_file a = ck_file b \<and> ck_index a < ck_index b"

instance
  by standard (auto simp: less_eq_chunk_key_def less_chunk_key_def intro: chunk_key.expand)

end

definition chunk_key_of :: "chunk \<Rightarrow> chunk_key" where
  "chunk_key_of c = ChunkKey (kFileID c) (kIndex c)"

section \<open>Rows and transfers\<close>

definition nullableTime :: "time option \<Rightarrow> int option" where
  "nullableTime v = map_option unix_milli v"

definition row_of :: "transfer \<Rightarrow> transfer_row" where
  "row_of t = \<lparr>rID = tID t, rDirection = tDirection t, rDeviceID = tDeviceID t,
     rDeviceName = tDeviceName t, rDeviceHostname = tDeviceHostname t,
     rDevicePlatform = tDevicePlatform t, rRemoteAddress = tRemoteAddress t,
     rFilename = tFilename t, rPath = tPath t, rSourcePaths = tSourcePaths t, rSize = tSize t,
     rChecksum = tChecksum t, rStatus = tStatus t, rProgress = tProgress t, rSpeed = tSpeed t,
     rETASeconds = tETASeconds t, rStartedAt = nullableTime (tStartedAt t),
     rFinishedAt = nullableTime (tFinishedAt t), rCreatedAt = unix_milli (tCreatedAt t),
     rUpdatedAt = unix_milli (tUpdatedAt t), rError = tError t, rAttempts = tAttempts t,
     rPriority = tPriority t, rApproved = tApproved t, rApprovalRequired = tApprovalRequired t,
     rConflictPolicy = tConflictPolicy t, rChunkSize = tChunkSize t,
     rCompression = tCompression t, rProtocolVersion = tProtocolVersion t,
     rSessionToken = tSessionToken t, rSessionTokenHash = tSessionTokenHash t\<rparr>"

definition scanTransfer :: "transfer_row \<Rightarrow> transfer" where
  "scanTransfer r = \<lparr>tID = rID r, tDirection = rDirection r, tDeviceID = rDeviceID r,
     tDeviceName = rDeviceName r, tDeviceHostname = rDeviceHostname r,
     tDevicePlatform = rDevicePlatform r, tRemoteAddress = rRemoteAddress r,
     tFilename = rFilename r, tPath = rPath r, tSourcePaths = rSourcePaths r, tFiles = [],
     tSize = rSize r, tChecksum = rChecksum r, tStatus = rStatus r, tProgress = rProgress r,
     tSpeed = rSpeed r, tETASeconds = rETASeconds r,
     tStartedAt = map_option of_unix_milli (rStartedAt r),
     tFinishedAt = map_option of_unix_milli (rFinishedAt r),
     tCreatedAt = of_unix_milli (rCreatedAt r), tUpdatedAt = of_unix_milli (rUpdatedAt r),
     tError = rError r, tAttempts = rAttempts r, tPriority = rPriority r,
     tApproved = rApproved r, tApprovalRequired = rApprovalRequired r,
     tConflictPolicy = rConflictPolicy r, tChunkSize = rChunkSize r,
     tCompression = rCompression r, tProtocolVersion = rProtocolVersion r,
     tSessionToken = rSessionToken r, tSessionTokenHash = rSessionTokenHash r\<rparr>"

text \<open>The update of a conflicting row sets every column but \<open>created_at\<close>.\<close>

definition update_row :: "transfer_row \<Rightarrow> transfer_row \<Rightarrow> transfer_row" where
  "update_row old excluded = excluded\<lparr>rCreatedAt := rCreatedAt old\<rparr>"

definition file_key :: "string \<times> transfer_file \<Rightarrow> string \<times> string" where
  "file_key r = (fst r, fID (snd r))"

definition save_files :: "string \<Rightarrow> transfer_file list \<Rightarrow> (string \<times> transfer_file) list \<Rightarrow>
    (string \<times> transfer_file) list" where
  "save_files i fs rows = fold (\<lambda>f. upsert file_key (\<lambda>_ new. new) (i, f)) fs rows"

definition queued_status :: "status \<Rightarrow> bool" where
  "queued_status s \<longleftrightarrow> s \<in> {StatusQueued, StatusPreparing, StatusConnecting, StatusNegotiating, StatusResuming}"

definition closed_status :: "status \<Rightarrow> bool" where
  "closed_status s \<longleftrightarrow> s \<in> {StatusCompleted, StatusCancelled}"

definition finished_status :: "status \<Rightarrow> bool" where
  "finished_status s \<longleftrightarrow> s \<in> {StatusCompleted, StatusCancelled, StatusFailed}"

section \<open>Methods\<close>

definition SaveTransfer :: "transfer \<Rightarrow> tdb \<Rightarrow> tdb" where
  "SaveTransfer t d =
     (let i = tID t; now = unix_milli (tUpdatedAt t);
          d1 = d\<lparr>dbTransfers := upsert rID update_row (row_of t) (dbTransfers d),
                 dbFiles := save_files i (tFiles t) (dbFiles d)\<rparr>;
          d2 = d1\<lparr>dbQueued := delete_rows (\<lambda>r. fst r = i) (dbQueued d1),
                  dbHistory := delete_rows (\<lambda>r. fst r = i) (dbHistory d1),
                  dbFailed := delete_rows (\<lambda>r. fst r = i) (dbFailed d1),
                  dbPaused := delete_rows (\<lambda>r. fst r = i) (dbPaused d1)\<rparr>
      in if queued_status (tStatus t) then d2\<lparr>dbQueued := dbQueued d2 @ [(i, tPriority t, now)]\<rparr>
         else if closed_status (tStatus t) then
           d2\<lparr>dbHistory := dbHistory d2 @
               [(i, tStatus t, case tFinishedAt t of None \<Rightarrow> now | Some f \<Rightarrow> unix_milli f)]\<rparr>
         else if tStatus t = StatusFailed then d2\<lparr>dbFailed := dbFailed d2 @ [(i, tError t, now)]\<rparr>
         else if tStatus t = StatusPaused then d2\<lparr>dbPaused := dbPaused d2 @ [(i, now)]\<rparr>
         else d2)"

definition listFiles :: "tdb \<Rightarrow> string \<Rightarrow> transfer_file list" where
  "listFiles d i = sort_key fRelativePath (map snd (filter (\<lambda>r. fst r = i) (dbFiles d)))"

definition GetTransfer :: "tdb \<Rightarrow> string \<Rightarrow> terr + transfer" where
  "GetTransfer d i =
     (case select rID i (dbTransfers d) of
        None \<Rightarrow> Inl (plain ErrNotFound)
      | Some r \<Rightarrow> Inr ((scanTransfer r)\<lparr>tFiles := listFiles d i\<rparr>))"

definition ListTransfers :: "tdb \<Rightarrow> transfer list" where
  "ListTransfers d =
     map (\<lambda>r. (scanTransfer r)\<lparr>tFiles := listFiles d (rID r)\<rparr>)
       (sort_key (\<lambda>r. (rPriority r, rCreatedAt r)) (dbTransfers d))"

definition DeleteHistory :: "tdb \<Rightarrow> tdb" where
  "DeleteHistory d =
     (let ids = map rID (filter (\<lambda>r. finished_status (rStatus r)) (dbTransfers d))
      in d\<lparr>dbChunks := delete_rows (\<lambda>c. kTransferID c \<in> set ids) (dbChunks d),
           dbFiles := delete_rows (\<lambda>r. fst r \<in> set ids) (dbFiles d),
           dbTransfers := delete_rows (\<lambda>r. finished_status (rStatus r)) (dbTransfers d),
           dbHistory := [], dbFailed := []\<rparr>)"

definition chunk_row_key :: "chunk \<Rightarrow> string \<times> string \<times> int" where
  "chunk_row_key c = (kTransferID c, kFileID c, kIndex c)"

definition SaveChunk :: "chunk \<Rightarrow> tdb \<Rightarrow> tdb" where
  "SaveChunk c d =
     d\<lparr>dbChunks := upsert chunk_row_key (\<lambda>_ new. new) (c\<lparr>kUpdatedAt := trunc_ms (kUpdatedAt c)\<rparr>)
         (dbChunks d)\<rparr>"

definition ListChunks :: "tdb \<Rightarrow> string \<Rightarrow> chunk list" where
  "ListChunks d i = sort_key chunk_key_of (filter (\<lambda>c. kTransferID c = i) (dbChunks d))"

section \<open>Laws of the tables\<close>

text \<open>
  What the store keeps of a transfer: times to the millisecond, the creation time of the
  first save, and the union by identifier of all the files ever saved for it, in row
  order. \<open>lookup\<close> is that record; \<open>GetTransfer\<close> shows its files by relative path.
\<close>

definition merge_files :: "transfer_file list \<Rightarrow> transfer_file list \<Rightarrow> transfer_file list" where
  "merge_files fs old = fold (upsert fID (\<lambda>_ new. new)) fs old"

definition persist :: "transfer option \<Rightarrow> transfer \<Rightarrow> transfer" where
  "persist old t = t\<lparr>
     tStartedAt := map_option trunc_ms (tStartedAt t),
     tFinishedAt := map_option trunc_ms (tFinishedAt t),
     tCreatedAt := (case old of None \<Rightarrow> trunc_ms (tCreatedAt t) | Some o' \<Rightarrow> tCreatedAt o'),
     tUpdatedAt := trunc_ms (tUpdatedAt t),
     tFiles := merge_files (tFiles t) (case old of None \<Rightarrow> [] | Some o' \<Rightarrow> tFiles o')\<rparr>"

definition by_path :: "transfer \<Rightarrow> transfer" where
  "by_path t = t\<lparr>tFiles := sort_key fRelativePath (tFiles t)\<rparr>"

definition rows_of_files :: "tdb \<Rightarrow> string \<Rightarrow> transfer_file list" where
  "rows_of_files d i = map snd (filter (\<lambda>r. fst r = i) (dbFiles d))"

definition lookup :: "tdb \<Rightarrow> string \<Rightarrow> transfer option" where
  "lookup d i = map_option (\<lambda>r. (scanTransfer r)\<lparr>tFiles := rows_of_files d i\<rparr>)
     (select rID i (dbTransfers d))"

lemma persist_simps [simp]:
  "tID (persist old t) = tID t" "tDirection (persist old t) = tDirection t"
  "tDeviceID (persist old t) = tDeviceID t" "tStatus (persist old t) = tStatus t"
  "tSize (persist old t) = tSize t" "tProgress (persist old t) = tProgress t"
  "tSpeed (persist old t) = tSpeed t" "tETASeconds (persist old t) = tETASeconds t"
  "tError (persist old t) = tError t" "tApproved (persist old t) = tApproved t"
  "tApprovalRequired (persist old t) = tApprovalRequired t" "tPath (persist old t) = tPath t"
  "tConflictPolicy (persist old t) = tConflictPolicy t" "tPriority (persist old t) = tPriority t"
  "tSessionToken (persist old t) = tSessionToken t" "tAttempts (persist old t) = tAttempts t"
  "tSessionTokenHash (persist old t) = tSessionTokenHash t"
  "tChunkSize (persist old t) = tChunkSize t" "tSourcePaths (persist old t) = tSourcePaths t"
  by (simp_all add: persist_def)

lemma by_path_simps [simp]:
  "tID (by_path t) = tID t" "tDirection (by_path t) = tDirection t"
  "tDeviceID (by_path t) = tDeviceID t" "tStatus (by_path t) = tStatus t"
  "tSize (by_path t) = tSize t" "tProgress (by_path t) = tProgress t"
  "tSpeed (by_path t) = tSpeed t" "tETASeconds (by_path t) = tETASeconds t"
  "tError (by_path t) = tError t" "tApproved (by_path t) = tApproved t"
  "tApprovalRequired (by_path t) = tApprovalRequired t" "tPath (by_path t) = tPath t"
  "tConflictPolicy (by_path t) = tConflictPolicy t" "tPriority (by_path t) = tPriority t"
  "tSessionToken (by_path t) = tSessionToken t" "tAttempts (by_path t) = tAttempts t"
  "tSessionTokenHash (by_path t) = tSessionTokenHash t"
  "tChunkSize (by_path t) = tChunkSize t" "tSourcePaths (by_path t) = tSourcePaths t"
  "set (tFiles (by_path t)) = set (tFiles t)"
  by (simp_all add: by_path_def)

lemma GetTransfer_lookup:
  "GetTransfer d i = (case lookup d i of None \<Rightarrow> Inl (plain ErrNotFound) | Some t \<Rightarrow> Inr (by_path t))"
  by (simp add: GetTransfer_def lookup_def listFiles_def rows_of_files_def by_path_def
      split: option.splits)

lemma filter_upsert_file:
  "map snd (filter (\<lambda>r. fst r = i) (upsert file_key (\<lambda>_ new. new) (j, f) rows)) =
   (if i = j then upsert fID (\<lambda>_ new. new) f (map snd (filter (\<lambda>r. fst r = i) rows))
    else map snd (filter (\<lambda>r. fst r = i) rows))"
  by (induction rows) (auto simp: file_key_def)

lemma filter_save_files:
  "map snd (filter (\<lambda>r. fst r = i) (save_files j fs rows)) =
   (if i = j then merge_files fs (map snd (filter (\<lambda>r. fst r = i) rows))
    else map snd (filter (\<lambda>r. fst r = i) rows))"
  unfolding save_files_def merge_files_def
  by (induction fs arbitrary: rows) (auto simp: filter_upsert_file)

lemma fst_save_files: "fst ` set (save_files j fs rows) \<subseteq> insert j (fst ` set rows)"
proof (induction fs arbitrary: rows)
  case (Cons f fs)
  have "fst ` set (upsert file_key (\<lambda>_ new. new) (j, f) rows) \<subseteq> insert j (fst ` set rows)"
    by (induction rows) auto
  then show ?case
    using Cons [of "upsert file_key (\<lambda>_ new. new) (j, f) rows"] unfolding save_files_def
    by (simp add: subset_iff) blast
qed (auto simp: save_files_def)

lemma dbTransfers_SaveTransfer [simp]:
  "dbTransfers (SaveTransfer t d) = upsert rID update_row (row_of t) (dbTransfers d)"
  "dbFiles (SaveTransfer t d) = save_files (tID t) (tFiles t) (dbFiles d)"
  "dbChunks (SaveTransfer t d) = dbChunks d"
  by (simp_all add: SaveTransfer_def Let_def)

lemma row_of_simps [simp]: "rID (row_of t) = tID t" "rStatus (row_of t) = tStatus t"
  by (simp_all add: row_of_def)

lemma update_row_simps [simp]: "rID (update_row o' r) = rID r" "rStatus (update_row o' r) = rStatus r"
  by (simp_all add: update_row_def)

lemma scan_simps [simp]:
  "tID (scanTransfer r) = rID r" "tStatus (scanTransfer r) = rStatus r"
  "tCreatedAt (scanTransfer r) = of_unix_milli (rCreatedAt r)"
  by (simp_all add: scanTransfer_def)

lemma scan_row_of:
  "(scanTransfer (row_of t))\<lparr>tFiles := fs\<rparr> =
   t\<lparr>tStartedAt := map_option trunc_ms (tStartedAt t),
     tFinishedAt := map_option trunc_ms (tFinishedAt t),
     tCreatedAt := trunc_ms (tCreatedAt t), tUpdatedAt := trunc_ms (tUpdatedAt t), tFiles := fs\<rparr>"
  by (simp add: scanTransfer_def row_of_def nullableTime_def trunc_ms_def map_option_case
      split: option.splits)

lemma scan_update_row:
  "(scanTransfer (update_row r (row_of t)))\<lparr>tFiles := fs\<rparr> =
   t\<lparr>tStartedAt := map_option trunc_ms (tStartedAt t),
     tFinishedAt := map_option trunc_ms (tFinishedAt t),
     tCreatedAt := of_unix_milli (rCreatedAt r), tUpdatedAt := trunc_ms (tUpdatedAt t), tFiles := fs\<rparr>"
  by (simp add: scanTransfer_def row_of_def update_row_def nullableTime_def trunc_ms_def
      map_option_case split: option.splits)

section \<open>The invariant\<close>

definition status_of :: "tdb \<Rightarrow> string \<rightharpoonup> status" where
  "status_of d i = map_option rStatus (select rID i (dbTransfers d))"

definition mirrors :: "(string \<times> 'a) list \<Rightarrow> (status \<Rightarrow> bool) \<Rightarrow> (string \<rightharpoonup> status) \<Rightarrow> bool" where
  "mirrors tab p st \<longleftrightarrow>
     distinct (map fst tab) \<and> (\<forall>i. i \<in> fst ` set tab \<longleftrightarrow> (\<exists>s. st i = Some s \<and> p s))"

definition mirrors_ok :: "tdb \<Rightarrow> bool" where
  "mirrors_ok d \<longleftrightarrow>
     mirrors (dbQueued d) queued_status (status_of d) \<and>
     mirrors (dbHistory d) closed_status (status_of d) \<and>
     mirrors (dbFailed d) (\<lambda>s. s = StatusFailed) (status_of d) \<and>
     mirrors (dbPaused d) (\<lambda>s. s = StatusPaused) (status_of d)"

definition db_inv :: "tdb \<Rightarrow> bool" where
  "db_inv d \<longleftrightarrow>
     distinct (map rID (dbTransfers d)) \<and>
     fst ` set (dbFiles d) \<subseteq> rID ` set (dbTransfers d) \<and>
     distinct (map chunk_row_key (dbChunks d)) \<and> mirrors_ok d"

lemma status_of_lookup: "status_of d i = map_option tStatus (lookup d i)"
  by (simp add: status_of_def lookup_def option.map_comp comp_def)

lemma status_of_save: "status_of (SaveTransfer t d) = (status_of d)(tID t \<mapsto> tStatus t)"
  by (auto simp: status_of_def fun_eq_iff select_upsert split: option.splits)

lemma status_of_purge:
  "distinct (map rID (dbTransfers d)) \<Longrightarrow> status_of (DeleteHistory d) i =
   (case status_of d i of None \<Rightarrow> None | Some s \<Rightarrow> if finished_status s then None else Some s)"
  by (auto simp: status_of_def DeleteHistory_def Let_def select_delete_distinct split: option.splits)

lemma mirrors_save:
  assumes "mirrors tab p st"
  shows "mirrors (if p s then delete_rows (\<lambda>r. fst r = i) tab @ [(i, x)]
                  else delete_rows (\<lambda>r. fst r = i) tab) p (st(i \<mapsto> s))"
proof -
  have d: "distinct (map fst (delete_rows (\<lambda>r. fst r = i) tab))"
    using assms by (auto simp: mirrors_def delete_rows_def distinct_map_filter)
  have m: "j \<in> fst ` set (delete_rows (\<lambda>r. fst r = i) tab) \<longleftrightarrow> j \<noteq> i \<and> (\<exists>s. st j = Some s \<and> p s)" for j
    using assms unfolding mirrors_def delete_rows_def by force
  show ?thesis
    using d m by (cases "p s") (auto simp: mirrors_def)
qed

lemma mirrors_purge:
  assumes "mirrors tab p st" "\<And>s. p s \<Longrightarrow> \<not> finished_status s"
  shows "mirrors tab p (\<lambda>i. case st i of None \<Rightarrow> None | Some s \<Rightarrow> if finished_status s then None else Some s)"
  using assms unfolding mirrors_def by (auto split: option.splits)

lemma mirror_tables_save:
  "dbQueued (SaveTransfer t d) = (if queued_status (tStatus t)
     then delete_rows (\<lambda>r. fst r = tID t) (dbQueued d) @ [(tID t, tPriority t, unix_milli (tUpdatedAt t))]
     else delete_rows (\<lambda>r. fst r = tID t) (dbQueued d))"
  "dbHistory (SaveTransfer t d) = (if closed_status (tStatus t)
     then delete_rows (\<lambda>r. fst r = tID t) (dbHistory d) @ [(tID t, tStatus t,
        case tFinishedAt t of None \<Rightarrow> unix_milli (tUpdatedAt t) | Some f \<Rightarrow> unix_milli f)]
     else delete_rows (\<lambda>r. fst r = tID t) (dbHistory d))"
  "dbFailed (SaveTransfer t d) = (if tStatus t = StatusFailed
     then delete_rows (\<lambda>r. fst r = tID t) (dbFailed d) @ [(tID t, tError t, unix_milli (tUpdatedAt t))]
     else delete_rows (\<lambda>r. fst r = tID t) (dbFailed d))"
  "dbPaused (SaveTransfer t d) = (if tStatus t = StatusPaused
     then delete_rows (\<lambda>r. fst r = tID t) (dbPaused d) @ [(tID t, unix_milli (tUpdatedAt t))]
     else delete_rows (\<lambda>r. fst r = tID t) (dbPaused d))"
  by (cases "tStatus t"; simp add: SaveTransfer_def Let_def queued_status_def closed_status_def)+

lemma mirrors_ok_save: "mirrors_ok d \<Longrightarrow> mirrors_ok (SaveTransfer t d)"
  unfolding mirrors_ok_def mirror_tables_save status_of_save
  by (intro conjI mirrors_save [where p = queued_status] mirrors_save [where p = closed_status]
      mirrors_save [where p = "\<lambda>s. s = StatusFailed"] mirrors_save [where p = "\<lambda>s. s = StatusPaused"])
     simp_all

lemma mirrors_Nil: "mirrors [] p st \<longleftrightarrow> (\<forall>i s. st i = Some s \<longrightarrow> \<not> p s)"
  by (auto simp: mirrors_def)

lemma mirrors_ok_purge:
  assumes "distinct (map rID (dbTransfers d))" "mirrors_ok d"
  shows "mirrors_ok (DeleteHistory d)"
proof -
  have st: "status_of (DeleteHistory d) =
      (\<lambda>i. case status_of d i of None \<Rightarrow> None | Some s \<Rightarrow> if finished_status s then None else Some s)"
    using status_of_purge [OF assms(1)] by (simp add: fun_eq_iff)
  have tabs: "dbQueued (DeleteHistory d) = dbQueued d" "dbPaused (DeleteHistory d) = dbPaused d"
    "dbHistory (DeleteHistory d) = []" "dbFailed (DeleteHistory d) = []"
    by (simp_all add: DeleteHistory_def Let_def)
  show ?thesis
    using assms(2) unfolding mirrors_ok_def st tabs mirrors_Nil
    by (auto intro!: mirrors_purge simp: queued_status_def finished_status_def closed_status_def
        split: option.splits if_splits)
qed

lemma db_inv_empty: "db_inv empty_db"
  by (simp add: db_inv_def empty_db_def mirrors_ok_def mirrors_Nil status_of_def select_def)

lemma db_inv_save: "db_inv d \<Longrightarrow> db_inv (SaveTransfer t d)"
  using fst_save_files [of "tID t" "tFiles t" "dbFiles d"]
  by (auto simp: db_inv_def mirrors_ok_save distinct_upsert set_map_upsert)

lemma db_inv_purge: "db_inv d \<Longrightarrow> db_inv (DeleteHistory d)"
proof -
  assume d: "db_inv d"
  have "fst r \<in> rID ` set (dbTransfers (DeleteHistory d))" if "r \<in> set (dbFiles (DeleteHistory d))" for r
    using that d unfolding db_inv_def DeleteHistory_def Let_def delete_rows_def by force
  moreover have "mirrors_ok (DeleteHistory d)"
    using d by (simp add: db_inv_def mirrors_ok_purge)
  moreover have "distinct (map rID (dbTransfers (DeleteHistory d)))"
    "distinct (map chunk_row_key (dbChunks (DeleteHistory d)))"
    using d by (simp_all add: db_inv_def DeleteHistory_def Let_def delete_rows_def distinct_map_filter)
  ultimately show ?thesis
    unfolding db_inv_def by blast
qed

lemma db_inv_chunk: "db_inv d \<Longrightarrow> db_inv (SaveChunk c d)"
  unfolding db_inv_def SaveChunk_def mirrors_ok_def status_of_def
  by (simp add: distinct_upsert chunk_row_key_def)

lemma lookup_id: "lookup d i = Some t \<Longrightarrow> tID t = i"
  by (auto simp: lookup_def dest: select_SomeD)

lemma lookup_save:
  assumes "db_inv d"
  shows "lookup (SaveTransfer t d) i =
    (if i = tID t then Some (persist (lookup d i) t) else lookup d i)"
proof -
  have rows: "rows_of_files (SaveTransfer t d) i =
      (if i = tID t then merge_files (tFiles t) (rows_of_files d i) else rows_of_files d i)"
    by (simp add: rows_of_files_def filter_save_files)
  have none: "select rID j (dbTransfers d) = None \<Longrightarrow> rows_of_files d j = []" for j
    using assms unfolding db_inv_def rows_of_files_def select_None by (auto simp: filter_empty_conv)
  show ?thesis
    by (cases "select rID i (dbTransfers d)")
       (auto simp: lookup_def rows select_upsert scan_row_of scan_update_row persist_def none)
qed

lemma dbTransfers_purge:
  "dbTransfers (DeleteHistory d) = delete_rows (\<lambda>r. finished_status (rStatus r)) (dbTransfers d)"
  by (simp add: DeleteHistory_def Let_def)

lemma lookup_purge:
  assumes "db_inv d"
  shows "lookup (DeleteHistory d) i =
    (case lookup d i of None \<Rightarrow> None
     | Some t \<Rightarrow> if finished_status (tStatus t) then None else Some t)"
proof -
  have dist: "distinct (map rID (dbTransfers d))" using assms by (simp add: db_inv_def)
  have rows: "rows_of_files (DeleteHistory d) i = rows_of_files d i"
    if r: "select rID i (dbTransfers d) = Some r" and f: "\<not> finished_status (rStatus r)" for r
  proof -
    have "i \<notin> rID ` set (filter (\<lambda>r. finished_status (rStatus r)) (dbTransfers d))"
      using select_distinct [OF dist] r f by fastforce
    then have "filter (\<lambda>x. fst x = i \<and> fst x \<notin> rID ` set (filter (\<lambda>r. finished_status (rStatus r)) (dbTransfers d))) (dbFiles d)
        = filter (\<lambda>x. fst x = i) (dbFiles d)"
      by (intro filter_cong) auto
    then show ?thesis
      by (simp add: rows_of_files_def DeleteHistory_def Let_def delete_rows_def conj_commute)
  qed
  show ?thesis
    using rows dist
    by (cases "select rID i (dbTransfers d)")
       (auto simp: lookup_def dbTransfers_purge select_delete_distinct)
qed

lemma lookup_chunk [simp]: "lookup (SaveChunk c d) i = lookup d i"
  by (simp add: lookup_def SaveChunk_def rows_of_files_def)

lemma ListChunks_save [simp]: "ListChunks (SaveTransfer t d) i = ListChunks d i"
  by (simp add: ListChunks_def)

lemma ListChunks_set: "c \<in> set (ListChunks d i) \<longleftrightarrow> c \<in> set (dbChunks d) \<and> kTransferID c = i"
  by (auto simp: ListChunks_def)

lemma ListChunks_distinct:
  assumes "db_inv d"
  shows "distinct (map chunk_key_of (ListChunks d i))"
proof -
  have "distinct (map chunk_row_key (filter (\<lambda>c. kTransferID c = i) (dbChunks d)))"
    using assms by (simp add: db_inv_def distinct_map_filter)
  then have "distinct (map chunk_key_of (filter (\<lambda>c. kTransferID c = i) (dbChunks d)))"
    by (auto simp: distinct_map inj_on_def chunk_row_key_def chunk_key_of_def)
  then have "distinct (map chunk_key_of (sort_key chunk_key_of (filter (\<lambda>c. kTransferID c = i) (dbChunks d))))"
    by (simp add: distinct_map)
  then show ?thesis by (simp add: ListChunks_def)
qed

lemma set_upsert_replace:
  assumes "distinct (map key xs)"
  shows "set (upsert key (\<lambda>_ new. new) r xs) = insert r {x \<in> set xs. key x \<noteq> key r}"
  using assms
proof (induction xs)
  case (Cons x xs)
  then show ?case
    by (cases "key x = key r") (auto simp: image_iff)
qed simp

lemma chunk_row_key_trunc: "chunk_row_key (c\<lparr>kUpdatedAt := u\<rparr>) = chunk_row_key c"
  by (simp add: chunk_row_key_def)

lemma ListChunks_put:
  assumes "db_inv d"
  shows "set (ListChunks (SaveChunk c d) i) =
    (if i = kTransferID c
     then insert (c\<lparr>kUpdatedAt := trunc_ms (kUpdatedAt c)\<rparr>)
            {k \<in> set (ListChunks d i). chunk_key_of k \<noteq> chunk_key_of c}
     else set (ListChunks d i))"
proof -
  have "distinct (map chunk_row_key (dbChunks d))" using assms by (simp add: db_inv_def)
  then have "set (dbChunks (SaveChunk c d)) = insert (c\<lparr>kUpdatedAt := trunc_ms (kUpdatedAt c)\<rparr>)
      {k \<in> set (dbChunks d). chunk_row_key k \<noteq> chunk_row_key c}"
    by (simp add: SaveChunk_def set_upsert_replace chunk_row_key_trunc)
  then have mem: "x \<in> set (ListChunks (SaveChunk c d) i) \<longleftrightarrow>
      (x = c\<lparr>kUpdatedAt := trunc_ms (kUpdatedAt c)\<rparr> \<or>
       x \<in> set (dbChunks d) \<and> chunk_row_key x \<noteq> chunk_row_key c) \<and> kTransferID x = i" for x
    by (simp add: ListChunks_set)
  have "kTransferID (c\<lparr>kUpdatedAt := u\<rparr>) = kTransferID c" for u by simp
  with mem show ?thesis
    by (intro set_eqI) (auto simp only: mem ListChunks_set chunk_row_key_def chunk_key_of_def
        insert_iff mem_Collect_eq prod.inject chunk_key.inject if_True if_False split: if_split)
qed

section \<open>The interface\<close>

text \<open>
  \<open>Store\<close> of \<open>store.go\<close> as the engine relies on it: a map from identifiers to records that a
  save updates at one point, that a purge empties of the finished ones, and beside it a set
  of chunks per transfer, one per file and index.
\<close>

locale transfer_store =
  fixes save :: "transfer \<Rightarrow> 'd \<Rightarrow> 'd"
    and find :: "'d \<Rightarrow> string \<Rightarrow> transfer option"
    and purge :: "'d \<Rightarrow> 'd"
    and put_chunk :: "chunk \<Rightarrow> 'd \<Rightarrow> 'd"
    and chunks :: "'d \<Rightarrow> string \<Rightarrow> chunk list"
    and inv :: "'d \<Rightarrow> bool"
  assumes inv_save: "inv d \<Longrightarrow> inv (save t d)"
    and inv_purge: "inv d \<Longrightarrow> inv (purge d)"
    and inv_put: "inv d \<Longrightarrow> inv (put_chunk c d)"
    and find_id: "find d i = Some t \<Longrightarrow> tID t = i"
    and find_save: "inv d \<Longrightarrow> find (save t d) i =
          (if i = tID t then Some (persist (find d i) t) else find d i)"
    and find_purge: "inv d \<Longrightarrow> find (purge d) i =
          (case find d i of None \<Rightarrow> None
           | Some t \<Rightarrow> if finished_status (tStatus t) then None else Some t)"
    and find_put: "find (put_chunk c d) i = find d i"
    and chunks_save: "chunks (save t d) i = chunks d i"
    and chunks_put: "inv d \<Longrightarrow> set (chunks (put_chunk c d) i) =
          (if i = kTransferID c
           then insert (c\<lparr>kUpdatedAt := trunc_ms (kUpdatedAt c)\<rparr>)
                  {k \<in> set (chunks d i). chunk_key_of k \<noteq> chunk_key_of c}
           else set (chunks d i))"
    and chunks_distinct: "inv d \<Longrightarrow> distinct (map chunk_key_of (chunks d i))"
begin

definition status_at :: "'d \<Rightarrow> string \<Rightarrow> status option" where
  "status_at d i = map_option tStatus (find d i)"

lemma status_at_save: "inv d \<Longrightarrow> status_at (save t d) i =
    (if i = tID t then Some (tStatus t) else status_at d i)"
  by (simp add: status_at_def find_save)

lemma inv_saves: "inv d \<Longrightarrow> inv (fold save ts d)"
  by (induction ts arbitrary: d) (simp_all add: inv_save)

text \<open>A run of saves: untouched records stay, and the last save of an identifier decides.\<close>

lemma find_saves_other: "inv d \<Longrightarrow> i \<notin> tID ` set ts \<Longrightarrow> find (fold save ts d) i = find d i"
  by (induction ts arbitrary: d) (simp_all add: inv_save find_save)

lemma status_saves:
  "inv d \<Longrightarrow> status_at (fold save ts d) i =
    (case find_first (\<lambda>t. tID t = i) (rev ts) of None \<Rightarrow> status_at d i | Some t \<Rightarrow> Some (tStatus t))"
proof (induction ts rule: rev_induct)
  case (snoc t ts)
  then show ?case by (simp add: status_at_save inv_saves)
qed simp

lemma find_save_same: "inv d \<Longrightarrow> find (save t d) (tID t) = Some (persist (find d (tID t)) t)"
  by (simp add: find_save)

lemma purge_keeps_live: "inv d \<Longrightarrow> find d i = Some t \<Longrightarrow> \<not> finished_status (tStatus t) \<Longrightarrow>
    find (purge d) i = Some t"
  by (simp add: find_purge)

lemma purge_no_finished: "inv d \<Longrightarrow> status_at (purge d) i = Some s \<Longrightarrow> \<not> finished_status s"
  by (auto simp: status_at_def find_purge split: option.splits if_splits)

text \<open>Saving a chunk again does not add one: the complete chunks of a file are a set of indices.\<close>

lemma put_chunk_key:
  "inv d \<Longrightarrow> chunk_key_of ` set (chunks (put_chunk c d) (kTransferID c)) =
     insert (chunk_key_of c) (chunk_key_of ` set (chunks d (kTransferID c)))"
  by (auto simp: chunks_put chunk_key_of_def)

lemma put_chunk_again:
  "inv d \<Longrightarrow> chunk_key_of c \<in> chunk_key_of ` set (chunks d (kTransferID c)) \<Longrightarrow>
   length (chunks (put_chunk c d) (kTransferID c)) = length (chunks d (kTransferID c))"
  using chunks_distinct [of d "kTransferID c"] chunks_distinct [of "put_chunk c d" "kTransferID c"]
    put_chunk_key [of d c] inv_put [of d c]
  by (metis distinct_card insert_absorb length_map set_map)

end

interpretation sqlite: transfer_store SaveTransfer lookup DeleteHistory SaveChunk ListChunks db_inv
proof
  fix d t c i
  show "db_inv d \<Longrightarrow> db_inv (SaveTransfer t d)" by (rule db_inv_save)
  show "db_inv d \<Longrightarrow> db_inv (DeleteHistory d)" by (rule db_inv_purge)
  show "db_inv d \<Longrightarrow> db_inv (SaveChunk c d)" by (rule db_inv_chunk)
  show "lookup d i = Some t \<Longrightarrow> tID t = i" by (rule lookup_id)
  show "db_inv d \<Longrightarrow> lookup (SaveTransfer t d) i =
      (if i = tID t then Some (persist (lookup d i) t) else lookup d i)" by (rule lookup_save)
  show "db_inv d \<Longrightarrow> lookup (DeleteHistory d) i =
      (case lookup d i of None \<Rightarrow> None
       | Some t \<Rightarrow> if finished_status (tStatus t) then None else Some t)" by (rule lookup_purge)
  show "lookup (SaveChunk c d) i = lookup d i" by simp
  show "ListChunks (SaveTransfer t d) i = ListChunks d i" by simp
  show "db_inv d \<Longrightarrow> set (ListChunks (SaveChunk c d) i) =
      (if i = kTransferID c
       then insert (c\<lparr>kUpdatedAt := trunc_ms (kUpdatedAt c)\<rparr>)
              {k \<in> set (ListChunks d i). chunk_key_of k \<noteq> chunk_key_of c}
       else set (ListChunks d i))" by (rule ListChunks_put)
  show "db_inv d \<Longrightarrow> distinct (map chunk_key_of (ListChunks d i))" by (rule ListChunks_distinct)
qed

section \<open>Properties\<close>



text \<open>C13: the four mirror tables follow the status column. Every sequence of saves and history
  purges, from the empty database, leaves in \<open>transfer_queue\<close>, \<open>transfer_history\<close>,
  \<open>failed_transfers\<close> and \<open>paused_transfers\<close> exactly the transfers whose status puts them there,
  and no identifier twice.\<close>

datatype store_op = OpSave transfer | OpPurge | OpChunk chunk

fun run_op :: "store_op \<Rightarrow> tdb \<Rightarrow> tdb" where
  "run_op (OpSave t) d = SaveTransfer t d"
| "run_op OpPurge d = DeleteHistory d"
| "run_op (OpChunk c) d = SaveChunk c d"

theorem store_mirrors: "mirrors_ok (fold run_op ops empty_db) \<and> db_inv (fold run_op ops empty_db)"
proof -
  have "db_inv (run_op x d)" if "db_inv d" for x d
    using that by (cases x) (simp_all add: db_inv_save db_inv_purge db_inv_chunk)
  then have "db_inv (fold run_op ops d)" if "db_inv d" for d
    using that by (induction ops arbitrary: d) simp_all
  then show ?thesis using db_inv_empty by (auto simp: db_inv_def)
qed

end
