(* ===== verification/SafePath.thy ===== *)
theory SafePath
  imports TransferModels
begin

text \<open>
  The lexical path functions of \<open>path/filepath\<close> on Unix, where the separator is the slash
  and volume names are empty, and over them the path checks of
  \<open>backend/internal/transfer/files.go\<close>: \<open>validateRelativePath\<close>, \<open>secureJoin\<close> and
  \<open>isWindowsReservedName\<close>.
\<close>

section \<open>Package filepath\<close>

abbreviation slash :: char where
  "slash \<equiv> CHR ''/''"

abbreviation join_slash :: "string list \<Rightarrow> string" where
  "join_slash ps \<equiv> join_with [slash] ps"

definition is_abs :: "string \<Rightarrow> bool" where
  "is_abs p \<longleftrightarrow> prefix [slash] p"

text \<open>\<open>Clean\<close>, one path element at a time; the stack holds the elements kept so far, last first.\<close>

definition clean_step :: "bool \<Rightarrow> string list \<Rightarrow> string \<Rightarrow> string list" where
  "clean_step rooted st e =
     (if e = [] \<or> e = ''.'' then st
      else if e = ''..'' then
        (case st of [] \<Rightarrow> if rooted then [] else [e]
         | x # xs \<Rightarrow> if x = ''..'' then e # st else xs)
      else e # st)"

definition clean_elems :: "string \<Rightarrow> string list" where
  "clean_elems p = rev (foldl (clean_step (is_abs p)) [] (split_on slash p))"

definition clean :: "string \<Rightarrow> string" where
  "clean p =
     (if is_abs p then slash # join_slash (clean_elems p)
      else if clean_elems p = [] then ''.'' else join_slash (clean_elems p))"

definition path_join :: "string list \<Rightarrow> string" where
  "path_join es = (case dropWhile (\<lambda>e. e = []) es of [] \<Rightarrow> [] | es' \<Rightarrow> clean (join_slash es'))"

definition path_dir :: "string \<Rightarrow> string" where
  "path_dir p = clean (rev (dropWhile (\<lambda>c. c \<noteq> slash) (rev p)))"

definition path_base :: "string \<Rightarrow> string" where
  "path_base p =
     (if p = [] then ''.''
      else let q = rev (dropWhile (\<lambda>c. c = slash) (rev p))
           in if q = [] then [slash] else rev (takeWhile (\<lambda>c. c \<noteq> slash) (rev q)))"

definition path_ext :: "string \<Rightarrow> string" where
  "path_ext p =
     (let e = last (split_on slash p)
      in if CHR ''.'' \<in> set e
         then CHR ''.'' # rev (takeWhile (\<lambda>c. c \<noteq> CHR ''.'') (rev e)) else [])"

text \<open>\<open>Abs\<close>; the argument \<open>cwd\<close> is the working directory, \<open>None\<close> where \<open>os.Getwd\<close> fails.\<close>

definition path_abs :: "string option \<Rightarrow> string \<Rightarrow> string option" where
  "path_abs cwd p = (if is_abs p then Some (clean p) else map_option (\<lambda>d. path_join [d, p]) cwd)"

fun strip_common :: "string list \<Rightarrow> string list \<Rightarrow> string list \<times> string list" where
  "strip_common (x # xs) (y # ys) = (if x = y then strip_common xs ys else (x # xs, y # ys))"
| "strip_common xs ys = (xs, ys)"

text \<open>\<open>Rel\<close> of two absolute paths, the only ones the program passes.\<close>

definition path_rel :: "string \<Rightarrow> string \<Rightarrow> string option" where
  "path_rel base targ =
     (if is_abs base \<and> is_abs targ then
        if clean base = clean targ then Some ''.''
        else (case strip_common (clean_elems base) (clean_elems targ) of
                (b, t) \<Rightarrow> Some (join_slash (replicate (length b) ''..'' @ t)))
      else None)"

section \<open>Path elements\<close>

definition normal_elem :: "string \<Rightarrow> bool" where
  "normal_elem e \<longleftrightarrow> e \<noteq> [] \<and> e \<noteq> ''.'' \<and> e \<noteq> ''..'' \<and> slash \<notin> set e"

definition abs_path :: "string list \<Rightarrow> string" where
  "abs_path es = slash # join_slash es"

lemma is_abs_abs_path [simp]: "is_abs (abs_path es)"
  by (simp add: is_abs_def abs_path_def)

lemma clean_step_normal [simp]: "normal_elem e \<Longrightarrow> clean_step r st e = e # st"
  by (simp add: clean_step_def normal_elem_def)

lemma clean_step_empty [simp]: "clean_step r st [] = st"
  by (simp add: clean_step_def)

definition normal_elems :: "string list \<Rightarrow> bool" where
  "normal_elems es \<longleftrightarrow> list_all normal_elem es"

lemma normal_elems_simps [simp]:
  "normal_elems []"
  "normal_elems (e # es) \<longleftrightarrow> normal_elem e \<and> normal_elems es"
  "normal_elems (xs @ ys) \<longleftrightarrow> normal_elems xs \<and> normal_elems ys"
  "normal_elems (rev xs) \<longleftrightarrow> normal_elems xs"
  by (auto simp: normal_elems_def)

lemma normal_elems_iff: "normal_elems es \<longleftrightarrow> (\<forall>e \<in> set es. normal_elem e)"
  by (simp add: normal_elems_def list_all_iff)

lemma foldl_clean_normal: "normal_elems es \<Longrightarrow> foldl (clean_step r) st es = rev es @ st"
  by (induction es arbitrary: st) simp_all

lemma clean_step_rooted: "normal_elems st \<Longrightarrow> slash \<notin> set e \<Longrightarrow> normal_elems (clean_step True st e)"
  by (cases st) (simp_all add: clean_step_def normal_elem_def)

lemma foldl_clean_rooted:
  "normal_elems st \<Longrightarrow> \<forall>e \<in> set es. slash \<notin> set e \<Longrightarrow> normal_elems (foldl (clean_step True) st es)"
  by (induction es arbitrary: st) (simp_all add: clean_step_rooted)

lemma clean_elems_normal: "is_abs p \<Longrightarrow> normal_elems (clean_elems p)"
  using foldl_clean_rooted [of "[]" "split_on slash p"] split_on_parts
  by (auto simp: clean_elems_def)

lemma clean_abs: "is_abs p \<Longrightarrow> clean p = abs_path (clean_elems p)"
  by (simp add: clean_def abs_path_def)

lemma normal_no_slash: "normal_elem e \<Longrightarrow> slash \<notin> set e"
  by (simp add: normal_elem_def)

lemma split_join_normal: "es \<noteq> [] \<Longrightarrow> normal_elems es \<Longrightarrow> split_on slash (join_slash es) = es"
  by (rule split_join) (auto simp: normal_elems_iff dest: normal_no_slash)

lemma clean_elems_abs_path: "normal_elems es \<Longrightarrow> clean_elems (abs_path es) = es"
  by (cases "es = []")
     (simp_all add: clean_elems_def abs_path_def is_abs_def split_join_normal foldl_clean_normal)

lemma clean_abs_path: "normal_elems es \<Longrightarrow> clean (abs_path es) = abs_path es"
  using clean_elems_abs_path [of es] by (simp add: clean_abs)

lemma abs_path_inject: "normal_elems xs \<Longrightarrow> normal_elems ys \<Longrightarrow> abs_path xs = abs_path ys \<Longrightarrow> xs = ys"
  using clean_elems_abs_path [of xs] clean_elems_abs_path [of ys] by metis

lemma path_abs_of_abs:
  assumes "is_abs d" "path_abs (Some d) p = Some r"
  shows "\<exists>es. r = abs_path es \<and> normal_elems es"
proof (cases "is_abs p")
  case True
  then show ?thesis
    using assms(2) clean_elems_normal [of p] by (auto simp: path_abs_def clean_abs)
next
  case False
  have d: "d \<noteq> []" "prefix [slash] d" using assms(1) by (auto simp: is_abs_def)
  then have "is_abs (d @ slash # p)" by (auto simp: is_abs_def prefix_def)
  with False d assms(2) show ?thesis
    using clean_elems_normal [of "d @ slash # p"]
    by (auto simp: path_abs_def path_join_def clean_abs)
qed

text \<open>Joining a relative path of normal elements to a clean absolute directory.\<close>

lemma path_join_below:
  assumes ds: "normal_elems ds" and es: "es \<noteq> []" "normal_elems es"
  shows "path_join [abs_path ds, join_slash es] = abs_path (ds @ es)"
proof -
  let ?p = "abs_path ds @ slash # join_slash es"
  have abs: "is_abs ?p"
    by (simp add: is_abs_def abs_path_def)
  have sp: "split_on slash ?p = [] # (if ds = [] then [[]] else ds) @ es"
  proof (cases "ds = []")
    case True
    then show ?thesis using es by (simp add: abs_path_def split_join_normal)
  next
    case False
    have "join_slash ds @ slash # join_slash es = join_slash (ds @ es)"
      using join_with_append [OF False es(1), of "[slash]"] by simp
    then show ?thesis
      using False es ds split_join_normal [of "ds @ es"] by (simp add: abs_path_def)
  qed
  have "clean_elems ?p = ds @ es"
    unfolding clean_elems_def abs sp using ds es(2) by (cases "ds = []") (simp_all add: foldl_clean_normal)
  then show ?thesis
    using abs by (simp add: path_join_def clean_abs abs_path_def)
qed

lemma strip_common_append [simp]: "strip_common ds (ds @ es) = ([], es)"
  by (induction ds) (cases es, auto)

lemma path_rel_below:
  assumes "normal_elems ds" "es \<noteq> []" "normal_elems es"
  shows "path_rel (abs_path ds) (abs_path (ds @ es)) = Some (join_slash es)"
proof -
  have "abs_path ds \<noteq> abs_path (ds @ es)"
    using abs_path_inject [of ds "ds @ es"] assms by auto
  then show ?thesis
    using assms by (simp add: path_rel_def clean_abs_path clean_elems_abs_path)
qed

section \<open>The path checks of files.go\<close>

text \<open>
  The reserved names are ASCII, and no character above 127 has an upper-case form among
  their letters, so the ASCII case of \<open>strings.ToUpper\<close> decides the comparison.
\<close>

definition reserved_names :: "string list" where
  "reserved_names =
     [''CON'', ''PRN'', ''AUX'', ''NUL'', ''COM1'', ''COM2'', ''COM3'', ''COM4'', ''COM5'', ''COM6'',
      ''COM7'', ''COM8'', ''COM9'', ''LPT1'', ''LPT2'', ''LPT3'', ''LPT4'', ''LPT5'', ''LPT6'',
      ''LPT7'', ''LPT8'', ''LPT9'']"

definition isWindowsReservedName :: "string \<Rightarrow> bool" where
  "isWindowsReservedName name =
     (let base = map upper_ascii (trim_suffix name (path_ext name))
      in base \<in> set reserved_names \<or> has_suffix name ''.'' \<or> has_suffix name '' '')"

definition validateRelativePath :: "string \<Rightarrow> terr + unit" where
  "validateRelativePath value =
     (if value = [] \<or> CHR 0x00 \<in> set value \<or> str_contains value [CHR 0x5C] \<or> has_prefix value [slash]
      then Inl (plain ErrPathTraversal)
      else let cl = clean value in
        if cl = ''.'' \<or> cl = ''..'' \<or> has_prefix cl ''../'' \<or> cl \<noteq> value \<or> is_abs value
        then Inl (plain ErrPathTraversal)
        else if list_ex (\<lambda>part. part = [] \<or> part = ''.'' \<or> part = ''..'' \<or> isWindowsReservedName part)
                  (split_on slash value)
        then Inl (plain ErrPathTraversal)
        else Inr ())"

definition secureJoin :: "string option \<Rightarrow> string \<Rightarrow> string \<Rightarrow> terr + string" where
  "secureJoin cwd root relative =
     (case validateRelativePath relative of
        Inl e \<Rightarrow> Inl e
      | Inr _ \<Rightarrow>
          (case path_abs cwd root of
             None \<Rightarrow> Inl (other ''getwd'')
           | Some rootAbs \<Rightarrow>
               (case path_abs cwd (path_join [rootAbs, relative]) of
                  None \<Rightarrow> Inl (other ''getwd'')
                | Some targetAbs \<Rightarrow>
                    (case path_rel rootAbs targetAbs of
                       None \<Rightarrow> Inl (other ''Rel: can't make path relative'')
                     | Some rel \<Rightarrow>
                         if rel = ''..'' \<or> has_prefix rel ''../'' then Inl (plain ErrPathTraversal)
                         else Inr targetAbs))))"

lemma validateRelativePath_elems:
  assumes "validateRelativePath p = Inr u"
  shows "normal_elems (split_on slash p)"
    and "\<forall>e \<in> set (split_on slash p). \<not> isWindowsReservedName e"
  using assms split_on_parts [of _ slash p]
  by (auto simp: validateRelativePath_def Let_def normal_elem_def normal_elems_iff list_ex_iff
      split: if_splits)

text \<open>
  A path that passes the check is put below the root, one element at a time, and the
  final comparison with the root never rejects it.
\<close>

lemma normal_first_elem:
  assumes "normal_elems (split_on slash rel)"
  shows "rel \<noteq> ''..''" and "\<not> has_prefix rel ''../''"
proof -
  have hd: "hd (split_on slash rel) \<noteq> ''..''"
    using assms by (cases "split_on slash rel") (simp_all add: normal_elem_def)
  then show "rel \<noteq> ''..''" by auto
  show "\<not> has_prefix rel ''../''"
    using hd split_on_append [of slash "''..''"] by (auto simp: has_prefix_def prefix_def)
qed

lemma secureJoin_below:
  assumes v: "validateRelativePath rel = Inr u" and es: "normal_elems es"
    and r: "path_abs cwd root = Some (abs_path es)"
  shows "secureJoin cwd root rel = Inr (abs_path (es @ split_on slash rel))"
proof -
  let ?ps = "split_on slash rel"
  have ps: "normal_elems ?ps" using validateRelativePath_elems [OF v] by simp
  then have "path_join [abs_path es, rel] = abs_path (es @ ?ps)"
    using path_join_below [of es ?ps] es by simp
  moreover have "path_abs cwd (abs_path (es @ ?ps)) = Some (abs_path (es @ ?ps))"
    using es ps by (simp add: path_abs_def clean_abs_path)
  moreover have "path_rel (abs_path es) (abs_path (es @ ?ps)) = Some rel"
    using path_rel_below [of es ?ps] es ps by simp
  ultimately show ?thesis
    using normal_first_elem [OF ps] by (simp add: secureJoin_def v r)
qed

lemma secureJoin_InrD:
  assumes "secureJoin cwd root rel = Inr p"
  shows "validateRelativePath rel = Inr ()"
  using assms by (auto simp: secureJoin_def split: sum.splits)

section \<open>Properties\<close>

lemma path_abs_clean:
  assumes "is_abs root \<or> is_abs c" "path_abs (Some c) root = Some base"
  shows "base = abs_path (clean_elems base) \<and> normal_elems (clean_elems base)"
proof -
  have "\<exists>es. base = abs_path es \<and> normal_elems es"
  proof (cases "is_abs c")
    case True
    then show ?thesis using path_abs_of_abs assms(2) by blast
  next
    case False
    then have "is_abs root" "is_abs (clean root)" using assms(1) by (simp_all add: clean_abs)
    then show ?thesis using path_abs_of_abs [of "clean root" root base] assms(2) by (simp add: path_abs_def)
  qed
  then show ?thesis by (auto simp: clean_elems_abs_path)
qed

text \<open>C4: a path \<open>secureJoin\<close> returns lies strictly below the root it was given. It is clean and
  absolute, its elements are those of the absolute root followed by those of the relative
  path, and none of the latter is empty, \<open>.\<close>, \<open>..\<close> or a reserved Windows name. So no
  relative path that a peer sends can name a file outside the destination directory.\<close>

theorem secureJoin_contained:
  assumes "secureJoin (Some c) root rel = Inr p" and "is_abs root \<or> is_abs c"
  shows "\<exists>base. path_abs (Some c) root = Some base \<and> clean p = p \<and> is_abs p \<and>
    clean_elems p = clean_elems base @ split_on slash rel \<and> normal_elems (clean_elems p) \<and>
    (\<forall>e \<in> set (split_on slash rel). \<not> isWindowsReservedName e)"
proof -
  obtain base where b: "path_abs (Some c) root = Some base"
    using assms(1) by (auto simp: secureJoin_def split: sum.splits option.splits)
  note bc = path_abs_clean [OF assms(2) b]
  have v: "validateRelativePath rel = Inr ()" using secureJoin_InrD [OF assms(1)] .
  have "p = abs_path (clean_elems base @ split_on slash rel)"
    using secureJoin_below [OF v, of "clean_elems base" "Some c" root] bc b assms(1) by simp
  then show ?thesis
    using b bc validateRelativePath_elems [OF v] by (simp add: clean_abs_path clean_elems_abs_path)
qed

theorem secureJoin_contained_witness:
  "secureJoin (Some ''/home'') ''/data/in'' ''docs/a.txt'' = Inr ''/data/in/docs/a.txt'' \<and>
   (\<exists>base. path_abs (Some ''/home'') ''/data/in'' = Some base \<and>
      clean_elems ''/data/in/docs/a.txt'' = clean_elems base @ split_on slash ''docs/a.txt'')"
proof -
  have "secureJoin (Some ''/home'') ''/data/in'' ''docs/a.txt'' = Inr ''/data/in/docs/a.txt''"
    by code_simp
  moreover have "is_abs ''/data/in''" by code_simp
  ultimately show ?thesis
    using secureJoin_contained [of "''/home''" "''/data/in''" "''docs/a.txt''" "''/data/in/docs/a.txt''"]
    by blast
qed

end
