(* ===== verification/FileSystem.thy ===== *)
theory FileSystem
  imports SafePath
begin

text \<open>
  The calls of package \<open>os\<close> the transfer engine makes, on a model of the host's file
  system: a finite map from clean absolute paths to nodes. A symbolic link and a special
  file are nodes the program can meet and refuse; a call that would have to follow a link
  fails here. Each call returns the error class the code tests with \<open>errors.Is\<close>.
\<close>

datatype node = NDir | NFile string | NLink | NSpecial

type_synonym fsys = "string \<rightharpoonup> node"

datatype os_error = OsNotExist | OsExist | OsOther string

fun os_text :: "os_error \<Rightarrow> string" where
  "os_text OsNotExist = ''file does not exist''"
| "os_text OsExist = ''file already exists''"
| "os_text (OsOther s) = s"

definition os_terr :: "os_error \<Rightarrow> terr" where
  "os_terr e = other (os_text e)"

definition ancestors :: "string \<Rightarrow> string list" where
  "ancestors p = map abs_path (prefixes (clean_elems p))"

definition below :: "string \<Rightarrow> string \<Rightarrow> bool" where
  "below d p \<longleftrightarrow> prefix (d @ [slash]) p"

section \<open>Calls\<close>

definition os_lstat :: "fsys \<Rightarrow> string \<Rightarrow> os_error + node" where
  "os_lstat fs p = (case fs p of None \<Rightarrow> Inl OsNotExist | Some n \<Rightarrow> Inr n)"

definition os_mkdir_all :: "string \<Rightarrow> fsys \<Rightarrow> os_error + fsys" where
  "os_mkdir_all p fs =
     (if list_all (\<lambda>q. fs q = None \<or> fs q = Some NDir) (ancestors p)
      then Inr (\<lambda>q. if fs q = None \<and> q \<in> set (ancestors p) then Some NDir else fs q)
      else Inl (OsOther ''not a directory''))"

definition has_parent :: "fsys \<Rightarrow> string \<Rightarrow> bool" where
  "has_parent fs p \<longleftrightarrow> fs (path_dir p) = Some NDir"

text \<open>\<open>os.OpenFile\<close> for writing: with \<open>O_CREATE\<close>, \<open>O_CREATE|O_EXCL\<close> and \<open>O_CREATE|O_TRUNC\<close>.\<close>

definition os_open_create :: "string \<Rightarrow> fsys \<Rightarrow> os_error + fsys" where
  "os_open_create p fs =
     (case fs p of
        None \<Rightarrow> if has_parent fs p then Inr (fs(p \<mapsto> NFile [])) else Inl OsNotExist
      | Some (NFile c) \<Rightarrow> Inr fs
      | Some _ \<Rightarrow> Inl (OsOther ''is not a regular file''))"

definition os_open_excl :: "string \<Rightarrow> fsys \<Rightarrow> os_error + fsys" where
  "os_open_excl p fs =
     (if fs p \<noteq> None then Inl OsExist
      else if has_parent fs p then Inr (fs(p \<mapsto> NFile [])) else Inl OsNotExist)"

definition os_open_trunc :: "string \<Rightarrow> fsys \<Rightarrow> os_error + fsys" where
  "os_open_trunc p fs =
     (case os_open_create p fs of Inl e \<Rightarrow> Inl e | Inr fs' \<Rightarrow> Inr (fs'(p \<mapsto> NFile [])))"

definition write_bytes :: "string \<Rightarrow> nat \<Rightarrow> string \<Rightarrow> string" where
  "write_bytes c off d =
     take off (c @ replicate (off - length c) (CHR 0x00)) @ d @ drop (off + length d) c"

definition os_write_at :: "string \<Rightarrow> int \<Rightarrow> string \<Rightarrow> fsys \<Rightarrow> os_error + fsys" where
  "os_write_at p off d fs =
     (case fs p of
        Some (NFile c) \<Rightarrow>
          if off < 0 then Inl (OsOther ''negative offset'')
          else Inr (fs(p \<mapsto> NFile (write_bytes c (nat off) d)))
      | _ \<Rightarrow> Inl (OsOther ''bad file descriptor''))"

definition os_read_file :: "fsys \<Rightarrow> string \<Rightarrow> os_error + string" where
  "os_read_file fs p =
     (case fs p of
        None \<Rightarrow> Inl OsNotExist
      | Some (NFile c) \<Rightarrow> Inr c
      | Some _ \<Rightarrow> Inl (OsOther ''is a directory''))"

text \<open>\<open>os.Remove\<close> of something that is no directory, the only use the program makes of it.\<close>

definition os_remove :: "string \<Rightarrow> fsys \<Rightarrow> os_error + fsys" where
  "os_remove p fs =
     (case fs p of
        None \<Rightarrow> Inl OsNotExist
      | Some NDir \<Rightarrow> Inl (OsOther ''directory not empty'')
      | Some _ \<Rightarrow> Inr (fs(p := None)))"

definition os_remove_all :: "string \<Rightarrow> fsys \<Rightarrow> fsys" where
  "os_remove_all p fs = (\<lambda>q. if q = p \<or> below p q then None else fs q)"

text \<open>\<open>os.Rename\<close> moves a file, or a directory with everything below it.\<close>

definition move_tree :: "string \<Rightarrow> string \<Rightarrow> fsys \<Rightarrow> fsys" where
  "move_tree a b fs =
     (\<lambda>q. if q = b then fs a
          else if below b q then fs (a @ drop (length b) q)
          else if q = a \<or> below a q then None else fs q)"

definition os_rename :: "string \<Rightarrow> string \<Rightarrow> fsys \<Rightarrow> os_error + fsys" where
  "os_rename a b fs =
     (case fs a of
        None \<Rightarrow> Inl OsNotExist
      | Some NDir \<Rightarrow>
          if \<not> has_parent fs b then Inl OsNotExist
          else if fs b \<noteq> None then Inl OsExist
          else if below a b then Inl (OsOther ''invalid argument'')
          else Inr (move_tree a b fs)
      | Some n \<Rightarrow>
          if \<not> has_parent fs b then Inl OsNotExist
          else if fs b = Some NDir then Inl OsExist
          else if a = b then Inr fs
          else Inr (fs(a := None, b \<mapsto> n)))"

section \<open>Laws\<close>

lemma length_write_bytes: "length (write_bytes c off d) = max (length c) (off + length d)"
  by (simp add: write_bytes_def)

lemma write_bytes_read: "take (length d) (drop off (write_bytes c off d)) = d"
  by (simp add: write_bytes_def)

lemma write_bytes_nth_other:
  assumes "i < length c" "i < off \<or> off + length d \<le> i"
  shows "write_bytes c off d ! i = c ! i"
  using assms by (auto simp: write_bytes_def nth_append min_def)

lemma mkdir_all_same: "os_mkdir_all p fs = Inr fs' \<Longrightarrow> fs q \<noteq> None \<Longrightarrow> fs' q = fs q"
  by (auto simp: os_mkdir_all_def split: if_splits)

lemma mkdir_all_new: "os_mkdir_all p fs = Inr fs' \<Longrightarrow> fs' q \<noteq> fs q \<Longrightarrow> fs' q = Some NDir \<and> fs q = None"
  by (auto simp: os_mkdir_all_def split: if_splits)

lemma mkdir_all_file: "os_mkdir_all p fs = Inr fs' \<Longrightarrow> fs' q = Some (NFile c) \<longleftrightarrow> fs q = Some (NFile c)"
  using mkdir_all_new [of p fs fs' q] by fastforce

lemma mkdir_all_existing: "list_all (\<lambda>q. fs q = Some NDir) (ancestors p) \<Longrightarrow> os_mkdir_all p fs = Inr fs"
  by (auto simp: os_mkdir_all_def list_all_iff fun_eq_iff)

lemma open_create_other: "os_open_create p fs = Inr fs' \<Longrightarrow> q \<noteq> p \<Longrightarrow> fs' q = fs q"
  by (auto simp: os_open_create_def split: option.splits node.splits if_splits)

lemma write_at_other: "os_write_at p off d fs = Inr fs' \<Longrightarrow> q \<noteq> p \<Longrightarrow> fs' q = fs q"
  by (auto simp: os_write_at_def split: option.splits node.splits if_splits)

lemma rename_file_other:
  "os_rename a b fs = Inr fs' \<Longrightarrow> fs a \<noteq> Some NDir \<Longrightarrow> q \<noteq> a \<Longrightarrow> q \<noteq> b \<Longrightarrow> fs' q = fs q"
  by (auto simp: os_rename_def split: option.splits node.splits if_splits)

lemma rename_file_target:
  "os_rename a b fs = Inr fs' \<Longrightarrow> fs a = Some (NFile c) \<Longrightarrow> fs' b = Some (NFile c)"
  by (auto simp: os_rename_def split: if_splits)

lemma ancestors_self: "is_abs p \<Longrightarrow> clean p \<in> set (ancestors p)"
  by (simp add: ancestors_def clean_abs image_iff) (metis in_set_prefixes prefix_order.refl)

end
