(* ===== verification/TransferWorld.thy ===== *)
theory TransferWorld
  imports TransferStore FileSystem "HOL-Library.AList"
begin

text \<open>
  The state of \<open>transfer.Service\<close> and everything outside it that its methods read.

  \<open>host\<close> collects what is not code of the repository: hash functions, the UUID parser, the
  JSON encoder, gzip, the clock, random bytes, free storage, the other components as the
  service sees them through its interfaces, and the failures that the database, the disk
  and the network may report at any call. What changes from call to call is a function of
  \<open>wTick\<close>, a count of the external calls made so far, so that a theorem for all hosts is a
  theorem for every behaviour over time.
\<close>

section \<open>Outside the program\<close>

datatype fault = FaultCanceled | FaultIO string

fun fault_err :: "fault \<Rightarrow> terr" where
  "fault_err FaultCanceled = plain ErrCanceled"
| "fault_err (FaultIO m) = other m"

fun fault_os :: "fault \<Rightarrow> os_error" where
  "fault_os FaultCanceled = OsOther ''context canceled''"
| "fault_os (FaultIO m) = OsOther m"

text \<open>A request body: the bytes it delivers, and whether it then ends or breaks off with an error.\<close>

record body =
  bBytes :: string
  bBroken :: bool

text \<open>
  \<open>hsCerts\<close> are the certificates of the peer's TLS endpoint: for each its Ed25519 key, \<open>None\<close>
  where the certificate carries a key of another kind.
\<close>

record http_request =
  hqMethod :: string
  hqURL :: string
  hqDevice :: string
  hqHeaders :: "(string \<times> string) list"
  hqBody :: string

record http_response =
  hsCerts :: "string option list"
  hsCode :: int
  hsStatus :: string
  hsBody :: string

record host =
  hUuidOk :: "string \<Rightarrow> bool"
  hSha256 :: "string \<Rightarrow> string"
  hHmac :: "string \<Rightarrow> string \<Rightarrow> string"
  hLower :: "string \<Rightarrow> string"
  hCwd :: "string option"
  hGunzip :: "string \<Rightarrow> bool \<Rightarrow> (string \<times> bool) option"
  hGzip :: "string \<Rightarrow> string"
  hMime :: "string \<Rightarrow> string"
  hSpeed :: "int \<Rightarrow> int \<Rightarrow> int"
  hOfferJson :: "offer \<Rightarrow> terr + string"
  hOfferResponse :: "string \<Rightarrow> terr + offer_response"
  hResumeMap :: "string \<Rightarrow> terr + resume_map"
  hTransfer :: "string \<Rightarrow> terr + transfer"
  hNow :: "nat \<Rightarrow> time"
  hUuid :: "nat \<Rightarrow> string"
  hRand :: "nat \<Rightarrow> nat \<Rightarrow> terr + string"
  hFault :: "nat \<Rightarrow> fault option"
  hShort :: "nat \<Rightarrow> nat"
  hAvail :: "nat \<Rightarrow> string \<Rightarrow> int"
  hPaths :: "nat \<Rightarrow> string list"
  hDevices :: "nat \<Rightarrow> device list"
  hTrusted :: "nat \<Rightarrow> string \<Rightarrow> terr + bool"
  hSharedKey :: "nat \<Rightarrow> string \<Rightarrow> terr + string"
  hPublicKey :: "nat \<Rightarrow> string \<Rightarrow> terr + string"
  hHttp :: "nat \<Rightarrow> http_request \<Rightarrow> terr + http_response"

text \<open>
  \<open>hPaths\<close> lists, for the calls that enumerate a directory, paths among which those of the
  current tree are found.
\<close>

text \<open>The fields of \<open>Service\<close> that never change after \<open>NewService\<close>, over the host.\<close>

record service = host +
  sDataDirectory :: string
  sPeerScheme :: string
  sMaxConcurrent :: int
  sChunkWorkers :: int
  sChunkSize :: int

section \<open>The state\<close>

record sender_identity =
  iID :: string
  iName :: string
  iHostname :: string
  iPlatform :: string

text \<open>
  \<open>wActive\<close> maps a transfer to the context its worker runs under, without repetition;
  \<open>wWorkers\<close> are the goroutines running \<open>processOutbound\<close>, and \<open>wCancelled\<close> the contexts whose
  cancel function was called. \<open>wWake\<close> is the one-slot wake channel, \<open>wEvents\<close>
  what was published, newest first. \<open>wMtime\<close> are the modification times \<open>os.Chtimes\<close> set.
\<close>

record tworld =
  wDb :: tdb
  wFs :: fsys
  wActive :: "(string \<times> nat) list"
  wWorkers :: "(string \<times> nat) list"
  wCancelled :: "nat list"
  wNextCtx :: nat
  wWake :: bool
  wNonces :: "string \<rightharpoonup> time"
  wThrottle :: int
  wStaging :: "string \<rightharpoonup> int"
  wMtime :: "string \<rightharpoonup> time"
  wEvents :: "event list"
  wIdentity :: sender_identity
  wPinned :: "string \<rightharpoonup> string"
  wTick :: nat

type_synonym 'a tm = "(tworld, terr, 'a) gom"

definition bump :: "tworld \<Rightarrow> tworld" where
  "bump w = w\<lparr>wTick := Suc (wTick w)\<rparr>"

lemma bump_simps [simp]:
  "wDb (bump w) = wDb w" "wFs (bump w) = wFs w" "wActive (bump w) = wActive w"
  "wWorkers (bump w) = wWorkers w"
  "wCancelled (bump w) = wCancelled w" "wNextCtx (bump w) = wNextCtx w" "wWake (bump w) = wWake w"
  "wNonces (bump w) = wNonces w" "wThrottle (bump w) = wThrottle w" "wStaging (bump w) = wStaging w"
  "wMtime (bump w) = wMtime w" "wEvents (bump w) = wEvents w" "wIdentity (bump w) = wIdentity w"
  "wPinned (bump w) = wPinned w" "wTick (bump w) = Suc (wTick w)"
  by (simp_all add: bump_def)

section \<open>Calls to the outside\<close>

text \<open>\<open>outside f\<close> reads the external function \<open>f\<close> at the current tick.\<close>

definition outside :: "(nat \<Rightarrow> 'a) \<Rightarrow> (tworld, 'e, 'a) gom" where
  "outside f = (\<lambda>w. (Inr (f (wTick w)), bump w))"

definition outsideE :: "(nat \<Rightarrow> 'e + 'a) \<Rightarrow> (tworld, 'e, 'a) gom" where
  "outsideE f = (\<lambda>w. (f (wTick w), bump w))"

definition mapErrE :: "('e \<Rightarrow> 'f) \<Rightarrow> ('w, 'e, 'a) gom \<Rightarrow> ('w, 'f, 'a) gom" where
  "mapErrE g m = (\<lambda>w. case m w of (Inl e, w') \<Rightarrow> (Inl (g e), w') | (Inr a, w') \<Rightarrow> (Inr a, w'))"

definition now :: "('r) host_scheme \<Rightarrow> (tworld, 'e, time) gom" where
  "now E = outside (hNow E)"

text \<open>A database call: it fails as a whole with the fault of the moment, or runs as one transaction.\<close>

definition db_write :: "('r) host_scheme \<Rightarrow> (tdb \<Rightarrow> tdb) \<Rightarrow> unit tm" where
  "db_write E f = (\<lambda>w. case hFault E (wTick w) of
       Some e \<Rightarrow> (Inl (fault_err e), bump w)
     | None \<Rightarrow> (Inr (), (bump w)\<lparr>wDb := f (wDb w)\<rparr>))"

definition db_read :: "('r) host_scheme \<Rightarrow> (tdb \<Rightarrow> terr + 'a) \<Rightarrow> 'a tm" where
  "db_read E f = (\<lambda>w. case hFault E (wTick w) of
       Some e \<Rightarrow> (Inl (fault_err e), bump w)
     | None \<Rightarrow> (f (wDb w), bump w))"

definition saveTransfer :: "('r) host_scheme \<Rightarrow> transfer \<Rightarrow> unit tm" where
  "saveTransfer E t = db_write E (SaveTransfer t)"

definition getTransfer :: "('r) host_scheme \<Rightarrow> string \<Rightarrow> transfer tm" where
  "getTransfer E i = db_read E (\<lambda>d. GetTransfer d i)"

definition listTransfers :: "('r) host_scheme \<Rightarrow> transfer list tm" where
  "listTransfers E = db_read E (\<lambda>d. Inr (ListTransfers d))"

definition saveChunk :: "('r) host_scheme \<Rightarrow> chunk \<Rightarrow> unit tm" where
  "saveChunk E c = db_write E (SaveChunk c)"

definition listChunks :: "('r) host_scheme \<Rightarrow> string \<Rightarrow> chunk list tm" where
  "listChunks E i = db_read E (\<lambda>d. Inr (ListChunks d i))"

text \<open>
  A call of package \<open>os\<close>. A failing write may have written a part of its bytes; every
  other failing call leaves the tree as it was.
\<close>

definition fs_call :: "('r) host_scheme \<Rightarrow> (fsys \<Rightarrow> os_error + fsys) \<Rightarrow> (tworld, os_error, unit) gom" where
  "fs_call E f = (\<lambda>w. case hFault E (wTick w) of
       Some e \<Rightarrow> (Inl (fault_os e), bump w)
     | None \<Rightarrow> (case f (wFs w) of
           Inl e \<Rightarrow> (Inl e, bump w)
         | Inr fs \<Rightarrow> (Inr (), (bump w)\<lparr>wFs := fs\<rparr>)))"

definition fs_read :: "('r) host_scheme \<Rightarrow> (fsys \<Rightarrow> os_error + 'a) \<Rightarrow> (tworld, os_error, 'a) gom" where
  "fs_read E f = (\<lambda>w. case hFault E (wTick w) of
       Some e \<Rightarrow> (Inl (fault_os e), bump w)
     | None \<Rightarrow> (f (wFs w), bump w))"

definition fs_write :: "('r) host_scheme \<Rightarrow> string \<Rightarrow> int \<Rightarrow> string \<Rightarrow> (tworld, os_error, unit) gom" where
  "fs_write E p off d = (\<lambda>w. case hFault E (wTick w) of
       Some e \<Rightarrow> (Inl (fault_os e), (bump w)\<lparr>wFs :=
           (case os_write_at p off (take (hShort E (wTick w)) d) (wFs w) of
              Inl _ \<Rightarrow> wFs w | Inr fs \<Rightarrow> fs)\<rparr>)
     | None \<Rightarrow> (case os_write_at p off d (wFs w) of
           Inl e \<Rightarrow> (Inl e, bump w)
         | Inr fs \<Rightarrow> (Inr (), (bump w)\<lparr>wFs := fs\<rparr>)))"

definition osE :: "(tworld, os_error, 'a) gom \<Rightarrow> 'a tm" where
  "osE = mapErrE os_terr"

text \<open>\<open>logAndPublish\<close>, without the log: the event carries the time of publication.\<close>

definition logAndPublish :: "('r) host_scheme \<Rightarrow> event_type \<Rightarrow> transfer \<Rightarrow> unit tm" where
  "logAndPublish E k t = bindE (now E) (\<lambda>n. modE (\<lambda>w. w\<lparr>wEvents :=
       \<lparr>evType = k, evTransfer = t, evTimestamp = n\<rparr> # wEvents w\<rparr>))"

text \<open>\<open>signal\<close>: the wake channel holds one token; a second one is dropped.\<close>

definition signal :: "(tworld, 'e, unit) gom" where
  "signal = modE (\<lambda>w. w\<lparr>wWake := True\<rparr>)"

section \<open>What the calls leave alone\<close>

text \<open>
  \<open>db_stable\<close>, \<open>fs_stable\<close> and \<open>nonce_stable\<close> collect the computations that keep every predicate of the
  tables, of the file tree and of the used nonces.
\<close>

named_theorems db_stable
named_theorems fs_stable
named_theorems nonce_stable

lemma keeps_outside: "(\<And>w. I w \<Longrightarrow> I (bump w)) \<Longrightarrow> keeps I (outside f)"
  and keeps_outsideE: "(\<And>w. I w \<Longrightarrow> I (bump w)) \<Longrightarrow> keeps I (outsideE g)"
  and keeps_now: "(\<And>w. I w \<Longrightarrow> I (bump w)) \<Longrightarrow> keeps I (now E)"
  by (simp_all add: keeps_def outside_def outsideE_def now_def)

lemma keeps_mapErr [keeps_rules]: "keeps I m \<Longrightarrow> keeps I (mapErrE g m)"
  by (auto simp: keeps_def mapErrE_def split: prod.splits sum.splits)

lemma keeps_osE [keeps_rules]: "keeps I m \<Longrightarrow> keeps I (osE m)"
  by (simp add: osE_def keeps_mapErr)

lemma keeps_db_read: "(\<And>w. I w \<Longrightarrow> I (bump w)) \<Longrightarrow> keeps I (db_read E f)"
  by (auto simp: keeps_def db_read_def split: option.splits)

lemma keeps_fs_read: "(\<And>w. I w \<Longrightarrow> I (bump w)) \<Longrightarrow> keeps I (fs_read E f)"
  by (auto simp: keeps_def fs_read_def split: option.splits)

lemma keeps_db_write:
  "(\<And>w. I w \<Longrightarrow> I (bump w)) \<Longrightarrow> (\<And>w. I w \<Longrightarrow> I ((bump w)\<lparr>wDb := f (wDb w)\<rparr>)) \<Longrightarrow> keeps I (db_write E f)"
  by (auto simp: keeps_def db_write_def split: option.splits)

lemma keeps_publish:
  "(\<And>w. I w \<Longrightarrow> I (bump w)) \<Longrightarrow> (\<And>w es. I w \<Longrightarrow> I (w\<lparr>wEvents := es\<rparr>)) \<Longrightarrow> keeps I (logAndPublish E k t)"
  unfolding logAndPublish_def by (intro keeps_bind keeps_now keeps_mod) auto

lemma db_stable_calls [db_stable]:
  "keeps (\<lambda>w. P (wDb w)) (outside f)"
  "keeps (\<lambda>w. P (wDb w)) (outsideE g)"
  "keeps (\<lambda>w. P (wDb w)) (now E)"
  "keeps (\<lambda>w. P (wDb w)) (db_read E r)"
  "keeps (\<lambda>w. P (wDb w)) (fs_read E q)"
  "keeps (\<lambda>w. P (wDb w)) (getTransfer E i)"
  "keeps (\<lambda>w. P (wDb w)) (listTransfers E)"
  "keeps (\<lambda>w. P (wDb w)) (listChunks E i)"
  "keeps (\<lambda>w. P (wDb w)) (logAndPublish E k t)"
  "keeps (\<lambda>w. P (wDb w)) signal"
  by (simp_all add: keeps_outside keeps_outsideE keeps_now keeps_db_read keeps_fs_read
      getTransfer_def listTransfers_def listChunks_def keeps_publish signal_def keeps_mod)

lemma db_stable_fs [db_stable]:
  "keeps (\<lambda>w. P (wDb w)) (fs_call E f)"
  "keeps (\<lambda>w. P (wDb w)) (fs_write E p off d)"
  by (auto simp: keeps_def fs_call_def fs_write_def split: option.splits sum.splits)

lemma fs_stable_calls [fs_stable]:
  "keeps (\<lambda>w. P (wFs w)) (outside f)"
  "keeps (\<lambda>w. P (wFs w)) (outsideE g)"
  "keeps (\<lambda>w. P (wFs w)) (now E)"
  "keeps (\<lambda>w. P (wFs w)) (db_read E r)"
  "keeps (\<lambda>w. P (wFs w)) (db_write E h)"
  "keeps (\<lambda>w. P (wFs w)) (fs_read E q)"
  "keeps (\<lambda>w. P (wFs w)) (getTransfer E i)"
  "keeps (\<lambda>w. P (wFs w)) (saveTransfer E t)"
  "keeps (\<lambda>w. P (wFs w)) (listTransfers E)"
  "keeps (\<lambda>w. P (wFs w)) (listChunks E i)"
  "keeps (\<lambda>w. P (wFs w)) (saveChunk E c)"
  "keeps (\<lambda>w. P (wFs w)) (logAndPublish E k t)"
  "keeps (\<lambda>w. P (wFs w)) signal"
  by (simp_all add: keeps_outside keeps_outsideE keeps_now keeps_db_read keeps_fs_read keeps_db_write
      getTransfer_def listTransfers_def listChunks_def saveTransfer_def saveChunk_def
      keeps_publish signal_def keeps_mod)

lemma nonce_stable_calls [nonce_stable]:
  "keeps (\<lambda>w. P (wNonces w)) (outside f)"
  "keeps (\<lambda>w. P (wNonces w)) (outsideE g)"
  "keeps (\<lambda>w. P (wNonces w)) (now E)"
  "keeps (\<lambda>w. P (wNonces w)) (getTransfer E i)"
  "keeps (\<lambda>w. P (wNonces w)) (saveTransfer E t)"
  "keeps (\<lambda>w. P (wNonces w)) (logAndPublish E k t)"
  by (simp_all add: keeps_outside keeps_outsideE keeps_now keeps_db_read keeps_db_write
      getTransfer_def saveTransfer_def keeps_publish)

lemma keeps_saveTransfer:
  "(\<And>d. P d \<Longrightarrow> P (SaveTransfer t d)) \<Longrightarrow> keeps (\<lambda>w. P (wDb w)) (saveTransfer E t)"
  by (simp add: saveTransfer_def keeps_db_write)

lemma keeps_saveChunk:
  "(\<And>d. P d \<Longrightarrow> P (SaveChunk c d)) \<Longrightarrow> keeps (\<lambda>w. P (wDb w)) (saveChunk E c)"
  by (simp add: saveChunk_def keeps_db_write)

section \<open>What a call may report\<close>

text \<open>The errors of the environment, which wrap none of the sentinels a caller can act on.\<close>

definition env_error :: "terr \<Rightarrow> bool" where
  "env_error e \<longleftrightarrow> terr_kind e = ErrOther \<or> terr_kind e = ErrCanceled"

lemma env_error_fault [simp]: "env_error (fault_err x)" "env_error (other m)" "env_error (os_terr o')"
  by (cases x; simp add: env_error_def) (simp_all add: env_error_def os_terr_def)

lemma throws_calls [throws_rules]:
  "throws env_error (saveTransfer E t)"
  "throws env_error (saveChunk E c)"
  "throws env_error (listChunks E i)"
  "throws env_error (listTransfers E)"
  "throws K (outside f)"
  "throws K (now E)"
  "throws K (logAndPublish E k t)"
  "throws K signal"
  "throws env_error (osE m)"
  by (auto simp: throws_def saveTransfer_def saveChunk_def listChunks_def listTransfers_def db_write_def
      db_read_def outside_def now_def signal_def modE_def osE_def mapErrE_def logAndPublish_def bindE_def
      split: option.splits prod.splits sum.splits)

lemma getTransfer_error:
  "getTransfer E i w = (Inl e, w') \<Longrightarrow> env_error e \<or> e = plain ErrNotFound \<and> GetTransfer (wDb w) i = Inl e"
  by (auto simp: getTransfer_def db_read_def GetTransfer_def split: option.splits)

section \<open>What a successful call did\<close>

lemma outside_InrE:
  assumes "outside f w = (Inr a, w')" obtains "a = f (wTick w)" "w' = bump w"
  using assms by (simp add: outside_def)

lemma outsideE_InrE:
  assumes "outsideE f w = (Inr a, w')" obtains "f (wTick w) = Inr a" "w' = bump w"
  using assms by (simp add: outsideE_def)

lemma now_InrE:
  assumes "now E w = (Inr a, w')" obtains "a = hNow E (wTick w)" "w' = bump w"
  using assms by (auto simp: now_def elim: outside_InrE)

lemma getTransfer_InrE:
  assumes "getTransfer E i w = (Inr t, w')"
  obtains "GetTransfer (wDb w) i = Inr t" "w' = bump w"
  using assms by (auto simp: getTransfer_def db_read_def split: option.splits)

lemma listTransfers_InrE:
  assumes "listTransfers E w = (Inr ts, w')"
  obtains "ts = ListTransfers (wDb w)" "w' = bump w"
  using assms by (auto simp: listTransfers_def db_read_def split: option.splits)

lemma listChunks_InrE:
  assumes "listChunks E i w = (Inr cs, w')"
  obtains "cs = ListChunks (wDb w) i" "w' = bump w"
  using assms by (auto simp: listChunks_def db_read_def split: option.splits)

lemma saveTransfer_InrE:
  assumes "saveTransfer E t w = (Inr u, w')"
  obtains "w' = (bump w)\<lparr>wDb := SaveTransfer t (wDb w)\<rparr>"
  using assms by (auto simp: saveTransfer_def db_write_def split: option.splits)

lemma saveChunk_InrE:
  assumes "saveChunk E c w = (Inr u, w')"
  obtains "w' = (bump w)\<lparr>wDb := SaveChunk c (wDb w)\<rparr>"
  using assms by (auto simp: saveChunk_def db_write_def split: option.splits)

lemma mapErrE_InrE:
  assumes "mapErrE g m w = (Inr a, w')" obtains "m w = (Inr a, w')"
  using assms by (auto simp: mapErrE_def split: prod.splits sum.splits)

lemma osE_InrE:
  assumes "osE m w = (Inr a, w')" obtains "m w = (Inr a, w')"
  using assms by (auto simp: osE_def elim: mapErrE_InrE)

lemma fs_call_InrE:
  assumes "fs_call E f w = (Inr u, w')"
  obtains fs where "f (wFs w) = Inr fs" "w' = (bump w)\<lparr>wFs := fs\<rparr>"
  using assms by (auto simp: fs_call_def split: option.splits sum.splits)

lemma fs_read_InrE:
  assumes "fs_read E f w = (Inr a, w')"
  obtains "f (wFs w) = Inr a" "w' = bump w"
  using assms by (auto simp: fs_read_def split: option.splits)

lemma fs_write_InrE:
  assumes "fs_write E p off d w = (Inr u, w')"
  obtains fs where "os_write_at p off d (wFs w) = Inr fs" "w' = (bump w)\<lparr>wFs := fs\<rparr>"
  using assms by (auto simp: fs_write_def split: option.splits sum.splits)

lemma logAndPublish_InrE:
  assumes "logAndPublish E k t w = (Inr u, w')"
  obtains n where "w' = (bump w)\<lparr>wEvents := \<lparr>evType = k, evTransfer = t, evTimestamp = n\<rparr> # wEvents w\<rparr>"
  using assms by (auto simp: logAndPublish_def elim!: bindE_InrE now_InrE)

lemma logAndPublish_total: "\<exists>w'. logAndPublish E k t w = (Inr (), w')"
  by (simp add: logAndPublish_def now_def outside_def gom_defs)

lemmas call_elims = outside_InrE outsideE_InrE now_InrE getTransfer_InrE listTransfers_InrE
  listChunks_InrE saveTransfer_InrE saveChunk_InrE osE_InrE fs_call_InrE fs_read_InrE fs_write_InrE
  logAndPublish_InrE bindE_InrE seqE_InrE guardE_InrE

lemma now_run: "now E w = (Inr (hNow E (wTick w)), bump w)"
  and outside_run: "outside f w = (Inr (f (wTick w)), bump w)"
  and outsideE_run: "outsideE g w = (g (wTick w), bump w)"
  and logAndPublish_run: "logAndPublish E k t w =
     (Inr (), (bump w)\<lparr>wEvents := \<lparr>evType = k, evTransfer = t, evTimestamp = hNow E (wTick w)\<rparr> # wEvents w\<rparr>)"
  by (simp_all add: now_def outside_def outsideE_def logAndPublish_def gom_defs bump_def)

lemmas call_runs = now_run outside_run outsideE_run logAndPublish_run

section \<open>A host without failures\<close>

definition quiet :: "('r) host_scheme \<Rightarrow> bool" where
  "quiet E \<longleftrightarrow> (\<forall>n. hFault E n = None)"

lemma quiet_calls [simp]:
  assumes "quiet E"
  shows "getTransfer E i w = (GetTransfer (wDb w) i, bump w)"
    and "listChunks E i w = (Inr (ListChunks (wDb w) i), bump w)"
    and "listTransfers E w = (Inr (ListTransfers (wDb w)), bump w)"
    and "saveTransfer E t w = (Inr (), (bump w)\<lparr>wDb := SaveTransfer t (wDb w)\<rparr>)"
    and "saveChunk E c w = (Inr (), (bump w)\<lparr>wDb := SaveChunk c (wDb w)\<rparr>)"
    and "fs_read E q w = (q (wFs w), bump w)"
  using assms
  by (simp_all add: quiet_def getTransfer_def listChunks_def listTransfers_def saveTransfer_def saveChunk_def
      db_read_def db_write_def fs_read_def)

lemma quiet_fs_call:
  "quiet E \<Longrightarrow> fs_call E f w =
     (case f (wFs w) of Inl e \<Rightarrow> (Inl e, bump w) | Inr fs \<Rightarrow> (Inr (), (bump w)\<lparr>wFs := fs\<rparr>))"
  by (simp add: quiet_def fs_call_def)

section \<open>An example host\<close>

text \<open>
  A concrete outside on which the witnesses evaluate the model: no call fails, the clock
  advances by a second per call for a thousand calls, hashes pad their argument, and one trusted peer is online.
\<close>

definition pad32 :: "string \<Rightarrow> string" where
  "pad32 s = take 32 (s @ replicate 32 CHR 0x00)"

lemma length_pad32 [simp]: "length (pad32 s) = 32"
  by (simp add: pad32_def)

definition sample_peer :: device where
  "sample_peer = \<lparr>dID = ''peer'', dName = ''Peer'', dHostname = ''peer.local'', dType = ''laptop'',
     dPlatform = ''linux'', dLocalIP = ''10.0.0.2'', dPort = 8443, dAppVersion = ''1'', dLastSeen = 0,
     dOnline = True, dConnectionState = ConnectionOnline, dAvailableStorage = 0,
     dTransferCapability = True, dSupportedProtocolVersion = 1, dMaximumChunkSize = 4194304,
     dCompressionSupport = False, dIdentityHint = [], dPairingAvailable = True\<rparr>"

definition sample_service :: service where
  "sample_service = \<lparr>
     hUuidOk = (\<lambda>s. s \<noteq> []), hSha256 = pad32, hHmac = (\<lambda>k m. pad32 (k @ m)), hLower = id,
     hCwd = Some ''/'', hGunzip = (\<lambda>s b. Some (s, b)), hGzip = id, hMime = (\<lambda>_. []),
     hSpeed = (\<lambda>p e. (p * second) div e), hOfferJson = (\<lambda>oo. Inr (oTransferID oo)),
     hOfferResponse = (\<lambda>_. Inl (plain ErrOther)), hResumeMap = (\<lambda>_. Inl (plain ErrOther)),
     hTransfer = (\<lambda>_. Inl (plain ErrOther)), hNow = (\<lambda>n. int (min n 1000) * second),
     hUuid = (\<lambda>n. ''u'' @ nat_dec n), hRand = (\<lambda>_ k. Inr (replicate k CHR ''r'')),
     hFault = (\<lambda>_. None), hShort = (\<lambda>_. 0), hAvail = (\<lambda>_ _. 1000000),
     hPaths = (\<lambda>_. [''/in/a.txt'', ''/in'']), hDevices = (\<lambda>_. [sample_peer]),
     hTrusted = (\<lambda>_ d. Inr (d = ''peer'')), hSharedKey = (\<lambda>_ _. Inr ''key''),
     hPublicKey = (\<lambda>_ _. Inr ''pub''), hHttp = (\<lambda>_ _. Inl (other ''connection refused'')),
     sDataDirectory = ''/data'', sPeerScheme = ''https'', sMaxConcurrent = 2, sChunkWorkers = 4,
     sChunkSize = 4194304\<rparr>"

definition sample_world :: tworld where
  "sample_world = \<lparr>wDb = empty_db,
     wFs = [''/'' \<mapsto> NDir, ''/data'' \<mapsto> NDir, ''/in'' \<mapsto> NDir, ''/in/a.txt'' \<mapsto> NFile ''hello''],
     wActive = [], wWorkers = [], wCancelled = [], wNextCtx = 0, wWake = False, wNonces = Map.empty,
     wThrottle = 0, wStaging = Map.empty, wMtime = Map.empty, wEvents = [],
     wIdentity = \<lparr>iID = ''me'', iName = ''Me'', iHostname = ''me.local'', iPlatform = ''linux''\<rparr>,
     wPinned = Map.empty, wTick = 0\<rparr>"

lemma quiet_sample [simp]: "quiet sample_service"
  by (simp add: quiet_def sample_service_def)

end
