(* ===== verification/TransferFiles.thy ===== *)
theory TransferFiles
  imports TransferWorld
begin

text \<open>
  \<open>transfer/files.go\<close> and \<open>commitFile\<close> of \<open>service.go\<close>: chunk arithmetic, checksums, the
  manifest of the files to send, conflict resolution at the destination, and the move of
  a verified partial file to its place.
\<close>

section \<open>Chunks and checksums\<close>

definition DefaultChunkSize :: int where
  "DefaultChunkSize = 4 * 2 ^ 20"

definition MaximumChunkSize :: int where
  "MaximumChunkSize = 16 * 2 ^ 20"

text \<open>The division of Go panics on a zero chunk size: \<open>None\<close>.\<close>

definition chunkCount :: "int \<Rightarrow> int \<Rightarrow> int option" where
  "chunkCount sz chunkSize =
     (if sz = 0 then Some 0 else go_div (wrap64 (wrap64 (sz + chunkSize) - 1)) chunkSize)"

definition checksumBytes :: "('r) host_scheme \<Rightarrow> string \<Rightarrow> string" where
  "checksumBytes E c = hex_encode (hSha256 E c)"

definition checksumFile :: "('r) host_scheme \<Rightarrow> string \<Rightarrow> (tworld, os_error, string) gom" where
  "checksumFile E p = bindE (fs_read E (\<lambda>fs. os_read_file fs p)) (\<lambda>c. retE (hex_encode (hSha256 E c)))"

text \<open>\<open>io.LimitReader(r, n)\<close> read to its end: at most \<open>n\<close> bytes, an error only if it comes before them.\<close>

definition read_limited :: "body \<Rightarrow> int \<Rightarrow> terr + string" where
  "read_limited b n =
     (if n \<le> 0 then Inr []
      else if n \<le> int (length (bBytes b)) then Inr (take (nat n) (bBytes b))
      else if bBroken b then Inl (other ''unexpected EOF'') else Inr (bBytes b))"

section \<open>The manifest of an outbound transfer\<close>

text \<open>
  \<open>filepath.WalkDir\<close>: the root, then what lies below it, depth first and in the order of
  the names, which is the order of the element lists.
\<close>

definition walk :: "string list \<Rightarrow> fsys \<Rightarrow> string \<Rightarrow> string list" where
  "walk names fs root =
     sort_key clean_elems (filter (\<lambda>q. (q = root \<or> below root q) \<and> fs q \<noteq> None) (remdups names))"

type_synonym manifest = "string list \<times> transfer_file list"

definition manifest_item ::
  "string \<Rightarrow> string \<Rightarrow> string \<Rightarrow> bool \<Rightarrow> int \<Rightarrow> int \<Rightarrow> int \<Rightarrow> string \<Rightarrow> transfer_file" where
  "manifest_item i relative path directory chunkSize sz count checksum =
     \<lparr>fID = i, fRelativePath = relative, fDirectory = directory, fSourcePath = path,
      fDestinationPath = [], fSize = sz, fChecksum = checksum, fChunkSize = chunkSize,
      fChunkCount = count\<rparr>"

definition entry_item ::
  "('r) host_scheme \<Rightarrow> int \<Rightarrow> string \<Rightarrow> string \<Rightarrow> node \<Rightarrow> string \<Rightarrow> transfer_file tm" where
  "entry_item E chunkSize path relative n i =
     (case n of
        NDir \<Rightarrow> retE (manifest_item i relative path True chunkSize 0 0 [])
      | NFile c \<Rightarrow>
          (case chunkCount (int (length c)) chunkSize of
             None \<Rightarrow> throwE (other ''integer divide by zero'')
           | Some count \<Rightarrow>
               bindE (osE (checksumFile E path)) (\<lambda>hash.
               retE (manifest_item i relative path False chunkSize (int (length c)) count hash)))
      | _ \<Rightarrow> throwE (wrapped ErrInvalidRequest ''not a regular file''))"

definition visit :: "('r) host_scheme \<Rightarrow> int \<Rightarrow> string \<Rightarrow> manifest \<Rightarrow> string \<Rightarrow> manifest tm" where
  "visit E chunkSize rootParent m path =
     bindE (osE (fs_read E (\<lambda>fs. os_lstat fs path))) (\<lambda>n.
     seqE (guardE (n = NLink) (wrapped ErrInvalidRequest ''symbolic links are not transferred''))
     (case path_rel rootParent path of
        None \<Rightarrow> throwE (other ''Rel: can't make path relative'')
      | Some relative \<Rightarrow>
          seqE (liftE (validateRelativePath relative))
          (let key = to_lower (hLower E) relative in
           seqE (guardE (key \<in> set (fst m)) (wrapped ErrInvalidRequest ''duplicate relative path''))
           (bindE (outside (hUuid E)) (\<lambda>i.
            bindE (entry_item E chunkSize path relative n i) (\<lambda>item.
            retE (key # fst m, snd m @ [item])))))))"

definition walk_root :: "('r) host_scheme \<Rightarrow> int \<Rightarrow> manifest \<Rightarrow> string \<Rightarrow> manifest tm" where
  "walk_root E chunkSize m raw =
     (case path_abs (hCwd E) (trim_space raw) of
        None \<Rightarrow> throwE (other ''getwd'')
      | Some absolute \<Rightarrow>
          bindE (osE (fs_read E (\<lambda>fs. os_lstat fs absolute))) (\<lambda>n.
          seqE (guardE (n = NLink) (wrapped ErrInvalidRequest ''symbolic links are not transferred''))
          (bindE (outside (hPaths E)) (\<lambda>names.
           bindE (getE wFs) (\<lambda>fs.
           foldE (visit E chunkSize (path_dir absolute)) m (walk names fs absolute))))))"

definition aggregate_text :: "transfer_file list \<Rightarrow> string" where
  "aggregate_text fs =
     concat (map (\<lambda>f. fRelativePath f @ [CHR 0x00] @ fChecksum f @ [CHR 0x00])
       (filter (\<lambda>f. \<not> fDirectory f) fs))"

definition total_size :: "transfer_file list \<Rightarrow> int" where
  "total_size fs = foldl (\<lambda>n f. wrap64 (n + fSize f)) 0 fs"

definition buildManifest ::
  "('r) host_scheme \<Rightarrow> string list \<Rightarrow> int \<Rightarrow> (transfer_file list \<times> int \<times> string) tm" where
  "buildManifest E paths chunkSize =
     seqE (guardE (paths = []) (wrapped ErrInvalidRequest ''at least one path is required''))
     (seqE (guardE (chunkSize \<le> 0 \<or> MaximumChunkSize < chunkSize) (wrapped ErrInvalidRequest ''invalid chunk size''))
     (bindE (foldE (walk_root E chunkSize) ([], []) paths) (\<lambda>m.
      let files = sort_key fRelativePath (snd m) in
      retE (files, total_size (filter (\<lambda>f. \<not> fDirectory f) files),
        hex_encode (hSha256 E (aggregate_text files))))))"

section \<open>The destination\<close>

text \<open>The loop over \<open>name (1)\<close>, \<open>name (2)\<close>, ..., \<open>name (9999)\<close>.\<close>

function rename_loop :: "('r) host_scheme \<Rightarrow> string \<Rightarrow> string \<Rightarrow> string \<Rightarrow> int \<Rightarrow> string tm" where
  "rename_loop E dir base ext i w =
     (if 10000 \<le> i then (Inl (other ''unable to allocate a non-conflicting filename''), w)
      else
        (let candidate = path_join [dir, base @ '' ('' @ int_dec i @ '')'' @ ext] in
         case fs_read E (\<lambda>fs. os_lstat fs candidate) w of
           (Inl OsNotExist, w') \<Rightarrow> (Inr candidate, w')
         | (Inl e, w') \<Rightarrow> (Inl (os_terr e), w')
         | (Inr _, w') \<Rightarrow> rename_loop E dir base ext (i + 1) w'))"
  by pat_completeness auto

termination by (relation "measure (\<lambda>(_, _, _, _, i, _). nat (10000 - i))") auto

declare rename_loop.simps [simp del]

definition resolveConflict :: "('r) host_scheme \<Rightarrow> string \<Rightarrow> string \<Rightarrow> string tm" where
  "resolveConflict E path policy =
     bindE (tryE (fs_read E (\<lambda>fs. os_lstat fs path))) (\<lambda>r.
     case r of
       Inl OsNotExist \<Rightarrow> retE path
     | Inl e \<Rightarrow> throwE (os_terr e)
     | Inr _ \<Rightarrow>
         if policy = ConflictOverwrite then retE path
         else if policy = ConflictRename then
           (let ext = path_ext path in
            rename_loop E (path_dir path) (trim_suffix (path_base path) ext) ext 1)
         else throwE (plain ErrConflictResolution))"

text \<open>A call that may fail and changes nothing the model has: \<open>Sync\<close> and \<open>Close\<close>.\<close>

definition fs_sync :: "('r) host_scheme \<Rightarrow> (tworld, os_error, unit) gom" where
  "fs_sync E = fs_call E Inr"

definition copy_over :: "('r) host_scheme \<Rightarrow> string \<Rightarrow> string \<Rightarrow> bool \<Rightarrow> (tworld, os_error, unit) gom" where
  "copy_over E source target overwrite =
     bindE (fs_read E (\<lambda>fs. os_read_file fs source)) (\<lambda>c.
     bindE (tryE (fs_call E (os_open_excl target))) (\<lambda>excl.
     bindE (if overwrite then tryE (fs_call E (os_open_trunc target)) else retE excl) (\<lambda>opened.
     seqE (liftE opened)
     (bindE (tryE (fs_write E target 0 c)) (\<lambda>copyErr.
      bindE (tryE (fs_sync E)) (\<lambda>syncErr.
      bindE (tryE (fs_sync E)) (\<lambda>closeErr.
      seqE (liftE copyErr) (seqE (liftE syncErr) (seqE (liftE closeErr)
      (fs_call E (os_remove source)))))))))))"

definition clear_target :: "('r) host_scheme \<Rightarrow> string \<Rightarrow> (tworld, os_error, unit) gom" where
  "clear_target E target =
     bindE (tryE (fs_read E (\<lambda>fs. os_lstat fs target))) (\<lambda>r.
     case r of
       Inr n \<Rightarrow>
         seqE (guardE (n = NDir) (OsOther ''cannot overwrite a directory with a file''))
         (fs_call E (os_remove target))
     | Inl OsNotExist \<Rightarrow> retE ()
     | Inl e \<Rightarrow> throwE e)"

definition commitFile :: "('r) host_scheme \<Rightarrow> string \<Rightarrow> string \<Rightarrow> bool \<Rightarrow> (tworld, os_error, unit) gom" where
  "commitFile E source target overwrite =
     seqE (fs_call E (os_mkdir_all (path_dir target)))
     (seqE (if overwrite then clear_target E target else retE ())
     (bindE (tryE (fs_call E (os_rename source target))) (\<lambda>r.
      case r of Inr _ \<Rightarrow> retE () | Inl _ \<Rightarrow> copy_over E source target overwrite)))"

section \<open>Chunk arithmetic\<close>

lemma chunkCount_ceil:
  assumes "0 \<le> sz" "0 < cs" "sz + cs < 2 ^ 63"
  shows "chunkCount sz cs = Some ((sz + cs - 1) div cs)"
proof -
  have "in64 (sz + cs)" "in64 (sz + cs - 1)" using assms by (simp_all add: in64_def)
  then show ?thesis
    using assms go_div_nonneg [of "sz + cs - 1" cs] by (simp add: chunkCount_def)
qed

lemma ceil_bounds:
  fixes sz cs :: int
  assumes "0 < cs" "n = (sz + cs - 1) div cs"
  shows "sz \<le> n * cs" "(n - 1) * cs < sz"
proof -
  have "n * cs + (sz + cs - 1) mod cs = sz + cs - 1" using assms(2) by simp
  moreover have "0 \<le> (sz + cs - 1) mod cs" "(sz + cs - 1) mod cs < cs" using assms(1) by simp_all
  ultimately show "sz \<le> n * cs" "(n - 1) * cs < sz" by (simp_all add: algebra_simps)
qed

lemma read_limited_length: "read_limited b n = Inr c \<Longrightarrow> 0 \<le> n \<Longrightarrow> int (length c) \<le> n"
  by (auto simp: read_limited_def split: if_splits)

section \<open>What the file operations leave alone\<close>

lemma rename_loop_db: "wDb (snd (rename_loop E dir base ext i w)) = wDb w"
proof (induction E dir base ext i w rule: rename_loop.induct)
  case (1 E dir base ext i w)
  let ?c = "path_join [dir, base @ '' ('' @ int_dec i @ '')'' @ ext]"
  obtain r w1 where r: "fs_read E (\<lambda>fs. os_lstat fs ?c) w = (r, w1)" by fastforce
  then have "wDb w1 = wDb w"
    using keepsD [OF db_stable_calls(5) [of "\<lambda>d. d = wDb w"], of w] by metis
  then show ?case
    using 1 [OF _ refl r [symmetric], of _] r
    by (cases r) (auto simp: rename_loop.simps [of E dir base ext i w] Let_def split: os_error.splits)
qed

lemma db_stable_files [db_stable]:
  "keeps (\<lambda>w. P (wDb w)) (checksumFile E p)"
  "keeps (\<lambda>w. P (wDb w)) (visit E cs rp m q)"
  "keeps (\<lambda>w. P (wDb w)) (walk_root E cs m raw)"
  "keeps (\<lambda>w. P (wDb w)) (buildManifest E ps cs)"
  "keeps (\<lambda>w. P (wDb w)) (rename_loop E dir base ext i)"
  "keeps (\<lambda>w. P (wDb w)) (resolveConflict E path policy)"
  "keeps (\<lambda>w. P (wDb w)) (clear_target E target)"
  "keeps (\<lambda>w. P (wDb w)) (copy_over E source target ow)"
  "keeps (\<lambda>w. P (wDb w)) (commitFile E source target ow)"
proof -
  have ch: "keeps (\<lambda>w. P (wDb w)) (checksumFile E p)" for p
    unfolding checksumFile_def by (intro keeps_rules db_stable)
  then show "keeps (\<lambda>w. P (wDb w)) (checksumFile E p)" .
  have v: "keeps (\<lambda>w. P (wDb w)) (visit E cs rp m q)" for rp m q
    unfolding visit_def Let_def entry_item_def
    by (intro keeps_rules db_stable ch) (auto split: node.splits intro!: keeps_rules db_stable ch)
  then show "keeps (\<lambda>w. P (wDb w)) (visit E cs rp m q)" .
  have r: "keeps (\<lambda>w. P (wDb w)) (walk_root E cs m raw)" for m raw
    unfolding walk_root_def by (intro keeps_rules db_stable v)
  then show "keeps (\<lambda>w. P (wDb w)) (walk_root E cs m raw)" .
  show "keeps (\<lambda>w. P (wDb w)) (buildManifest E ps cs)"
    unfolding buildManifest_def Let_def by (intro keeps_rules db_stable r)
  have l: "keeps (\<lambda>w. P (wDb w)) (rename_loop E dir base ext i)" for dir base ext i
    by (simp add: keeps_def rename_loop_db)
  then show "keeps (\<lambda>w. P (wDb w)) (rename_loop E dir base ext i)" .
  show "keeps (\<lambda>w. P (wDb w)) (resolveConflict E path policy)"
    unfolding resolveConflict_def Let_def
    by (auto split: sum.splits os_error.splits intro!: keeps_rules db_stable l)
  have ct: "keeps (\<lambda>w. P (wDb w)) (clear_target E target)"
    unfolding clear_target_def
    by (auto split: sum.splits os_error.splits intro!: keeps_rules db_stable)
  then show "keeps (\<lambda>w. P (wDb w)) (clear_target E target)" .
  have co: "keeps (\<lambda>w. P (wDb w)) (copy_over E source target ow)"
    unfolding copy_over_def fs_sync_def by (intro keeps_rules db_stable)
  then show "keeps (\<lambda>w. P (wDb w)) (copy_over E source target ow)" .
  show "keeps (\<lambda>w. P (wDb w)) (commitFile E source target ow)"
    unfolding commitFile_def by (intro keeps_rules db_stable ct co)
qed

section \<open>Where a renamed file goes\<close>

lemma rev_drop_to_slash:
  "slash \<notin> set e \<Longrightarrow> rev (dropWhile (\<lambda>c. c \<noteq> slash) (rev (q @ slash # e))) = q @ [slash]"
proof -
  assume e: "slash \<notin> set e"
  then have all: "x \<noteq> slash" if "x \<in> set (rev e)" for x using that by auto
  have "dropWhile (\<lambda>c. c \<noteq> slash) (rev e @ slash # rev q) = slash # rev q"
    using dropWhile_append2 [of "rev e" "\<lambda>c. c \<noteq> slash" "slash # rev q"] all by simp
  then show ?thesis by simp
qed

lemma abs_path_snoc: "abs_path (es @ [e]) = (if es = [] then [] else abs_path es) @ slash # e"
  by (cases "es = []") (simp_all add: abs_path_def join_with_append)

lemma path_dir_abs_path:
  assumes "normal_elems (es @ [e])"
  shows "path_dir (abs_path (es @ [e])) = abs_path es"
proof -
  have n: "normal_elems es" "slash \<notin> set e"
    using assms normal_no_slash by (auto simp: normal_elems_iff)
  have "path_dir (abs_path (es @ [e])) = clean ((if es = [] then [] else abs_path es) @ [slash])"
    unfolding path_dir_def abs_path_snoc using rev_drop_to_slash [OF n(2)] by simp
  moreover have "clean_elems ((if es = [] then [] else abs_path es) @ [slash]) = es"
  proof (cases "es = []")
    case False
    have "split_on slash (abs_path es @ [slash]) = [] # es @ [[]]"
      using False n split_on_concat [of slash "join_slash es" "[]"] split_join_normal [of es]
      by (simp add: abs_path_def)
    then show ?thesis
      using False n by (simp add: clean_elems_def foldl_clean_normal)
  qed (simp add: clean_elems_def)
  moreover have "is_abs ((if es = [] then [] else abs_path es) @ [slash])"
    by (simp add: is_abs_def abs_path_def)
  ultimately show ?thesis by (simp add: clean_abs)
qed

lemma path_base_abs_path:
  assumes "normal_elems (es @ [e])"
  shows "path_base (abs_path (es @ [e])) = e"
proof -
  have e: "e \<noteq> []" "slash \<notin> set e" using assms by (auto simp: normal_elems_iff normal_elem_def)
  then obtain c cs where re: "rev e = c # cs" "c \<noteq> slash" by (cases "rev e") auto
  have all: "x \<noteq> slash" if "x \<in> set (rev e)" for x using that e(2) by auto
  have "takeWhile (\<lambda>c. c \<noteq> slash) (rev e @ slash # q) = rev e" for q
    using takeWhile_append2 [of "rev e" "\<lambda>c. c \<noteq> slash" "slash # q"] all by simp
  moreover have "dropWhile (\<lambda>c. c = slash) (rev e @ slash # q) = rev e @ slash # q" for q
    using re by simp
  ultimately show ?thesis
    unfolding path_base_def abs_path_snoc by (simp add: Let_def)
qed

lemma path_ext_abs_path:
  assumes "normal_elems (es @ [e])"
  shows "path_ext (abs_path (es @ [e])) = path_ext e"
proof -
  have n: "normal_elems es" "slash \<notin> set e" using assms normal_no_slash by (auto simp: normal_elems_iff)
  have "last (split_on slash (abs_path (es @ [e]))) = e"
    unfolding abs_path_snoc split_on_concat using split_on_single [OF n(2)] by simp
  then show ?thesis using split_on_single [OF n(2)] by (simp add: path_ext_def)
qed

lemma path_ext_suffix: "slash \<notin> set e \<Longrightarrow> suffix (path_ext e) e"
proof -
  assume "slash \<notin> set e"
  then have sp: "split_on slash e = [e]" by (rule split_on_single)
  show ?thesis
  proof (cases "CHR ''.'' \<in> set e")
    case True
    then obtain a b where ab: "e = a @ CHR ''.'' # b" "CHR ''.'' \<notin> set b"
      using split_list_last by metis
    have "takeWhile (\<lambda>c. c \<noteq> CHR ''.'') (rev b @ CHR ''.'' # rev a) = rev b"
      using ab(2) takeWhile_append2 [of "rev b" "\<lambda>c. c \<noteq> CHR ''.''" "CHR ''.'' # rev a"] by auto
    then show ?thesis using True sp ab(1) by (auto simp: path_ext_def suffix_def)
  qed (simp add: path_ext_def sp)
qed

lemma int_dec_no_slash: "slash \<notin> set (int_dec i)"
  using nat_dec_digits [of "nat i"] nat_dec_digits [of "nat (- i)"]
  by (auto simp: int_dec_def list_all_iff is_digit_def Let_def dest: bspec [of _ _ slash])

definition renamed :: "string \<Rightarrow> int \<Rightarrow> string" where
  "renamed e i = trim_suffix e (path_ext e) @ '' ('' @ int_dec i @ '')'' @ path_ext e"

lemma renamed_normal:
  assumes "normal_elem e" shows "normal_elem (renamed e i)"
proof -
  have "slash \<notin> set e" using assms by (rule normal_no_slash)
  moreover have "set (trim_suffix e x) \<subseteq> set e" for x
    by (auto simp: trim_suffix_def dest: in_set_takeD)
  moreover have "set (path_ext e) \<subseteq> set e"
    using path_ext_suffix [OF \<open>slash \<notin> set e\<close>] by (rule set_mono_suffix)
  ultimately have "slash \<notin> set (renamed e i)"
    using int_dec_no_slash [of i] by (auto simp: renamed_def)
  moreover have "3 \<le> length (renamed e i)" by (simp add: renamed_def)
  ultimately show ?thesis by (auto simp: normal_elem_def)
qed

lemma candidate_path:
  assumes "normal_elems (es @ [e])"
  shows "path_join [path_dir (abs_path (es @ [e])),
     trim_suffix (path_base (abs_path (es @ [e]))) (path_ext (abs_path (es @ [e]))) @ '' ('' @ int_dec i @ '')'' @
       path_ext (abs_path (es @ [e]))] = abs_path (es @ [renamed e i])"
proof -
  have "normal_elem (renamed e i)" "normal_elems es"
    using assms renamed_normal by (auto simp: normal_elems_iff)
  then show ?thesis
    using path_join_below [of es "[renamed e i]"] assms
    by (simp add: path_dir_abs_path path_base_abs_path path_ext_abs_path renamed_def)
qed

section \<open>Conflict resolution\<close>

lemma lstat_try_world:
  assumes "fs_read E f w = (r, w')" shows "wFs w' = wFs w"
  using keepsD [OF fs_stable_calls(6) [of "\<lambda>x. x = wFs w" E f], of w r w'] assms by simp

lemma fs_read_faultless:
  assumes "fs_read E (\<lambda>fs. os_lstat fs p) w = (Inl OsNotExist, w')" shows "wFs w p = None"
  using assms by (auto simp: fs_read_def os_lstat_def split: option.splits if_splits)
     (metis fault.exhaust fault_os.simps os_error.distinct(3))+

lemma rename_loop_Inr:
  assumes "rename_loop E dir base ext i w = (Inr p, w')"
  shows "wFs w' = wFs w \<and> wFs w p = None \<and>
    (\<exists>j. i \<le> j \<and> j < 10000 \<and> p = path_join [dir, base @ '' ('' @ int_dec j @ '')'' @ ext])"
  using assms
proof (induction E dir base ext i w rule: rename_loop.induct)
  case (1 E dir base ext i w)
  let ?c = "path_join [dir, base @ '' ('' @ int_dec i @ '')'' @ ext]"
  from 1(2) have i: "\<not> 10000 \<le> i" by (auto simp: rename_loop.simps [of _ _ _ _ i])
  obtain r w1 where r: "fs_read E (\<lambda>fs. os_lstat fs ?c) w = (r, w1)" by fastforce
  note fs = lstat_try_world [OF r]
  have k: "(case (r, w1) of (Inl OsNotExist, w') \<Rightarrow> (Inr ?c, w') | (Inl e, w') \<Rightarrow> (Inl (os_terr e), w')
       | (Inr _, w') \<Rightarrow> rename_loop E dir base ext (i + 1) w') = (Inr p, w')"
    using 1(2) i unfolding rename_loop.simps [of E dir base ext i w] Let_def r by (simp only: if_False)
  show ?case
  proof (cases r)
    case (Inl e)
    then have "e = OsNotExist" "p = ?c" "w' = w1" using k by (auto split: os_error.splits)
    then show ?thesis using r Inl fs fs_read_faultless i by (auto intro!: exI [of _ i])
  next
    case (Inr x)
    then have "rename_loop E dir base ext (i + 1) w1 = (Inr p, w')" using k by simp
    from 1(1) [OF i refl r [symmetric] Inr this] obtain j where "wFs w' = wFs w1" "wFs w1 p = None" "i + 1 \<le> j"
      "j < 10000" "p = path_join [dir, base @ '' ('' @ int_dec j @ '')'' @ ext]" by blast
    moreover from this have "i \<le> j" by simp
    ultimately show ?thesis using fs by (metis (no_types))
  qed
qed

lemma resolveConflict_Inr:
  assumes "resolveConflict E path policy w = (Inr p, w')"
  shows "wFs w' = wFs w \<and> (wFs w p = None \<or> policy = ConflictOverwrite \<and> p = path) \<and>
    (p = path \<or> (\<exists>j. 1 \<le> j \<and> j < 10000 \<and> p = path_join [path_dir path,
       trim_suffix (path_base path) (path_ext path) @ '' ('' @ int_dec j @ '')'' @ path_ext path])) \<and>
    (policy \<noteq> ConflictRename \<longrightarrow> p = path)"
proof -
  from assms obtain r w1 where
    r: "fs_read E (\<lambda>fs. os_lstat fs path) w = (r, w1)" and
    k: "(case r of Inl OsNotExist \<Rightarrow> retE path | Inl e \<Rightarrow> throwE (os_terr e)
        | Inr _ \<Rightarrow> if policy = ConflictOverwrite then retE path
            else if policy = ConflictRename then
              rename_loop E (path_dir path) (trim_suffix (path_base path) (path_ext path)) (path_ext path) 1
            else throwE (plain ErrConflictResolution)) w1 = (Inr p, w')"
    unfolding resolveConflict_def Let_def by (elim bindE_InrE tryE_InrE, blast)
  note fs = lstat_try_world [OF r]
  show ?thesis
  proof (cases r)
    case (Inl e)
    then have "e = OsNotExist" "p = path" "w' = w1" using k by (auto split: os_error.splits)
    then show ?thesis using r Inl fs fs_read_faultless by auto
  next
    case (Inr x)
    show ?thesis
    proof (cases "policy = ConflictOverwrite \<or> policy \<noteq> ConflictRename")
      case True
      then show ?thesis using k Inr fs by (auto split: if_splits)
    next
      case False
      then have "rename_loop E (path_dir path) (trim_suffix (path_base path) (path_ext path)) (path_ext path)
          1 w1 = (Inr p, w')" using k Inr by (simp del: One_nat_def)
      from rename_loop_Inr [OF this] show ?thesis using fs False by auto
    qed
  qed
qed

lemma resolveConflict_below:
  assumes "resolveConflict E (abs_path (es @ [e])) policy w = (Inr p, w')" "normal_elems (es @ [e])"
  shows "\<exists>e'. p = abs_path (es @ [e']) \<and> normal_elem e'"
proof -
  from resolveConflict_Inr [OF assms(1)] consider "p = abs_path (es @ [e])"
    | j where "p = abs_path (es @ [renamed e j])"
    unfolding candidate_path [OF assms(2)] by blast
  then show ?thesis
    using assms(2) renamed_normal by cases (auto simp: normal_elems_iff)
qed

section \<open>Moving a verified file to its place\<close>

lemma rename_file:
  assumes "os_rename a b fs = Inr fs'" "fs a = Some (NFile c)" "a \<noteq> b"
  shows "fs' = fs(a := None, b \<mapsto> NFile c)"
  using assms by (auto simp: os_rename_def split: if_splits)

definition moved :: "string \<Rightarrow> string \<Rightarrow> fsys \<Rightarrow> fsys \<Rightarrow> bool" where
  "moved a b fs fs' \<longleftrightarrow> fs' a = None \<and> fs' b = fs a \<and>
     (\<forall>q c. q \<noteq> a \<and> q \<noteq> b \<and> fs q = Some (NFile c) \<longrightarrow> fs' q = Some (NFile c))"

lemma fs_call_try:
  assumes "fs_call E f w = (r, w')"
  shows "case r of Inl _ \<Rightarrow> wFs w' = wFs w | Inr _ \<Rightarrow> f (wFs w) = Inr (wFs w')"
  using assms by (auto simp: fs_call_def split: option.splits sum.splits)

lemma fs_sync_fs: "fs_sync E w = (r, w') \<Longrightarrow> wFs w' = wFs w"
  using fs_call_try [of E Inr w r w'] by (auto simp: fs_sync_def split: sum.splits)

lemma open_excl_file: "os_open_excl p fs = Inr fs' \<Longrightarrow> fs' = fs(p \<mapsto> NFile [])"
  by (simp add: os_open_excl_def split: if_splits)

lemma open_trunc_file: "os_open_trunc p fs = Inr fs' \<Longrightarrow> fs' = fs(p \<mapsto> NFile []) "
  by (auto simp: os_open_trunc_def os_open_create_def fun_eq_iff split: option.splits node.splits if_splits)

lemma write_fresh: "os_write_at p 0 c (fs(p \<mapsto> NFile [])) = Inr (fs(p \<mapsto> NFile c))"
  by (simp add: os_write_at_def write_bytes_def)

lemma copy_over_moves:
  assumes "copy_over E a b ow w = (Inr u, w')" "wFs w a = Some (NFile c)" "a \<noteq> b"
  shows "moved a b (wFs w) (wFs w')"
proof -
  from assms(1) obtain c' w1 excl w2 x w3 y w4 y1 w5 y2 w6 where
    rd: "fs_read E (\<lambda>fs. os_read_file fs a) w = (Inr c', w1)" and
    ex: "fs_call E (os_open_excl b) w1 = (excl, w2)" and
    op: "(if ow then tryE (fs_call E (os_open_trunc b)) else retE excl) w2 =
      (Inr (Inr x) :: os_error + (os_error + unit), w3)" and
    wr: "fs_write E b 0 c' w3 = (Inr y, w4)" and
    sy: "fs_sync E w4 = (Inr y1, w5)" "fs_sync E w5 = (Inr y2, w6)" and
    rm: "fs_call E (os_remove a) w6 = (Inr u, w')"
    unfolding copy_over_def
    by (elim bindE_InrE tryE_InrE seqE_InrE liftE_InrE, hypsubst_thin)
      (rule that, assumption, assumption, assumption, assumption, assumption, assumption, assumption)
  have c': "c' = c" "wFs w1 = wFs w"
    using rd assms(2) by (auto elim!: fs_read_InrE simp: os_read_file_def)
  have "wFs w3 = (wFs w)(b \<mapsto> NFile [])"
  proof (cases ow)
    case True
    have "wFs w2 = wFs w \<or> wFs w2 = (wFs w)(b \<mapsto> NFile [])"
      using fs_call_try [OF ex] c' by (auto split: sum.splits dest: open_excl_file)
    moreover have "wFs w3 = (wFs w2)(b \<mapsto> NFile [])"
      using True op by (auto elim!: tryE_InrE dest!: fs_call_try dest: open_trunc_file)
    ultimately show ?thesis by auto
  next
    case False
    then show ?thesis using op fs_call_try [OF ex] c' by (auto dest: open_excl_file)
  qed
  then have "wFs w4 = (wFs w)(b \<mapsto> NFile c)"
    using wr c' by (auto elim!: fs_write_InrE simp: write_fresh)
  then have "wFs w6 = (wFs w)(b \<mapsto> NFile c)" using sy by (simp add: fs_sync_fs)
  then show ?thesis
    using fs_call_try [OF rm] assms(2,3)
    by (auto simp: moved_def os_remove_def dest!: sym [of _ "wFs w'"] split: if_splits)
qed

lemma fs_call_InrD: "fs_call E f w = (Inr u, w') \<Longrightarrow> f (wFs w) = Inr (wFs w')"
  using fs_call_try [of E f w "Inr u" w'] by simp

lemma clear_target_Inr:
  assumes "clear_target E b w = (Inr u, w')"
  shows "wFs w' = wFs w \<or> wFs w' = (wFs w)(b := None)"
proof -
  from assms obtain r w1 where
    r: "fs_read E (\<lambda>fs. os_lstat fs b) w = (r, w1)" and
    k: "(case r of Inr n \<Rightarrow> seqE (guardE (n = NDir) (OsOther ''cannot overwrite a directory with a file''))
          (fs_call E (os_remove b))
        | Inl OsNotExist \<Rightarrow> retE () | Inl e \<Rightarrow> throwE e) w1 = (Inr u, w')"
    unfolding clear_target_def by (elim bindE_InrE tryE_InrE, blast)
  note fs = lstat_try_world [OF r]
  show ?thesis
  proof (cases r)
    case (Inl e)
    then show ?thesis using k fs by (cases e) auto
  next
    case (Inr n)
    then have "fs_call E (os_remove b) w1 = (Inr u, w')" using k by (auto elim!: seqE_InrE guardE_InrE)
    from fs_call_InrD [OF this] fs show ?thesis
      by (auto simp: os_remove_def split: option.splits node.splits)
  qed
qed

lemma moved_trans_mkdir:
  assumes "moved a b fs1 fs2" "\<And>q c. fs q = Some (NFile c) \<Longrightarrow> q \<noteq> b \<Longrightarrow> fs1 q = Some (NFile c)"
    "fs1 a = fs a"
  shows "moved a b fs fs2"
  using assms by (auto simp: moved_def)

lemma commit_moves:
  assumes "commitFile E a b ow w = (Inr u, w')" and "wFs w a = Some (NFile c)" and "a \<noteq> b"
  shows "moved a b (wFs w) (wFs w')"
proof -
  from assms(1) obtain x w1 y w2 r w3 where
    mk: "fs_call E (os_mkdir_all (path_dir b)) w = (Inr x, w1)" and
    cl: "(if ow then clear_target E b else retE ()) w1 = (Inr y, w2)" and
    rn: "fs_call E (os_rename a b) w2 = (r, w3)" and
    k: "(case r of Inr _ \<Rightarrow> retE () | Inl _ \<Rightarrow> copy_over E a b ow) w3 = (Inr u, w')"
    unfolding commitFile_def by (elim bindE_InrE seqE_InrE tryE_InrE, blast)
  have f1: "wFs w1 q = Some (NFile d) \<longleftrightarrow> wFs w q = Some (NFile d)" for q d
    using mkdir_all_file [OF fs_call_InrD [OF mk]] .
  have "wFs w2 = wFs w1 \<or> wFs w2 = (wFs w1)(b := None)"
    using cl by (cases ow) (auto dest: clear_target_Inr)
  then have f2: "wFs w2 a = Some (NFile c)"
      "\<And>q d. wFs w q = Some (NFile d) \<Longrightarrow> q \<noteq> b \<Longrightarrow> wFs w2 q = Some (NFile d)"
    using f1 assms(2,3) by auto
  have "moved a b (wFs w2) (wFs w')"
  proof (cases r)
    case (Inl e)
    then have "wFs w3 = wFs w2" "copy_over E a b ow w3 = (Inr u, w')"
      using k fs_call_try [OF rn] by simp_all
    then show ?thesis using copy_over_moves f2(1) assms(3) by metis
  next
    case (Inr z)
    then have "os_rename a b (wFs w2) = Inr (wFs w')" using k fs_call_try [OF rn] by simp
    from rename_file [OF this f2(1) assms(3)] show ?thesis using f2(1) assms(3) by (simp add: moved_def)
  qed
  then show ?thesis using moved_trans_mkdir f2 assms(2) by metis
qed

text \<open>\<open>commitFile\<close> moves. When it succeeds on a regular source file, the target holds the
  source's bytes, the source is gone and every other regular file is as before, on the path
  by \<open>os.Rename\<close> and on the path that copies, with and without overwriting.\<close>

theorem commitFile_moves:
  assumes "commitFile E a b ow w = (Inr u, w')" and "wFs w a = Some (NFile c)" and "a \<noteq> b"
  shows "moved a b (wFs w) (wFs w')"
  using assms by (rule commit_moves)

section \<open>Manifests\<close>

text \<open>
  What a file of a manifest is: a directory entry without content, or a regular file with
  the length of its content, the number of chunks that cover it and its checksum.
\<close>

definition fresh_id :: "('r) host_scheme \<Rightarrow> string \<Rightarrow> bool" where
  "fresh_id E i \<longleftrightarrow> i \<in> range (hUuid E)"

lemma fresh_id_uuid [simp]: "fresh_id E (hUuid E n)"
  by (simp add: fresh_id_def)

definition manifest_entry :: "('r) host_scheme \<Rightarrow> fsys \<Rightarrow> int \<Rightarrow> transfer_file \<Rightarrow> bool" where
  "manifest_entry E fs cs f \<longleftrightarrow>
     fresh_id E (fID f) \<and> validateRelativePath (fRelativePath f) = Inr () \<and> fChunkSize f = cs \<and>
     chunkCount (fSize f) cs = Some (fChunkCount f) \<and>
     (if fDirectory f then fs (fSourcePath f) = Some NDir \<and> fSize f = 0
      else \<exists>c. fs (fSourcePath f) = Some (NFile c) \<and> fSize f = int (length c) \<and>
             fChecksum f = checksumBytes E c)"

definition manifest_inv :: "('r) host_scheme \<Rightarrow> fsys \<Rightarrow> int \<Rightarrow> manifest \<Rightarrow> bool" where
  "manifest_inv E fs cs m \<longleftrightarrow>
     fst m = rev (map (\<lambda>f. to_lower (hLower E) (fRelativePath f)) (snd m)) \<and> distinct (fst m) \<and>
     (\<forall>f \<in> set (snd m). manifest_entry E fs cs f)"

lemma manifest_inv_add:
  assumes "manifest_inv E fs cs m" "to_lower (hLower E) (fRelativePath f) \<notin> set (fst m)" "manifest_entry E fs cs f"
  shows "manifest_inv E fs cs (to_lower (hLower E) (fRelativePath f) # fst m, snd m @ [f])"
  using assms by (auto simp: manifest_inv_def)

lemma manifest_item_simps [simp]:
  "fID (manifest_item i r p d cs n k s) = i" "fRelativePath (manifest_item i r p d cs n k s) = r"
  "fSourcePath (manifest_item i r p d cs n k s) = p" "fDirectory (manifest_item i r p d cs n k s) = d"
  "fChunkSize (manifest_item i r p d cs n k s) = cs" "fSize (manifest_item i r p d cs n k s) = n"
  "fChunkCount (manifest_item i r p d cs n k s) = k" "fChecksum (manifest_item i r p d cs n k s) = s"
  by (simp_all add: manifest_item_def)

lemma chunkCount_zero [simp]: "chunkCount 0 cs = Some 0"
  by (simp add: chunkCount_def)

lemma osE_lstat_InrE:
  assumes "osE (fs_read E f) w = (Inr n, w')" obtains "f (wFs w) = Inr n" "wFs w' = wFs w"
  using assms by (auto elim!: osE_InrE fs_read_InrE)

lemma checksum_InrE:
  assumes "osE (checksumFile E p) w = (Inr s, w')"
  obtains c where "wFs w p = Some (NFile c)" "s = checksumBytes E c" "wFs w' = wFs w"
  using assms
  by (auto simp: checksumFile_def checksumBytes_def os_read_file_def elim!: osE_InrE bindE_InrE fs_read_InrE
      split: option.splits node.splits)

lemma entry_item_InrE:
  assumes "entry_item E cs path relative n i w = (Inr f, w')" "wFs w path = Some n"
    "validateRelativePath relative = Inr ()" "i = hUuid E j"
  shows "wFs w' = wFs w \<and> manifest_entry E (wFs w) cs f \<and> fRelativePath f = relative"
  using assms
  by (cases n) (auto simp: entry_item_def manifest_entry_def split: option.splits elim!: bindE_InrE checksum_InrE)

lemma visit_inv:
  assumes "visit E cs rp m path w = (Inr m', w')" "manifest_inv E (wFs w) cs m"
  shows "wFs w' = wFs w \<and> manifest_inv E (wFs w) cs m'"
proof -
  obtain relative where rel: "path_rel rp path = Some relative"
    using assms(1) by (cases "path_rel rp path") (auto simp: visit_def elim!: bindE_InrE seqE_InrE)
  with assms(1) obtain n w1 w2 item where
    n: "osE (fs_read E (\<lambda>fs. os_lstat fs path)) w = (Inr n, w1)" and
    v: "validateRelativePath relative = Inr ()" and
    new: "to_lower (hLower E) relative \<notin> set (fst m)" and
    it: "entry_item E cs path relative n (hUuid E (wTick w1)) (bump w1) = (Inr item, w')" and
    m': "m' = (to_lower (hLower E) relative # fst m, snd m @ [item])"
    by (auto simp: visit_def Let_def elim!: bindE_InrE seqE_InrE guardE_InrE outside_InrE)
  from n have at: "wFs w path = Some n" "wFs w1 = wFs w"
    by (auto elim!: osE_lstat_InrE simp: os_lstat_def split: option.splits)
  with entry_item_InrE [OF it _ v refl]
  have "wFs w' = wFs w" "manifest_entry E (wFs w) cs item" "fRelativePath item = relative" by simp_all
  then show ?thesis using manifest_inv_add [OF assms(2), of item] new m' by simp
qed

lemma walk_root_inv:
  assumes "walk_root E cs m raw w = (Inr m', w')" "manifest_inv E (wFs w) cs m"
  shows "wFs w' = wFs w \<and> manifest_inv E (wFs w) cs m'"
proof -
  from assms(1) obtain rp ps w1 where
    "foldE (visit E cs rp) m ps w1 = (Inr m', w')" "wFs w1 = wFs w"
    unfolding walk_root_def
    by (auto split: option.splits elim!: bindE_InrE seqE_InrE guardE_InrE osE_lstat_InrE outside_InrE)
  then show ?thesis
    using foldE_inv [where J = "\<lambda>_ m v. wFs v = wFs w \<and> manifest_inv E (wFs w) cs m"] assms(2) visit_inv
    by (smt (verit))
qed

lemma manifest_facts:
  assumes "buildManifest E paths cs w = (Inr (files, tot, agg), w')"
  shows "wFs w' = wFs w \<and> 0 < cs \<and> cs \<le> MaximumChunkSize \<and>
    sorted (map fRelativePath files) \<and>
    distinct (map (\<lambda>f. to_lower (hLower E) (fRelativePath f)) files) \<and>
    (\<forall>f \<in> set files. manifest_entry E (wFs w) cs f) \<and>
    tot = total_size (filter (\<lambda>f. \<not> fDirectory f) files)"
proof -
  from assms obtain m where
    m: "foldE (walk_root E cs) ([], []) paths w = (Inr m, w')" and cs: "0 < cs" "cs \<le> MaximumChunkSize" and
    f: "files = sort_key fRelativePath (snd m)" "tot = total_size (filter (\<lambda>f. \<not> fDirectory f) files)"
    unfolding buildManifest_def Let_def by (elim bindE_InrE seqE_InrE guardE_InrE) auto
  have "wFs w' = wFs w \<and> manifest_inv E (wFs w) cs m"
  proof (rule foldE_inv [OF m, where J = "\<lambda>_ m v. wFs v = wFs w \<and> manifest_inv E (wFs w) cs m"])
    show "wFs w = wFs w \<and> manifest_inv E (wFs w) cs ([], [])" by (simp add: manifest_inv_def)
  next
    fix d s x v s1 v1
    assume "wFs v = wFs w \<and> manifest_inv E (wFs w) cs s" "walk_root E cs s x v = (Inr s1, v1)"
    then show "wFs v1 = wFs w \<and> manifest_inv E (wFs w) cs s1"
      using walk_root_inv [of E cs s x v s1 v1] by simp
  qed
  moreover have "distinct (map (\<lambda>f. to_lower (hLower E) (fRelativePath f)) (snd m))"
    if "manifest_inv E (wFs w) cs m"
    using that by (auto simp: manifest_inv_def)
  ultimately show ?thesis
    using cs f by (auto simp: manifest_inv_def distinct_map)
qed

text \<open>the manifest describes the files. When \<open>buildManifest\<close> succeeds, the tree is unchanged,
  every entry names a directory or a regular file of it under a valid relative path, with
  the length, the chunk count and the checksum of its bytes; no two entries have the same
  relative path up to case, and the entries are in path order.\<close>

theorem buildManifest_describes:
  assumes "buildManifest E paths cs w = (Inr (files, tot, agg), w')"
  shows "wFs w' = wFs w \<and> 0 < cs \<and> cs \<le> MaximumChunkSize \<and>
    sorted (map fRelativePath files) \<and>
    distinct (map (\<lambda>f. to_lower (hLower E) (fRelativePath f)) files) \<and>
    (\<forall>f \<in> set files. manifest_entry E (wFs w) cs f) \<and>
    tot = total_size (filter (\<lambda>f. \<not> fDirectory f) files)"
  using assms by (rule manifest_facts)

lemma sample_manifest:
  "\<exists>files tot agg w'. buildManifest sample_service [''/in''] 4 sample_world = (Inr (files, tot, agg), w') \<and>
     map fRelativePath files = [''in'', ''in/a.txt''] \<and> map fChunkCount files = [0, 2] \<and> tot = 5"
proof -
  have "(case buildManifest sample_service [''/in''] 4 sample_world of
      (Inr (files, tot, agg), w') \<Rightarrow> map fRelativePath files = [''in'', ''in/a.txt''] \<and>
        map fChunkCount files = [0, 2] \<and> tot = 5
    | _ \<Rightarrow> False)"
    by code_simp
  then show ?thesis by (auto split: prod.splits sum.splits)
qed

theorem buildManifest_describes_witness:
  "\<exists>files tot agg w'. buildManifest sample_service [''/in''] 4 sample_world = (Inr (files, tot, agg), w') \<and>
     map fRelativePath files = [''in'', ''in/a.txt''] \<and> map fChunkCount files = [0, 2] \<and> tot = 5 \<and>
     (\<forall>f \<in> set files. manifest_entry sample_service (wFs sample_world) 4 f)"
proof -
  from sample_manifest obtain files tot agg w' where
    m: "buildManifest sample_service [''/in''] 4 sample_world = (Inr (files, tot, agg), w')"
    "map fRelativePath files = [''in'', ''in/a.txt'']" "map fChunkCount files = [0, 2]" "tot = 5"
    by (elim exE conjE) (rule that)
  moreover have "\<forall>f \<in> set files. manifest_entry sample_service (wFs sample_world) 4 f"
    using buildManifest_describes [OF m(1)] by blast
  ultimately show ?thesis by (intro exI conjI)
qed

theorem commitFile_moves_witness:
  "(\<exists>u w'. commitFile sample_service ''/in/a.txt'' ''/data/x/b.txt'' False sample_world = (Inr u, w') \<and>
     wFs w' ''/data/x/b.txt'' = Some (NFile ''hello'') \<and> wFs w' ''/in/a.txt'' = None)"
proof -
  have "(case commitFile sample_service ''/in/a.txt'' ''/data/x/b.txt'' False sample_world of
      (Inr _, _) \<Rightarrow> True | _ \<Rightarrow> False)" by code_simp
  then obtain u w' where r: "commitFile sample_service ''/in/a.txt'' ''/data/x/b.txt'' False sample_world = (Inr u, w')"
    by (auto split: prod.splits sum.splits)
  have f: "wFs sample_world ''/in/a.txt'' = Some (NFile ''hello'')" by code_simp
  from commitFile_moves [OF r f] r f show ?thesis by (auto simp: moved_def)
qed

text \<open>C15: conflict resolution never names an occupied path unless the policy is to overwrite it.
  It changes nothing, and a renamed target stays in the directory of the original.\<close>

theorem resolveConflict_free:
  assumes "resolveConflict E (abs_path (es @ [e])) policy w = (Inr p, w')" and "normal_elems (es @ [e])"
  shows "wFs w' = wFs w \<and> (wFs w p = None \<or> policy = ConflictOverwrite \<and> p = abs_path (es @ [e])) \<and>
    (\<exists>e'. p = abs_path (es @ [e']) \<and> normal_elem e')"
  using resolveConflict_Inr [OF assms(1)] resolveConflict_below [OF assms] by blast

theorem resolveConflict_free_witness:
  "fst (resolveConflict sample_service (abs_path [''in'', ''a.txt'']) ConflictRename sample_world) =
     Inr ''/in/a (1).txt'' \<and> wFs sample_world ''/in/a (1).txt'' = None"
proof -
  have e: "fst (resolveConflict sample_service (abs_path ([''in''] @ [''a.txt''])) ConflictRename sample_world) =
     Inr ''/in/a (1).txt''" by code_simp
  from run_fst [OF e] obtain w' where
    r: "resolveConflict sample_service (abs_path ([''in''] @ [''a.txt''])) ConflictRename sample_world =
      (Inr ''/in/a (1).txt'', w')" ..
  have "normal_elems ([''in''] @ [''a.txt''])" by code_simp
  from resolveConflict_free [OF r this] have "wFs sample_world ''/in/a (1).txt'' = None"
    by (elim conjE disjE) (simp_all only: policies_distinct)
  with e show ?thesis by (simp only: append.simps simp_thms)
qed

text \<open>the chunks of a file tile it. For a size and a chunk size in range, \<open>chunkCount\<close> does not
  panic or overflow, chunk \<open>i\<close> is the bytes from \<open>i * chunkSize\<close> of the length both sender and
  receiver compute, each length is between 1 and the chunk size, and the lengths add up to
  the size of the file.\<close>

definition chunk_length :: "int \<Rightarrow> int \<Rightarrow> int \<Rightarrow> int" where
  "chunk_length sz cs i =
     (let remaining = wrap64 (sz - wrap64 (i * cs)) in if remaining < cs then remaining else cs)"

lemma chunk_length_range:
  assumes "0 \<le> sz" "0 < cs" "sz + cs < 2 ^ 63" "0 \<le> i" "i < (sz + cs - 1) div cs"
  shows "chunk_length sz cs i = min cs (sz - i * cs)" "0 < sz - i * cs" "in64 (i * cs)"
proof -
  define n where "n = (sz + cs - 1) div cs"
  note b = ceil_bounds [OF assms(2) n_def]
  have "i * cs \<le> (n - 1) * cs" using assms n_def by (intro mult_right_mono) auto
  then have lt: "i * cs < sz" using b by simp
  then show "0 < sz - i * cs" by simp
  have "0 \<le> i * cs" using assms by simp
  then show i64: "in64 (i * cs)" unfolding in64_def using lt assms(2,3) by linarith
  have "in64 (sz - i * cs)" unfolding in64_def using lt \<open>0 \<le> i * cs\<close> assms(2,3) by linarith
  with i64 show "chunk_length sz cs i = min cs (sz - i * cs)"
    by (simp add: chunk_length_def Let_def min_def)
qed

lemma sum_chunks:
  fixes sz cs :: int
  assumes "0 < cs" "0 \<le> sz"
  shows "(\<Sum>i<k. max 0 (min cs (sz - int i * cs))) = min sz (int k * cs)"
  using assms by (induction k) (auto simp: algebra_simps min_def max_def)

theorem chunks_tile:
  assumes "0 \<le> sz" and "0 < cs" and "sz + cs < 2 ^ 63"
  shows "\<exists>n. chunkCount sz cs = Some (int n) \<and>
    (\<forall>i < n. 0 < chunk_length sz cs (int i) \<and> chunk_length sz cs (int i) \<le> cs \<and>
       chunk_length sz cs (int i) = min cs (sz - int i * cs)) \<and>
    (\<Sum>i<n. chunk_length sz cs (int i)) = sz"
proof -
  let ?m = "(sz + cs - 1) div cs"
  have nn: "0 \<le> ?m" using assms by (simp add: pos_imp_zdiv_nonneg_iff)
  then obtain n where n: "?m = int n" using nonneg_int_cases by blast
  have eq: "chunk_length sz cs (int i) = max 0 (min cs (sz - int i * cs))"
    and pos: "0 < sz - int i * cs" and len: "chunk_length sz cs (int i) = min cs (sz - int i * cs)" if "i < n" for i
    using chunk_length_range [of sz cs "int i"] assms that n by auto
  have "(\<Sum>i<n. chunk_length sz cs (int i)) = min sz (int n * cs)"
    using sum_chunks [OF assms(2,1), of n] eq by simp
  also have "\<dots> = sz" using ceil_bounds(1) [OF assms(2) n [symmetric]] by simp
  finally have "(\<Sum>i<n. chunk_length sz cs (int i)) = sz" .
  then show ?thesis
    using chunkCount_ceil [OF assms] n pos len assms(2) by (intro exI [of _ n]) auto
qed

theorem chunks_tile_witness: "chunkCount 10 4 = Some 3 \<and> (\<Sum>i<3. chunk_length 10 4 (int i)) = 10"
proof -
  have "chunkCount 10 4 = Some 3" by code_simp
  with chunks_tile [of 10 4] show ?thesis by (auto simp: in64_def)
qed

end
