(* ===== verification/GoNet.thy ===== *)
theory GoNet
  imports GoLib
begin

text \<open>
  The parts of Go's package \<open>net\<close> that decide who a peer is: \<open>ParseIP\<close>, which reads an
  IPv4 or IPv6 address into sixteen bytes, \<open>IP.Equal\<close>, and \<open>JoinHostPort\<close>.
\<close>

section \<open>Parsing addresses\<close>

definition is_hex :: "char \<Rightarrow> bool" where
  "is_hex c \<longleftrightarrow> hex_val c \<noteq> None"

definition octet :: "string \<Rightarrow> int option" where
  "octet s =
     (if s = [] \<or> \<not> list_all is_digit s \<or> (1 < length s \<and> hd s = CHR ''0'') \<or> 255 < digits_val s
      then None else Some (digits_val s))"

definition parse_v4 :: "string \<Rightarrow> int list option" where
  "parse_v4 s = (case map octet (split_on CHR ''.'' s) of
       [Some a, Some b, Some c, Some d] \<Rightarrow> Some [a, b, c, d]
     | _ \<Rightarrow> None)"

definition hextet :: "string \<Rightarrow> int list" where
  "hextet ds =
     (let v = foldl (\<lambda>n c. 16 * n + int (the (hex_val c))) 0 ds in [v div 256, v mod 256])"

text \<open>The fields of an IPv6 address; \<open>ell\<close> is the place of the double colon.\<close>

function v6_fields :: "string \<Rightarrow> int list \<Rightarrow> nat option \<Rightarrow> (int list \<times> nat option) option" where
  "v6_fields s acc ell =
     (if 16 \<le> length acc then (if s = [] then Some (acc, ell) else None)
      else let ds = takeWhile is_hex s; r = drop (length ds) s; acc' = acc @ hextet ds in
        if ds = [] \<or> 4 < length ds then None
        else case r of
          [] \<Rightarrow> Some (acc', ell)
        | c # r1 \<Rightarrow>
            if c = CHR ''.'' then
              (if (ell = None \<and> length acc \<noteq> 12) \<or> 16 < length acc + 4 then None
               else map_option (\<lambda>v. (acc @ v, ell)) (parse_v4 s))
            else if c \<noteq> CHR '':'' \<or> r1 = [] then None
            else if hd r1 \<noteq> CHR '':'' then v6_fields r1 acc' ell
            else if ell \<noteq> None then None
            else if tl r1 = [] then Some (acc', Some (length acc'))
            else v6_fields (tl r1) acc' (Some (length acc')))"
  by pat_completeness auto

termination
proof (relation "measure (\<lambda>(s, _, _). length s)", goal_cases)
  case (2 s acc ell ds r acc' c r1)
  have "length r \<le> length s" using 2(3) by simp
  with 2(6) show ?case by simp
next
  case (3 s acc ell ds r acc' c r1)
  have "length r \<le> length s" using 3(3) by simp
  with 3(6) show ?case by simp
qed simp

declare v6_fields.simps [simp del]

definition v6_expand :: "int list \<times> nat option \<Rightarrow> int list option" where
  "v6_expand r = (case r of
       (bs, None) \<Rightarrow> if length bs = 16 then Some bs else None
     | (bs, Some e) \<Rightarrow> if 16 \<le> length bs then None
         else Some (take e bs @ replicate (16 - length bs) 0 @ drop e bs))"

definition parse_v6 :: "string \<Rightarrow> int list option" where
  "parse_v6 s =
     (if has_prefix s ''::'' then
        (if s = ''::'' then Some (replicate 16 0)
         else Option.bind (v6_fields (drop 2 s) [] (Some 0)) v6_expand)
      else Option.bind (v6_fields s [] None) v6_expand)"

definition v4_mapped :: "int list \<Rightarrow> int list" where
  "v4_mapped bs = replicate 10 0 @ [255, 255] @ bs"

text \<open>The first dot, colon or percent sign decides the syntax; a zone is refused.\<close>

definition parse_ip :: "string \<Rightarrow> int list option" where
  "parse_ip s =
     (case dropWhile (\<lambda>c. c \<noteq> CHR ''.'' \<and> c \<noteq> CHR '':'' \<and> c \<noteq> CHR ''%'') s of
        [] \<Rightarrow> None
      | c # _ \<Rightarrow>
          if c = CHR ''.'' then map_option v4_mapped (parse_v4 s)
          else if c = CHR '':'' \<and> CHR ''%'' \<notin> set s then parse_v6 s
          else None)"

definition sameIP :: "string \<Rightarrow> string \<Rightarrow> bool" where
  "sameIP l r = (case (parse_ip (trim_space l), parse_ip (trim_space r)) of
       (Some a, Some b) \<Rightarrow> a = b
     | _ \<Rightarrow> False)"

definition join_host_port :: "string \<Rightarrow> string \<Rightarrow> string" where
  "join_host_port host port =
     (if CHR '':'' \<in> set host then ''['' @ host @ '']:'' @ port else host @ '':'' @ port)"

section \<open>Laws\<close>

lemma sameIP_sym: "sameIP a b = sameIP b a"
  by (auto simp: sameIP_def split: option.splits)

lemma sameIP_trans: "sameIP a b \<Longrightarrow> sameIP b c \<Longrightarrow> sameIP a c"
  by (auto simp: sameIP_def split: option.splits)

lemma parse_v4_length: "parse_v4 s = Some bs \<Longrightarrow> length bs = 4"
  by (auto simp: parse_v4_def split: list.splits option.splits)

lemma length_hextet [simp]: "length (hextet ds) = 2"
  by (simp add: hextet_def Let_def)

lemma v6_fields_length:
  "v6_fields s acc ell = Some (bs, e) \<Longrightarrow> length acc \<le> 16 \<Longrightarrow> even (length acc) \<Longrightarrow>
   (\<forall>k. ell = Some k \<longrightarrow> k \<le> length acc) \<Longrightarrow>
   length bs \<le> 16 \<and> (\<forall>k. e = Some k \<longrightarrow> k \<le> length bs)"
proof (induction s acc ell rule: v6_fields.induct)
  case (1 s acc ell)
  let ?ds = "takeWhile is_hex s"
  let ?r = "drop (length ?ds) s"
  let ?acc = "acc @ hextet ?ds"
  show ?case
  proof (cases "16 \<le> length acc")
    case True
    then show ?thesis using 1(3-6) by (auto simp: v6_fields.simps [of s] split: if_splits)
  next
    case False
    then have l: "length ?acc \<le> 16" "even (length ?acc)"
      using 1(5) by (simp_all, presburger)
    have ds: "\<not> (?ds = [] \<or> 4 < length ?ds)"
      using 1(3) False by (auto simp: v6_fields.simps [of s] Let_def)
    show ?thesis
    proof (cases ?r)
      case Nil
      then show ?thesis using 1(3-6) False ds l by (auto simp: v6_fields.simps [of s] Let_def)
    next
      case (Cons c r1)
      note body = 1(3) [unfolded v6_fields.simps [of s] Let_def if_not_P [OF False] if_not_P [OF ds] Cons
          list.case]
      note IH1 = 1(1) [OF False refl refl refl ds Cons]
      note IH2 = 1(2) [OF False refl refl refl ds Cons]
      show ?thesis
      proof (cases "c = CHR ''.''")
        case True
        then show ?thesis
          using body 1(6) by (auto dest: parse_v4_length split: if_splits)
      next
        case ndot: False
        have ell: "\<forall>k. ell = Some k \<longrightarrow> k \<le> length ?acc" using 1(6) by auto
        show ?thesis
          using body ndot IH1 [OF _ _ _ _ l ell] IH2 l by (auto split: if_splits)
      qed
    qed
  qed
qed

lemma parse_ip_length: "parse_ip s = Some bs \<Longrightarrow> length bs = 16"
proof -
  have v6: "Option.bind (v6_fields t [] e) v6_expand = Some bs \<Longrightarrow>
      e = None \<or> e = Some 0 \<Longrightarrow> length bs = 16" for t e
  proof -
    assume r: "Option.bind (v6_fields t [] e) v6_expand = Some bs" and e: "e = None \<or> e = Some 0"
    then obtain p k where f: "v6_fields t [] e = Some (p, k)" "v6_expand (p, k) = Some bs"
      by (cases "v6_fields t [] e") auto
    then have "length p \<le> 16" "\<forall>j. k = Some j \<longrightarrow> j \<le> length p"
      using v6_fields_length [OF f(1)] e by auto
    then show "length bs = 16" using f(2) by (auto simp: v6_expand_def split: option.splits if_splits)
  qed
  assume "parse_ip s = Some bs"
  then show ?thesis
    using v6 by (auto simp: parse_ip_def parse_v6_def v4_mapped_def dest!: parse_v4_length
        split: list.splits if_splits)
qed

end
