(* ===== verification/TransferWire.thy ===== *)
theory TransferWire
  imports TransferFiles GoNet
begin

text \<open>
  How two engines recognise each other: session tokens and offer signatures (\<open>auth.go\<close> and
  the helpers at the end of \<open>service.go\<close>), the replay cache of nonces, the HTTP client pinned
  to the key of the paired device, and \<open>jsonRequest\<close> of \<open>sender.go\<close>.
\<close>

section \<open>Tokens\<close>

definition validSHA256 :: "string \<Rightarrow> bool" where
  "validSHA256 v \<longleftrightarrow> length v = 64 \<and> hex_decode v \<noteq> None"

definition validateDeviceID :: "('r) host_scheme \<Rightarrow> string \<Rightarrow> terr + unit" where
  "validateDeviceID E i =
     (if hUuidOk E i then Inr () else Inl (wrapped ErrInvalidRequest ''invalid device ID''))"

definition hashToken :: "('r) host_scheme \<Rightarrow> string \<Rightarrow> string" where
  "hashToken E token = hex_encode (hSha256 E token)"

definition tokenMatches :: "('r) host_scheme \<Rightarrow> string \<Rightarrow> string \<Rightarrow> bool" where
  "tokenMatches E hash token \<longleftrightarrow>
     (let actual = hashToken E token in length hash = length actual \<and> hash = actual)"

definition generateToken :: "('r) host_scheme \<Rightarrow> string tm" where
  "generateToken E = bindE (outsideE (\<lambda>n. hRand E n 32)) (\<lambda>bytes. retE (b64_encode bytes))"

section \<open>Signed offers\<close>

definition newline :: string where
  "newline = [CHR 0x0A]"

definition canonical :: "('r) host_scheme \<Rightarrow> string \<Rightarrow> string \<Rightarrow> string \<Rightarrow> string \<Rightarrow> string \<Rightarrow> string \<Rightarrow> string" where
  "canonical E verb path deviceID timestamp nonce content =
     join_with newline [verb, path, deviceID, timestamp, nonce, hex_encode (hSha256 E content)]"

definition offerSignature ::
  "('r) host_scheme \<Rightarrow> string \<Rightarrow> string \<Rightarrow> string \<Rightarrow> string \<Rightarrow> string \<Rightarrow> string \<Rightarrow> string \<Rightarrow> string" where
  "offerSignature E key verb path deviceID timestamp nonce content =
     b64_encode (hHmac E key (canonical E verb path deviceID timestamp nonce content))"

definition validOfferSignature ::
  "('r) host_scheme \<Rightarrow> string \<Rightarrow> peer_authentication \<Rightarrow> string \<Rightarrow> string \<Rightarrow> string \<Rightarrow> bool" where
  "validOfferSignature E key auth verb path content =
     (case b64_decode (offerSignature E key verb path (paDeviceID auth) (paTimestamp auth) (paNonce auth) content) of
        None \<Rightarrow> False
      | Some expected \<Rightarrow>
          (case b64_decode (paSignature auth) of
             None \<Rightarrow> False
           | Some actual \<Rightarrow> expected = actual))"

text \<open>The difference is computed and negated in \<open>int64\<close>.\<close>

definition validProtocolTime :: "string \<Rightarrow> time \<Rightarrow> bool" where
  "validProtocolTime value n =
     (case parse_int value of
        None \<Rightarrow> False
      | Some seconds \<Rightarrow>
          (let difference = wrap64 (unix n - seconds);
               difference' = (if difference < 0 then wrap64 (- difference) else difference)
           in difference' \<le> 120))"

definition useAuthenticationNonce :: "string \<Rightarrow> time \<Rightarrow> bool tm" where
  "useAuthenticationNonce nonce n = (\<lambda>w.
     let nonces = prune (\<lambda>_ used. 5 * minute < n - used) (wNonces w) in
     case nonces nonce of
       Some _ \<Rightarrow> (Inr False, w\<lparr>wNonces := nonces\<rparr>)
     | None \<Rightarrow> (Inr True, w\<lparr>wNonces := nonces(nonce \<mapsto> n)\<rparr>))"

section \<open>Peers\<close>

definition peer :: "('r) host_scheme \<Rightarrow> string \<Rightarrow> device option tm" where
  "peer E i = bindE (outside (hDevices E)) (\<lambda>ds. retE (find_first (\<lambda>d. dID d = i) ds))"

definition peerAddress :: "service \<Rightarrow> device \<Rightarrow> string" where
  "peerAddress E d =
     sPeerScheme E @ ''://'' @ join_host_port (trim_space (dLocalIP d)) (int_dec (dPort d))"

text \<open>
  The key the connection must present. A client injected by \<open>ServiceConfig\<close> (the scheme is
  then \<open>http\<close>) pins nothing.
\<close>

definition peerClient :: "service \<Rightarrow> string \<Rightarrow> string option tm" where
  "peerClient E deviceID =
     (if sPeerScheme E = ''http'' then retE None
      else bindE (getE (\<lambda>w. wPinned w deviceID)) (\<lambda>cached.
        case cached of
          Some key \<Rightarrow> retE (Some key)
        | None \<Rightarrow>
            bindE (outsideE (\<lambda>n. hPublicKey E n deviceID)) (\<lambda>key.
            seqE (modE (\<lambda>w. w\<lparr>wPinned := (wPinned w)(deviceID \<mapsto> key)\<rparr>))
            (retE (Some key)))))"

definition verifyConnection :: "string \<Rightarrow> string option list \<Rightarrow> terr + unit" where
  "verifyConnection pinned certs =
     (case certs of
        [presented] \<Rightarrow>
          if presented = Some pinned then Inr ()
          else Inl (other ''peer TLS identity does not match the paired device'')
      | _ \<Rightarrow> Inl (other ''peer did not present exactly one TLS certificate''))"

definition client_do :: "('r) host_scheme \<Rightarrow> string option \<Rightarrow> http_request \<Rightarrow> http_response tm" where
  "client_do E pinned rq =
     bindE (outsideE (\<lambda>n. hHttp E n rq)) (\<lambda>rs.
     seqE (case pinned of None \<Rightarrow> retE () | Some key \<Rightarrow> liftE (verifyConnection key (hsCerts rs)))
     (retE rs))"

definition sign_offer :: "service \<Rightarrow> string \<Rightarrow> string \<Rightarrow> string \<Rightarrow> offer \<Rightarrow> string \<Rightarrow> (string \<times> string) list tm" where
  "sign_offer E verb path deviceID oo encoded =
     bindE (outsideE (\<lambda>n. hSharedKey E n deviceID)) (\<lambda>sharedKey.
     bindE (now E) (\<lambda>n.
     bindE (outside (hUuid E)) (\<lambda>nonce.
     let timestamp = int_dec (unix n) in
     retE [(''X-SyncSpace-Device-ID'', oDeviceID oo), (''X-SyncSpace-Timestamp'', timestamp),
       (''X-SyncSpace-Nonce'', nonce),
       (''X-SyncSpace-Signature'', offerSignature E sharedKey verb path (oDeviceID oo) timestamp nonce encoded)])))"

definition jsonRequest ::
  "service \<Rightarrow> string \<Rightarrow> string \<Rightarrow> string \<Rightarrow> string \<Rightarrow> string \<Rightarrow> offer option \<Rightarrow> string tm" where
  "jsonRequest E verb address path deviceID token input =
     bindE (case input of None \<Rightarrow> retE [] | Some oo \<Rightarrow> liftE (hOfferJson E oo)) (\<lambda>encoded.
     bindE (if token \<noteq> [] then retE [(''Authorization'', ''Bearer '' @ token)]
            else case input of None \<Rightarrow> retE []
                 | Some oo \<Rightarrow> sign_offer E verb path deviceID oo encoded) (\<lambda>auth.
     bindE (peerClient E deviceID) (\<lambda>pinned.
     bindE (client_do E pinned \<lparr>hqMethod = verb, hqURL = address @ path, hqDevice = deviceID,
         hqHeaders = (if input = None then [] else [(''Content-Type'', ''application/json'')]) @ auth,
         hqBody = encoded\<rparr>) (\<lambda>rs.
     seqE (guardE (hsCode rs < 200 \<or> 300 \<le> hsCode rs)
         (other (''remote returned '' @ hsStatus rs @ '': '' @ trim_space (take 4096 (hsBody rs)))))
     (retE (hsBody rs))))))"

section \<open>Laws\<close>

lemma tokenMatches_iff: "tokenMatches E hash token \<longleftrightarrow> hash = hashToken E token"
  by (auto simp: tokenMatches_def Let_def)

lemma hashToken_nonempty: "hSha256 E token \<noteq> [] \<Longrightarrow> hashToken E token \<noteq> []"
  using length_hex_encode [of "hSha256 E token"] by (auto simp: hashToken_def simp del: length_hex_encode)

lemma nonce_outcome:
  assumes "useAuthenticationNonce nonce n w = (Inr b, w')"
  shows "wNonces w' nonce \<noteq> None \<and> wDb w' = wDb w \<and> wFs w' = wFs w \<and>
    (b \<longleftrightarrow> (\<forall>t. wNonces w nonce = Some t \<longrightarrow> 5 * minute < n - t))"
  using assms by (auto simp: useAuthenticationNonce_def Let_def prune_None split: option.splits)

lemma useAuthenticationNonce_total: "\<exists>b w'. useAuthenticationNonce nonce n w = (Inr b, w')"
  by (auto simp: useAuthenticationNonce_def Let_def split: option.splits)

lemma db_stable_wire [db_stable]:
  "keeps (\<lambda>w. P (wDb w)) (useAuthenticationNonce nonce n)"
  "keeps (\<lambda>w. P (wDb w)) (peer E i)"
  "keeps (\<lambda>w. P (wDb w)) (generateToken E)"
  "keeps (\<lambda>w. P (wDb w)) (peerClient Z deviceID)"
  "keeps (\<lambda>w. P (wDb w)) (client_do E pinned rq)"
  "keeps (\<lambda>w. P (wDb w)) (sign_offer Z verb path deviceID oo encoded)"
proof -
  show "keeps (\<lambda>w. P (wDb w)) (useAuthenticationNonce nonce n)"
    by (auto simp: keeps_def useAuthenticationNonce_def Let_def split: option.splits)
  show "keeps (\<lambda>w. P (wDb w)) (peer E i)" "keeps (\<lambda>w. P (wDb w)) (generateToken E)"
    unfolding peer_def generateToken_def by (intro keeps_rules db_stable)+
  show "keeps (\<lambda>w. P (wDb w)) (peerClient Z deviceID)"
    unfolding peerClient_def by (intro keeps_rules db_stable keeps_mod) simp
  show "keeps (\<lambda>w. P (wDb w)) (client_do E pinned rq)"
    unfolding client_do_def by (intro keeps_rules db_stable)
  show "keeps (\<lambda>w. P (wDb w)) (sign_offer Z verb path deviceID oo encoded)"
    unfolding sign_offer_def Let_def by (intro keeps_rules db_stable)
qed

lemma db_stable_json [db_stable]: "keeps (\<lambda>w. P (wDb w)) (jsonRequest Z verb address path deviceID token input)"
  unfolding jsonRequest_def by (intro keeps_rules db_stable)

lemma fs_stable_wire [fs_stable]:
  "keeps (\<lambda>w. P (wFs w)) (useAuthenticationNonce nonce n)"
  "keeps (\<lambda>w. P (wFs w)) (peer E i)"
  "keeps (\<lambda>w. P (wFs w)) (generateToken E)"
  "keeps (\<lambda>w. P (wFs w)) (peerClient Z deviceID)"
  "keeps (\<lambda>w. P (wFs w)) (client_do E pinned rq)"
  "keeps (\<lambda>w. P (wFs w)) (sign_offer Z verb path deviceID oo encoded)"
proof -
  show "keeps (\<lambda>w. P (wFs w)) (useAuthenticationNonce nonce n)"
    by (auto simp: keeps_def useAuthenticationNonce_def Let_def split: option.splits)
  show "keeps (\<lambda>w. P (wFs w)) (peer E i)" "keeps (\<lambda>w. P (wFs w)) (generateToken E)"
    unfolding peer_def generateToken_def by (intro keeps_rules fs_stable)+
  show "keeps (\<lambda>w. P (wFs w)) (peerClient Z deviceID)"
    unfolding peerClient_def by (intro keeps_rules fs_stable keeps_mod) simp
  show "keeps (\<lambda>w. P (wFs w)) (client_do E pinned rq)"
    unfolding client_do_def by (intro keeps_rules fs_stable)
  show "keeps (\<lambda>w. P (wFs w)) (sign_offer Z verb path deviceID oo encoded)"
    unfolding sign_offer_def Let_def by (intro keeps_rules fs_stable)
qed

lemma fs_stable_json [fs_stable]: "keeps (\<lambda>w. P (wFs w)) (jsonRequest Z verb address path deviceID token input)"
  unfolding jsonRequest_def by (intro keeps_rules fs_stable)

end
