(* ===== verification/TransferReceive.thy ===== *)
theory TransferReceive
  imports TransferWire
begin

text \<open>
  The receiving side of \<open>transfer/service.go\<close>: offers, approval, chunks, the status a sender
  polls, cancellation by the sender, and \<open>Finalize\<close>, with the durable transitions
  \<open>refreshProgress\<close>, \<open>finish\<close> and \<open>fail\<close> they share with the sending side.
\<close>

section \<open>Durable transitions\<close>

definition Get :: "('r) host_scheme \<Rightarrow> string \<Rightarrow> transfer tm" where
  "Get E i = seqE (guardE (\<not> hUuidOk E i) (plain ErrInvalidRequest)) (getTransfer E i)"

definition finished :: "transfer \<Rightarrow> status \<Rightarrow> string \<Rightarrow> time \<Rightarrow> transfer" where
  "finished t s message n = t\<lparr>tStatus := s, tError := message, tSpeed := 0, tETASeconds := 0,
     tUpdatedAt := n, tFinishedAt := Some n\<rparr>"

definition finish :: "('r) host_scheme \<Rightarrow> transfer \<Rightarrow> status \<Rightarrow> string \<Rightarrow> event_type \<Rightarrow> transfer tm" where
  "finish E t s message k =
     bindE (now E) (\<lambda>n.
     let t' = finished t s message n in
     seqE (saveTransfer E t') (seqE (logAndPublish E k t') (retE t')))"

text \<open>\<open>fail\<close> returns its error, or the error of the save.\<close>

definition fail :: "('r) host_scheme \<Rightarrow> transfer \<Rightarrow> terr \<Rightarrow> 'a tm" where
  "fail E t err = seqE (finish E t StatusFailed (terr_text err) EventFailed) (throwE err)"

text \<open>\<open>if err := m(); err != nil { return s.fail(ctx, t, err) }\<close>.\<close>

definition or_fail :: "('r) host_scheme \<Rightarrow> transfer \<Rightarrow> 'a tm \<Rightarrow> 'a tm" where
  "or_fail E t m = bindE (tryE m) (\<lambda>r. case r of Inl e \<Rightarrow> fail E t e | Inr a \<Rightarrow> retE a)"

definition stopped_status :: "status \<Rightarrow> bool" where
  "stopped_status s \<longleftrightarrow> s \<in> {StatusPaused, StatusCancelled, StatusCompleted, StatusFailed}"

definition complete_bytes :: "chunk list \<Rightarrow> int" where
  "complete_bytes cs =
     foldl (\<lambda>p c. if kStatus c = ChunkComplete then wrap64 (p + kSize c) else p) 0 cs"

definition refreshed :: "('r) host_scheme \<Rightarrow> transfer \<Rightarrow> chunk list \<Rightarrow> time \<Rightarrow> transfer" where
  "refreshed E t cs n =
     (let progress = complete_bytes cs;
          elapsed = (case tStartedAt t of
              Some s \<Rightarrow> if second < n - s then n - s else second
            | None \<Rightarrow> second);
          t1 = t\<lparr>tProgress := progress\<rparr>;
          t2 = (if stopped_status (tStatus t) then t1\<lparr>tSpeed := 0, tETASeconds := 0\<rparr>
                else t1\<lparr>tSpeed := hSpeed E progress elapsed\<rparr>);
          t3 = (if 0 < tSpeed t2 \<and> progress < tSize t2
                then t2\<lparr>tETASeconds := the (go_div (wrap64 (tSize t2 - progress)) (tSpeed t2))\<rparr> else t2)
      in t3\<lparr>tUpdatedAt := n\<rparr>)"

definition refreshProgress :: "('r) host_scheme \<Rightarrow> transfer \<Rightarrow> time \<Rightarrow> transfer tm" where
  "refreshProgress E t n =
     bindE (getTransfer E (tID t)) (\<lambda>current.
     bindE (listChunks E (tID current)) (\<lambda>cs.
     let t' = refreshed E current cs n in
     seqE (saveTransfer E t') (seqE (logAndPublish E EventProgress t') (retE t'))))"

section \<open>Offers\<close>

text \<open>One round of the loop over the files of an offer: the lower-case paths seen, and the total.\<close>

definition check_file ::
  "('r) host_scheme \<Rightarrow> int \<Rightarrow> string list \<times> int \<Rightarrow> transfer_file \<Rightarrow> terr + (string list \<times> int)" where
  "check_file E chunkSize st f =
     (let key = to_lower (hLower E) (fRelativePath f) in
      if \<not> hUuidOk E (fID f) then Inl (wrapped ErrInvalidRequest ''invalid file ID'')
      else case validateRelativePath (fRelativePath f) of
        Inl e \<Rightarrow> Inl e
      | Inr _ \<Rightarrow>
          if key \<in> set (fst st) then Inl (wrapped ErrInvalidRequest ''duplicate path'')
          else if fSize f < 0 \<or> fChunkSize f \<noteq> chunkSize \<or>
            Some (fChunkCount f) \<noteq> chunkCount (fSize f) (fChunkSize f)
          then Inl (wrapped ErrInvalidRequest ''invalid file metadata'')
          else if \<not> fDirectory f \<and> \<not> validSHA256 (fChecksum f)
          then Inl (wrapped ErrInvalidRequest ''invalid checksum'')
          else if fDirectory f \<and> (fSize f \<noteq> 0 \<or> fChunkCount f \<noteq> 0)
          then Inl (wrapped ErrInvalidRequest ''invalid directory entry'')
          else Inr (key # fst st, wrap64 (snd st + fSize f)))"

fun check_files ::
  "('r) host_scheme \<Rightarrow> int \<Rightarrow> string list \<times> int \<Rightarrow> transfer_file list \<Rightarrow> terr + (string list \<times> int)" where
  "check_files E cs st [] = Inr st"
| "check_files E cs st (f # fs) =
     (case check_file E cs st f of Inl e \<Rightarrow> Inl e | Inr st' \<Rightarrow> check_files E cs st' fs)"

definition offers_path :: string where
  "offers_path = ''/v1/transfers/offers''"

definition authenticate_offer ::
  "('r) host_scheme \<Rightarrow> offer \<Rightarrow> peer_authentication \<Rightarrow> unit tm" where
  "authenticate_offer E oo auth =
     seqE (guardE (\<not> hUuidOk E (oTransferID oo)) (wrapped ErrInvalidRequest ''invalid transfer ID''))
     (seqE (liftE (validateDeviceID E (oDeviceID oo)))
     (bindE (outsideE (\<lambda>n. hTrusted E n (oDeviceID oo))) (\<lambda>trusted.
     seqE (guardE (\<not> trusted) (plain ErrUntrustedDevice))
     (bindE (now E) (\<lambda>n.
     seqE (guardE (paDeviceID auth \<noteq> oDeviceID oo \<or> \<not> validProtocolTime (paTimestamp auth) n \<or> paNonce auth = [])
        (wrapped ErrUnauthorized ''malformed offer authentication''))
     (bindE (tryE (outsideE (\<lambda>n. hSharedKey E n (oDeviceID oo)))) (\<lambda>r.
      case r of
        Inl _ \<Rightarrow> throwE (wrapped ErrUnauthorized ''pairing credential unavailable'')
      | Inr sharedKey \<Rightarrow>
          bindE (liftE (hOfferJson E oo)) (\<lambda>encoded.
          seqE (guardE (\<not> validOfferSignature E sharedKey auth ''POST'' offers_path encoded)
             (wrapped ErrUnauthorized ''offer signature mismatch''))
          (bindE (bindE (now E) (useAuthenticationNonce (paNonce auth))) (\<lambda>fresh.
           guardE (\<not> fresh) (wrapped ErrUnauthorized ''replayed offer'')))))))))))"

definition offer_labels :: "offer \<Rightarrow> terr + unit" where
  "offer_labels oo =
     (if trim_space (oDeviceName oo) = [] \<or> 128 < length (oDeviceName oo) \<or>
         trim_space (oFilename oo) = [] \<or> 512 < length (oFilename oo)
      then Inl (wrapped ErrInvalidRequest ''invalid offer labels'')
      else if 255 < length (oDeviceHostname oo) \<or> 64 < length (oDevicePlatform oo)
      then Inl (wrapped ErrInvalidRequest ''invalid sender identity details'')
      else if oProtocolVersion oo \<noteq> ProtocolVersion \<or> oChunkSize oo \<le> 0 \<or>
         MaximumChunkSize < oChunkSize oo \<or> oFiles oo = [] \<or> oSize oo < 0 \<or> length (oSessionToken oo) < 32
      then Inl (wrapped ErrInvalidRequest ''unsupported offer'')
      else Inr ())"

definition offered_transfer :: "('r) host_scheme \<Rightarrow> offer \<Rightarrow> device \<Rightarrow> string \<Rightarrow> time \<Rightarrow> transfer" where
  "offered_transfer E oo p remoteAddress n =
     (let hostname = (if trim_space (oDeviceHostname oo) = [] then dHostname p
                      else trim_space (oDeviceHostname oo));
          platform = (if trim_space (oDevicePlatform oo) = [] then dPlatform p
                      else trim_space (oDevicePlatform oo))
      in transfer_zero\<lparr>tID := oTransferID oo, tDirection := DirectionInbound, tDeviceID := oDeviceID oo,
        tDeviceName := oDeviceName oo, tDeviceHostname := hostname, tDevicePlatform := platform,
        tRemoteAddress := remoteAddress, tFilename := oFilename oo, tFiles := oFiles oo,
        tSize := oSize oo, tStatus := StatusQueued, tCreatedAt := n, tUpdatedAt := n,
        tPriority := n, tApprovalRequired := True, tConflictPolicy := ConflictPrompt,
        tChunkSize := oChunkSize oo, tCompression := oCompression oo,
        tProtocolVersion := oProtocolVersion oo, tSessionTokenHash := hashToken E (oSessionToken oo)\<rparr>)"

text \<open>The end of \<open>ReceiveOffer\<close>: a known transfer is returned, a new one is stored.\<close>

definition record_offer :: "('r) host_scheme \<Rightarrow> offer \<Rightarrow> device \<Rightarrow> string \<Rightarrow> transfer tm" where
  "record_offer E oo p remoteAddress =
     bindE (tryE (getTransfer E (oTransferID oo))) (\<lambda>r.
     case r of
       Inr existing \<Rightarrow> retE existing
     | Inl e \<Rightarrow>
         seqE (guardE (terr_kind e \<noteq> ErrNotFound) e)
         (bindE (now E) (\<lambda>n.
          let t = offered_transfer E oo p remoteAddress n in
          seqE (saveTransfer E t) (seqE (logAndPublish E EventQueueUpdated t) (retE t)))))"

definition admit_offer :: "('r) host_scheme \<Rightarrow> offer \<Rightarrow> string \<Rightarrow> transfer tm" where
  "admit_offer E oo remoteAddress =
     bindE (peer E (oDeviceID oo)) (\<lambda>found.
     case found of
       None \<Rightarrow> throwE (wrapped ErrUntrustedDevice ''offer source does not match the discovered device'')
     | Some p \<Rightarrow>
         seqE (guardE (\<not> dOnline p \<or> \<not> sameIP (dLocalIP p) remoteAddress)
            (wrapped ErrUntrustedDevice ''offer source does not match the discovered device''))
         (seqE (liftE (offer_labels oo))
         (bindE (liftE (check_files E (oChunkSize oo) ([], 0) (oFiles oo))) (\<lambda>st.
          seqE (guardE (snd st \<noteq> oSize oo) (wrapped ErrInvalidRequest ''total size mismatch''))
          (record_offer E oo p remoteAddress)))))"

definition ReceiveOffer ::
  "('r) host_scheme \<Rightarrow> offer \<Rightarrow> string \<Rightarrow> peer_authentication \<Rightarrow> transfer tm" where
  "ReceiveOffer E oo remoteAddress auth = seqE (authenticate_offer E oo auth) (admit_offer E oo remoteAddress)"

section \<open>Approval\<close>

text \<open>The nearest existing directory, where \<open>statfs\<close> is asked.\<close>

definition storageProbePath :: "string option \<Rightarrow> fsys \<Rightarrow> string \<Rightarrow> string" where
  "storageProbePath cwd fs path =
     (case path_abs cwd path of
        None \<Rightarrow> path
      | Some current \<Rightarrow>
          (case find_first (\<lambda>q. fs q \<noteq> None) (rev (ancestors current)) of
             Some q \<Rightarrow> q | None \<Rightarrow> path))"

definition availableStorage :: "('r) host_scheme \<Rightarrow> string \<Rightarrow> (tworld, 'e, int) gom" where
  "availableStorage E path =
     bindE (getE wFs) (\<lambda>fs. outside (\<lambda>n. hAvail E n (storageProbePath (hCwd E) fs path)))"

definition place_file :: "('r) host_scheme \<Rightarrow> string \<Rightarrow> string \<Rightarrow> transfer_file \<Rightarrow> transfer_file tm" where
  "place_file E root policy f =
     bindE (liftE (secureJoin (hCwd E) root (fRelativePath f))) (\<lambda>target.
     let f' = f\<lparr>fDestinationPath := target\<rparr> in
     if policy = ConflictPrompt then
       bindE (tryE (fs_read E (\<lambda>fs. os_lstat fs target))) (\<lambda>r.
       case r of
         Inr _ \<Rightarrow> throwE (wrapped ErrConflictResolution (fRelativePath f))
       | Inl OsNotExist \<Rightarrow> retE f'
       | Inl e \<Rightarrow> throwE (os_terr e))
     else retE f')"

definition accepted :: "transfer \<Rightarrow> string \<Rightarrow> string \<Rightarrow> transfer_file list \<Rightarrow> time \<Rightarrow> transfer" where
  "accepted t root policy files n = t\<lparr>tFiles := files, tPath := root, tApproved := True,
     tConflictPolicy := policy, tStatus := StatusReceiving, tUpdatedAt := n, tStartedAt := Some n\<rparr>"

definition Accept :: "('r) host_scheme \<Rightarrow> string \<Rightarrow> accept_request \<Rightarrow> transfer tm" where
  "Accept E i rq =
     bindE (Get E i) (\<lambda>t.
     seqE (guardE (tDirection t \<noteq> DirectionInbound \<or> tStatus t \<noteq> StatusQueued \<or> \<not> tApprovalRequired t)
        (plain ErrInvalidState))
     (seqE (guardE (trim_space (aDestinationPath rq) = []) (wrapped ErrInvalidRequest ''destination path is required''))
     (case path_abs (hCwd E) (aDestinationPath rq) of
        None \<Rightarrow> throwE (other ''getwd'')
      | Some root \<Rightarrow>
          seqE (osE (fs_call E (os_mkdir_all root)))
          (bindE (availableStorage E root) (\<lambda>available.
           seqE (guardE (0 < available \<and> available < tSize t)
              (wrapped ErrInsufficientStorage (''need '' @ int_dec (tSize t) @ '' bytes, '' @
                 int_dec available @ '' bytes available'')))
           (let policy = (if aConflictPolicy rq = [] then ConflictPrompt else aConflictPolicy rq) in
            seqE (guardE (\<not> validPolicy policy) (plain ErrInvalidRequest))
            (bindE (mapE (place_file E root policy) (tFiles t)) (\<lambda>files.
             bindE (now E) (\<lambda>n.
             let t' = accepted t root policy files n in
             seqE (saveTransfer E t') (seqE (logAndPublish E EventResumed t') (retE t')))))))))))"

definition Reject :: "('r) host_scheme \<Rightarrow> string \<Rightarrow> transfer tm" where
  "Reject E i =
     bindE (Get E i) (\<lambda>t.
     seqE (guardE (tDirection t \<noteq> DirectionInbound \<or> tApproved t \<or> tStatus t \<noteq> StatusQueued) (plain ErrInvalidState))
     (finish E t StatusCancelled [] EventQueueUpdated))"

section \<open>The protocol\<close>

definition received_chunks :: "chunk list \<Rightarrow> string \<rightharpoonup> int list" where
  "received_chunks cs =
     foldl (\<lambda>m c. if kStatus c = ChunkComplete
       then m(kFileID c \<mapsto> (case m (kFileID c) of None \<Rightarrow> [] | Some is \<Rightarrow> is) @ [kIndex c]) else m) Map.empty cs"

definition ProtocolStatus :: "('r) host_scheme \<Rightarrow> string \<Rightarrow> string \<Rightarrow> resume_map tm" where
  "ProtocolStatus E i token =
     bindE (Get E i) (\<lambda>t.
     seqE (guardE (\<not> tokenMatches E (tSessionTokenHash t) token) (plain ErrUnauthorized))
     (bindE (listChunks E i) (\<lambda>cs.
      retE \<lparr>rmTransferID = i, rmStatus = tStatus t, rmApproved = tApproved t, rmChunks = received_chunks cs\<rparr>)))"

definition ProtocolCancel :: "('r) host_scheme \<Rightarrow> string \<Rightarrow> string \<Rightarrow> transfer tm" where
  "ProtocolCancel E i token =
     bindE (Get E i) (\<lambda>t.
     seqE (guardE (\<not> tokenMatches E (tSessionTokenHash t) token) (plain ErrUnauthorized))
     (seqE (guardE (tStatus t = StatusCompleted \<or> tStatus t = StatusCancelled) (plain ErrInvalidState))
     (finish E t StatusCancelled ''cancelled by sender'' EventQueueUpdated)))"

definition partialPath :: "service \<Rightarrow> string \<Rightarrow> string \<Rightarrow> string" where
  "partialPath E transferID relative =
     (case secureJoin (hCwd E) (path_join [sDataDirectory E, ''incoming'', transferID]) relative of
        Inl _ \<Rightarrow> ''.part''
      | Inr safe \<Rightarrow> safe @ ''.part'')"

text \<open>The bytes of a chunk: at most one more than expected is read from the possibly compressed body.\<close>

definition chunk_bytes :: "('r) host_scheme \<Rightarrow> string \<Rightarrow> body \<Rightarrow> int \<Rightarrow> terr + string" where
  "chunk_bytes E contentEncoding contents expectedSize =
     (if contentEncoding = [] then read_limited contents (wrap64 (expectedSize + 1))
      else if contentEncoding \<noteq> ''gzip'' then Inl (wrapped ErrInvalidRequest ''unsupported content encoding'')
      else let lim = nat (MaximumChunkSize + 1) in
        case hGunzip E (take lim (bBytes contents)) (length (bBytes contents) < lim \<and> bBroken contents) of
          None \<Rightarrow> Inl (wrapped ErrInvalidRequest ''invalid compressed chunk'')
        | Some (bytes, broken) \<Rightarrow>
            read_limited \<lparr>bBytes = bytes, bBroken = broken\<rparr> (wrap64 (expectedSize + 1)))"

definition new_chunk :: "string \<Rightarrow> transfer_file \<Rightarrow> int \<Rightarrow> int \<Rightarrow> string \<Rightarrow> time \<Rightarrow> chunk" where
  "new_chunk i f index sz checksum n = \<lparr>kTransferID = i, kFileID = fID f, kIndex = index,
     kOffset = wrap64 (index * fChunkSize f), kSize = sz, kChecksum = checksum,
     kStatus = ChunkComplete, kAttempts = 1, kUpdatedAt = n\<rparr>"

text \<open>The session both \<open>ReceiveChunk\<close> and \<open>Finalize\<close> require: its token, approval and a receiving state.\<close>

definition receiving_session :: "('r) host_scheme \<Rightarrow> string \<Rightarrow> string \<Rightarrow> transfer tm" where
  "receiving_session E i token =
     bindE (Get E i) (\<lambda>t.
     seqE (guardE (\<not> tokenMatches E (tSessionTokenHash t) token) (plain ErrUnauthorized))
     (seqE (guardE (\<not> tApproved t) (plain ErrApprovalRequired))
     (seqE (guardE (tStatus t \<noteq> StatusReceiving \<and> tStatus t \<noteq> StatusResuming) (plain ErrInvalidState))
     (retE t))))"

text \<open>The file and the bytes of a chunk request, or the reason it is refused.\<close>

definition requested_chunk ::
  "('r) host_scheme \<Rightarrow> transfer \<Rightarrow> string \<Rightarrow> int \<Rightarrow> string \<Rightarrow> string \<Rightarrow> body \<Rightarrow> terr + (transfer_file \<times> string)" where
  "requested_chunk E t fileID index expectedChecksum contentEncoding contents =
     (case findFile (tFiles t) fileID of
        None \<Rightarrow> Inl (plain ErrInvalidRequest)
      | Some f \<Rightarrow>
          if fDirectory f \<or> index < 0 \<or> fChunkCount f \<le> index \<or> \<not> validSHA256 expectedChecksum
          then Inl (plain ErrInvalidRequest)
          else
            let expectedSize = chunk_length (fSize f) (fChunkSize f) index in
            case chunk_bytes E contentEncoding contents expectedSize of
              Inl e \<Rightarrow> Inl e
            | Inr buffer \<Rightarrow>
                if int (length buffer) \<noteq> expectedSize
                then Inl (wrapped ErrInvalidRequest ''unexpected chunk size'')
                else if checksumBytes E buffer \<noteq> expectedChecksum then Inl (plain ErrChecksumMismatch)
                else Inr (f, buffer))"

definition write_part :: "('r) host_scheme \<Rightarrow> string \<Rightarrow> int \<Rightarrow> string \<Rightarrow> (tworld, os_error, unit) gom" where
  "write_part E partPath off buffer =
     seqE (fs_call E (os_mkdir_all (path_dir partPath)))
     (seqE (fs_call E (os_open_create partPath))
     (bindE (tryE (fs_write E partPath off buffer)) (\<lambda>writeErr.
      bindE (tryE (fs_sync E)) (\<lambda>syncErr.
      bindE (tryE (fs_sync E)) (\<lambda>closeErr.
      seqE (liftE writeErr) (seqE (liftE syncErr) (liftE closeErr)))))))"

definition store_chunk ::
  "service \<Rightarrow> string \<Rightarrow> transfer \<Rightarrow> int \<Rightarrow> transfer_file \<times> string \<Rightarrow> transfer tm" where
  "store_chunk E i t index fb =
     (let f = fst fb; buffer = snd fb in
      seqE (osE (write_part E (partialPath E (tID t) (fRelativePath f)) (wrap64 (index * fChunkSize f)) buffer))
      (bindE (now E) (\<lambda>n.
       seqE (saveChunk E (new_chunk i f index (int (length buffer)) (checksumBytes E buffer) n))
       (refreshProgress E t n))))"

definition ReceiveChunk ::
  "service \<Rightarrow> string \<Rightarrow> string \<Rightarrow> string \<Rightarrow> int \<Rightarrow> string \<Rightarrow> string \<Rightarrow> body \<Rightarrow> transfer tm" where
  "ReceiveChunk E i fileID token index expectedChecksum contentEncoding contents =
     bindE (receiving_session E i token) (\<lambda>t.
     bindE (liftE (requested_chunk E t fileID index expectedChecksum contentEncoding contents))
     (store_chunk E i t index))"

section \<open>Finalize\<close>

definition complete_indices :: "chunk list \<Rightarrow> string \<Rightarrow> int list" where
  "complete_indices cs fileID =
     remdups (map kIndex (filter (\<lambda>c. kStatus c = ChunkComplete \<and> kFileID c = fileID) cs))"

definition begin_finalize :: "('r) host_scheme \<Rightarrow> string \<Rightarrow> string \<Rightarrow> transfer tm" where
  "begin_finalize E i token =
     bindE (receiving_session E i token) (\<lambda>t.
     bindE (now E) (\<lambda>n.
     let t' = t\<lparr>tStatus := StatusVerifying, tUpdatedAt := n\<rparr> in
     seqE (saveTransfer E t') (seqE (logAndPublish E EventVerification t') (retE t'))))"

definition verify_file :: "service \<Rightarrow> transfer \<Rightarrow> chunk list \<Rightarrow> transfer_file \<Rightarrow> unit tm" where
  "verify_file E t cs f =
     (if fDirectory f then retE ()
      else
        seqE (or_fail E t (guardE (int (length (complete_indices cs (fID f))) \<noteq> fChunkCount f)
           (other (''missing chunks for '' @ fRelativePath f))))
        (let part = partialPath E (tID t) (fRelativePath f) in
         seqE (if fSize f = 0 then
             seqE (or_fail E t (osE (fs_call E (os_mkdir_all (path_dir part)))))
               (or_fail E t (osE (fs_call E (os_open_create part))))
           else retE ())
         (bindE (or_fail E t (osE (checksumFile E part))) (\<lambda>checksum.
          or_fail E t (guardE (checksum \<noteq> fChecksum f) (wrapped ErrChecksumMismatch (fRelativePath f)))))))"

definition commit_one :: "service \<Rightarrow> transfer \<Rightarrow> transfer_file \<Rightarrow> unit tm" where
  "commit_one E t f =
     seqE (or_fail E t (guardE (fDestinationPath f = []) (other ''destination path is missing'')))
     (if fDirectory f then or_fail E t (osE (fs_call E (os_mkdir_all (fDestinationPath f))))
      else bindE (or_fail E t (resolveConflict E (fDestinationPath f) (tConflictPolicy t))) (\<lambda>target.
        or_fail E t (osE (commitFile E (partialPath E (tID t) (fRelativePath f)) target
          (tConflictPolicy t = ConflictOverwrite)))))"

text \<open>
  What follows the save of \<open>Verifying\<close>. It works on the record read at the start: whatever
  other requests save in between is overwritten by the last step.
\<close>

definition end_finalize :: "service \<Rightarrow> transfer \<Rightarrow> transfer tm" where
  "end_finalize E t =
     bindE (listChunks E (tID t)) (\<lambda>cs.
     seqE (eachE (verify_file E t cs) (tFiles t))
     (seqE (eachE (commit_one E t) (tFiles t))
     (finish E (t\<lparr>tProgress := tSize t\<rparr>) StatusCompleted [] EventCompleted)))"

definition Finalize :: "service \<Rightarrow> string \<Rightarrow> string \<Rightarrow> transfer tm" where
  "Finalize E i token = bindE (begin_finalize E i token) (end_finalize E)"

section \<open>What the checks leave alone\<close>

lemma keeps_Get: "(\<And>w. I w \<Longrightarrow> I (bump w)) \<Longrightarrow> keeps I (Get E i)"
  unfolding Get_def getTransfer_def by (intro keeps_rules keeps_db_read)

lemma db_stable_checks [db_stable]:
  "keeps (\<lambda>w. P (wDb w)) (Get E i)"
  "keeps (\<lambda>w. P (wDb w)) (receiving_session E i token)"
  "keeps (\<lambda>w. P (wDb w)) (write_part E p off buffer)"
  "keeps (\<lambda>w. P (wDb w)) (authenticate_offer E oo auth)"
  "keeps (\<lambda>w. P (wDb w)) (availableStorage E root)"
  "keeps (\<lambda>w. P (wDb w)) (place_file E root policy f)"
proof -
  show g: "keeps (\<lambda>w. P (wDb w)) (Get E i)" by (simp add: keeps_Get)
  show "keeps (\<lambda>w. P (wDb w)) (receiving_session E i token)"
    unfolding receiving_session_def by (intro keeps_rules g)
  show "keeps (\<lambda>w. P (wDb w)) (write_part E p off buffer)"
    unfolding write_part_def fs_sync_def by (intro keeps_rules db_stable)
  show "keeps (\<lambda>w. P (wDb w)) (authenticate_offer E oo auth)"
    unfolding authenticate_offer_def by (intro keeps_rules db_stable)
  show "keeps (\<lambda>w. P (wDb w)) (availableStorage E root)"
    unfolding availableStorage_def by (intro keeps_rules db_stable)
  show "keeps (\<lambda>w. P (wDb w)) (place_file E root policy f)"
    unfolding place_file_def Let_def
    by (intro keeps_rules db_stable) (auto split: os_error.splits intro!: keeps_rules)
qed

lemma fs_stable_checks [fs_stable]:
  "keeps (\<lambda>w. P (wFs w)) (Get E i)"
  "keeps (\<lambda>w. P (wFs w)) (receiving_session E i token)"
  "keeps (\<lambda>w. P (wFs w)) (authenticate_offer E oo auth)"
  "keeps (\<lambda>w. P (wFs w)) (availableStorage E root)"
  "keeps (\<lambda>w. P (wFs w)) (place_file E root policy f)"
  "keeps (\<lambda>w. P (wFs w)) (finish E t st msg k)"
  "keeps (\<lambda>w. P (wFs w)) (fail E t err)"
  "keeps (\<lambda>w. P (wFs w)) (refreshProgress E t n)"
proof -
  show g: "keeps (\<lambda>w. P (wFs w)) (Get E i)" by (simp add: keeps_Get)
  show "keeps (\<lambda>w. P (wFs w)) (receiving_session E i token)"
    unfolding receiving_session_def by (intro keeps_rules g)
  show "keeps (\<lambda>w. P (wFs w)) (authenticate_offer E oo auth)"
    unfolding authenticate_offer_def by (intro keeps_rules fs_stable)
  show "keeps (\<lambda>w. P (wFs w)) (availableStorage E root)"
    unfolding availableStorage_def by (intro keeps_rules fs_stable)
  show "keeps (\<lambda>w. P (wFs w)) (place_file E root policy f)"
    unfolding place_file_def Let_def
    by (intro keeps_rules fs_stable) (auto split: os_error.splits intro!: keeps_rules)
  show f: "keeps (\<lambda>w. P (wFs w)) (finish E t st msg k)" for st msg k
    unfolding finish_def Let_def by (intro keeps_rules fs_stable)
  show "keeps (\<lambda>w. P (wFs w)) (fail E t err)"
    unfolding fail_def by (intro keeps_rules f)
  show "keeps (\<lambda>w. P (wFs w)) (refreshProgress E t n)"
    unfolding refreshProgress_def Let_def by (intro keeps_rules fs_stable)
qed

lemma Get_InrE:
  assumes "Get E i w = (Inr t, w')"
  obtains "hUuidOk E i" "GetTransfer (wDb w) i = Inr t" "w' = bump w"
  using assms by (auto simp: Get_def elim!: seqE_InrE guardE_InrE getTransfer_InrE)

lemma GetTransfer_id: "GetTransfer d i = Inr t \<Longrightarrow> tID t = i"
  by (auto simp: GetTransfer_lookup dest!: lookup_id split: option.splits)

lemma offered_simps [simp]:
  "tID (offered_transfer E oo p r n) = oTransferID oo" "tDirection (offered_transfer E oo p r n) = DirectionInbound"
  "tStatus (offered_transfer E oo p r n) = StatusQueued" "\<not> tApproved (offered_transfer E oo p r n)"
  "tApprovalRequired (offered_transfer E oo p r n)" "tFiles (offered_transfer E oo p r n) = oFiles oo"
  "tSessionTokenHash (offered_transfer E oo p r n) = hashToken E (oSessionToken oo)"
  "tSize (offered_transfer E oo p r n) = oSize oo" "tDeviceID (offered_transfer E oo p r n) = oDeviceID oo"
  "tSessionToken (offered_transfer E oo p r n) = []"
  by (simp_all add: offered_transfer_def transfer_zero_def Let_def)

lemma record_offer_Inr:
  assumes "record_offer E oo p remote w = (Inr t, w')"
  shows "GetTransfer (wDb w) (oTransferID oo) = Inr t \<and> wDb w' = wDb w \<or>
    GetTransfer (wDb w) (oTransferID oo) = Inl (plain ErrNotFound) \<and> wDb w' = SaveTransfer t (wDb w) \<and>
    (\<exists>n. t = offered_transfer E oo p remote n)"
proof -
  from assms obtain r w1 where g: "getTransfer E (oTransferID oo) w = (r, w1)" and
    k: "(case r of Inr existing \<Rightarrow> retE existing
     | Inl e \<Rightarrow> seqE (guardE (terr_kind e \<noteq> ErrNotFound) e)
         (bindE (now E) (\<lambda>n.
          let t = offered_transfer E oo p remote n in
          seqE (saveTransfer E t) (seqE (logAndPublish E EventQueueUpdated t) (retE t))))) w1 = (Inr t, w')"
    unfolding record_offer_def by (elim bindE_InrE tryE_InrE) (rule that)
  have d: "wDb w1 = wDb w" using keepsD [OF db_stable_calls(6) [where P = "\<lambda>d. d = wDb w"] _ g] by simp
  show ?thesis
  proof (cases r)
    case (Inr x)
    then show ?thesis using g k d by (auto elim!: getTransfer_InrE)
  next
    case (Inl e)
    with k have n: "terr_kind e = ErrNotFound" by (auto elim!: seqE_InrE guardE_InrE)
    then have "GetTransfer (wDb w) (oTransferID oo) = Inl (plain ErrNotFound)"
      using getTransfer_error [of E "oTransferID oo" w e w1] g Inl by (auto simp: env_error_def)
    then show ?thesis
      using k Inl n d
      by (auto simp: Let_def elim!: seqE_InrE bindE_InrE now_InrE saveTransfer_InrE logAndPublish_InrE guardE_InrE)
  qed
qed

section \<open>Chunks\<close>

lemma receiving_session_InrE:
  assumes "receiving_session E i token w = (Inr t, w')"
  obtains "GetTransfer (wDb w) i = Inr t" "tSessionTokenHash t = hashToken E token" "tApproved t"
    "tStatus t \<in> {StatusReceiving, StatusResuming}" "w' = bump w"
  using assms
  by (auto simp: receiving_session_def tokenMatches_iff elim!: bindE_InrE seqE_InrE guardE_InrE Get_InrE)

lemma requested_chunk_Inr:
  assumes "requested_chunk E t fileID index sha enc contents = Inr (f, buffer)"
  shows "findFile (tFiles t) fileID = Some f \<and> \<not> fDirectory f \<and> 0 \<le> index \<and> index < fChunkCount f \<and>
    int (length buffer) = chunk_length (fSize f) (fChunkSize f) index \<and> checksumBytes E buffer = sha"
  using assms by (auto simp: requested_chunk_def Let_def split: option.splits if_splits sum.splits)

lemma write_part_Inr:
  assumes "write_part E p off buffer w = (Inr u, w')"
  shows "\<exists>c. wFs w' p = Some (NFile c) \<and> 0 \<le> off \<and> take (length buffer) (drop (nat off) c) = buffer \<and>
    (\<forall>q d. q \<noteq> p \<longrightarrow> wFs w q = Some (NFile d) \<longrightarrow> wFs w' q = Some (NFile d))"
proof -
  from assms obtain x w1 y w2 z w3 a w4 b w5 where
    mk: "fs_call E (os_mkdir_all (path_dir p)) w = (Inr x, w1)" and
    op: "fs_call E (os_open_create p) w1 = (Inr y, w2)" and
    wr: "fs_write E p off buffer w2 = (Inr z, w3)" and
    sy: "fs_sync E w3 = (a, w4)" "fs_sync E w4 = (b, w5)" and w': "w' = w5"
    unfolding write_part_def
    by (elim bindE_InrE tryE_InrE seqE_InrE liftE_InrE, hypsubst_thin)
      (rule that, assumption, assumption, assumption, assumption, assumption, rule refl)
  obtain fs where fs: "os_write_at p off buffer (wFs w2) = Inr fs" "wFs w3 = fs"
    using wr by (auto elim: fs_write_InrE)
  from fs(1) obtain c where "wFs w2 p = Some (NFile c)" and off: "0 \<le> off" and
    "fs = (wFs w2)(p \<mapsto> NFile (write_bytes c (nat off) buffer))"
    by (auto simp: os_write_at_def split: option.splits node.splits if_splits)
  with fs(2) have c: "wFs w3 p = Some (NFile (write_bytes c (nat off) buffer))" by simp
  have same: "wFs w3 q = Some (NFile d)" if "q \<noteq> p" "wFs w q = Some (NFile d)" for q d
    using that mkdir_all_file [OF fs_call_InrD [OF mk]] open_create_other [OF fs_call_InrD [OF op]]
      write_at_other [OF fs(1)] fs(2) by metis
  have "wFs w' = wFs w3" using sy w' by (simp add: fs_sync_fs)
  then show ?thesis using c off same write_bytes_read by auto
qed

lemma refreshProgress_InrE:
  assumes "refreshProgress E t n w = (Inr t', w')"
  obtains cur where "GetTransfer (wDb w) (tID t) = Inr cur"
    "t' = refreshed E cur (ListChunks (wDb w) (tID cur)) n" "wDb w' = SaveTransfer t' (wDb w)" "wFs w' = wFs w"
  using assms unfolding refreshProgress_def Let_def
  by (auto elim!: bindE_InrE seqE_InrE getTransfer_InrE listChunks_InrE saveTransfer_InrE logAndPublish_InrE)

lemma refreshed_simps [simp]:
  "tID (refreshed E t cs n) = tID t" "tStatus (refreshed E t cs n) = tStatus t"
  "tApproved (refreshed E t cs n) = tApproved t" "tDirection (refreshed E t cs n) = tDirection t"
  "tSize (refreshed E t cs n) = tSize t" "tProgress (refreshed E t cs n) = complete_bytes cs"
  "tFiles (refreshed E t cs n) = tFiles t"
  by (simp_all add: refreshed_def Let_def)

lemma getTransfer_after:
  assumes "db_inv d" "GetTransfer d i = Inr t"
  shows "GetTransfer (SaveChunk c d) i = Inr t"
  using assms by (simp add: GetTransfer_lookup)

text \<open>The effects of a chunk that is accepted.\<close>

lemma ReceiveChunk_effect:
  assumes "ReceiveChunk E i fileID token index sha enc contents w = (Inr t', w')"
  shows "\<exists>t f buffer n x w2. GetTransfer (wDb w) i = Inr t \<and> tSessionTokenHash t = hashToken E token \<and>
    tApproved t \<and> tStatus t \<in> {StatusReceiving, StatusResuming} \<and>
    requested_chunk E t fileID index sha enc contents = Inr (f, buffer) \<and>
    write_part E (partialPath E i (fRelativePath f)) (wrap64 (index * fChunkSize f)) buffer (bump w) = (Inr x, w2) \<and>
    wFs w' = wFs w2 \<and> wDb w' = SaveTransfer t' (SaveChunk (new_chunk i f index (int (length buffer)) sha n) (wDb w)) \<and>
    t' = refreshed E t (ListChunks (SaveChunk (new_chunk i f index (int (length buffer)) sha n) (wDb w)) i) n"
proof -
  from assms obtain t w1 fb where
    s: "receiving_session E i token w = (Inr t, w1)" and
    rq': "requested_chunk E t fileID index sha enc contents = Inr fb" and
    st: "store_chunk E i t index fb w1 = (Inr t', w')"
    unfolding ReceiveChunk_def by (elim bindE_InrE liftE_InrE) (hypsubst_thin, rule that)
  obtain f buffer where fb: "fb = (f, buffer)" by (cases fb)
  note rq = rq' [unfolded fb]
  from st obtain x w2 n w3 y w4 where
    wp: "write_part E (partialPath E (tID t) (fRelativePath f)) (wrap64 (index * fChunkSize f)) buffer w1 = (Inr x, w2)" and
    n: "now E w2 = (Inr n :: terr + time, w3)" and
    sc: "saveChunk E (new_chunk i f index (int (length buffer)) (checksumBytes E buffer) n) w3 = (Inr y, w4)" and
    rp: "refreshProgress E t n w4 = (Inr t', w')"
    unfolding store_chunk_def Let_def fb fst_conv snd_conv
    by (elim bindE_InrE seqE_InrE osE_InrE) (rule that)
  from s obtain g: "GetTransfer (wDb w) i = Inr t" "tSessionTokenHash t = hashToken E token" "tApproved t"
    "tStatus t \<in> {StatusReceiving, StatusResuming}" "w1 = bump w" by (rule receiving_session_InrE)
  have id: "tID t = i" using GetTransfer_id g(1) .
  note r = requested_chunk_Inr [OF rq]
  have d2: "wDb w2 = wDb w"
    using keepsD [OF db_stable_checks(3) [where P = "\<lambda>d. d = wDb w"] _ wp] g(5) by simp
  have d4: "wDb w4 = SaveChunk (new_chunk i f index (int (length buffer)) sha n) (wDb w)" "wFs w4 = wFs w2"
    using n sc r d2 by (auto elim!: now_InrE saveChunk_InrE)
  from rp obtain cur where c: "GetTransfer (wDb w4) (tID t) = Inr cur"
    "t' = refreshed E cur (ListChunks (wDb w4) (tID cur)) n" "wDb w' = SaveTransfer t' (wDb w4)"
    "wFs w' = wFs w4" by (rule refreshProgress_InrE)
  have cur: "cur = t" using c(1) g(1) id d4(1) by (simp add: GetTransfer_lookup)
  have fs: "wFs w' = wFs w2" using c(4) d4(2) by simp
  have db: "wDb w' = SaveTransfer t' (SaveChunk (new_chunk i f index (int (length buffer)) sha n) (wDb w))"
    using c(3) d4(1) by simp
  show ?thesis
    by (rule exI [of _ t], rule exI [of _ f], rule exI [of _ buffer], rule exI [of _ n], rule exI [of _ x], rule exI [of _ w2])
      (use g rq wp fs db c(2) cur id d4(1) in simp)
qed

section \<open>Properties of the receiving side\<close>

text \<open>C5: what an accepted chunk means. If \<open>ReceiveChunk\<close> succeeds, the stored transfer carried the
  hash of the token presented, was approved and receiving; the chunk belongs to a regular
  file of it and has exactly the length its index demands and the checksum announced; its
  bytes stand at their offset in the partial file, every other file is untouched, the chunk
  is recorded as complete, and the status of the transfer is what it was.\<close>

theorem ReceiveChunk_accepts:
  assumes "ReceiveChunk E i fileID token index sha enc contents w = (Inr t', w')"
  shows "\<exists>t f buffer n c. GetTransfer (wDb w) i = Inr t \<and> tSessionTokenHash t = hashToken E token \<and>
    tApproved t \<and> tStatus t \<in> {StatusReceiving, StatusResuming} \<and>
    findFile (tFiles t) fileID = Some f \<and> \<not> fDirectory f \<and> 0 \<le> index \<and> index < fChunkCount f \<and>
    int (length buffer) = chunk_length (fSize f) (fChunkSize f) index \<and> checksumBytes E buffer = sha \<and>
    wFs w' (partialPath E i (fRelativePath f)) = Some (NFile c) \<and>
    take (length buffer) (drop (nat (wrap64 (index * fChunkSize f))) c) = buffer \<and>
    (\<forall>q d. q \<noteq> partialPath E i (fRelativePath f) \<longrightarrow> wFs w q = Some (NFile d) \<longrightarrow> wFs w' q = Some (NFile d)) \<and>
    wDb w' = SaveTransfer t' (SaveChunk (new_chunk i f index (int (length buffer)) sha n) (wDb w)) \<and>
    tStatus t' = tStatus t \<and> tID t' = i"
proof -
  from ReceiveChunk_effect [OF assms] obtain t f buffer n x w2 where g: "GetTransfer (wDb w) i = Inr t"
    "tSessionTokenHash t = hashToken E token" "tApproved t" "tStatus t \<in> {StatusReceiving, StatusResuming}" and
    rq: "requested_chunk E t fileID index sha enc contents = Inr (f, buffer)" and
    wp: "write_part E (partialPath E i (fRelativePath f)) (wrap64 (index * fChunkSize f)) buffer (bump w) = (Inr x, w2)" and
    fs: "wFs w' = wFs w2" and
    db: "wDb w' = SaveTransfer t' (SaveChunk (new_chunk i f index (int (length buffer)) sha n) (wDb w))" and
    t': "t' = refreshed E t (ListChunks (SaveChunk (new_chunk i f index (int (length buffer)) sha n) (wDb w)) i) n"
    by (elim exE conjE) (rule that)
  from write_part_Inr [OF wp] obtain b where b: "wFs w2 (partialPath E i (fRelativePath f)) = Some (NFile b)"
    "take (length buffer) (drop (nat (wrap64 (index * fChunkSize f))) b) = buffer"
    "\<forall>q d. q \<noteq> partialPath E i (fRelativePath f) \<longrightarrow> wFs w q = Some (NFile d) \<longrightarrow> wFs w2 q = Some (NFile d)"
    by auto
  show ?thesis
    by (rule exI [of _ t], rule exI [of _ f], rule exI [of _ buffer], rule exI [of _ n], rule exI [of _ b])
      (use g requested_chunk_Inr [OF rq] b fs db t' GetTransfer_id [OF g(1)] in simp)
qed

lemma refreshProgress_quiet:
  assumes "quiet E" "GetTransfer (wDb w) (tID t) = Inr cur"
  shows "\<exists>t' w'. refreshProgress E t n w = (Inr t', w')"
  using assms by (simp add: refreshProgress_def Let_def bindE_def seqE_def call_runs)

lemma ReceiveChunk_quiet:
  assumes "quiet E" and "hUuidOk E i" and "GetTransfer (wDb w) i = Inr t" and "db_inv (wDb w)"
    and "tSessionTokenHash t = hashToken E token" and "tApproved t"
    and "tStatus t = StatusReceiving \<or> tStatus t = StatusResuming"
    and "requested_chunk E t fileID index sha enc contents = Inr (f, buffer)"
    and "\<exists>u w1. write_part E (partialPath E i (fRelativePath f)) (wrap64 (index * fChunkSize f)) buffer (bump w)
           = (Inr u, w1)"
  shows "\<exists>t' w'. ReceiveChunk E i fileID token index sha enc contents w = (Inr t', w')"
proof -
  from assms(9) obtain u w1 where
    wp: "write_part E (partialPath E i (fRelativePath f)) (wrap64 (index * fChunkSize f)) buffer (bump w) = (Inr u, w1)"
    by blast
  have id: "tID t = i" using GetTransfer_id [OF assms(3)] .
  have d: "wDb w1 = wDb w"
    using keepsD [OF db_stable_checks(3) [where P = "\<lambda>d. d = wDb w"] _ wp] by simp
  have s: "receiving_session E i token w = (Inr t, bump w)"
    using assms(1-3,5-7)
    by (auto simp: receiving_session_def Get_def bindE_def seqE_def guardE_def tokenMatches_iff)
  let ?c = "new_chunk i f index (int (length buffer)) (checksumBytes E buffer) (hNow E (wTick w1))"
  have "\<exists>t' w'. refreshProgress E t (hNow E (wTick w1)) ((bump (bump w1))\<lparr>wDb := SaveChunk ?c (wDb w)\<rparr>) = (Inr t', w')"
    using assms(3,4) id by (intro refreshProgress_quiet [OF assms(1)]) (simp add: GetTransfer_lookup)
  then show ?thesis
    using s assms(1,8) wp d id
    by (simp add: ReceiveChunk_def store_chunk_def Let_def bindE_def seqE_def osE_def mapErrE_def call_runs)
qed

text \<open>A world in which a transfer of one file of five bytes in chunks of four is being received.\<close>

definition sample_file :: transfer_file where
  "sample_file = \<lparr>fID = ''f1'', fRelativePath = ''a.txt'', fDirectory = False, fSourcePath = [],
     fDestinationPath = ''/data/a.txt'', fSize = 5, fChecksum = hex_encode (pad32 ''hello''),
     fChunkSize = 4, fChunkCount = 2\<rparr>"

definition sample_transfer :: transfer where
  "sample_transfer = transfer_zero\<lparr>tID := ''t1'', tDirection := DirectionInbound, tDeviceID := ''peer'',
     tFiles := [sample_file], tSize := 5, tStatus := StatusReceiving, tApproved := True,
     tApprovalRequired := True, tConflictPolicy := ConflictPrompt, tChunkSize := 4,
     tSessionTokenHash := hashToken sample_service ''token''\<rparr>"

definition sample_receiving :: tworld where
  "sample_receiving = sample_world\<lparr>wDb := SaveTransfer sample_transfer empty_db\<rparr>"

lemma sample_transfer_simps [simp]:
  "tID sample_transfer = ''t1''" "tSessionTokenHash sample_transfer = hashToken sample_service ''token''"
  "tApproved sample_transfer" "tStatus sample_transfer = StatusReceiving" "tFiles sample_transfer = [sample_file]"
  by (simp_all add: sample_transfer_def)

lemma sample_receiving_db: "db_inv (wDb sample_receiving)"
  "GetTransfer (wDb sample_receiving) ''t1'' = Inr (by_path (persist None sample_transfer))"
  using db_inv_save [OF db_inv_empty, of sample_transfer]
    lookup_save [OF db_inv_empty, of sample_transfer "''t1''"]
  by (simp_all add: sample_receiving_def GetTransfer_lookup lookup_def empty_db_def select_def)

lemma validSHA256_hex: "length bs = 32 \<Longrightarrow> validSHA256 (hex_encode bs)"
  by (simp add: validSHA256_def hex_roundtrip)

lemma sample_checksum: "checksumBytes sample_service c = hex_encode (pad32 c)"
  by (simp add: checksumBytes_def sample_service_def)

lemma sample_chunk:
  "requested_chunk sample_service (by_path (persist None sample_transfer)) ''f1'' 1 (hex_encode (pad32 ''o'')) []
     \<lparr>bBytes = ''o'', bBroken = False\<rparr> = Inr (sample_file, ''o'')"
proof -
  have "findFile (tFiles (by_path (persist None sample_transfer))) ''f1'' = Some sample_file"
    by (simp add: by_path_def persist_def merge_files_def) (simp add: sample_file_def)
  then show ?thesis
    by (simp add: requested_chunk_def validSHA256_hex sample_checksum)
       (simp add: sample_file_def chunk_length_def chunk_bytes_def read_limited_def wrap64_def Let_def sample_checksum)
qed

lemma write_part_quiet:
  assumes "quiet E" "os_mkdir_all (path_dir p) (wFs w) = Inr fs1" "os_open_create p fs1 = Inr fs2"
    "os_write_at p off buffer fs2 = Inr fs3"
  shows "\<exists>w1. write_part E p off buffer w = (Inr (), w1)"
  using assms
  by (simp add: quiet_def write_part_def fs_call_def fs_write_def fs_sync_def bindE_def seqE_def tryE_def)

lemma sample_written:
  "\<exists>u w1. write_part sample_service (partialPath sample_service ''t1'' (fRelativePath sample_file))
     (wrap64 (1 * fChunkSize sample_file)) ''o'' (bump sample_receiving) = (Inr u, w1)"
proof -
  have p: "partialPath sample_service ''t1'' (fRelativePath sample_file) = ''/data/incoming/t1/a.txt.part''"
    by code_simp
  have f: "wFs (bump sample_receiving) = wFs sample_world" by (simp add: sample_receiving_def)
  have "\<not> isl (os_mkdir_all (path_dir ''/data/incoming/t1/a.txt.part'') (wFs sample_world))" by code_simp
  then obtain fs1 where 1: "os_mkdir_all (path_dir ''/data/incoming/t1/a.txt.part'') (wFs sample_world) = Inr fs1"
    by (cases "os_mkdir_all (path_dir ''/data/incoming/t1/a.txt.part'') (wFs sample_world)") simp_all
  have "(case os_mkdir_all (path_dir ''/data/incoming/t1/a.txt.part'') (wFs sample_world) of Inl _ \<Rightarrow> False
     | Inr fs \<Rightarrow> fs ''/data/incoming/t1/a.txt.part'' = None \<and> has_parent fs ''/data/incoming/t1/a.txt.part'')"
    by code_simp
  then have "fs1 ''/data/incoming/t1/a.txt.part'' = None" "has_parent fs1 ''/data/incoming/t1/a.txt.part''"
    by (simp_all only: 1 sum.case)
  then have 2: "os_open_create ''/data/incoming/t1/a.txt.part'' fs1 = Inr (fs1(''/data/incoming/t1/a.txt.part'' \<mapsto> NFile []))"
    by (simp only: os_open_create_def option.case if_True)
  have "wrap64 (1 * fChunkSize sample_file) = 4" by code_simp
  with write_part_quiet [OF quiet_sample, of "''/data/incoming/t1/a.txt.part''" "bump sample_receiving" fs1 _ 4 "''o''"]
  show ?thesis unfolding p f using 1 2 by (auto simp: os_write_at_def)
qed

lemma sample_id: "hUuidOk sample_service ''t1''"
  by (simp add: sample_service_def)

theorem ReceiveChunk_accepts_witness:
  "\<exists>t' w'. ReceiveChunk sample_service ''t1'' ''f1'' ''token'' 1 (hex_encode (pad32 ''o'')) []
      \<lparr>bBytes = ''o'', bBroken = False\<rparr> sample_receiving = (Inr t', w') \<and> tID t' = ''t1''"
proof -
  from ReceiveChunk_quiet [OF quiet_sample sample_id sample_receiving_db(2,1) _ _ _ sample_chunk sample_written,
      of "''token''"] obtain t' w' where
    r: "ReceiveChunk sample_service ''t1'' ''f1'' ''token'' 1 (hex_encode (pad32 ''o'')) []
      \<lparr>bBytes = ''o'', bBroken = False\<rparr> sample_receiving = (Inr t', w')" by auto
  have "tID t' = ''t1''" using ReceiveChunk_accepts [OF r] by (elim exE conjE)
  with r show ?thesis by (intro exI conjI)
qed

text \<open>A good chunk is accepted. Where no call fails, a request in an open session for a chunk
  of the right length and checksum, whose partial file can be written, succeeds.\<close>

theorem ReceiveChunk_complete:
  assumes "quiet E" and "hUuidOk E i" and "GetTransfer (wDb w) i = Inr t" and "db_inv (wDb w)"
    and "tSessionTokenHash t = hashToken E token" and "tApproved t"
    and "tStatus t = StatusReceiving \<or> tStatus t = StatusResuming"
    and "requested_chunk E t fileID index sha enc contents = Inr (f, buffer)"
    and "\<exists>u w1. write_part E (partialPath E i (fRelativePath f)) (wrap64 (index * fChunkSize f)) buffer (bump w)
           = (Inr u, w1)"
  shows "\<exists>t' w'. ReceiveChunk E i fileID token index sha enc contents w = (Inr t', w')"
  using assms by (rule ReceiveChunk_quiet)

theorem ReceiveChunk_complete_witness:
  "\<exists>t' w'. ReceiveChunk sample_service ''t1'' ''f1'' ''token'' 1 (hex_encode (pad32 ''o'')) []
      \<lparr>bBytes = ''o'', bBroken = False\<rparr> sample_receiving = (Inr t', w')"
  by (rule ReceiveChunk_complete [OF quiet_sample sample_id sample_receiving_db(2,1) _ _ _ sample_chunk sample_written])
     simp_all

lemma session_frames:
  "receiving_session E i token w = (Inl e, w') \<Longrightarrow> wDb w' = wDb w \<and> wFs w' = wFs w"
  using keepsD [OF db_stable_checks(2) [where P = "\<lambda>d. d = wDb w"], of w]
    keepsD [OF fs_stable_checks(2) [where P = "\<lambda>d. d = wFs w"], of w] by metis

lemma refreshProgress_error:
  assumes "refreshProgress E t n w = (Inl e, w')" "GetTransfer (wDb w) (tID t) = Inr cur"
  shows "env_error e"
proof -
  have t: "throws env_error (bindE (listChunks E (tID cur)) (\<lambda>cs. let t' = refreshed E cur cs n in
        seqE (saveTransfer E t') (seqE (logAndPublish E EventProgress t') (retE t'))))" for cur
    unfolding Let_def by (intro throws_rules)
  from assms(1) consider "getTransfer E (tID t) w = (Inl e, w')"
    | cur w1 where "bindE (listChunks E (tID cur)) (\<lambda>cs. let t' = refreshed E cur cs n in
        seqE (saveTransfer E t') (seqE (logAndPublish E EventProgress t') (retE t'))) w1 = (Inl e, w')"
    unfolding refreshProgress_def by (rule bindE_InlE)
  then show ?thesis
  proof cases
    case 1
    then show ?thesis using getTransfer_error assms(2) by fastforce
  next
    case 2
    then show ?thesis using t unfolding throws_def by blast
  qed
qed

lemma store_chunk_error:
  assumes "store_chunk E i t index fb w = (Inl e, w')" "GetTransfer (wDb w) (tID t) = Inr t"
  shows "env_error e"
proof -
  let ?wp = "osE (write_part E (partialPath E (tID t) (fRelativePath (fst fb))) (wrap64 (index * fChunkSize (fst fb))) (snd fb))"
  let ?sc = "\<lambda>n. saveChunk E (new_chunk i (fst fb) index (int (length (snd fb))) (checksumBytes E (snd fb)) n)"
  from assms(1) consider "?wp w = (Inl e, w')"
    | x w1 n where "?wp w = (Inr x, w1)" "seqE (?sc n) (refreshProgress E t n) (bump w1) = (Inl e, w')"
    unfolding store_chunk_def Let_def by (rule seqE_InlE) (simp_all add: bindE_def call_runs)
  then show ?thesis
  proof cases
    case 1
    then show ?thesis using throws_calls(9) unfolding throws_def by blast
  next
    case 2
    then have d: "wDb w1 = wDb w"
      using keepsD [OF keeps_osE [OF db_stable_checks(3) [where P = "\<lambda>d. d = wDb w"]]] by metis
    from 2(2) consider "?sc n (bump w1) = (Inl e, w')"
      | y w3 where "?sc n (bump w1) = (Inr y, w3)" "refreshProgress E t n w3 = (Inl e, w')"
      by (rule seqE_InlE)
    then show ?thesis
    proof cases
      case 1
      then show ?thesis using throws_calls(2) unfolding throws_def by blast
    next
      case 2
      then have "GetTransfer (wDb w3) (tID t) = Inr t"
        using assms(2) d by (auto elim!: saveChunk_InrE simp: GetTransfer_lookup)
      then show ?thesis by (rule refreshProgress_error [OF 2(2)])
    qed
  qed
qed

text \<open>C6: a refused chunk changes nothing. Every error of \<open>ReceiveChunk\<close> that is not a failure of
  the disk, the database or the connection (an unknown transfer, a wrong token, a missing
  approval, a wrong state, a malformed request, a wrong checksum) leaves the tables and the
  file system exactly as they were.\<close>

theorem ReceiveChunk_rejects:
  assumes "ReceiveChunk E i fileID token index sha enc contents w = (Inl e, w')" and "\<not> env_error e"
  shows "wDb w' = wDb w \<and> wFs w' = wFs w"
proof -
  from assms(1) consider "receiving_session E i token w = (Inl e, w')"
    | t w1 where "receiving_session E i token w = (Inr t, w1)"
        "bindE (liftE (requested_chunk E t fileID index sha enc contents)) (store_chunk E i t index) w1 = (Inl e, w')"
    unfolding ReceiveChunk_def by (rule bindE_InlE)
  then show ?thesis
  proof cases
    case 1
    then show ?thesis by (rule session_frames)
  next
    case 2
    from 2(1) have g: "GetTransfer (wDb w) i = Inr t" "w1 = bump w" "tID t = i"
      by (auto elim: receiving_session_InrE intro: GetTransfer_id)
    show ?thesis
    proof (cases "requested_chunk E t fileID index sha enc contents")
      case (Inl x)
      then show ?thesis using 2(2) g by (auto simp: bindE_def)
    next
      case (Inr fb)
      then have "env_error e" using store_chunk_error [of E i t index fb w1 e w'] 2(2) g by (simp add: bindE_def)
      with assms(2) show ?thesis by simp
    qed
  qed
qed

theorem ReceiveChunk_rejects_witness:
  "\<exists>w'. ReceiveChunk sample_service ''t1'' ''f1'' ''wrong'' 1 (hex_encode (pad32 ''o'')) []
      \<lparr>bBytes = ''o'', bBroken = False\<rparr> sample_receiving = (Inl (plain ErrUnauthorized), w') \<and>
      wDb w' = wDb sample_receiving \<and> wFs w' = wFs sample_receiving"
proof -
  have "hex_encode (pad32 ''token'') \<noteq> hex_encode (pad32 ''wrong'')" by code_simp
  then have "\<not> tokenMatches sample_service (hashToken sample_service ''token'') ''wrong''"
    by (simp add: tokenMatches_iff hashToken_def sample_service_def)
  then have "fst (ReceiveChunk sample_service ''t1'' ''f1'' ''wrong'' 1 (hex_encode (pad32 ''o'')) []
      \<lparr>bBytes = ''o'', bBroken = False\<rparr> sample_receiving) = Inl (plain ErrUnauthorized)"
    using sample_receiving_db(2) sample_id
    by (simp add: ReceiveChunk_def receiving_session_def Get_def bindE_def seqE_def)
  then obtain w' where r: "ReceiveChunk sample_service ''t1'' ''f1'' ''wrong'' 1 (hex_encode (pad32 ''o'')) []
      \<lparr>bBytes = ''o'', bBroken = False\<rparr> sample_receiving = (Inl (plain ErrUnauthorized), w')"
    by (rule run_fst_Inl)
  have "\<not> env_error (plain ErrUnauthorized)" by (simp add: env_error_def)
  show ?thesis by (rule exI [of _ w'], rule conjI [OF r ReceiveChunk_rejects [OF r \<open>\<not> env_error _\<close>]])
qed

end
