(* ===== verification/Identity.thy ===== *)
theory Identity
  imports TransferFiles
begin

text \<open>
  \<open>services/identity.go\<close>, \<open>identity_tls.go\<close> and \<open>identity_secret_other.go\<close>: the permanent
  identity of an installation, its validation, and \<open>FileIdentityStore\<close>, which keeps the
  public metadata and the private key in two files written atomically.

  The store runs on the file tree of the process. An error is an \<open>os_error\<close>, because the
  code asks of it only whether it is \<open>os.ErrNotExist\<close>; the texts of wrapped errors are shortened.
\<close>

section \<open>The identity\<close>

definition identityProtocolVersion :: int where
  "identityProtocolVersion = 1"

record identity =
  idID :: string
  idName :: string
  idHostname :: string
  idType :: string
  idPlatform :: string
  idProtocolVersion :: int
  idPublicKey :: string
  idFingerprint :: string
  idCreatedAt :: time
  idModifiedAt :: time
  idPrivateKey :: string

text \<open>
  What the store asks of the machine: host and operating system names, the JSON codec of the
  metadata, \<open>ed25519.GenerateKey\<close> (public and private key), the names \<open>os.CreateTemp\<close>
  invents and the protection of secrets (the identity function outside Windows).
\<close>

record id_host = host +
  hHostname :: "nat \<Rightarrow> string option"
  hGOOS :: string
  hMetaDecode :: "string \<Rightarrow> os_error + identity"
  hMetaEncode :: "identity \<Rightarrow> string"
  hGenerateKey :: "nat \<Rightarrow> os_error + (string \<times> string)"
  hTempName :: "nat \<Rightarrow> string"
  hSerial :: "nat \<Rightarrow> int"

type_synonym 'a im = "(tworld, os_error, 'a) gom"

fun groups_of_4 :: "string \<Rightarrow> string list" where
  "groups_of_4 [] = []"
| "groups_of_4 (a # b # c # d # s) = [a, b, c, d] # groups_of_4 s"
| "groups_of_4 s = [s]"

definition IdentityFingerprint :: "('r) host_scheme \<Rightarrow> string \<Rightarrow> string" where
  "IdentityFingerprint E publicKey =
     join_with '':'' (groups_of_4 (map upper_ascii (hex_encode (hSha256 E publicKey))))"

definition ShortFingerprint :: "identity \<Rightarrow> string" where
  "ShortFingerprint i =
     (let parts = split_on CHR '':'' (idFingerprint i) in
      join_with '':'' (if 4 < length parts then take 4 parts else parts))"

definition Validate :: "('r) host_scheme \<Rightarrow> identity \<Rightarrow> os_error + unit" where
  "Validate E i =
     (if \<not> hUuidOk E (idID i) then Inl (OsOther ''invalid device ID'')
      else if trim_space (idName i) = [] \<or> 128 < length (idName i)
      then Inl (OsOther ''device name must contain 1 to 128 characters'')
      else if 255 < length (idHostname i) then Inl (OsOther ''hostname is too long'')
      else if trim_space (idType i) = [] \<or> 32 < length (idType i) \<or>
         trim_space (idPlatform i) = [] \<or> 32 < length (idPlatform i)
      then Inl (OsOther ''device type and platform are required'')
      else if idProtocolVersion i \<noteq> identityProtocolVersion \<or> length (idPrivateKey i) \<noteq> 64
      then Inl (OsOther ''identity protocol version or private key is invalid'')
      else case b64_decode (idPublicKey i) of
        None \<Rightarrow> Inl (OsOther ''identity public key or fingerprint is invalid'')
      | Some publicKey \<Rightarrow>
          if length publicKey \<noteq> 32 \<or> idFingerprint i \<noteq> IdentityFingerprint E publicKey
          then Inl (OsOther ''identity public key or fingerprint is invalid'')
          else if idCreatedAt i = time_zero \<or> idModifiedAt i = time_zero
          then Inl (OsOther ''identity timestamps are required'')
          else Inr ())"

section \<open>New identities\<close>

definition systemHostname :: "id_host \<Rightarrow> nat \<Rightarrow> string" where
  "systemHostname E n =
     (case hHostname E n of
        None \<Rightarrow> []
      | Some h \<Rightarrow> take 255 (trim_space (trim_suffix h ''.local'')))"

definition friendlyDeviceName :: "string \<Rightarrow> string \<Rightarrow> string" where
  "friendlyDeviceName goos hostname =
     (if hostname \<noteq> [] then take 128 hostname
      else if goos = ''darwin'' then ''Mac''
      else if goos = ''ios'' then ''iPhone''
      else if goos = ''android'' then ''Android Device''
      else if goos = ''windows'' then ''Windows PC''
      else ''SyncSpace Device'')"

definition currentDeviceType :: "string \<Rightarrow> string" where
  "currentDeviceType goos = (if goos = ''android'' \<or> goos = ''ios'' then ''mobile'' else ''desktop'')"

definition newIdentityMetadata :: "id_host \<Rightarrow> identity im" where
  "newIdentityMetadata E =
     bindE (now E) (\<lambda>n.
     bindE (outside (systemHostname E)) (\<lambda>hostname.
     bindE (outside (hUuid E)) (\<lambda>i.
     retE \<lparr>idID = i, idName = friendlyDeviceName (hGOOS E) hostname, idHostname = hostname,
       idType = currentDeviceType (hGOOS E), idPlatform = hGOOS E,
       idProtocolVersion = identityProtocolVersion, idPublicKey = [], idFingerprint = [],
       idCreatedAt = n, idModifiedAt = n, idPrivateKey = []\<rparr>)))"

section \<open>The files\<close>

text \<open>\<open>atomicWritePrivateFile\<close>: whatever happens, the temporary file is removed at the end.\<close>

definition write_temp :: "('r) host_scheme \<Rightarrow> string \<Rightarrow> string \<Rightarrow> string \<Rightarrow> unit im" where
  "write_temp E tmp path contents =
     seqE (fs_sync E)
     (seqE (fs_write E tmp 0 contents)
     (seqE (fs_sync E) (seqE (fs_sync E)
     (seqE (fs_call E (os_rename tmp path)) (fs_sync E)))))"

definition write_through :: "('r) host_scheme \<Rightarrow> (nat \<Rightarrow> string) \<Rightarrow> string \<Rightarrow> string \<Rightarrow> unit im" where
  "write_through E names path contents =
     bindE (outside names) (\<lambda>name.
     let tmp = path_join [path_dir path, name] in
     seqE (fs_call E (os_open_excl tmp))
     (bindE (tryE (write_temp E tmp path contents)) (\<lambda>r.
      bindE (tryE (fs_call E (os_remove tmp))) (\<lambda>_ :: os_error + unit. liftE r))))"

definition atomicWritePrivateFile :: "id_host \<Rightarrow> string \<Rightarrow> string \<Rightarrow> unit im" where
  "atomicWritePrivateFile E path contents = write_through E (hTempName E) path contents"

definition keyPath :: "string \<Rightarrow> string" where
  "keyPath path = trim_suffix path (path_ext path) @ ''.key''"

definition protectIdentitySecret :: "string \<Rightarrow> os_error + string" where
  "protectIdentitySecret contents = Inr contents"

definition unprotectIdentitySecret :: "string \<Rightarrow> os_error + string" where
  "unprotectIdentitySecret contents = Inr contents"

definition loadMetadata :: "id_host \<Rightarrow> string \<Rightarrow> identity im" where
  "loadMetadata E path =
     bindE (fs_read E (\<lambda>fs. os_read_file fs path)) (\<lambda>contents. liftE (hMetaDecode E contents))"

definition saveMetadata :: "id_host \<Rightarrow> string \<Rightarrow> identity \<Rightarrow> unit im" where
  "saveMetadata E path i =
     seqE (fs_call E (os_mkdir_all (path_dir path)))
     (atomicWritePrivateFile E path (hMetaEncode E i @ [CHR 0x0A]))"

definition loadPrivateKey :: "id_host \<Rightarrow> string \<Rightarrow> string im" where
  "loadPrivateKey E path =
     bindE (fs_read E (\<lambda>fs. os_read_file fs (keyPath path))) (\<lambda>protected.
     bindE (liftE (unprotectIdentitySecret protected)) (\<lambda>contents.
     seqE (guardE (length contents \<noteq> 64) (OsOther ''protected identity key has an invalid length''))
     (retE contents)))"

definition savePrivateKey :: "id_host \<Rightarrow> string \<Rightarrow> string \<Rightarrow> unit im" where
  "savePrivateKey E path privateKey =
     seqE (fs_call E (os_mkdir_all (path_dir path)))
     (bindE (liftE (protectIdentitySecret privateKey)) (atomicWritePrivateFile E (keyPath path)))"

section \<open>LoadOrCreate\<close>

text \<open>The stored metadata, or new one if there is none; the flag says that there was none.\<close>

definition load_metadata_or_new :: "id_host \<Rightarrow> string \<Rightarrow> (identity \<times> bool) im" where
  "load_metadata_or_new E path =
     bindE (tryE (loadMetadata E path)) (\<lambda>r.
     case r of
       Inr i \<Rightarrow> retE (i, False)
     | Inl OsNotExist \<Rightarrow> bindE (newIdentityMetadata E) (\<lambda>i. retE (i, True))
     | Inl e \<Rightarrow> throwE e)"

text \<open>The stored private key, or a new pair whose public half enters the metadata.\<close>

definition generate_key :: "id_host \<Rightarrow> string \<Rightarrow> identity \<Rightarrow> (identity \<times> string \<times> bool) im" where
  "generate_key E path i =
     bindE (outsideE (hGenerateKey E)) (\<lambda>kp.
     seqE (savePrivateKey E path (snd kp))
     (retE (i\<lparr>idPublicKey := b64_encode (fst kp), idFingerprint := IdentityFingerprint E (fst kp)\<rparr>,
       snd kp, True)))"

definition load_key_or_new :: "id_host \<Rightarrow> string \<Rightarrow> identity \<Rightarrow> (identity \<times> string \<times> bool) im" where
  "load_key_or_new E path i =
     bindE (tryE (loadPrivateKey E path)) (\<lambda>r.
     case r of
       Inr key \<Rightarrow> retE (i, key, False)
     | Inl OsNotExist \<Rightarrow> generate_key E path i
     | Inl e \<Rightarrow> throwE e)"

text \<open>\<open>privateKey.Public()\<close> is the second half of the private key.\<close>

definition public_half :: "string \<Rightarrow> string" where
  "public_half key = drop 32 key"

definition bind_key :: "('r) host_scheme \<Rightarrow> identity \<Rightarrow> string \<Rightarrow> os_error + (identity \<times> bool)" where
  "bind_key E i key =
     (let encoded = b64_encode (public_half key); print = IdentityFingerprint E (public_half key) in
      if idPublicKey i = [] then Inr (i\<lparr>idPublicKey := encoded, idFingerprint := print\<rparr>, True)
      else if idPublicKey i \<noteq> encoded \<or> idFingerprint i \<noteq> print
      then Inl (OsOther ''identity metadata does not match the protected private key'')
      else Inr (i, False))"

text \<open>The fields that are filled in or brought up to date, each with its flag.\<close>

definition fill_version :: "identity \<times> bool \<Rightarrow> identity \<times> bool" where
  "fill_version s =
     (if idProtocolVersion (fst s) = 0 then ((fst s)\<lparr>idProtocolVersion := identityProtocolVersion\<rparr>, True) else s)"

definition fill_hostname :: "string \<Rightarrow> identity \<times> bool \<Rightarrow> identity \<times> bool" where
  "fill_hostname h s =
     (if h \<noteq> [] \<and> idHostname (fst s) \<noteq> h then ((fst s)\<lparr>idHostname := h\<rparr>, True) else s)"

definition fill_times :: "time \<Rightarrow> identity \<times> bool \<Rightarrow> identity \<times> bool" where
  "fill_times n s =
     (let s1 = (if idCreatedAt (fst s) = time_zero then ((fst s)\<lparr>idCreatedAt := n\<rparr>, True) else s);
          s2 = (if idModifiedAt (fst s1) = time_zero
                then ((fst s1)\<lparr>idModifiedAt := idCreatedAt (fst s1)\<rparr>, True) else s1)
      in if snd s2 then ((fst s2)\<lparr>idModifiedAt := n\<rparr>, True) else s2)"

definition LoadOrCreate :: "id_host \<Rightarrow> string \<Rightarrow> identity im" where
  "LoadOrCreate E path =
     bindE (load_metadata_or_new E path) (\<lambda>(i, missing).
     bindE (load_key_or_new E path i) (\<lambda>(i1, key, generated).
     bindE (liftE (bind_key E i1 key)) (\<lambda>(i2, bound).
     bindE (outside (systemHostname E)) (\<lambda>hostname.
     bindE (now E) (\<lambda>n.
     let s = fill_times n (fill_hostname hostname (fill_version (i2, generated \<or> bound)));
         i3 = (fst s)\<lparr>idPrivateKey := key\<rparr> in
     seqE (liftE (Validate E i3))
     (seqE (if snd s \<or> missing then saveMetadata E path i3 else retE ())
     (retE i3)))))))"

section \<open>The certificate\<close>

record certificate =
  crSerial :: int
  crCommonName :: string
  crNotBefore :: time
  crNotAfter :: time
  crKey :: string

text \<open>The certificate without its DER encoding and its signature.\<close>

definition TLSCertificate :: "id_host \<Rightarrow> identity \<Rightarrow> time \<Rightarrow> certificate im" where
  "TLSCertificate E i n =
     seqE (liftE (Validate E i))
     (bindE (outside (hSerial E)) (\<lambda>serial.
     retE \<lparr>crSerial = serial, crCommonName = ''SyncSpace '' @ idID i, crNotBefore = n - 5 * minute,
       crNotAfter = n + 397 * 24 * 60 * minute, crKey = public_half (idPrivateKey i)\<rparr>))"

section \<open>Atomic writes\<close>

definition temp_name :: "id_host \<Rightarrow> string \<Rightarrow> nat \<Rightarrow> string" where
  "temp_name E path n = path_join [path_dir path, hTempName E n]"

lemma fs_sync_InrE:
  assumes "fs_sync E w = (Inr u, w')" obtains "wFs w' = wFs w"
  using assms by (auto simp: fs_sync_def elim: fs_call_InrE)

lemma write_temp_Inr:
  assumes "write_temp E tmp path contents w = (Inr u, w')" and "wFs w tmp = Some (NFile [])" and "tmp \<noteq> path"
  shows "wFs w' path = Some (NFile contents) \<and> wFs w' tmp = None \<and>
    (\<forall>q. q \<noteq> path \<longrightarrow> q \<noteq> tmp \<longrightarrow> wFs w' q = wFs w q)"
proof -
  from assms(1) obtain a b c d e w1 w2 w3 w4 w5 where
    s: "fs_sync E w = (Inr a, w1)" and wr: "fs_write E tmp 0 contents w1 = (Inr b, w2)" and
    t: "fs_sync E w2 = (Inr c, w3)" "fs_sync E w3 = (Inr d, w4)" and
    mv: "fs_call E (os_rename tmp path) w4 = (Inr e, w5)" and l: "fs_sync E w5 = (Inr u, w')"
    unfolding write_temp_def by (elim seqE_InrE) (rule that)
  have w1: "wFs w1 = wFs w" using s by (rule fs_sync_InrE)
  from wr obtain fs where "os_write_at tmp 0 contents (wFs w1) = Inr fs" "w2 = (bump w1)\<lparr>wFs := fs\<rparr>"
    by (rule fs_write_InrE)
  then have f2: "wFs w2 = (wFs w)(tmp \<mapsto> NFile contents)"
    using assms(2) w1 by (auto simp: os_write_at_def write_bytes_def)
  have w4: "wFs w4 = wFs w2" using t by (metis fs_sync_InrE)
  from mv obtain fs' where "os_rename tmp path (wFs w4) = Inr fs'" "w5 = (bump w4)\<lparr>wFs := fs'\<rparr>" by (rule fs_call_InrE)
  moreover have "wFs w' = wFs w5" using l by (rule fs_sync_InrE)
  ultimately have "wFs w' = (wFs w)(tmp := None, path \<mapsto> NFile contents)"
    using f2 w4 assms(3) by (auto simp: os_rename_def split: if_splits)
  then show ?thesis using assms(3) by simp
qed

lemma write_through_Inr:
  assumes "write_through E names path contents w = (Inr u, w')" and "\<And>n. path_join [path_dir path, names n] \<noteq> path"
  obtains n where "wFs w' path = Some (NFile contents)"
    "\<forall>q. q \<noteq> path \<longrightarrow> q \<noteq> path_join [path_dir path, names n] \<longrightarrow> wFs w' q = wFs w q"
proof -
  let ?tmp = "path_join [path_dir path, names (wTick w)]"
  from assms(1) obtain name w0 x w1 r w2 y w3 where
    n: "outside names w = (Inr name :: os_error + string, w0)" and
    o1: "fs_call E (os_open_excl (path_join [path_dir path, name])) w0 = (Inr x, w1)" and
    wr: "write_temp E (path_join [path_dir path, name]) path contents w1 = (r, w2)" and
    rm: "fs_call E (os_remove (path_join [path_dir path, name])) w2 = (y, w3)" and
    l: "r = Inr u" "w' = w3"
    unfolding write_through_def Let_def
    by (elim bindE_InrE seqE_InrE tryE_InrE liftE_InrE) (rule that, assumption+)
  have t: "path_join [path_dir path, name] = ?tmp" "w0 = bump w"
    using n by (auto elim: outside_InrE)
  from o1 obtain fs where fs: "os_open_excl ?tmp (wFs w) = Inr fs" "wFs w1 = fs"
    unfolding t by (rule fs_call_InrE) simp
  then have f: "wFs w1 = (wFs w)(?tmp \<mapsto> NFile [])" "wFs w ?tmp = None"
    by (auto simp: os_open_excl_def split: if_splits)
  from wr l(1) have wt: "write_temp E ?tmp path contents w1 = (Inr u, w2)" by (simp add: t)
  have "wFs w1 ?tmp = Some (NFile [])" using f by simp
  note w2 = write_temp_Inr [OF wt this assms(2)]
  have "wFs w3 = wFs w2"
    using rm w2 by (auto simp: fs_call_def t os_remove_def split: option.splits)
  then have "wFs w' path = Some (NFile contents)" "\<forall>q. q \<noteq> path \<longrightarrow> q \<noteq> ?tmp \<longrightarrow> wFs w' q = wFs w q"
    using w2 l(2) f by auto
  then show thesis by (rule that)
qed

lemma atomic_Inr:
  assumes "atomicWritePrivateFile E path contents w = (Inr u, w')" and "\<And>n. temp_name E path n \<noteq> path"
  obtains n where "wFs w' path = Some (NFile contents)"
    "\<forall>q. q \<noteq> path \<longrightarrow> q \<noteq> temp_name E path n \<longrightarrow> wFs w' q = wFs w q"
  using assms unfolding atomicWritePrivateFile_def temp_name_def by (rule write_through_Inr)

lemma mkdir_then_atomic:
  assumes "seqE (fs_call E (os_mkdir_all d)) (atomicWritePrivateFile E path contents) w = (Inr u, w')"
    and "\<And>n. temp_name E path n \<noteq> path"
  obtains n where "wFs w' path = Some (NFile contents)"
    "\<forall>q c. q \<noteq> path \<longrightarrow> q \<noteq> temp_name E path n \<longrightarrow> wFs w' q = Some (NFile c) \<longleftrightarrow> wFs w q = Some (NFile c)"
proof -
  from assms(1) obtain x w1 where m: "fs_call E (os_mkdir_all d) w = (Inr x, w1)" and
    a: "atomicWritePrivateFile E path contents w1 = (Inr u, w')" by (rule seqE_InrE)
  from m obtain fs where "os_mkdir_all d (wFs w) = Inr fs" "wFs w1 = fs" by (rule fs_call_InrE) simp
  then have "wFs w1 q = Some (NFile c) \<longleftrightarrow> wFs w q = Some (NFile c)" for q c using mkdir_all_file by simp
  moreover obtain n where "wFs w' path = Some (NFile contents)"
    "\<forall>q. q \<noteq> path \<longrightarrow> q \<noteq> temp_name E path n \<longrightarrow> wFs w' q = wFs w1 q"
    using a assms(2) by (rule atomic_Inr)
  ultimately show thesis using that by metis
qed

section \<open>What LoadOrCreate returns\<close>

lemma LoadOrCreate_InrE:
  assumes "LoadOrCreate E path w = (Inr i, w')"
  obtains i0 missing w1 i1 key generated w2 i2 bound h n w3 s where
    "load_metadata_or_new E path w = (Inr (i0, missing), w1)"
    "load_key_or_new E path i0 w1 = (Inr (i1, key, generated), w2)"
    "bind_key E i1 key = Inr (i2, bound)" "h = systemHostname E (wTick w2)"
    "wFs w3 = wFs w2" "s = fill_times n (fill_hostname h (fill_version (i2, generated \<or> bound)))"
    "i = (fst s)\<lparr>idPrivateKey := key\<rparr>" "Validate E i = Inr ()"
    "(if snd s \<or> missing then saveMetadata E path i else retE ()) w3 = (Inr (), w')"
proof -
  from assms obtain p1 w1 p2 w2 p3 w2' h w4 n w5 u w6 x w7 where
    a: "load_metadata_or_new E path w = (Inr p1, w1)" and
    b: "load_key_or_new E path (fst p1) w1 = (Inr p2, w2)" and
    c: "liftE (bind_key E (fst p2) (fst (snd p2))) w2 = (Inr p3, w2')" and
    d: "outside (systemHostname E) w2' = (Inr h :: os_error + string, w4)" and
    e: "now E w4 = (Inr n :: os_error + time, w5)" and
    f: "liftE (Validate E ((fst (fill_times n (fill_hostname h (fill_version (fst p3, snd (snd p2) \<or> snd p3)))))
      \<lparr>idPrivateKey := fst (snd p2)\<rparr>)) w5 = (Inr u, w6)" and
    g: "(if snd (fill_times n (fill_hostname h (fill_version (fst p3, snd (snd p2) \<or> snd p3)))) \<or> snd p1
      then saveMetadata E path ((fst (fill_times n (fill_hostname h (fill_version (fst p3, snd (snd p2) \<or> snd p3)))))
      \<lparr>idPrivateKey := fst (snd p2)\<rparr>) else retE ()) w6 = (Inr x, w7)" and
    rr: "retE ((fst (fill_times n (fill_hostname h (fill_version (fst p3, snd (snd p2) \<or> snd p3)))))
      \<lparr>idPrivateKey := fst (snd p2)\<rparr>) w7 = (Inr i :: os_error + identity, w')"
    unfolding LoadOrCreate_def Let_def case_prod_beta
    by (elim bindE_InrE seqE_InrE) (rule that, assumption+)
  have r: "i = (fst (fill_times n (fill_hostname h (fill_version (fst p3, snd (snd p2) \<or> snd p3)))))
      \<lparr>idPrivateKey := fst (snd p2)\<rparr>" and w7: "w7 = w'"
    using rr by (simp_all only: retE_run prod.inject sum.inject)
  show thesis
  proof (rule that)
    show "load_metadata_or_new E path w = (Inr (fst p1, snd p1), w1)" using a by simp
    show "load_key_or_new E path (fst p1) w1 = (Inr (fst p2, fst (snd p2), snd (snd p2)), w2)" using b by simp
    show "bind_key E (fst p2) (fst (snd p2)) = Inr (fst p3, snd p3)" using c by simp
    show "h = systemHostname E (wTick w2)" "wFs w6 = wFs w2"
      using c d e f by (auto elim!: outside_InrE now_InrE)
    show "fill_times n (fill_hostname h (fill_version (fst p3, snd (snd p2) \<or> snd p3))) =
      fill_times n (fill_hostname h (fill_version (fst p3, snd (snd p2) \<or> snd p3)))" ..
    show "i = (fst (fill_times n (fill_hostname h (fill_version (fst p3, snd (snd p2) \<or> snd p3)))))
      \<lparr>idPrivateKey := fst (snd p2)\<rparr>" by (rule r)
    show "Validate E i = Inr ()" using f unfolding r by simp
    show "(if snd (fill_times n (fill_hostname h (fill_version (fst p3, snd (snd p2) \<or> snd p3)))) \<or> snd p1
      then saveMetadata E path i else retE ()) w6 = (Inr (), w')" using g unfolding r w7 by simp
  qed
qed

lemma bind_key_Inr:
  assumes "bind_key E i key = Inr (i', b)"
  shows "idPublicKey i' = b64_encode (public_half key) \<and>
    idFingerprint i' = IdentityFingerprint E (public_half key) \<and> (\<not> b \<longrightarrow> i' = i)"
  using assms by (auto simp: bind_key_def Let_def split: if_splits)

lemma fill_unflagged:
  assumes "\<not> snd (fill_times n (fill_hostname h (fill_version s)))"
  shows "fill_times n (fill_hostname h (fill_version s)) = s" "\<not> snd s"
  using assms by (auto simp: fill_times_def fill_hostname_def fill_version_def Let_def split: if_splits)

lemma fill_simps:
  "idPublicKey (fst (fill_times n (fill_hostname h (fill_version s)))) = idPublicKey (fst s)"
  "idFingerprint (fst (fill_times n (fill_hostname h (fill_version s)))) = idFingerprint (fst s)"
  "idID (fst (fill_times n (fill_hostname h (fill_version s)))) = idID (fst s)"
  "h \<noteq> [] \<Longrightarrow> idHostname (fst (fill_times n (fill_hostname h (fill_version s)))) = h"
  by (auto simp: fill_times_def fill_hostname_def fill_version_def Let_def)

lemma load_metadata_Inr:
  assumes "load_metadata_or_new E path w = (Inr (i, missing), w1)"
  shows "wFs w1 = wFs w \<and> (missing \<or> (\<exists>c. wFs w path = Some (NFile c) \<and> hMetaDecode E c = Inr i))"
  using assms
  by (auto simp: load_metadata_or_new_def loadMetadata_def newIdentityMetadata_def bindE_def tryE_def fs_read_def
      os_read_file_def call_runs split: option.splits sum.splits prod.splits node.splits os_error.splits)

definition temp_clear :: "id_host \<Rightarrow> string \<Rightarrow> bool" where
  "temp_clear E path \<longleftrightarrow> path \<noteq> keyPath path \<and>
     (\<forall>n. temp_name E path n \<notin> {path, keyPath path} \<and> temp_name E (keyPath path) n \<notin> {path, keyPath path})"

lemma generate_key_Inr:
  assumes "generate_key E path i w = (Inr (i', key, generated), w')" and t: "temp_clear E path"
  shows "generated \<and> wFs w' (keyPath path) = Some (NFile key) \<and>
    (\<forall>c. wFs w' path = Some (NFile c) \<longleftrightarrow> wFs w path = Some (NFile c))"
proof -
  from assms(1) obtain kp w2 u w3 where
    g: "outsideE (hGenerateKey E) w = (Inr kp, w2)" and
    sv: "savePrivateKey E path (snd kp) w2 = (Inr u, w3)" and
    eq: "retE (i\<lparr>idPublicKey := b64_encode (fst kp), idFingerprint := IdentityFingerprint E (fst kp)\<rparr>,
       snd kp, True) w3 = (Inr (i', key, generated) :: os_error + (identity \<times> string \<times> bool), w')"
    unfolding generate_key_def by (elim bindE_InrE seqE_InrE) (rule that)
  from sv have "seqE (fs_call E (os_mkdir_all (path_dir path)))
    (atomicWritePrivateFile E (keyPath path) (snd kp)) w2 = (Inr u, w3)"
    by (simp add: savePrivateKey_def protectIdentitySecret_def bindE_def seqE_def)
  moreover have "temp_name E (keyPath path) n \<noteq> keyPath path" for n using t by (simp add: temp_clear_def)
  ultimately obtain n where "wFs w3 (keyPath path) = Some (NFile (snd kp))"
    "\<forall>q c. q \<noteq> keyPath path \<longrightarrow> q \<noteq> temp_name E (keyPath path) n \<longrightarrow>
       wFs w3 q = Some (NFile c) \<longleftrightarrow> wFs w2 q = Some (NFile c)"
    by (rule mkdir_then_atomic)
  moreover have "wFs w2 = wFs w" using g by (auto elim: outsideE_InrE)
  moreover have "temp_name E (keyPath path) n \<noteq> path" "path \<noteq> keyPath path"
    using t by (auto simp: temp_clear_def)
  moreover have "key = snd kp" "generated" "w' = w3" using eq by simp_all
  ultimately show ?thesis by metis
qed

lemma loadPrivateKey_runs:
  assumes "loadPrivateKey E path w = (r, w1)"
  shows "wFs w1 = wFs w" "r = Inr b \<Longrightarrow> wFs w (keyPath path) = Some (NFile b)"
  using assms
  by (auto simp: loadPrivateKey_def bindE_def seqE_def guardE_def fs_read_def os_read_file_def
      unprotectIdentitySecret_def split: option.splits sum.splits node.splits if_splits)

lemma load_key_Inr:
  assumes "load_key_or_new E path i w = (Inr (i', key, generated), w')" and "temp_clear E path"
  shows "wFs w' (keyPath path) = Some (NFile key) \<and>
    (\<forall>c. wFs w' path = Some (NFile c) \<longleftrightarrow> wFs w path = Some (NFile c)) \<and> (\<not> generated \<longrightarrow> i' = i)"
proof -
  from assms(1) obtain r w1 where l: "loadPrivateKey E path w = (r, w1)" and
    k: "(case r of Inr key \<Rightarrow> retE (i, key, False) | Inl OsNotExist \<Rightarrow> generate_key E path i
     | Inl e \<Rightarrow> throwE e) w1 = (Inr (i', key, generated), w')"
    unfolding load_key_or_new_def by (elim bindE_InrE tryE_InrE) (rule that)
  show ?thesis
  proof (cases r)
    case (Inr b)
    then show ?thesis using loadPrivateKey_runs [OF l] k by simp
  next
    case (Inl e)
    with k have "generate_key E path i w1 = (Inr (i', key, generated), w')" by (cases e) simp_all
    then show ?thesis using generate_key_Inr [OF _ assms(2)] loadPrivateKey_runs(1) [OF l] by fastforce
  qed
qed

lemma identity_on_disk:
  assumes r: "LoadOrCreate E path w = (Inr i, w')" and t: "temp_clear E path"
    and codec: "hMetaDecode E (hMetaEncode E i @ [CHR 0x0A]) = Inr (i\<lparr>idPrivateKey := []\<rparr>)"
  obtains c j where "wFs w' path = Some (NFile c)" "hMetaDecode E c = Inr j"
    "j\<lparr>idPrivateKey := idPrivateKey i\<rparr> = i" "wFs w' (keyPath path) = Some (NFile (idPrivateKey i))"
proof -
  from r obtain i0 missing w1 i1 key generated w2 i2 bound h n w3 s where
    lm: "load_metadata_or_new E path w = (Inr (i0, missing), w1)" and
    lk: "load_key_or_new E path i0 w1 = (Inr (i1, key, generated), w2)" and
    bk: "bind_key E i1 key = Inr (i2, bound)" and w3: "wFs w3 = wFs w2" and
    s: "s = fill_times n (fill_hostname h (fill_version (i2, generated \<or> bound)))" and
    i: "i = (fst s)\<lparr>idPrivateKey := key\<rparr>" and
    sv: "(if snd s \<or> missing then saveMetadata E path i else retE ()) w3 = (Inr (), w')"
    by (rule LoadOrCreate_InrE)
  note k = load_key_Inr [OF lk t] and m = load_metadata_Inr [OF lm]
  have key: "idPrivateKey i = key" using i by simp
  show thesis
  proof (cases "snd s \<or> missing")
    case True
    then have "seqE (fs_call E (os_mkdir_all (path_dir path)))
      (atomicWritePrivateFile E path (hMetaEncode E i @ [CHR 0x0A])) w3 = (Inr (), w')"
      using sv by (simp add: saveMetadata_def)
    moreover have "temp_name E path n \<noteq> path" for n using t by (simp add: temp_clear_def)
    ultimately obtain n where "wFs w' path = Some (NFile (hMetaEncode E i @ [CHR 0x0A]))"
      "\<forall>q c. q \<noteq> path \<longrightarrow> q \<noteq> temp_name E path n \<longrightarrow> wFs w' q = Some (NFile c) \<longleftrightarrow> wFs w3 q = Some (NFile c)"
      by (rule mkdir_then_atomic)
    moreover have "keyPath path \<noteq> path" "temp_name E path n \<noteq> keyPath path" using t by (auto simp: temp_clear_def)
    ultimately show thesis using that codec k w3 key by auto
  next
    case False
    then have "w' = w3" "\<not> snd s" "\<not> missing" using sv by simp_all
    moreover from False s have "s = (i2, generated \<or> bound)" "\<not> generated" "\<not> bound"
      using fill_unflagged [of n h "(i2, generated \<or> bound)"] by simp_all
    moreover then have "i2 = i0" using bind_key_Inr [OF bk] k by simp
    ultimately show thesis using m k w3 i key that by auto
  qed
qed

lemma valid_identity:
  assumes "LoadOrCreate E path w = (Inr i, w')"
  shows "Validate E i = Inr () \<and> idPublicKey i = b64_encode (public_half (idPrivateKey i)) \<and>
    idFingerprint i = IdentityFingerprint E (public_half (idPrivateKey i))"
proof -
  from assms obtain i1 key i2 bound s n h b where
    "bind_key E i1 key = Inr (i2, bound)" "s = fill_times n (fill_hostname h (fill_version (i2, b)))"
    "i = (fst s)\<lparr>idPrivateKey := key\<rparr>" "Validate E i = Inr ()"
    by (rule LoadOrCreate_InrE)
  then show ?thesis using bind_key_Inr [of E i1 key i2 bound] by (simp add: fill_simps)
qed

text \<open>The identity \<open>LoadOrCreate\<close> returns is usable: it passes \<open>Validate\<close>, and its public key
  and its fingerprint are those of the private key it holds in memory.\<close>

theorem LoadOrCreate_valid:
  assumes "LoadOrCreate E path w = (Inr i, w')"
  shows "Validate E i = Inr () \<and> idPublicKey i = b64_encode (public_half (idPrivateKey i)) \<and>
    idFingerprint i = IdentityFingerprint E (public_half (idPrivateKey i))"
  using assms by (rule valid_identity)

lemma Validate_Inr:
  assumes "Validate E i = Inr ()"
  shows "idProtocolVersion i = 1" "length (idPrivateKey i) = 64" "idPublicKey i \<noteq> []"
    "idCreatedAt i \<noteq> time_zero" "idModifiedAt i \<noteq> time_zero"
  using assms
  by (auto simp: Validate_def identityProtocolVersion_def b64_decode_def split: if_splits option.splits)

lemma LoadOrCreate_hostname:
  assumes "LoadOrCreate E path w = (Inr i, w')" and "\<And>n m. hHostname E n = hHostname E m"
  shows "systemHostname E k = [] \<or> idHostname i = systemHostname E k"
proof -
  from assms(1) obtain key i2 s n h b and w2 :: tworld where "h = systemHostname E (wTick w2)"
    "s = fill_times n (fill_hostname h (fill_version (i2, b)))" "i = (fst s)\<lparr>idPrivateKey := key\<rparr>"
    by (rule LoadOrCreate_InrE) (rule that, assumption+)
  moreover have "systemHostname E (wTick w2) = systemHostname E k"
    using assms(2) [of "wTick w2" k] by (simp add: systemHostname_def)
  ultimately show ?thesis by (cases "systemHostname E k = []") (simp_all add: fill_simps)
qed

lemma LoadOrCreate_again_world:
  assumes "quiet E" and fs: "wFs w path = Some (NFile c)" "wFs w (keyPath path) = Some (NFile key)"
    and j: "hMetaDecode E c = Inr j" "j\<lparr>idPrivateKey := key\<rparr> = i" and v: "Validate E i = Inr ()"
    and pub: "idPublicKey i = b64_encode (public_half key)" "idFingerprint i = IdentityFingerprint E (public_half key)"
    and h: "\<And>k. systemHostname E k = [] \<or> idHostname i = systemHostname E k"
  shows "LoadOrCreate E path w = (Inr i, bump (bump (bump (bump w))))"
proof -
  have f: "idProtocolVersion j = 1" "idPublicKey j = b64_encode (public_half key)" "idPublicKey j \<noteq> []"
    "idFingerprint j = IdentityFingerprint E (public_half key)" "idCreatedAt j \<noteq> time_zero"
    "idModifiedAt j \<noteq> time_zero" "idHostname j = idHostname i" "length key = 64"
    using Validate_Inr [OF v] pub unfolding j(2) [symmetric] by simp_all
  have b: "bind_key E j key = Inr (j, False)" using f by (simp add: bind_key_def Let_def)
  have s: "fill_times n (fill_hostname (systemHostname E k) (fill_version (j, False))) = (j, False)" for n k
    using f h [of k] by (auto simp: fill_times_def fill_hostname_def fill_version_def Let_def)
  have m: "load_metadata_or_new E path w = (Inr (j, False), bump w)"
    using assms(1) fs(1) j(1)
    by (simp add: load_metadata_or_new_def loadMetadata_def bindE_def tryE_def os_read_file_def)
  have k: "load_key_or_new E path j (bump w) = (Inr (j, key, False), bump (bump w))"
    using assms(1) fs(2) f(8)
    by (simp add: load_key_or_new_def loadPrivateKey_def bindE_def seqE_def guardE_def tryE_def os_read_file_def
        unprotectIdentitySecret_def)
  show ?thesis
    by (simp add: LoadOrCreate_def bindE_def seqE_def m k b s call_runs Let_def v j(2))
qed

lemma LoadOrCreate_again:
  assumes "quiet E" and fs: "wFs w path = Some (NFile c)" "wFs w (keyPath path) = Some (NFile key)"
    and j: "hMetaDecode E c = Inr j" "j\<lparr>idPrivateKey := key\<rparr> = i" and v: "Validate E i = Inr ()"
    and pub: "idPublicKey i = b64_encode (public_half key)" "idFingerprint i = IdentityFingerprint E (public_half key)"
    and h: "\<And>k. systemHostname E k = [] \<or> idHostname i = systemHostname E k"
  shows "\<exists>w3. LoadOrCreate E path w = (Inr i, w3) \<and> wFs w3 = wFs w"
  using LoadOrCreate_again_world [OF assms] by simp

text \<open>C21: the identity of an installation is permanent. Once \<open>LoadOrCreate\<close> has returned an
  identity, every later start that finds the same files and the same hostname returns that
  same identity, private key included, and changes no file. The JSON codec is assumed to
  return what was encoded but the private key, which is excluded from it, and the names
  \<open>os.CreateTemp\<close> invents to differ from the two files of the store.\<close>

theorem identity_permanent:
  assumes "LoadOrCreate E path w = (Inr i, w')" and "temp_clear E path"
    and "hMetaDecode E (hMetaEncode E i @ [CHR 0x0A]) = Inr (i\<lparr>idPrivateKey := []\<rparr>)"
    and "\<And>n m. hHostname E n = hHostname E m" and "quiet E" and "wFs w2 = wFs w'"
  shows "\<exists>w3. LoadOrCreate E path w2 = (Inr i, w3) \<and> wFs w3 = wFs w2"
proof -
  obtain c j where "wFs w' path = Some (NFile c)" "hMetaDecode E c = Inr j"
    "j\<lparr>idPrivateKey := idPrivateKey i\<rparr> = i" "wFs w' (keyPath path) = Some (NFile (idPrivateKey i))"
    using identity_on_disk [OF assms(1-3)] .
  moreover have "systemHostname E k = [] \<or> idHostname i = systemHostname E k" for k
    by (rule LoadOrCreate_hostname [OF assms(1,4)])
  ultimately show ?thesis
    using valid_identity [OF assms(1)] assms(5,6) by (intro LoadOrCreate_again) simp_all
qed

section \<open>An example store\<close>

definition sample_key :: string where
  "sample_key = replicate 64 CHR ''k''"

definition sample_identity :: identity where
  "sample_identity = \<lparr>idID = ''me'', idName = ''Me'', idHostname = ''laptop'', idType = ''desktop'',
     idPlatform = ''linux'', idProtocolVersion = 1, idPublicKey = b64_encode (public_half sample_key),
     idFingerprint = IdentityFingerprint sample_service (public_half sample_key), idCreatedAt = 0,
     idModifiedAt = 0, idPrivateKey = sample_key\<rparr>"

definition sample_id_host :: id_host where
  "sample_id_host = host.extend (host.truncate sample_service) (id_host.fields (\<lambda>_. Some ''laptop.local'') ''linux''
     (\<lambda>_. Inr (sample_identity\<lparr>idPrivateKey := []\<rparr>)) (\<lambda>_. ''{}'')
     (\<lambda>_. Inr (replicate 32 CHR ''k'', sample_key)) (\<lambda>_. ''.syncspace-identity-1'') (\<lambda>_. 1))"

definition sample_id_path :: string where
  "sample_id_path = ''/data/identity.json''"

definition sample_id_world :: tworld where
  "sample_id_world = sample_world\<lparr>wFs := [''/'' \<mapsto> NDir, ''/data'' \<mapsto> NDir,
     sample_id_path \<mapsto> NFile ''{}'', ''/data/identity.key'' \<mapsto> NFile sample_key]\<rparr>"

lemmas host_record_defs = host.extend_def host.truncate_def id_host.fields_def

lemma sample_id_host_simps:
  "quiet sample_id_host" "hHostname sample_id_host = (\<lambda>_. Some ''laptop.local'')"
  "hMetaDecode sample_id_host = (\<lambda>_. Inr (sample_identity\<lparr>idPrivateKey := []\<rparr>))"
  "hTempName sample_id_host = (\<lambda>_. ''.syncspace-identity-1'')"
  "hSha256 sample_id_host = hSha256 sample_service" "hUuidOk sample_id_host = hUuidOk sample_service"
  using quiet_sample by (simp_all add: sample_id_host_def host_record_defs quiet_def)

lemma sample_keyPath: "keyPath sample_id_path = ''/data/identity.key''"
  unfolding sample_id_path_def by code_simp

lemma sample_temp: "temp_clear sample_id_host sample_id_path"
proof -
  have "path_dir sample_id_path = ''/data''" "path_dir ''/data/identity.key'' = ''/data''"
    "path_join [''/data'', ''.syncspace-identity-1''] = ''/data/.syncspace-identity-1''"
    unfolding sample_id_path_def by code_simp+
  then show ?thesis
    by (simp add: temp_clear_def temp_name_def sample_keyPath sample_id_host_simps) (simp add: sample_id_path_def)
qed

lemma sample_fingerprint: "IdentityFingerprint sample_id_host k = IdentityFingerprint sample_service k"
  by (simp add: IdentityFingerprint_def sample_id_host_simps)

lemma sample_identity_valid: "Validate sample_id_host sample_identity = Inr ()"
proof -
  have "trim_space ''Me'' = ''Me''" "trim_space ''desktop'' = ''desktop''" "trim_space ''linux'' = ''linux''"
    by code_simp+
  then show ?thesis
    by (simp add: Validate_def sample_identity_def sample_id_host_simps sample_fingerprint b64_roundtrip
        public_half_def sample_key_def identityProtocolVersion_def time_zero_def second_def)
      (simp add: sample_service_def)
qed

lemma sample_hostname: "systemHostname sample_id_host k = ''laptop''"
proof -
  have "take 255 (trim_space (trim_suffix ''laptop.local'' ''.local'')) = ''laptop''" by code_simp
  then show ?thesis by (simp add: systemHostname_def sample_id_host_simps)
qed

lemma sample_load_world: "LoadOrCreate sample_id_host sample_id_path sample_id_world =
    (Inr sample_identity, bump (bump (bump (bump sample_id_world))))"
proof (rule LoadOrCreate_again_world)
  show "quiet sample_id_host" by (rule sample_id_host_simps)
  show "wFs sample_id_world sample_id_path = Some (NFile ''{}'')"
    "wFs sample_id_world (keyPath sample_id_path) = Some (NFile sample_key)"
    by (simp_all add: sample_id_world_def sample_keyPath) (simp_all add: sample_id_path_def)
  show "hMetaDecode sample_id_host ''{}'' = Inr (sample_identity\<lparr>idPrivateKey := []\<rparr>)"
    by (simp add: sample_id_host_simps)
  show "sample_identity\<lparr>idPrivateKey := []\<rparr>\<lparr>idPrivateKey := sample_key\<rparr> = sample_identity"
    by (simp add: sample_identity_def)
  show "Validate sample_id_host sample_identity = Inr ()" by (rule sample_identity_valid)
  show "idPublicKey sample_identity = b64_encode (public_half sample_key)"
    "idFingerprint sample_identity = IdentityFingerprint sample_id_host (public_half sample_key)"
    by (simp_all add: sample_identity_def sample_fingerprint)
  show "systemHostname sample_id_host k = [] \<or> idHostname sample_identity = systemHostname sample_id_host k" for k
    by (simp add: sample_hostname sample_identity_def)
qed

lemma sample_load: "\<exists>w3. LoadOrCreate sample_id_host sample_id_path sample_id_world = (Inr sample_identity, w3)"
  using sample_load_world by blast

theorem LoadOrCreate_valid_witness:
  "\<exists>w3. LoadOrCreate sample_id_host sample_id_path sample_id_world = (Inr sample_identity, w3) \<and>
     Validate sample_id_host sample_identity = Inr ()"
  using sample_load LoadOrCreate_valid by blast

theorem identity_permanent_witness:
  "\<exists>w1 w2. LoadOrCreate sample_id_host sample_id_path sample_id_world = (Inr sample_identity, w1) \<and>
     LoadOrCreate sample_id_host sample_id_path w1 = (Inr sample_identity, w2) \<and> wFs w2 = wFs w1"
proof -
  obtain w1 where w1: "LoadOrCreate sample_id_host sample_id_path sample_id_world = (Inr sample_identity, w1)"
    using sample_load by blast
  have d: "hMetaDecode sample_id_host (hMetaEncode sample_id_host sample_identity @ [CHR 0x0A]) =
      Inr (sample_identity\<lparr>idPrivateKey := []\<rparr>)"
    by (simp add: sample_id_host_simps)
  have h: "\<And>n m. hHostname sample_id_host n = hHostname sample_id_host m" by (simp add: sample_id_host_simps)
  show ?thesis
    using w1 identity_permanent [OF w1 sample_temp d h sample_id_host_simps(1) refl] by blast
qed

end
