(* ===== verification/TransferControl.thy ===== *)
theory TransferControl
  imports TransferReceive Identity
begin

text \<open>
  The rest of \<open>transfer/service.go\<close>: construction, the queue, the commands of the local user
  (pause, resume, cancel, retry), recovery after a restart, the dispatcher with its workers,
  and the throttle.
\<close>

section \<open>Construction\<close>

text \<open>
  \<open>ServiceConfig\<close>: the flags say whether the store, the peer directory, the authorizer and the
  HTTP client are given. Logger, publisher and clock have defaults and are not represented.
\<close>

record service_config =
  cfStore :: bool
  cfPeers :: bool
  cfAuthorizer :: bool
  cfIdentity :: identity
  cfDataDirectory :: string
  cfHTTPClient :: bool
  cfMaxConcurrent :: int
  cfChunkWorkers :: int
  cfChunkSize :: int

definition sender_of :: "identity \<Rightarrow> sender_identity" where
  "sender_of i = \<lparr>iID = idID i, iName = idName i, iHostname = idHostname i, iPlatform = idPlatform i\<rparr>"

text \<open>The state of a new service over what is on disk.\<close>

definition initial_world :: "identity \<Rightarrow> tdb \<Rightarrow> fsys \<Rightarrow> tworld" where
  "initial_world i d fs = \<lparr>wDb = d, wFs = fs, wActive = [], wWorkers = [], wCancelled = [], wNextCtx = 0,
     wWake = False, wNonces = Map.empty, wThrottle = 0, wStaging = Map.empty, wMtime = Map.empty,
     wEvents = [], wIdentity = sender_of i, wPinned = Map.empty, wTick = 0\<rparr>"

definition NewService :: "host \<Rightarrow> service_config \<Rightarrow> terr + service" where
  "NewService E c =
     (if \<not> cfStore c \<or> \<not> cfPeers c \<or> \<not> cfAuthorizer c
      then Inl (other ''transfer store, peer directory, and device authorizer are required'')
      else case Validate E (cfIdentity c) of
        Inl e \<Rightarrow> Inl (other (''invalid local identity: '' @ os_text e))
      | Inr _ \<Rightarrow>
          if trim_space (cfDataDirectory c) = [] then Inl (other ''transfer data directory is required'')
          else
            let scheme = (if cfHTTPClient c then ''http'' else ''https'');
                concurrent = (if cfMaxConcurrent c \<le> 0 then 2 else cfMaxConcurrent c);
                workers = (if cfChunkWorkers c \<le> 0 then 4 else cfChunkWorkers c);
                size = (if cfChunkSize c \<le> 0 then DefaultChunkSize else cfChunkSize c)
            in if MaximumChunkSize < size then Inl (other ''configured chunk size exceeds maximum'')
               else Inr (host.extend E (service.fields (cfDataDirectory c) scheme concurrent workers size)))"

definition SetDisplayName :: "string \<Rightarrow> (tworld, 'e, unit) gom" where
  "SetDisplayName name =
     (let n = trim_space name in
      if n = [] then retE () else modE (\<lambda>w. w\<lparr>wIdentity := (wIdentity w)\<lparr>iName := n\<rparr>\<rparr>))"

definition identitySnapshot :: "(tworld, 'e, sender_identity) gom" where
  "identitySnapshot = getE wIdentity"

definition DetectCapabilities :: "('r) host_scheme \<Rightarrow> string \<Rightarrow> (tworld, 'e, capabilities) gom" where
  "DetectCapabilities E dataDirectory =
     bindE (availableStorage E dataDirectory) (\<lambda>available.
     retE \<lparr>capAvailableStorage = available, capProtocolVersion = ProtocolVersion, capMaxChunkSize = MaximumChunkSize,
       capCompressionSupport = True, capTransferSupport = True\<rparr>)"

section \<open>The queue\<close>

text \<open>The first four checks of \<open>Queue\<close>, and the peer they found.\<close>

definition queue_peer :: "('r) host_scheme \<Rightarrow> queue_request \<Rightarrow> device tm" where
  "queue_peer E rq =
     seqE (liftE (validateDeviceID E (qDeviceID rq)))
     (seqE (guardE (qPaths rq = []) (wrapped ErrInvalidRequest ''paths are required''))
     (bindE (outsideE (\<lambda>n. hTrusted E n (qDeviceID rq))) (\<lambda>trusted.
     seqE (guardE (\<not> trusted) (plain ErrUntrustedDevice))
     (bindE (peer E (qDeviceID rq)) (\<lambda>found.
      case found of
        None \<Rightarrow> throwE (wrapped ErrInvalidRequest ''device is offline'')
      | Some p \<Rightarrow>
          seqE (guardE (\<not> dOnline p) (wrapped ErrInvalidRequest ''device is offline''))
          (seqE (guardE (\<not> dTransferCapability p \<or> dSupportedProtocolVersion p \<noteq> ProtocolVersion \<or>
              dMaximumChunkSize p \<le> 0)
             (wrapped ErrInvalidRequest ''device does not support this transfer protocol''))
          (retE p)))))))"

definition queue_path :: "('r) host_scheme \<Rightarrow> string \<Rightarrow> unit tm" where
  "queue_path E path =
     bindE (tryE (fs_read E (\<lambda>fs. os_lstat fs path))) (\<lambda>r.
     case r of Inl e \<Rightarrow> throwE (wrapped ErrInvalidRequest (os_text e)) | Inr _ \<Rightarrow> retE ())"

definition queued_transfer :: "service \<Rightarrow> queue_request \<Rightarrow> device \<Rightarrow> string \<Rightarrow> string \<Rightarrow> time \<Rightarrow> transfer" where
  "queued_transfer E rq p policy i n =
     (let name = (if 1 < length (qPaths rq) then int_dec (int (length (qPaths rq))) @ '' items''
                  else path_base (hd (qPaths rq)));
          size = (if dMaximumChunkSize p < sChunkSize E then dMaximumChunkSize p else sChunkSize E)
      in transfer_zero\<lparr>tID := i, tDirection := DirectionOutbound, tDeviceID := qDeviceID rq,
        tDeviceName := dName p, tDeviceHostname := dHostname p, tDevicePlatform := dPlatform p,
        tRemoteAddress := peerAddress E p, tFilename := name, tSourcePaths := qPaths rq,
        tStatus := StatusQueued, tCreatedAt := n, tUpdatedAt := n, tPriority := n, tApproved := True,
        tConflictPolicy := policy, tChunkSize := size, tCompression := dCompressionSupport p,
        tProtocolVersion := ProtocolVersion\<rparr>)"

definition enqueue :: "service \<Rightarrow> queue_request \<Rightarrow> device \<Rightarrow> string \<Rightarrow> transfer tm" where
  "enqueue E rq p policy =
     bindE (now E) (\<lambda>n.
     bindE (outside (hUuid E)) (\<lambda>i.
     let t = queued_transfer E rq p policy i n in
     seqE (saveTransfer E t) (seqE (logAndPublish E EventQueueUpdated t) (seqE signal (retE t)))))"

definition Queue :: "service \<Rightarrow> queue_request \<Rightarrow> transfer tm" where
  "Queue E rq =
     bindE (queue_peer E rq) (\<lambda>p.
     seqE (eachE (queue_path E) (qPaths rq))
     (let policy = (if qConflictPolicy rq = [] then ConflictPrompt else qConflictPolicy rq) in
      seqE (guardE (\<not> validPolicy policy) (wrapped ErrInvalidRequest ''invalid conflict policy''))
      (enqueue E rq p policy)))"

section \<open>Commands of the local user\<close>

text \<open>\<open>if cancel := s.active[id]; cancel != nil { cancel() }\<close>.\<close>

definition cancel_active :: "string \<Rightarrow> (tworld, 'e, unit) gom" where
  "cancel_active i = modE (\<lambda>w. case map_of (wActive w) i of
     None \<Rightarrow> w | Some ctx \<Rightarrow> w\<lparr>wCancelled := ctx # wCancelled w\<rparr>)"

definition pausable :: "status \<Rightarrow> bool" where
  "pausable s \<longleftrightarrow> s \<in> {StatusSending, StatusReceiving, StatusConnecting, StatusNegotiating,
     StatusPreparing, StatusResuming}"

definition paused :: "transfer \<Rightarrow> time \<Rightarrow> transfer" where
  "paused t n = t\<lparr>tStatus := StatusPaused, tSpeed := 0, tETASeconds := 0, tUpdatedAt := n\<rparr>"

definition Pause :: "('r) host_scheme \<Rightarrow> string \<Rightarrow> transfer tm" where
  "Pause E i =
     bindE (getTransfer E i) (\<lambda>t.
     seqE (guardE (\<not> pausable (tStatus t)) (plain ErrInvalidState))
     (seqE (cancel_active i)
     (bindE (now E) (\<lambda>n.
      seqE (saveTransfer E (paused t n)) (seqE (logAndPublish E EventPaused (paused t n)) (retE (paused t n)))))))"

definition resumed :: "transfer \<Rightarrow> time \<Rightarrow> transfer" where
  "resumed t n =
     (let t1 = t\<lparr>tStatus := StatusResuming, tError := [], tUpdatedAt := n\<rparr>
      in if tDirection t1 = DirectionInbound then t1\<lparr>tStatus := StatusReceiving\<rparr> else t1)"

definition Resume :: "('r) host_scheme \<Rightarrow> string \<Rightarrow> transfer tm" where
  "Resume E i =
     bindE (getTransfer E i) (\<lambda>t.
     seqE (guardE (tStatus t \<noteq> StatusPaused) (plain ErrInvalidState))
     (bindE (now E) (\<lambda>n.
      seqE (saveTransfer E (resumed t n)) (seqE (logAndPublish E EventResumed (resumed t n))
        (seqE signal (retE (resumed t n)))))))"

text \<open>The remote end of an outbound session is told, whatever comes of it.\<close>

definition cancel_remote :: "service \<Rightarrow> transfer \<Rightarrow> unit tm" where
  "cancel_remote E t =
     (if tDirection t = DirectionOutbound \<and> tSessionToken t \<noteq> [] \<and> tRemoteAddress t \<noteq> []
      then bindE (tryE (jsonRequest E ''DELETE'' (tRemoteAddress t) (''/v1/transfers/'' @ tID t)
          (tDeviceID t) (tSessionToken t) None)) (\<lambda>_ :: terr + string. retE ())
      else retE ())"

definition Cancel :: "service \<Rightarrow> string \<Rightarrow> transfer tm" where
  "Cancel E i =
     seqE (cancel_active i)
     (bindE (Get E i) (\<lambda>t.
      seqE (guardE (tStatus t = StatusCompleted \<or> tStatus t = StatusCancelled) (plain ErrInvalidState))
      (bindE (finish E t StatusCancelled [] EventQueueUpdated) (\<lambda>t'.
       seqE (cancel_remote E t) (retE t')))))"

definition retried :: "transfer \<Rightarrow> time \<Rightarrow> transfer" where
  "retried t n =
     (let t1 = t\<lparr>tError := [], tFinishedAt := None, tSpeed := 0, tETASeconds := 0, tStatus := StatusQueued\<rparr>;
          t2 = (if tDirection t1 = DirectionInbound \<and> tApproved t1 then t1\<lparr>tStatus := StatusReceiving\<rparr> else t1)
      in t2\<lparr>tUpdatedAt := n\<rparr>)"

definition Retry :: "('r) host_scheme \<Rightarrow> string \<Rightarrow> transfer tm" where
  "Retry E i =
     bindE (getTransfer E i) (\<lambda>t.
     seqE (guardE (tStatus t \<noteq> StatusFailed) (plain ErrInvalidState))
     (bindE (now E) (\<lambda>n.
      seqE (saveTransfer E (retried t n)) (seqE (logAndPublish E EventQueueUpdated (retried t n))
        (seqE signal (retE (retried t n)))))))"

definition deleteHistory :: "('r) host_scheme \<Rightarrow> unit tm" where
  "deleteHistory E = db_write E DeleteHistory"

lemma queued_simps [simp]:
  "tID (queued_transfer E rq p policy i n) = i" "tDirection (queued_transfer E rq p policy i n) = DirectionOutbound"
  "tStatus (queued_transfer E rq p policy i n) = StatusQueued" "tApproved (queued_transfer E rq p policy i n)"
  "tDeviceID (queued_transfer E rq p policy i n) = qDeviceID rq"
  "tSourcePaths (queued_transfer E rq p policy i n) = qPaths rq"
  "tConflictPolicy (queued_transfer E rq p policy i n) = policy" "tFiles (queued_transfer E rq p policy i n) = []"
  "tSessionTokenHash (queued_transfer E rq p policy i n) = []"
  "tChunkSize (queued_transfer E rq p policy i n) = min (dMaximumChunkSize p) (sChunkSize E)"
  by (simp_all add: queued_transfer_def Let_def transfer_zero_def min_def)

lemma command_simps [simp]:
  "tID (paused t n) = tID t" "tDirection (paused t n) = tDirection t" "tDeviceID (paused t n) = tDeviceID t"
  "tApproved (paused t n) = tApproved t" "tStatus (paused t n) = StatusPaused"
  "tID (resumed t n) = tID t" "tDirection (resumed t n) = tDirection t" "tDeviceID (resumed t n) = tDeviceID t"
  "tApproved (resumed t n) = tApproved t"
  "tStatus (resumed t n) = (if tDirection t = DirectionInbound then StatusReceiving else StatusResuming)"
  "tID (retried t n) = tID t" "tDirection (retried t n) = tDirection t" "tDeviceID (retried t n) = tDeviceID t"
  "tApproved (retried t n) = tApproved t"
  "tStatus (retried t n) = (if tDirection t = DirectionInbound \<and> tApproved t then StatusReceiving else StatusQueued)"
  by (simp_all add: paused_def resumed_def retried_def Let_def)

section \<open>Recovery\<close>

definition in_flight :: "status \<Rightarrow> bool" where
  "in_flight s \<longleftrightarrow> s \<in> {StatusPreparing, StatusConnecting, StatusNegotiating, StatusSending, StatusResuming}"

definition recovered :: "transfer \<Rightarrow> time \<Rightarrow> transfer option" where
  "recovered t n =
     (if tDirection t = DirectionOutbound then
        if in_flight (tStatus t)
        then Some (t\<lparr>tStatus := StatusQueued, tUpdatedAt := n, tError := ''recovered after restart''\<rparr>) else None
      else if tStatus t = StatusVerifying then Some (t\<lparr>tStatus := StatusReceiving, tUpdatedAt := n\<rparr>)
      else None)"

text \<open>The clock is read for the transfers that are saved.\<close>

definition recover_one :: "('r) host_scheme \<Rightarrow> transfer \<Rightarrow> unit tm" where
  "recover_one E t =
     (if recovered t 0 = None then retE ()
      else bindE (now E) (\<lambda>n. saveTransfer E (the (recovered t n))))"

definition recover :: "('r) host_scheme \<Rightarrow> unit tm" where
  "recover E = bindE (listTransfers E) (\<lambda>ts. seqE (eachE (recover_one E) ts) signal)"

section \<open>Dispatch\<close>

definition dispatchable :: "transfer \<Rightarrow> bool" where
  "dispatchable t \<longleftrightarrow> tDirection t = DirectionOutbound \<and>
     (tStatus t = StatusQueued \<or> tStatus t = StatusResuming)"

text \<open>One round of the loop: a new context is entered in \<open>active\<close>, and a worker started under it.\<close>

definition launch :: "service \<Rightarrow> tworld \<Rightarrow> transfer \<Rightarrow> tworld" where
  "launch E w t =
     (if sMaxConcurrent E \<le> int (length (wActive w)) \<or> \<not> dispatchable t then w
      else w\<lparr>wNextCtx := Suc (wNextCtx w), wActive := AList.update (tID t) (wNextCtx w) (wActive w),
             wWorkers := wWorkers w @ [(tID t, wNextCtx w)]\<rparr>)"

definition dispatch :: "service \<Rightarrow> (tworld, 'e, unit) gom" where
  "dispatch E = (\<lambda>w.
     if sMaxConcurrent E \<le> int (length (wActive w)) then (Inr (), w)
     else case listTransfers E w of
       (Inl _, w') \<Rightarrow> (Inr (), w')
     | (Inr items, w') \<Rightarrow> (Inr (), foldl (launch E) w' (sort_key tPriority items)))"

text \<open>What a worker does when \<open>processOutbound\<close> has returned: \<open>delete(s.active, id)\<close>, and the
  failure of a transfer that was neither paused nor cancelled.\<close>

definition leave_active :: "string \<Rightarrow> nat \<Rightarrow> (tworld, 'e, unit) gom" where
  "leave_active i ctx = modE (\<lambda>w. w\<lparr>wActive := AList.delete i (wActive w),
     wWorkers := remove1 (i, ctx) (wWorkers w)\<rparr>)"

definition fail_current :: "('r) host_scheme \<Rightarrow> string \<Rightarrow> terr \<Rightarrow> (tworld, 'e, unit) gom" where
  "fail_current E i e =
     bindE (tryE (getTransfer E i)) (\<lambda>r.
     case r of
       Inl _ \<Rightarrow> retE ()
     | Inr current \<Rightarrow>
         if tStatus current = StatusPaused \<or> tStatus current = StatusCancelled then retE ()
         else bindE (tryE (fail E current e)) (\<lambda>_ :: terr + transfer. retE ()))"

definition worker_done :: "('r) host_scheme \<Rightarrow> string \<Rightarrow> nat \<Rightarrow> terr + unit \<Rightarrow> (tworld, 'e, unit) gom" where
  "worker_done E i ctx r =
     seqE (leave_active i ctx)
     (seqE (case r of
         Inr _ \<Rightarrow> retE ()
       | Inl e \<Rightarrow> if terr_kind e = ErrCanceled then retE () else fail_current E i e)
     signal)"

definition stopAll :: "(tworld, 'e, unit) gom" where
  "stopAll = modE (\<lambda>w. w\<lparr>wCancelled := map snd (wActive w) @ wCancelled w\<rparr>)"

section \<open>The throttle\<close>

text \<open>
  The delay in nanoseconds. \<open>time.Duration(float64(d) * 0.8)\<close> is exact below a second: the
  product is a multiple of a fifth, and \<open>float64\<close> is precise enough to truncate it correctly.
\<close>

definition congested :: "int \<Rightarrow> int" where
  "congested d = (if d = 0 then 10 * millisecond else if second < 2 * d then second else 2 * d)"

definition relaxed :: "int \<Rightarrow> int" where
  "relaxed d = (let d' = (4 * d) div 5 in if d' < millisecond then 0 else d')"

definition recordCongestion :: "bool \<Rightarrow> (tworld, 'e, unit) gom" where
  "recordCongestion failed =
     modE (\<lambda>w. w\<lparr>wThrottle := (if failed then congested (wThrottle w) else relaxed (wThrottle w))\<rparr>)"

text \<open>A context is done when its cancel function was called, or when the outside says so.\<close>

definition ctx_err :: "('r) host_scheme \<Rightarrow> nat \<Rightarrow> unit tm" where
  "ctx_err E ctx = (\<lambda>w.
     if ctx \<in> set (wCancelled w) \<or> hFault E (wTick w) = Some FaultCanceled
     then (Inl (plain ErrCanceled), bump w) else (Inr (), bump w))"

definition waitForThrottle :: "('r) host_scheme \<Rightarrow> nat \<Rightarrow> unit tm" where
  "waitForThrottle E ctx =
     bindE (getE wThrottle) (\<lambda>delay. if delay \<le> 0 then retE () else ctx_err E ctx)"

end
