(* ===== verification/TransferDelivery.thy ===== *)
theory TransferDelivery
  imports TransferReceive
begin

text \<open>
  What \<open>Finalize\<close> guarantees when it reports a completed transfer: every regular file stands
  at its destination with the checksum the sender announced. And what it cannot recover
  from: a commit that stopped half-way.
\<close>

section \<open>Partial files\<close>

lemma or_fail_InrE:
  assumes "or_fail E t m w = (Inr a, w')" obtains "m w = (Inr a, w')"
proof -
  from assms obtain r w1 where r: "m w = (r, w1)" and
    k: "(case r of Inl e \<Rightarrow> fail E t e | Inr a \<Rightarrow> retE a) w1 = (Inr a, w')"
    unfolding or_fail_def by (elim bindE_InrE tryE_InrE)
  have "fst (fail E t e w1 :: (terr + 'a) \<times> tworld) \<noteq> Inr a" for e
    by (auto simp: fail_def seqE_def bindE_def split: prod.splits sum.splits)
  note f = this
  show thesis
  proof (cases r)
    case (Inl e)
    then show ?thesis using k f [of e] by simp
  next
    case (Inr b)
    then show ?thesis using k r that by simp
  qed
qed

lemma partialPath_valid:
  assumes "is_abs (sDataDirectory E)" "validateRelativePath r = Inr ()"
  shows "\<exists>es. normal_elems es \<and> partialPath E i r = abs_path (es @ split_on slash r) @ ''.part'' \<and>
    path_abs (hCwd E) (path_join [sDataDirectory E, ''incoming'', i]) = Some (abs_path es)"
proof -
  let ?base = "path_join [sDataDirectory E, ''incoming'', i]"
  have d: "sDataDirectory E \<noteq> []" using assms(1) by (auto simp: is_abs_def)
  then have b: "?base = clean (join_slash [sDataDirectory E, ''incoming'', i])" by (simp add: path_join_def)
  have "is_abs (join_slash [sDataDirectory E, ''incoming'', i])"
    using assms(1) by (auto simp: is_abs_def prefix_def)
  then have n: "?base = abs_path (clean_elems (join_slash [sDataDirectory E, ''incoming'', i]))"
    "normal_elems (clean_elems (join_slash [sDataDirectory E, ''incoming'', i]))"
    using b clean_abs clean_elems_normal by simp_all
  then have "path_abs (hCwd E) ?base = Some (abs_path (clean_elems (join_slash [sDataDirectory E, ''incoming'', i])))"
    by (simp add: path_abs_def clean_abs_path)
  with n show ?thesis
    using secureJoin_below [OF assms(2) n(2), of "hCwd E" ?base] by (auto simp: partialPath_def)
qed

lemma partialPath_inj:
  assumes "is_abs (sDataDirectory E)" "validateRelativePath r = Inr ()" "validateRelativePath s = Inr ()"
    "partialPath E i r = partialPath E i s"
  shows "r = s"
proof -
  obtain es where es: "normal_elems es" "partialPath E i r = abs_path (es @ split_on slash r) @ ''.part''"
      "path_abs (hCwd E) (path_join [sDataDirectory E, ''incoming'', i]) = Some (abs_path es)"
    using partialPath_valid [OF assms(1,2)] by blast
  obtain fs where fs: "normal_elems fs" "partialPath E i s = abs_path (fs @ split_on slash s) @ ''.part''"
      "path_abs (hCwd E) (path_join [sDataDirectory E, ''incoming'', i]) = Some (abs_path fs)"
    using partialPath_valid [OF assms(1,3)] by blast
  have "es = fs" using es(1,3) fs(1,3) abs_path_inject by simp
  moreover have "abs_path (es @ split_on slash r) = abs_path (fs @ split_on slash s)"
    using es(2) fs(2) assms(4) by simp
  moreover have "normal_elems (es @ split_on slash r)" "normal_elems (fs @ split_on slash s)"
    using es(1) fs(1) validateRelativePath_elems(1) [OF assms(2)] validateRelativePath_elems(1) [OF assms(3)]
    by (auto simp: normal_elems_iff)
  ultimately have "split_on slash r = split_on slash s" using abs_path_inject by blast
  then show ?thesis by (metis join_split)
qed

section \<open>Verification\<close>

definition persists :: "fsys \<Rightarrow> fsys \<Rightarrow> bool" where
  "persists fs fs' \<longleftrightarrow> (\<forall>q c. fs q = Some (NFile c) \<longrightarrow> fs' q = Some (NFile c))"

lemma persists_trans: "persists a b \<Longrightarrow> persists b c \<Longrightarrow> persists a c"
  and persists_refl [simp]: "persists a a"
  by (simp_all add: persists_def)

lemma persists_mkdir: "os_mkdir_all p fs = Inr fs' \<Longrightarrow> persists fs fs'"
  using mkdir_all_file by (auto simp: persists_def)

lemma persists_open: "os_open_create p fs = Inr fs' \<Longrightarrow> persists fs fs'"
  by (auto simp: persists_def os_open_create_def split: option.splits node.splits if_splits)

text \<open>The partial file of \<open>f\<close> is complete and has the announced checksum.\<close>

definition part_ok :: "service \<Rightarrow> transfer \<Rightarrow> fsys \<Rightarrow> transfer_file \<Rightarrow> bool" where
  "part_ok E t fs f \<longleftrightarrow> (\<exists>c. fs (partialPath E (tID t) (fRelativePath f)) = Some (NFile c) \<and>
     checksumBytes E c = fChecksum f)"

lemma part_ok_persists: "part_ok E t fs f \<Longrightarrow> persists fs fs' \<Longrightarrow> part_ok E t fs' f"
  by (auto simp: part_ok_def persists_def)

lemma verify_file_Inr:
  assumes "verify_file E t cs f w = (Inr u, w')"
  shows "persists (wFs w) (wFs w') \<and> wDb w' = wDb w \<and>
    (\<not> fDirectory f \<longrightarrow> part_ok E t (wFs w') f \<and> int (length (complete_indices cs (fID f))) = fChunkCount f)"
proof (cases "fDirectory f")
  case True
  then show ?thesis using assms by (simp add: verify_file_def)
next
  case False
  let ?p = "partialPath E (tID t) (fRelativePath f)"
  from assms False obtain x w2 where
    n: "int (length (complete_indices cs (fID f))) = fChunkCount f" and
    z: "(if fSize f = 0 then
             seqE (or_fail E t (osE (fs_call E (os_mkdir_all (path_dir ?p)))))
               (or_fail E t (osE (fs_call E (os_open_create ?p))))
           else retE ()) w = (Inr x, w2)" and
    c: "osE (checksumFile E ?p) w2 = (Inr (fChecksum f), w')"
    by (simp only: verify_file_def Let_def if_False)
      (elim seqE_InrE bindE_InrE or_fail_InrE guardE_InrE, simp only: not_not)
  have p: "persists (wFs w) (wFs w2) \<and> wDb w2 = wDb w"
  proof (cases "fSize f = 0")
    case True
    with z obtain y w1 where "fs_call E (os_mkdir_all (path_dir ?p)) w = (Inr y, w1)"
        "fs_call E (os_open_create ?p) w1 = (Inr x, w2)"
      by (auto elim!: seqE_InrE or_fail_InrE osE_InrE)
    then show ?thesis
      using persists_trans [OF persists_mkdir persists_open] by (auto elim!: fs_call_InrE)
  qed (use z in simp)
  from c obtain d where "wFs w2 ?p = Some (NFile d)" "fChecksum f = checksumBytes E d" "wFs w' = wFs w2"
    by (rule checksum_InrE)
  moreover have "wDb w' = wDb w2"
    using keepsD [OF keeps_osE [OF db_stable_files(1) [where P = "\<lambda>d. d = wDb w2"]] _ c] by simp
  ultimately show ?thesis using p n c False by (auto simp: part_ok_def)
qed

lemma verify_all:
  assumes "eachE (verify_file E t cs) fs w = (Inr u, w')"
  shows "persists (wFs w) (wFs w') \<and> wDb w' = wDb w \<and>
    (\<forall>f \<in> set fs. \<not> fDirectory f \<longrightarrow> part_ok E t (wFs w') f \<and>
       int (length (complete_indices cs (fID f))) = fChunkCount f)"
  using assms
proof (induction fs arbitrary: w)
  case (Cons f fs)
  then obtain x w1 where 1: "verify_file E t cs f w = (Inr x, w1)" "eachE (verify_file E t cs) fs w1 = (Inr u, w')"
    by (auto elim: seqE_InrE)
  then show ?case
    using verify_file_Inr [OF 1(1)] Cons.IH [OF 1(2)] part_ok_persists persists_trans by auto
qed simp

section \<open>Commit\<close>

lemma commit_one_Inr:
  assumes "commit_one E t f w = (Inr u, w')"
  shows "if fDirectory f then persists (wFs w) (wFs w') \<and> wDb w' = wDb w
    else wDb w' = wDb w \<and> (\<exists>p w1. wFs w1 = wFs w \<and>
      (wFs w p = None \<or> tConflictPolicy t = ConflictOverwrite \<and> p = fDestinationPath f) \<and>
      (p = fDestinationPath f \<or> tConflictPolicy t = ConflictRename) \<and>
      commitFile E (partialPath E (tID t) (fRelativePath f)) p (tConflictPolicy t = ConflictOverwrite) w1 = (Inr u, w'))"
proof (cases "fDirectory f")
  case True
  then show ?thesis
    using assms persists_mkdir
    by (auto simp: commit_one_def elim!: seqE_InrE or_fail_InrE guardE_InrE osE_InrE fs_call_InrE)
next
  case False
  with assms obtain p w1 where
    r: "resolveConflict E (fDestinationPath f) (tConflictPolicy t) w = (Inr p, w1)" and
    c: "commitFile E (partialPath E (tID t) (fRelativePath f)) p (tConflictPolicy t = ConflictOverwrite) w1 = (Inr u, w')"
    by (auto simp: commit_one_def elim!: seqE_InrE bindE_InrE or_fail_InrE guardE_InrE osE_InrE)
  have "wDb w1 = wDb w" "wDb w' = wDb w1"
    using keepsD [OF db_stable_files(6) [where P = "\<lambda>d. d = wDb w"] _ r]
      keepsD [OF db_stable_files(9) [where P = "\<lambda>d. d = wDb w1"] _ c] by simp_all
  then show ?thesis using False resolveConflict_Inr [OF r] c by auto
qed

definition committed :: "service \<Rightarrow> transfer \<Rightarrow> fsys \<Rightarrow> transfer_file \<Rightarrow> string \<Rightarrow> bool" where
  "committed E t fs f p \<longleftrightarrow> (\<exists>c. fs p = Some (NFile c) \<and> checksumBytes E c = fChecksum f) \<and>
     (p = fDestinationPath f \<or> tConflictPolicy t = ConflictRename)"

definition separate :: "service \<Rightarrow> transfer \<Rightarrow> transfer_file list \<Rightarrow> bool" where
  "separate E t fs \<longleftrightarrow>
     distinct (map (\<lambda>f. partialPath E (tID t) (fRelativePath f)) fs) \<and>
     (tConflictPolicy t = ConflictOverwrite \<longrightarrow>
        distinct (map fDestinationPath fs) \<and>
        (\<forall>f \<in> set fs. \<forall>g \<in> set fs. fDestinationPath f \<noteq> partialPath E (tID t) (fRelativePath g)))"

lemma commit_step:
  assumes c: "commit_one E t f w = (Inr u, w')" and f: "\<not> fDirectory f" and ok: "part_ok E t (wFs w) f" and
    sep: "separate E t (f # fs)" and rest: "\<forall>g \<in> set fs. part_ok E t (wFs w) g"
  shows "\<exists>p. committed E t (wFs w') f p \<and> (\<forall>g \<in> set fs. part_ok E t (wFs w') g \<and>
      p \<noteq> partialPath E (tID t) (fRelativePath g) \<and> (tConflictPolicy t = ConflictOverwrite \<longrightarrow> p \<noteq> fDestinationPath g)) \<and>
    wFs w' (partialPath E (tID t) (fRelativePath f)) = None \<and>
    (\<forall>q d. q \<noteq> partialPath E (tID t) (fRelativePath f) \<longrightarrow>
       (tConflictPolicy t = ConflictOverwrite \<longrightarrow> q \<noteq> fDestinationPath f) \<longrightarrow>
       wFs w q = Some (NFile d) \<longrightarrow> wFs w' q = Some (NFile d))"
proof -
  let ?P = "\<lambda>f. partialPath E (tID t) (fRelativePath f)"
  obtain b where b: "wFs w (?P f) = Some (NFile b)" "checksumBytes E b = fChecksum f"
    using ok by (auto simp: part_ok_def)
  from commit_one_Inr [OF c] f obtain p w1 where
    w1: "wFs w1 = wFs w" and p: "wFs w p = None \<or> tConflictPolicy t = ConflictOverwrite \<and> p = fDestinationPath f"
      "p = fDestinationPath f \<or> tConflictPolicy t = ConflictRename" and
    cf: "commitFile E (?P f) p (tConflictPolicy t = ConflictOverwrite) w1 = (Inr u, w')"
    by auto
  have ne: "?P f \<noteq> p" using p(1) b(1) sep by (auto simp: separate_def)
  have m: "moved (?P f) p (wFs w) (wFs w')"
    using commit_moves [OF cf _ ne, of b] b(1) w1 by simp
  have com: "committed E t (wFs w') f p" using m b p(2) by (auto simp: committed_def moved_def)
  have g: "part_ok E t (wFs w') g \<and> p \<noteq> ?P g \<and> (tConflictPolicy t = ConflictOverwrite \<longrightarrow> p \<noteq> fDestinationPath g)"
    if "g \<in> set fs" for g
  proof -
    obtain d where d: "wFs w (?P g) = Some (NFile d)" "checksumBytes E d = fChecksum g"
      using bspec [OF rest \<open>g \<in> set fs\<close>] by (auto simp: part_ok_def)
    have "p \<noteq> ?P g" using p(1) d(1) sep that by (auto simp: separate_def)
    moreover have "?P g \<noteq> ?P f" using sep that by (auto simp: separate_def image_iff)
    moreover have "p \<noteq> fDestinationPath g" if "tConflictPolicy t = ConflictOverwrite"
      using sep \<open>g \<in> set fs\<close> p(2) that by (auto simp: separate_def image_iff)
    ultimately show ?thesis using m d by (auto simp: part_ok_def moved_def)
  qed
  have q: "wFs w' q = Some (NFile d)"
    if "q \<noteq> ?P f" "tConflictPolicy t = ConflictOverwrite \<longrightarrow> q \<noteq> fDestinationPath f" "wFs w q = Some (NFile d)" for q d
  proof -
    have "q \<noteq> p" using p(1) that by auto
    then show ?thesis using m that by (auto simp: moved_def)
  qed
  show ?thesis using com g q m by (intro exI [of _ p]) (auto simp: moved_def)
qed

lemma separate_Cons: "separate E t (f # fs) \<Longrightarrow> separate E t fs"
  by (auto simp: separate_def)

lemma commit_all:
  assumes "eachE (commit_one E t) fs w = (Inr u, w')"
    and "\<forall>f \<in> set fs. \<not> fDirectory f \<longrightarrow> part_ok E t (wFs w) f"
    and "separate E t (filter (\<lambda>f. \<not> fDirectory f) fs)"
  shows "wDb w' = wDb w \<and> (\<forall>f \<in> set fs. \<not> fDirectory f \<longrightarrow> (\<exists>p. committed E t (wFs w') f p)) \<and>
    (\<forall>q d. wFs w q = Some (NFile d) \<longrightarrow>
       (\<forall>f \<in> set fs. \<not> fDirectory f \<longrightarrow> q \<noteq> partialPath E (tID t) (fRelativePath f) \<and>
          (tConflictPolicy t = ConflictOverwrite \<longrightarrow> q \<noteq> fDestinationPath f)) \<longrightarrow>
       wFs w' q = Some (NFile d))"
  using assms
proof (induction fs arbitrary: w)
  case (Cons f fs)
  then obtain x w1 where 1: "commit_one E t f w = (Inr x, w1)" "eachE (commit_one E t) fs w1 = (Inr u, w')"
    by (auto elim: seqE_InrE)
  show ?case
  proof (cases "fDirectory f")
    case True
    then have p: "persists (wFs w) (wFs w1)" "wDb w1 = wDb w" using commit_one_Inr [OF 1(1)] by auto
    then have "\<forall>f \<in> set fs. \<not> fDirectory f \<longrightarrow> part_ok E t (wFs w1) f"
      using Cons.prems(2) part_ok_persists by auto
    then show ?thesis using Cons.IH [OF 1(2)] Cons.prems(3) True p by (auto simp: persists_def)
  next
    case False
    have sep: "separate E t (f # filter (\<lambda>f. \<not> fDirectory f) fs)" using Cons.prems(3) False by simp
    have "\<forall>g \<in> set (filter (\<lambda>f. \<not> fDirectory f) fs). part_ok E t (wFs w) g" "part_ok E t (wFs w) f"
      using Cons.prems(2) False by auto
    from commit_step [OF 1(1) False this(2) sep this(1)] obtain p where
      p: "committed E t (wFs w1) f p" and
      g: "\<forall>g \<in> set (filter (\<lambda>f. \<not> fDirectory f) fs). part_ok E t (wFs w1) g \<and>
        p \<noteq> partialPath E (tID t) (fRelativePath g) \<and>
        (tConflictPolicy t = ConflictOverwrite \<longrightarrow> p \<noteq> fDestinationPath g)" and
      q: "\<forall>q d. q \<noteq> partialPath E (tID t) (fRelativePath f) \<longrightarrow>
         (tConflictPolicy t = ConflictOverwrite \<longrightarrow> q \<noteq> fDestinationPath f) \<longrightarrow>
         wFs w q = Some (NFile d) \<longrightarrow> wFs w1 q = Some (NFile d)" by blast
    have d: "wDb w1 = wDb w" using commit_one_Inr [OF 1(1)] False by auto
    have IH: "wDb w' = wDb w1" "\<forall>f \<in> set fs. \<not> fDirectory f \<longrightarrow> (\<exists>p. committed E t (wFs w') f p)"
      "\<forall>q d. wFs w1 q = Some (NFile d) \<longrightarrow>
       (\<forall>f \<in> set fs. \<not> fDirectory f \<longrightarrow> q \<noteq> partialPath E (tID t) (fRelativePath f) \<and>
          (tConflictPolicy t = ConflictOverwrite \<longrightarrow> q \<noteq> fDestinationPath f)) \<longrightarrow>
       wFs w' q = Some (NFile d)"
      using Cons.IH [OF 1(2)] g separate_Cons [OF sep] by auto
    obtain c where "wFs w1 p = Some (NFile c)" "checksumBytes E c = fChecksum f"
      using p by (auto simp: committed_def)
    then have "committed E t (wFs w') f p" using IH(3) g p by (auto simp: committed_def)
    then show ?thesis using IH d q False by auto
  qed
qed simp

section \<open>Finalize\<close>

lemma bind_now: "bindE (now E) f w = f (hNow E (wTick w)) (bump w)"
  by (simp add: bindE_def call_runs)

lemma save_publish_InrE:
  assumes "seqE (saveTransfer E t) (seqE (logAndPublish E k t) (retE a)) w = (Inr b, w')"
  obtains "b = a" "wDb w' = SaveTransfer t (wDb w)" "wFs w' = wFs w"
  using assms by (auto elim!: seqE_InrE saveTransfer_InrE logAndPublish_InrE)

lemma finish_InrE:
  assumes "finish E t s msg k w = (Inr t', w')"
  obtains n where "t' = finished t s msg n" "wDb w' = SaveTransfer t' (wDb w)" "wFs w' = wFs w"
proof -
  let ?t = "finished t s msg (hNow E (wTick w))"
  from assms have "seqE (saveTransfer E ?t) (seqE (logAndPublish E k ?t) (retE ?t)) (bump w) = (Inr t', w')"
    by (simp only: finish_def bind_now Let_def)
  then have "t' = ?t" "wDb w' = SaveTransfer t' (wDb w)" "wFs w' = wFs w"
    by (auto elim: save_publish_InrE)
  then show thesis by (rule that)
qed

lemma finished_simps [simp]:
  "tID (finished t s msg n) = tID t" "tStatus (finished t s msg n) = s" "tError (finished t s msg n) = msg"
  "tApproved (finished t s msg n) = tApproved t" "tDirection (finished t s msg n) = tDirection t"
  "tFiles (finished t s msg n) = tFiles t" "tProgress (finished t s msg n) = tProgress t"
  "tSize (finished t s msg n) = tSize t" "tFinishedAt (finished t s msg n) = Some n"
  by (simp_all add: finished_def)

lemma begin_finalize_InrE:
  assumes "begin_finalize E i token w = (Inr t', w')"
  obtains t n where "GetTransfer (wDb w) i = Inr t" "tSessionTokenHash t = hashToken E token" "tApproved t"
    "tStatus t \<in> {StatusReceiving, StatusResuming}" "t' = t\<lparr>tStatus := StatusVerifying, tUpdatedAt := n\<rparr>"
    "wDb w' = SaveTransfer t' (wDb w)" "wFs w' = wFs w"
proof -
  from assms obtain t w1 where r: "receiving_session E i token w = (Inr t, w1)" and
    k: "bindE (now E) (\<lambda>n. let t' = t\<lparr>tStatus := StatusVerifying, tUpdatedAt := n\<rparr> in
      seqE (saveTransfer E t') (seqE (logAndPublish E EventVerification t') (retE t'))) w1 = (Inr t', w')"
    unfolding begin_finalize_def by (rule bindE_InrE)
  from r have g: "GetTransfer (wDb w) i = Inr t" "tSessionTokenHash t = hashToken E token" "tApproved t"
    "tStatus t \<in> {StatusReceiving, StatusResuming}" "w1 = bump w"
    by (auto elim: receiving_session_InrE)
  let ?t = "t\<lparr>tStatus := StatusVerifying, tUpdatedAt := hNow E (wTick w1)\<rparr>"
  from k have "seqE (saveTransfer E ?t) (seqE (logAndPublish E EventVerification ?t) (retE ?t)) (bump w1) = (Inr t', w')"
    by (simp only: bind_now Let_def)
  then have n: "t' = ?t" "wDb w' = SaveTransfer ?t (wDb w1)" "wFs w' = wFs w1"
    by (auto elim: save_publish_InrE)
  show thesis by (rule that [OF g(1-4) n(1)]) (use n g(5) in simp_all)
qed

lemma separate_files:
  assumes "is_abs (sDataDirectory E)" "\<forall>f \<in> set fs. validateRelativePath (fRelativePath f) = Inr ()"
    "distinct (map fRelativePath fs)"
    "tConflictPolicy t = ConflictOverwrite \<Longrightarrow> distinct (map fDestinationPath (filter (\<lambda>f. \<not> fDirectory f) fs)) \<and>
      (\<forall>f \<in> set fs. \<forall>g \<in> set fs. fDestinationPath f \<noteq> partialPath E (tID t) (fRelativePath g))"
  shows "separate E t (filter (\<lambda>f. \<not> fDirectory f) fs)"
proof -
  let ?P = "\<lambda>f. partialPath E (tID t) (fRelativePath f)" and ?n = "filter (\<lambda>f. \<not> fDirectory f) fs"
  have "inj_on ?P (set fs)"
  proof (rule inj_onI)
    fix f g assume f: "f \<in> set fs" "g \<in> set fs" "?P f = ?P g"
    then have "fRelativePath f = fRelativePath g" using partialPath_inj [OF assms(1) _ _ f(3)] assms(2) by simp
    moreover have "inj_on fRelativePath (set fs)" using assms(3) by (simp add: distinct_map)
    ultimately show "f = g" using f(1,2) by (auto dest: inj_onD)
  qed
  then have "inj_on ?P (set ?n)" by (rule inj_on_subset) simp
  moreover have "distinct ?n" using assms(3) by (simp add: distinct_map)
  ultimately have d: "distinct (map ?P ?n)" by (simp add: distinct_map)
  have "tConflictPolicy t = ConflictOverwrite \<longrightarrow> distinct (map fDestinationPath ?n) \<and>
      (\<forall>f \<in> set ?n. \<forall>g \<in> set ?n. fDestinationPath f \<noteq> ?P g)"
    using assms(4) by simp
  with d show ?thesis by (simp add: separate_def)
qed

lemma end_finalize_Inr:
  assumes "end_finalize E t w = (Inr t', w')"
  obtains w1 u1 u2 w2 w3 where "wFs w1 = wFs w" "wDb w1 = wDb w"
    "eachE (verify_file E t (ListChunks (wDb w) (tID t))) (tFiles t) w1 = (Inr u1, w2)"
    "eachE (commit_one E t) (tFiles t) w2 = (Inr u2, w3)"
    "finish E (t\<lparr>tProgress := tSize t\<rparr>) StatusCompleted [] EventCompleted w3 = (Inr t', w')"
proof -
  from assms obtain cs w1 where c: "listChunks E (tID t) w = (Inr cs, w1)" and
    k: "seqE (eachE (verify_file E t cs) (tFiles t)) (seqE (eachE (commit_one E t) (tFiles t))
      (finish E (t\<lparr>tProgress := tSize t\<rparr>) StatusCompleted [] EventCompleted)) w1 = (Inr t', w')"
    unfolding end_finalize_def by (rule bindE_InrE)
  from k obtain u1 w2 where v: "eachE (verify_file E t cs) (tFiles t) w1 = (Inr u1, w2)" and
    k2: "seqE (eachE (commit_one E t) (tFiles t))
      (finish E (t\<lparr>tProgress := tSize t\<rparr>) StatusCompleted [] EventCompleted) w2 = (Inr t', w')"
    by (rule seqE_InrE)
  from k2 obtain u2 w3 where "eachE (commit_one E t) (tFiles t) w2 = (Inr u2, w3)"
    "finish E (t\<lparr>tProgress := tSize t\<rparr>) StatusCompleted [] EventCompleted w3 = (Inr t', w')"
    by (rule seqE_InrE)
  moreover from c have "cs = ListChunks (wDb w) (tID t)" "wFs w1 = wFs w" "wDb w1 = wDb w"
    by (auto elim: listChunks_InrE)
  ultimately show thesis using that v by blast
qed

lemma end_finalize_delivers:
  assumes "end_finalize E t w = (Inr t', w')" and "is_abs (sDataDirectory E)"
    and "\<forall>f \<in> set (tFiles t). validateRelativePath (fRelativePath f) = Inr ()" and "distinct (map fRelativePath (tFiles t))"
    and "tConflictPolicy t = ConflictOverwrite \<Longrightarrow>
      distinct (map fDestinationPath (filter (\<lambda>f. \<not> fDirectory f) (tFiles t))) \<and>
      (\<forall>f \<in> set (tFiles t). \<forall>g \<in> set (tFiles t). fDestinationPath f \<noteq> partialPath E (tID t) (fRelativePath g))"
  shows "(\<forall>f \<in> set (tFiles t). \<not> fDirectory f \<longrightarrow>
       int (length (complete_indices (ListChunks (wDb w) (tID t)) (fID f))) = fChunkCount f \<and>
       (\<exists>p c. wFs w' p = Some (NFile c) \<and> checksumBytes E c = fChecksum f \<and>
          (p = fDestinationPath f \<or> tConflictPolicy t = ConflictRename))) \<and>
    tStatus t' = StatusCompleted \<and> tProgress t' = tSize t \<and> (\<exists>d. wDb w' = SaveTransfer t' d)"
proof -
  from assms(1) obtain w1 u1 u2 w2 w3 where
    v: "wFs w1 = wFs w" "eachE (verify_file E t (ListChunks (wDb w) (tID t))) (tFiles t) w1 = (Inr u1, w2)" and
    c: "eachE (commit_one E t) (tFiles t) w2 = (Inr u2, w3)" and
    f: "finish E (t\<lparr>tProgress := tSize t\<rparr>) StatusCompleted [] EventCompleted w3 = (Inr t', w')"
    by (rule end_finalize_Inr)
  note ver = verify_all [OF v(2)]
  have "separate E t (filter (\<lambda>f. \<not> fDirectory f) (tFiles t))" by (rule separate_files [OF assms(2-5)])
  then have com: "\<forall>f \<in> set (tFiles t). \<not> fDirectory f \<longrightarrow> (\<exists>p. committed E t (wFs w3) f p)"
    using commit_all [OF c] ver by blast
  from f obtain m where "t' = finished (t\<lparr>tProgress := tSize t\<rparr>) StatusCompleted [] m"
    "wDb w' = SaveTransfer t' (wDb w3)" "wFs w' = wFs w3" by (rule finish_InrE)
  then have t': "tStatus t' = StatusCompleted" "tProgress t' = tSize t" "wDb w' = SaveTransfer t' (wDb w3)"
    "wFs w' = wFs w3" by simp_all
  have "\<exists>p c. wFs w' p = Some (NFile c) \<and> checksumBytes E c = fChecksum f \<and>
      (p = fDestinationPath f \<or> tConflictPolicy t = ConflictRename)" if "f \<in> set (tFiles t)" "\<not> fDirectory f" for f
    using com that t'(4) unfolding committed_def by fastforce
  then show ?thesis using ver t' by (intro conjI ballI impI exI [of _ "wDb w3"]) simp_all
qed


text \<open>A world in which both chunks of the sample transfer have arrived.\<close>

definition sample_part :: string where
  "sample_part = ''/data/incoming/t1/a.txt.part''"

definition sample_arrived :: tworld where
  "sample_arrived = sample_world\<lparr>
     wDb := SaveChunk (new_chunk ''t1'' sample_file 1 1 [] 0) (SaveChunk (new_chunk ''t1'' sample_file 0 4 [] 0)
       (SaveTransfer sample_transfer empty_db)),
     wFs := [''/'' \<mapsto> NDir, ''/data'' \<mapsto> NDir, sample_part \<mapsto> NFile ''hello'']\<rparr>"

lemma sample_arrived_db:
  "GetTransfer (wDb sample_arrived) ''t1'' = Inr (by_path (persist None sample_transfer))"
  using sample_receiving_db(2) by (simp add: sample_arrived_def sample_receiving_def GetTransfer_lookup)

lemma sample_files: "tFiles (by_path (persist None sample_transfer)) = [sample_file]"
  by (simp add: by_path_def persist_def merge_files_def)

lemma sample_clock0: "trunc_ms 0 = 0"
  by code_simp

lemma sample_indices: "length (complete_indices (ListChunks (wDb sample_arrived) ''t1'') ''f1'') = 2"
proof -
  have "ListChunks (wDb sample_arrived) ''t1'' = sort_key chunk_key_of (filter (\<lambda>c. kTransferID c = ''t1'')
      [(new_chunk ''t1'' sample_file 0 4 [] 0), (new_chunk ''t1'' sample_file 1 1 [] 0)])"
    by (simp add: sample_arrived_def ListChunks_def SaveChunk_def SaveTransfer_def Let_def empty_db_def
        chunk_row_key_def new_chunk_def sample_file_def sample_clock0 del: sort_key_simps)
  then have "set (ListChunks (wDb sample_arrived) ''t1'') =
      {new_chunk ''t1'' sample_file 0 4 [] 0, new_chunk ''t1'' sample_file 1 1 [] 0}"
    by (auto simp: new_chunk_def)
  then have "set (complete_indices (ListChunks (wDb sample_arrived) ''t1'') ''f1'') = {0, 1}"
    by (auto simp: complete_indices_def new_chunk_def sample_file_def)
  moreover have "distinct (complete_indices (ListChunks (wDb sample_arrived) ''t1'') ''f1'')"
    by (simp add: complete_indices_def)
  ultimately show ?thesis by (metis card_2_iff distinct_card zero_neq_one)
qed

lemma sample_path: "partialPath sample_service ''t1'' ''a.txt'' = sample_part"
  unfolding sample_part_def by code_simp

lemma sample_commit:
  assumes fs: "wFs w = wFs sample_arrived" and t: "tID t = ''t1''" "tConflictPolicy t = ConflictPrompt"
  shows "\<exists>u w'. commit_one sample_service t sample_file w = (Inr u, w')"
proof -
  let ?fs = "wFs sample_arrived"
  have sf: "fRelativePath sample_file = ''a.txt''" "\<not> fDirectory sample_file"
    "fDestinationPath sample_file = ''/data/a.txt''"
    by (simp_all add: sample_file_def)
  have at: "?fs sample_part = Some (NFile ''hello'')" "?fs ''/data/a.txt'' = None" "?fs ''/data'' = Some NDir"
    "?fs ''/'' = Some NDir"
    by (simp_all add: sample_arrived_def sample_part_def)
  have dir: "path_dir ''/data/a.txt'' = ''/data''" by code_simp
  have anc: "ancestors ''/data'' = [''/'', ''/data'']" by code_simp
  have mk: "os_mkdir_all ''/data'' ?fs = Inr ?fs" by (rule mkdir_all_existing) (simp add: anc at)
  have rn: "os_rename sample_part ''/data/a.txt'' ?fs = Inr (?fs(sample_part := None, ''/data/a.txt'' \<mapsto> NFile ''hello''))"
    by (simp add: os_rename_def at has_parent_def dir) (simp add: sample_part_def)
  show ?thesis
    using fs t by (simp add: commit_one_def or_fail_def tryE_def bindE_def seqE_def sf sample_path resolveConflict_def
        osE_def mapErrE_def commitFile_def quiet_fs_call mk rn os_lstat_def at dir)
qed

definition sample_verifying :: "time \<Rightarrow> transfer" where
  "sample_verifying n = (by_path (persist None sample_transfer))\<lparr>tStatus := StatusVerifying, tUpdatedAt := n\<rparr>"

lemma sample_begin:
  "\<exists>w0 n. begin_finalize sample_service ''t1'' ''token'' sample_arrived = (Inr (sample_verifying n), w0) \<and>
     wFs w0 = wFs sample_arrived \<and> ListChunks (wDb w0) ''t1'' = ListChunks (wDb sample_arrived) ''t1''"
proof -
  have "\<exists>w0. begin_finalize sample_service ''t1'' ''token'' sample_arrived =
      (Inr (sample_verifying (hNow sample_service (wTick (bump sample_arrived)))), w0) \<and>
     wFs w0 = wFs sample_arrived \<and> ListChunks (wDb w0) ''t1'' = ListChunks (wDb sample_arrived) ''t1''"
    by (simp add: begin_finalize_def receiving_session_def Get_def sample_id sample_arrived_db tokenMatches_iff
        bindE_def seqE_def Let_def call_runs sample_verifying_def)
  then show ?thesis by blast
qed

lemma sample_verifying_simps:
  "tID (sample_verifying n) = ''t1''" "tFiles (sample_verifying n) = [sample_file]"
  "tConflictPolicy (sample_verifying n) = ConflictPrompt" "tApproved (sample_verifying n)"
  "tDirection (sample_verifying n) = DirectionInbound" "tStatus (sample_verifying n) = StatusVerifying"
  using sample_files by (simp_all add: sample_verifying_def sample_transfer_def transfer_zero_def)

lemma sample_end:
  assumes fs: "wFs w0 = wFs sample_arrived"
    and chunks: "ListChunks (wDb w0) ''t1'' = ListChunks (wDb sample_arrived) ''t1''"
  shows "\<exists>t' w'. end_finalize sample_service (sample_verifying n) w0 = (Inr t', w')"
proof -
  let ?fs = "wFs sample_arrived"
  note f = sample_verifying_simps
  have sf: "fID sample_file = ''f1''" "fRelativePath sample_file = ''a.txt''" "\<not> fDirectory sample_file"
    "fSize sample_file = 5" "fChunkCount sample_file = 2" "fChecksum sample_file = hex_encode (pad32 ''hello'')"
    by (simp_all add: sample_file_def)
  have at: "?fs sample_part = Some (NFile ''hello'')" by (simp add: sample_arrived_def)
  have sha: "hex_encode (hSha256 sample_service c) = hex_encode (pad32 c)" for c by (simp add: sample_service_def)
  have "\<exists>u w2. verify_file sample_service (sample_verifying n) (ListChunks (wDb w0) ''t1'') sample_file (bump w0) =
      (Inr u, w2) \<and> wFs w2 = ?fs"
    using fs chunks by (simp add: verify_file_def or_fail_def tryE_def bindE_def seqE_def sf f sample_path sample_indices
        checksumFile_def osE_def mapErrE_def os_read_file_def at sha)
  then obtain u w2 where v: "verify_file sample_service (sample_verifying n) (ListChunks (wDb w0) ''t1'') sample_file (bump w0) = (Inr u, w2)"
      "wFs w2 = ?fs" by (elim exE conjE)
  obtain u' w3 where c: "commit_one sample_service (sample_verifying n) sample_file w2 = (Inr u', w3)"
    using sample_commit [OF v(2) f(1,3)] by blast
  have "\<exists>t' w'. finish sample_service s StatusCompleted [] EventCompleted w3 = (Inr t', w')" for s
    unfolding finish_def by (simp add: bindE_def seqE_def call_runs Let_def)
  then obtain t' w' where "finish sample_service ((sample_verifying n)\<lparr>tProgress := tSize (sample_verifying n)\<rparr>)
      StatusCompleted [] EventCompleted w3 = (Inr t', w')" by blast
  then have "end_finalize sample_service (sample_verifying n) w0 = (Inr t', w')"
    using v(1) c by (simp add: end_finalize_def f bindE_def seqE_def)
  then show ?thesis by blast
qed

lemma sample_finalized: "\<exists>t' w'. Finalize sample_service ''t1'' ''token'' sample_arrived = (Inr t', w')"
proof -
  obtain w0 n where b: "begin_finalize sample_service ''t1'' ''token'' sample_arrived = (Inr (sample_verifying n), w0)"
    "wFs w0 = wFs sample_arrived" "ListChunks (wDb w0) ''t1'' = ListChunks (wDb sample_arrived) ''t1''"
    using sample_begin by blast
  obtain t' w' where "end_finalize sample_service (sample_verifying n) w0 = (Inr t', w')"
    using sample_end [OF b(2,3)] by blast
  with b(1) have "Finalize sample_service ''t1'' ''token'' sample_arrived = (Inr t', w')"
    unfolding Finalize_def by (rule bindE_Inr [THEN trans])
  then show ?thesis by blast
qed


section \<open>A commit that stopped half-way\<close>

definition no_file :: "string \<Rightarrow> fsys \<Rightarrow> bool" where
  "no_file q fs \<longleftrightarrow> (\<forall>c. fs q \<noteq> Some (NFile c))"

lemma no_file_mkdir: "os_mkdir_all p fs = Inr fs' \<Longrightarrow> no_file q fs \<Longrightarrow> no_file q fs'"
  using mkdir_all_file by (auto simp: no_file_def)

lemma no_file_open: "os_open_create p fs = Inr fs' \<Longrightarrow> p \<noteq> q \<Longrightarrow> no_file q fs \<Longrightarrow> no_file q fs'"
  by (auto simp: no_file_def os_open_create_def split: option.splits node.splits if_splits)

lemma verify_file_absent:
  assumes "verify_file E t cs g w = (Inr u, w')" and "no_file q (wFs w)"
    and "fSize g = 0 \<Longrightarrow> partialPath E (tID t) (fRelativePath g) \<noteq> q"
  shows "no_file q (wFs w')"
proof (cases "fDirectory g")
  case True
  then show ?thesis using assms by (simp add: verify_file_def)
next
  case False
  let ?p = "partialPath E (tID t) (fRelativePath g)"
  from assms(1) False obtain x w2 where
    z: "(if fSize g = 0 then
             seqE (or_fail E t (osE (fs_call E (os_mkdir_all (path_dir ?p)))))
               (or_fail E t (osE (fs_call E (os_open_create ?p))))
           else retE ()) w = (Inr x, w2)" and
    c: "osE (checksumFile E ?p) w2 = (Inr (fChecksum g), w')"
    by (simp only: verify_file_def Let_def if_False)
      (elim seqE_InrE bindE_InrE or_fail_InrE guardE_InrE, simp only: not_not)
  have "no_file q (wFs w2)"
  proof (cases "fSize g = 0")
    case True
    with z obtain y w1 where "fs_call E (os_mkdir_all (path_dir ?p)) w = (Inr y, w1)"
        "fs_call E (os_open_create ?p) w1 = (Inr x, w2)"
      by (auto elim!: seqE_InrE or_fail_InrE osE_InrE)
    then show ?thesis
      using no_file_open [OF _ assms(3) [OF True] no_file_mkdir [OF _ assms(2)]] by (auto elim!: fs_call_InrE)
  qed (use z assms(2) in simp)
  then show ?thesis using c by (auto elim: checksum_InrE)
qed

lemma verify_all_absent:
  assumes "eachE (verify_file E t cs) fs w = (Inr u, w')" and "no_file q (wFs w)"
    and "\<forall>g \<in> set fs. fSize g = 0 \<longrightarrow> partialPath E (tID t) (fRelativePath g) \<noteq> q"
  shows "no_file q (wFs w')"
  using assms
proof (induction fs arbitrary: w)
  case (Cons g fs)
  then obtain x w1 where 1: "verify_file E t cs g w = (Inr x, w1)" "eachE (verify_file E t cs) fs w1 = (Inr u, w')"
    by (auto elim: seqE_InrE)
  have "no_file q (wFs w1)" using verify_file_absent [OF 1(1) Cons.prems(2)] Cons.prems(3) by simp
  from Cons.IH [OF 1(2) this] Cons.prems(3) show ?case by simp
qed simp

text \<open>C14: a commit that stopped half-way cannot be repeated. Committing a non-empty file moves
  its partial file away; from then on, as long as nothing writes that partial file again, no
  \<open>Finalize\<close> of that transfer succeeds, whatever the rest of the world looks like. So if a
  later file of the same transfer could not be committed, the retry that the failed state
  offers fails for ever: the recorded chunks tell the sender that there is nothing left to
  send.\<close>

theorem partial_commit_stuck:
  assumes "commit_one E t f w = (Inr u, w1)" and "\<not> fDirectory f" and "part_ok E t (wFs w) f"
    and "fSize f \<noteq> 0" and "separate E t [f]"
    and "wFs w2 (partialPath E (tID t) (fRelativePath f)) = wFs w1 (partialPath E (tID t) (fRelativePath f))"
    and "GetTransfer (wDb w2) (tID t) = Inr t2" and "f \<in> set (tFiles t2)"
    and "\<forall>g \<in> set (tFiles t2). partialPath E (tID t) (fRelativePath g) = partialPath E (tID t) (fRelativePath f) \<longrightarrow> g = f"
  shows "fst (Finalize E (tID t) token w2) \<noteq> Inr t'"
proof
  let ?P = "\<lambda>g. partialPath E (tID t) (fRelativePath g)"
  assume "fst (Finalize E (tID t) token w2) = Inr t'"
  then obtain w' where r: "Finalize E (tID t) token w2 = (Inr t', w')" by (rule run_fstE)
  have "wFs w1 (?P f) = None" using commit_step [OF assms(1-3), of "[]"] assms(5) by auto
  then have n: "no_file (?P f) (wFs w2)" using assms(6) by (simp add: no_file_def)
  from r obtain tv w0 where b: "begin_finalize E (tID t) token w2 = (Inr tv, w0)" and
    e: "end_finalize E tv w0 = (Inr t', w')"
    unfolding Finalize_def by (rule bindE_InrE)
  from b obtain t0 m where g: "GetTransfer (wDb w2) (tID t) = Inr t0"
      "tv = t0\<lparr>tStatus := StatusVerifying, tUpdatedAt := m\<rparr>" "wFs w0 = wFs w2"
    by (rule begin_finalize_InrE)
  have tv: "tFiles tv = tFiles t2" "tID tv = tID t"
    using g(1,2) assms(7) GetTransfer_id [OF assms(7)] by simp_all
  from e obtain w3 u1 w4 where "wFs w3 = wFs w0"
    and v: "eachE (verify_file E tv (ListChunks (wDb w0) (tID tv))) (tFiles tv) w3 = (Inr u1, w4)"
    by (rule end_finalize_Inr)
  moreover have "\<forall>g \<in> set (tFiles tv). fSize g = 0 \<longrightarrow> partialPath E (tID tv) (fRelativePath g) \<noteq> ?P f"
    using assms(4,9) tv by auto
  ultimately have "no_file (?P f) (wFs w4)" using verify_all_absent [OF v] n g(3) by simp
  moreover have "part_ok E tv (wFs w4) f" using verify_all [OF v] assms(2,8) tv by auto
  ultimately show False using tv(2) by (auto simp: part_ok_def no_file_def)
qed

theorem partial_commit_stuck_witness:
  "\<exists>u w1. commit_one sample_service (by_path (persist None sample_transfer)) sample_file sample_arrived = (Inr u, w1) \<and>
     (\<forall>t'. fst (Finalize sample_service ''t1'' ''token'' w1) \<noteq> Inr t')"
proof -
  let ?t = "by_path (persist None sample_transfer)"
  have t: "tID ?t = ''t1''" "tConflictPolicy ?t = ConflictPrompt"
    by (simp_all add: sample_transfer_def transfer_zero_def)
  obtain u w1 where c: "commit_one sample_service ?t sample_file sample_arrived = (Inr u, w1)"
    using sample_commit [OF refl t] by blast
  have f: "\<not> fDirectory sample_file" "fSize sample_file \<noteq> 0" "fRelativePath sample_file = ''a.txt''"
    "fChecksum sample_file = hex_encode (pad32 ''hello'')"
    by (simp_all add: sample_file_def)
  have ok: "part_ok sample_service ?t (wFs sample_arrived) sample_file"
    unfolding part_ok_def t(1) f(3,4) sample_path sample_checksum
    by (simp add: sample_arrived_def)
  have sep: "separate sample_service ?t [sample_file]"
    unfolding separate_def t(2) by simp
  have db: "GetTransfer (wDb w1) (tID ?t) = Inr ?t"
    using commit_one_Inr [OF c] f(1) sample_arrived_db t(1) by simp
  have m: "sample_file \<in> set (tFiles ?t)"
    "\<forall>g \<in> set (tFiles ?t). partialPath sample_service (tID ?t) (fRelativePath g) =
       partialPath sample_service (tID ?t) (fRelativePath sample_file) \<longrightarrow> g = sample_file"
    unfolding sample_files by simp_all
  have "fst (Finalize sample_service (tID ?t) ''token'' w1) \<noteq> Inr t'" for t'
    by (rule partial_commit_stuck [OF c f(1) ok f(2) sep refl db m])
  with c show ?thesis unfolding t(1) by blast
qed

end
