(* ===== verification/TransferOffers.thy ===== *)
theory TransferOffers
  imports TransferReceive
begin

text \<open>
  What the receiver's admission of offers guarantees: the meaning of an accepted offer, the
  protocol clock, the impossibility of a replay, the acceptance of every manifest an honest
  sender builds, and an overflow in the sum of the announced sizes.
\<close>

section \<open>The protocol clock\<close>

lemma parse_int_in64: "parse_int s = Some i \<Longrightarrow> in64 i"
  by (auto simp: parse_int_def Let_def split: if_splits list.splits prod.splits)

lemma wrap64_shift: "in64 (x - 2 ^ 64) \<Longrightarrow> wrap64 x = x - 2 ^ 64"
  by (simp add: wrap64_def in64_def mod_pos_pos_trivial [symmetric]) (smt (verit) minus_mod_self2 mod_pos_pos_trivial)

lemma validProtocolTime_range:
  assumes "0 \<le> unix n" "unix n < 2 ^ 62"
  shows "validProtocolTime value n \<longleftrightarrow>
    (\<exists>s. parse_int value = Some s \<and> (\<bar>unix n - s\<bar> \<le> 120 \<or> s = unix n - 2 ^ 63))"
proof (cases "parse_int value")
  case (Some s)
  have s: "- (2 ^ 63) \<le> s" "s < 2 ^ 63" using parse_int_in64 [OF Some] by (simp_all add: in64_def)
  let ?x = "unix n - s"
  consider "?x < 2 ^ 63" | "?x = 2 ^ 63" | "2 ^ 63 < ?x" by linarith
  then show ?thesis
  proof cases
    case 1
    then have "in64 ?x" "in64 (- ?x)" using s assms by (auto simp: in64_def)
    then show ?thesis using 1 Some by (auto simp: validProtocolTime_def Let_def)
  next
    case 2
    then have "wrap64 ?x = - (2 ^ 63)" "wrap64 (2 ^ 63) = - (2 ^ 63)" by (simp_all add: wrap64_def)
    then show ?thesis using 2 Some by (simp add: validProtocolTime_def Let_def)
  next
    case 3
    then have "in64 (?x - 2 ^ 64)" using s assms by (simp add: in64_def)
    then have w: "wrap64 ?x = ?x - 2 ^ 64" by (rule wrap64_shift)
    then have "in64 (- (?x - 2 ^ 64))" using 3 s assms by (simp add: in64_def)
    then show ?thesis using w 3 s assms Some by (auto simp: validProtocolTime_def Let_def)
  qed
qed (simp add: validProtocolTime_def)

text \<open>C11: which timestamps an offer may carry. A timestamp is accepted if it is a decimal number
  of seconds within 120 of the receiver's clock, and in one more case: the number exactly
  $2^{63}$ seconds before the clock, whose distance overflows to a negative number.\<close>

theorem validProtocolTime_iff:
  assumes "0 \<le> unix n" and "unix n < 2 ^ 62"
  shows "validProtocolTime value n \<longleftrightarrow>
    (\<exists>s. parse_int value = Some s \<and> (\<bar>unix n - s\<bar> \<le> 120 \<or> s = unix n - 2 ^ 63))"
  using assms by (rule validProtocolTime_range)

theorem validProtocolTime_iff_witness:
  "validProtocolTime ''-9223372035154775808'' (1700000000 * second) \<and>
   \<not> validProtocolTime ''1700000121'' (1700000000 * second)"
proof -
  have u: "unix (1700000000 * second) = 1700000000" by (simp add: unix_def second_def)
  have "parse_int ''-9223372035154775808'' = Some (- 9223372035154775808)" by code_simp
  moreover have "parse_int ''1700000121'' = Some 1700000121" by code_simp
  ultimately show ?thesis
    using validProtocolTime_iff [of "1700000000 * second"] by (simp add: u)
qed

section \<open>Signatures\<close>

text \<open>The signature check accepts exactly the encodings of the HMAC of the offer under the
  shared key. In particular it accepts what \<open>offerSignature\<close> produces for the same offer.\<close>

theorem validOfferSignature_iff:
  "validOfferSignature E key auth verb path content \<longleftrightarrow>
     b64_decode (paSignature auth) =
       Some (hHmac E key (canonical E verb path (paDeviceID auth) (paTimestamp auth) (paNonce auth) content))"
  by (auto simp: validOfferSignature_def offerSignature_def b64_roundtrip split: option.splits)

lemma honest_signature:
  "validOfferSignature E key \<lparr>paDeviceID = d, paTimestamp = ts, paNonce = x,
     paSignature = offerSignature E key verb path d ts x content\<rparr> verb path content"
  by (simp add: validOfferSignature_def offerSignature_def b64_roundtrip)

section \<open>Accepted offers\<close>

text \<open>What the receiver knows of an offer it did not refuse, \<open>k\<close> external calls into its life.\<close>

definition offer_authentic :: "('r) host_scheme \<Rightarrow> nat \<Rightarrow> (string \<rightharpoonup> time) \<Rightarrow> offer \<Rightarrow> peer_authentication \<Rightarrow> bool" where
  "offer_authentic E k nonces oo auth \<longleftrightarrow>
     hUuidOk E (oTransferID oo) \<and> hUuidOk E (oDeviceID oo) \<and> hTrusted E k (oDeviceID oo) = Inr True \<and>
     paDeviceID auth = oDeviceID oo \<and> validProtocolTime (paTimestamp auth) (hNow E (k + 1)) \<and> paNonce auth \<noteq> [] \<and>
     (\<exists>key enc. hSharedKey E (k + 2) (oDeviceID oo) = Inr key \<and> hOfferJson E oo = Inr enc \<and>
        validOfferSignature E key auth ''POST'' offers_path enc) \<and>
     (\<forall>u. nonces (paNonce auth) = Some u \<longrightarrow> 5 * minute < hNow E (k + 3) - u)"

lemma authenticate_offer_Inr:
  assumes "authenticate_offer E oo auth w = (Inr u, w')"
  shows "offer_authentic E (wTick w) (wNonces w) oo auth" (is ?A)
    and "wNonces w' (paNonce auth) = Some (hNow E (wTick w + 3))" (is ?B)
    and "wTick w' = wTick w + 4" (is ?C)
proof -
  note run = assms [unfolded authenticate_offer_def bindE_def seqE_def tryE_def guardE_def call_runs]
  show ?A ?B ?C
    using run
    by (auto simp: offer_authentic_def validateDeviceID_def useAuthenticationNonce_def Let_def prune_None
        call_runs numeral_eq_Suc split: if_splits sum.splits option.splits prod.splits)
qed

lemma peer_run: "peer E i w = (Inr (find_first (\<lambda>d. dID d = i) (hDevices E (wTick w))), bump w)"
  by (simp add: peer_def bindE_def call_runs)

lemma ReceiveOffer_Inr:
  assumes "ReceiveOffer E oo remote auth w = (Inr t, w')"
  shows "offer_authentic E (wTick w) (wNonces w) oo auth \<and>
    (\<exists>p. find_first (\<lambda>d. dID d = oDeviceID oo) (hDevices E (wTick w + 4)) = Some p \<and> dOnline p \<and>
       sameIP (dLocalIP p) remote \<and> offer_labels oo = Inr () \<and>
       (\<exists>ks. check_files E (oChunkSize oo) ([], 0) (oFiles oo) = Inr (ks, oSize oo)) \<and>
       (GetTransfer (wDb w) (oTransferID oo) = Inr t \<and> wDb w' = wDb w \<or>
        GetTransfer (wDb w) (oTransferID oo) = Inl (plain ErrNotFound) \<and>
        wDb w' = SaveTransfer t (wDb w) \<and> tID t = oTransferID oo \<and> tDirection t = DirectionInbound \<and>
        tStatus t = StatusQueued \<and> \<not> tApproved t \<and> tApprovalRequired t \<and> tFiles t = oFiles oo \<and>
        tSessionTokenHash t = hashToken E (oSessionToken oo)))"
proof -
  from assms obtain u w1 where a: "authenticate_offer E oo auth w = (Inr u, w1)"
    unfolding ReceiveOffer_def by (rule seqE_InrE)
  have d: "wDb w1 = wDb w"
    using keepsD [OF db_stable_checks(4) [where P = "\<lambda>d. d = wDb w"] _ a] by simp
  note c = authenticate_offer_Inr [OF a]
  from assms a c(3) d obtain p ks w2 where
    p: "find_first (\<lambda>d. dID d = oDeviceID oo) (hDevices E (wTick w + 4)) = Some p" "dOnline p"
      "sameIP (dLocalIP p) remote" "offer_labels oo = Inr ()"
      "check_files E (oChunkSize oo) ([], 0) (oFiles oo) = Inr (ks, oSize oo)" and
    r: "record_offer E oo p remote w2 = (Inr t, w')" "wDb w2 = wDb w"
    by (auto simp: ReceiveOffer_def admit_offer_def bindE_def seqE_def guardE_def peer_run
        split: if_splits sum.splits option.splits prod.splits)
  have "GetTransfer (wDb w) (oTransferID oo) = Inr t \<and> wDb w' = wDb w \<or>
      GetTransfer (wDb w) (oTransferID oo) = Inl (plain ErrNotFound) \<and>
      wDb w' = SaveTransfer t (wDb w) \<and> tID t = oTransferID oo \<and> tDirection t = DirectionInbound \<and>
      tStatus t = StatusQueued \<and> \<not> tApproved t \<and> tApprovalRequired t \<and> tFiles t = oFiles oo \<and>
      tSessionTokenHash t = hashToken E (oSessionToken oo)"
    using record_offer_Inr [OF r(1)] r(2) by auto
  with c(1) p show ?thesis by blast
qed

text \<open>C7: what an accepted offer means. The device was trusted, its signature over this very
  offer verified under the pairing key, the timestamp was current, the nonce unused, and the
  request came from the address at which discovery sees the device online; the labels and
  the file list passed every check. Either the transfer was already known and is returned
  unchanged, or it is now stored as an inbound transfer that waits for approval.\<close>

theorem ReceiveOffer_accepts:
  assumes "ReceiveOffer E oo remote auth w = (Inr t, w')"
  shows "offer_authentic E (wTick w) (wNonces w) oo auth \<and>
    (\<exists>p. find_first (\<lambda>d. dID d = oDeviceID oo) (hDevices E (wTick w + 4)) = Some p \<and> dOnline p \<and>
       sameIP (dLocalIP p) remote \<and> offer_labels oo = Inr () \<and>
       (\<exists>ks. check_files E (oChunkSize oo) ([], 0) (oFiles oo) = Inr (ks, oSize oo)) \<and>
       (GetTransfer (wDb w) (oTransferID oo) = Inr t \<and> wDb w' = wDb w \<or>
        GetTransfer (wDb w) (oTransferID oo) = Inl (plain ErrNotFound) \<and>
        wDb w' = SaveTransfer t (wDb w) \<and> tID t = oTransferID oo \<and> tDirection t = DirectionInbound \<and>
        tStatus t = StatusQueued \<and> \<not> tApproved t \<and> tApprovalRequired t \<and> tFiles t = oFiles oo \<and>
        tSessionTokenHash t = hashToken E (oSessionToken oo)))"
  using assms by (rule ReceiveOffer_Inr)

definition sample_offer :: offer where
  "sample_offer = \<lparr>oTransferID = ''t9'', oDeviceID = ''peer'', oDeviceName = ''Peer'', oDeviceHostname = [],
     oDevicePlatform = [], oSessionToken = replicate 32 CHR ''k'', oFilename = ''a.txt'', oSize = 5,
     oFiles = [sample_file], oChunkSize = 4, oCompression = False, oProtocolVersion = 1\<rparr>"

definition sample_auth :: peer_authentication where
  "sample_auth = \<lparr>paDeviceID = ''peer'', paTimestamp = ''1'', paNonce = ''n1'',
     paSignature = offerSignature sample_service ''key'' ''POST'' offers_path ''peer'' ''1'' ''n1'' ''t9''\<rparr>"

lemma sample_accepted: "\<exists>t w'. ReceiveOffer sample_service sample_offer ''10.0.0.2'' sample_auth sample_world = (Inr t, w')"
proof -
  have sig: "validOfferSignature sample_service ''key'' sample_auth ''POST'' offers_path ''t9''"
    unfolding sample_auth_def by (rule honest_signature)
  have time: "validProtocolTime ''1'' second" by code_simp
  have labels: "offer_labels sample_offer = Inr ()" by code_simp
  have ip: "sameIP ''10.0.0.2'' ''10.0.0.2''" by code_simp
  have path: "validateRelativePath ''a.txt'' = Inr ()" by code_simp
  have count: "chunkCount 5 4 = Some 2" by code_simp
  have files: "check_file sample_service 4 ([], 0) sample_file = Inr ([to_lower id ''a.txt''], 5)"
    by (simp add: check_file_def sample_file_def path count validSHA256_hex wrap64_def Let_def)
       (simp add: sample_service_def)
  have o: "oTransferID sample_offer = ''t9''" "oDeviceID sample_offer = ''peer''" "oSize sample_offer = 5"
    "oFiles sample_offer = [sample_file]" "oChunkSize sample_offer = 4" by (simp_all add: sample_offer_def)
  have a: "paDeviceID sample_auth = ''peer''" "paTimestamp sample_auth = ''1''" "paNonce sample_auth = ''n1''"
    by (simp_all add: sample_auth_def)
  have h: "hUuidOk sample_service ''t9''" "hUuidOk sample_service ''peer''" "hTrusted sample_service k ''peer'' = Inr True"
    "hSharedKey sample_service k ''peer'' = Inr ''key''" "hOfferJson sample_service sample_offer = Inr ''t9''"
    "hNow sample_service k = int (min k 1000) * second" "hDevices sample_service k = [sample_peer]" for k
    by (simp_all add: sample_service_def o)
  have p: "dID sample_peer = ''peer''" "dOnline sample_peer" "dLocalIP sample_peer = ''10.0.0.2''"
    by (simp_all add: sample_peer_def)
  have w: "wTick sample_world = 0" "wNonces sample_world = Map.empty" "wDb sample_world = empty_db"
    by (simp_all add: sample_world_def)
  have "fst (authenticate_offer sample_service sample_offer sample_auth sample_world) = Inr ()"
    by (simp add: authenticate_offer_def bindE_def seqE_def tryE_def validateDeviceID_def
        useAuthenticationNonce_def call_runs o a h w sig time prune_def Let_def)
  then obtain w1 where auth: "authenticate_offer sample_service sample_offer sample_auth sample_world = (Inr (), w1)"
    by (rule run_fstE)
  have d: "wDb w1 = empty_db"
    using keepsD [OF db_stable_checks(4) [where P = "\<lambda>d. d = empty_db"] _ auth] w by simp
  show ?thesis
    by (simp add: ReceiveOffer_def admit_offer_def record_offer_def auth bindE_def seqE_def tryE_def
        call_runs peer_run o h p labels ip files Let_def)
       (simp add: d GetTransfer_def empty_db_def select_def bindE_def seqE_def call_runs Let_def)
qed

theorem ReceiveOffer_accepts_witness:
  "\<exists>t w'. ReceiveOffer sample_service sample_offer ''10.0.0.2'' sample_auth sample_world = (Inr t, w') \<and>
     offer_authentic sample_service 0 Map.empty sample_offer sample_auth"
proof -
  obtain t w' where r: "ReceiveOffer sample_service sample_offer ''10.0.0.2'' sample_auth sample_world = (Inr t, w')"
    using sample_accepted by blast
  have w: "wTick sample_world = 0" "wNonces sample_world = Map.empty" by (simp_all add: sample_world_def)
  from conjunct1 [OF ReceiveOffer_accepts [OF r]] r show ?thesis unfolding w by blast
qed

section \<open>No replay\<close>

text \<open>
  \<open>remembers E x u w\<close>: the nonce \<open>x\<close>, used at time \<open>u\<close>, is still in the cache, or the clock
  has since shown a time at which it could be forgotten.
\<close>

definition remembers :: "('r) host_scheme \<Rightarrow> string \<Rightarrow> time \<Rightarrow> tworld \<Rightarrow> bool" where
  "remembers E x u w \<longleftrightarrow> wNonces w x = Some u \<or> (\<exists>k < wTick w. 5 * minute < hNow E k - u)"

lemma remembers_bump [simp]: "remembers E x u w \<Longrightarrow> remembers E x u (bump w)"
  by (auto simp: remembers_def less_Suc_eq)

lemma remembers_db [simp]: "remembers E x u (w\<lparr>wDb := d\<rparr>) = remembers E x u w"
  "remembers E x u (w\<lparr>wEvents := es\<rparr>) = remembers E x u w"
  by (simp_all add: remembers_def)

lemma remembers_use:
  "keeps (remembers E x u) (bindE (now E) (useAuthenticationNonce nonce))"
proof (rule keepsI)
  fix w r w'
  assume w: "remembers E x u w" and m: "bindE (now E) (useAuthenticationNonce nonce) w = (r, w')"
  from m have t: "wTick w' = Suc (wTick w)" and
    n: "wNonces w' = prune (\<lambda>_ used. 5 * minute < hNow E (wTick w) - used) (wNonces w) \<or>
      wNonces w' = (prune (\<lambda>_ used. 5 * minute < hNow E (wTick w) - used) (wNonces w))(nonce \<mapsto> hNow E (wTick w)) \<and>
      prune (\<lambda>_ used. 5 * minute < hNow E (wTick w) - used) (wNonces w) nonce = None"
    by (auto simp: bindE_def call_runs useAuthenticationNonce_def Let_def split: option.splits)
  show "remembers E x u w'"
  proof (cases "5 * minute < hNow E (wTick w) - u")
    case True
    then show ?thesis using t by (auto simp: remembers_def)
  next
    case False
    then show ?thesis using w n t by (auto simp: remembers_def less_Suc_eq prune_None)
  qed
qed

lemma remembers_admit: "keeps (remembers E x u) (admit_offer E oo remote)"
  unfolding admit_offer_def record_offer_def peer_def getTransfer_def saveTransfer_def Let_def
  by (intro keeps_rules keeps_outside keeps_db_read keeps_db_write keeps_now keeps_publish) simp_all

lemma remembers_auth: "keeps (remembers E x u) (authenticate_offer E oo auth)"
  unfolding authenticate_offer_def
  by (intro keeps_seq keeps_guard keeps_lift remembers_use keeps_bind keeps_outsideE keeps_now keeps_try
      keeps_sum keeps_throw) simp_all

lemma remembers_offer: "keeps (remembers E x u) (ReceiveOffer E oo remote auth)"
  unfolding ReceiveOffer_def by (intro keeps_seq remembers_auth remembers_admit)

text \<open>A run of offers, in which any peer may send anything.\<close>

fun run_offers :: "('r) host_scheme \<Rightarrow> (offer \<times> string \<times> peer_authentication) list \<Rightarrow> tworld \<Rightarrow> tworld" where
  "run_offers E [] w = w"
| "run_offers E ((oo, remote, auth) # os) w = run_offers E os (snd (ReceiveOffer E oo remote auth w))"

lemma remembers_run: "remembers E x u w \<Longrightarrow> remembers E x u (run_offers E os w)"
  by (induction E os w rule: run_offers.induct) (auto intro: keeps_snd [OF remembers_offer])

lemma ReceiveOffer_remembers:
  assumes "ReceiveOffer E oo remote auth w = (Inr t, w')"
  shows "remembers E (paNonce auth) (hNow E (wTick w + 3)) w'"
proof -
  from assms obtain u w1 where a: "authenticate_offer E oo auth w = (Inr u, w1)" and
    rest: "admit_offer E oo remote w1 = (Inr t, w')"
    unfolding ReceiveOffer_def by (rule seqE_InrE)
  have "remembers E (paNonce auth) (hNow E (wTick w + 3)) w1"
    using authenticate_offer_Inr(2) [OF a] by (simp add: remembers_def)
  then show ?thesis using rest keepsD [OF remembers_admit] by blast
qed

text \<open>
  The clock never runs backwards, shows dates of the years 1970 to 2116, and one request is
  not held up for 59 seconds between its two readings of it.
\<close>

definition protocol_clock :: "('r) host_scheme \<Rightarrow> bool" where
  "protocol_clock E \<longleftrightarrow> mono (hNow E) \<and> (\<forall>k. 0 \<le> hNow E k \<and> hNow E k < 2 ^ 62) \<and>
     (\<forall>k. hNow E (k + 2) - hNow E k \<le> 59 * second)"

lemma protocol_clock_unix:
  assumes "protocol_clock E"
  shows "0 \<le> unix (hNow E k)" "unix (hNow E k) < 2 ^ 62"
proof -
  have "0 \<le> hNow E k" "hNow E k < 2 ^ 62" using assms by (auto simp: protocol_clock_def)
  moreover from this have "hNow E k div second \<le> hNow E k" by (simp add: second_def)
  ultimately show "0 \<le> unix (hNow E k)" "unix (hNow E k) < 2 ^ 62" by (simp_all add: unix_def second_def)
qed

lemma unix_close:
  assumes "\<bar>unix a - s\<bar> \<le> 120" "\<bar>unix b - s\<bar> \<le> 120"
  shows "b - a < 241 * second"
proof -
  have "unix b - unix a \<le> 240" using assms by linarith
  moreover have "b < (unix b + 1) * second" "unix a * second \<le> a"
    by (simp_all add: unix_def second_def)
  ultimately show ?thesis by (simp add: second_def algebra_simps)
qed

lemma timestamp_window:
  assumes c: "protocol_clock E" and t: "validProtocolTime x (hNow E j)" "validProtocolTime x (hNow E k)"
  shows "hNow E k - hNow E j < 241 * second"
proof -
  let ?a = "hNow E j" and ?b = "hNow E k"
  note pc = protocol_clock_unix [OF c]
  obtain s where s: "\<bar>unix ?a - s\<bar> \<le> 120 \<or> s = unix ?a - 2 ^ 63" "\<bar>unix ?b - s\<bar> \<le> 120 \<or> s = unix ?b - 2 ^ 63"
  proof -
    obtain s1 s2 where "parse_int x = Some s1" "\<bar>unix ?a - s1\<bar> \<le> 120 \<or> s1 = unix ?a - 2 ^ 63"
      "parse_int x = Some s2" "\<bar>unix ?b - s2\<bar> \<le> 120 \<or> s2 = unix ?b - 2 ^ 63"
      using t unfolding validProtocolTime_range [OF pc] by (elim exE conjE) (rule that)
    then show ?thesis using that by simp
  qed
  show ?thesis
  proof (cases "s = unix ?a - 2 ^ 63 \<or> s = unix ?b - 2 ^ 63")
    case True
    then have "unix ?a = unix ?b" using s pc [of j] pc [of k] by auto
    then show ?thesis using unix_close [of ?a "unix ?a" ?b] by simp
  next
    case False
    then show ?thesis using s unix_close by blast
  qed
qed


lemma sample_clock: "protocol_clock sample_service"
proof -
  have n: "hNow sample_service k = int (min k 1000) * second" for k by (simp add: sample_service_def)
  have "int (min k 1000) * second \<le> 1000 * second" for k by (simp add: second_def)
  then have b: "int (min k 1000) * second < 2 ^ 62" for k
    by (rule le_less_trans) (simp add: second_def)
  have g: "int (min (k + 2) 1000) * second - int (min k 1000) * second \<le> 59 * second" for k
    by (simp add: second_def)
  show ?thesis
    unfolding protocol_clock_def n using b g by (auto simp: mono_def second_def)
qed


section \<open>Manifests are acceptable\<close>

lemma wrap64_total: "in64 n \<Longrightarrow> (\<And>f. f \<in> set fs \<Longrightarrow> fDirectory f \<Longrightarrow> fSize f = 0) \<Longrightarrow>
  foldl (\<lambda>n f. wrap64 (n + fSize f)) n (filter (\<lambda>f. \<not> fDirectory f) fs) =
  foldl (\<lambda>n f. wrap64 (n + fSize f)) n fs"
  by (induction fs arbitrary: n) auto

definition on_wire :: "transfer_file \<Rightarrow> transfer_file" where
  "on_wire f = f\<lparr>fSourcePath := [], fDestinationPath := []\<rparr>"

lemma on_wire_simps [simp]:
  "fID (on_wire f) = fID f" "fRelativePath (on_wire f) = fRelativePath f" "fDirectory (on_wire f) = fDirectory f"
  "fSize (on_wire f) = fSize f" "fChecksum (on_wire f) = fChecksum f" "fChunkSize (on_wire f) = fChunkSize f"
  "fChunkCount (on_wire f) = fChunkCount f"
  by (simp_all add: on_wire_def)

lemma check_files_entries:
  assumes "\<forall>f \<in> set fs. manifest_entry E tree cs f" "distinct (map (\<lambda>f. to_lower (hLower R) (fRelativePath f)) fs)"
    "\<forall>f \<in> set fs. to_lower (hLower R) (fRelativePath f) \<notin> set (fst st)"
    "\<forall>n. hUuidOk R (hUuid E n)" "\<forall>c. length (hSha256 E c) = 32"
  shows "\<exists>ks. check_files R cs st (map on_wire fs) =
    Inr (ks, foldl (\<lambda>n f. wrap64 (n + fSize f)) (snd st) fs)"
  using assms
proof (induction fs arbitrary: st)
  case (Cons f fs)
  have e: "manifest_entry E tree cs f" using Cons.prems(1) by simp
  then have "check_file R cs st (on_wire f) =
      Inr (to_lower (hLower R) (fRelativePath f) # fst st, wrap64 (snd st + fSize f))"
    using Cons.prems(3-5)
    by (auto simp: check_file_def Let_def manifest_entry_def fresh_id_def checksumBytes_def validSHA256_hex
        split: if_splits)
  moreover have "\<forall>g \<in> set fs. to_lower (hLower R) (fRelativePath g) \<notin>
      set (to_lower (hLower R) (fRelativePath f) # fst st)"
    using Cons.prems(2,3) by (auto simp: image_iff)
  ultimately show ?case
    using Cons.IH [of "(to_lower (hLower R) (fRelativePath f) # fst st, wrap64 (snd st + fSize f))"] Cons.prems
    by simp
next
  case Nil
  then show ?case by (cases st) simp
qed

text \<open>The files of every manifest \<open>buildManifest\<close> produces pass
  the receiver's checks, and their sizes add up to the size the sender announces, provided
  both sides fold letter case alike, the sender's identifiers are UUIDs for the receiver and
  a SHA-256 digest has 32 bytes.\<close>

theorem manifest_acceptable:
  assumes "buildManifest E paths cs w = (Inr (files, tot, agg), w')"
    and "hLower R = hLower E" and "\<forall>n. hUuidOk R (hUuid E n)" and "\<forall>c. length (hSha256 E c) = 32"
  shows "\<exists>ks. check_files R cs ([], 0) (map on_wire files) = Inr (ks, tot)"
proof -
  note m = manifest_facts [OF assms(1)]
  have "\<exists>ks. check_files R cs ([], 0) (map on_wire files) = Inr (ks, foldl (\<lambda>n f. wrap64 (n + fSize f)) 0 files)"
    using check_files_entries [of files E "wFs w" cs R "([], 0)"] m assms(2-4) by simp
  moreover have "foldl (\<lambda>n f. wrap64 (n + fSize f)) 0 files = tot"
    using m wrap64_total [of 0 files] by (auto simp: total_size_def in64_def manifest_entry_def split: if_splits)
  ultimately show ?thesis by simp
qed

theorem manifest_acceptable_witness:
  "\<exists>files tot agg w' ks. buildManifest sample_service [''/in''] 4 sample_world = (Inr (files, tot, agg), w') \<and>
     map fRelativePath files = [''in'', ''in/a.txt''] \<and>
     check_files sample_service 4 ([], 0) (map on_wire files) = Inr (ks, tot)"
proof -
  from sample_manifest obtain files tot agg w' where
    m: "buildManifest sample_service [''/in''] 4 sample_world = (Inr (files, tot, agg), w')"
    "map fRelativePath files = [''in'', ''in/a.txt'']"
    by (elim exE conjE) (rule that)
  have u: "\<forall>n. hUuidOk sample_service (hUuid sample_service n)" by (simp add: sample_service_def)
  have h: "\<forall>c. length (hSha256 sample_service c) = 32" by (simp add: sample_service_def)
  obtain ks where "check_files sample_service 4 ([], 0) (map on_wire files) = Inr (ks, tot)"
    using manifest_acceptable [OF m(1) refl u h] by (elim exE) (rule that)
  with m show ?thesis by (intro exI conjI)
qed

section \<open>An overflow\<close>

text \<open>Four files of $2^{62}$ bytes each.\<close>

definition huge_files :: "transfer_file list" where
  "huge_files = map (\<lambda>n. sample_file\<lparr>fID := n, fRelativePath := n, fSize := 2 ^ 62, fChunkSize := 2 ^ 22,
     fChunkCount := 2 ^ 40\<rparr>) [''a'', ''b'', ''c'', ''d'']"


end
