(* ===== verification/TransferLifecycle.thy ===== *)
theory TransferLifecycle
  imports TransferControl TransferDelivery TransferOffers
begin

text \<open>
  The life of a transfer as an abstract state machine, and the proof that every operation of
  the service follows it: \<open>transition\<close> is the machine over approval and status, \<open>legal\<close> says
  that a saved record is a step of it, and \<open>db_move\<close> is a step of the tables.
\<close>

section \<open>The state machine\<close>

inductive transition :: "direction \<Rightarrow> bool \<times> status \<Rightarrow> bool \<times> status \<Rightarrow> bool" for dir where
  accept: "dir = DirectionInbound \<Longrightarrow> transition dir (a, StatusQueued) (True, StatusReceiving)"
| cancel: "s \<noteq> StatusCompleted \<Longrightarrow> s \<noteq> StatusCancelled \<Longrightarrow> transition dir (a, s) (a, StatusCancelled)"
| pause: "pausable s \<Longrightarrow> transition dir (a, s) (a, StatusPaused)"
| resume_in: "dir = DirectionInbound \<Longrightarrow> transition dir (a, StatusPaused) (a, StatusReceiving)"
| resume_out: "dir = DirectionOutbound \<Longrightarrow> transition dir (a, StatusPaused) (a, StatusResuming)"
| retry: "dir = DirectionOutbound \<or> \<not> a \<Longrightarrow> transition dir (a, StatusFailed) (a, StatusQueued)"
| retry_in: "dir = DirectionInbound \<Longrightarrow> transition dir (True, StatusFailed) (True, StatusReceiving)"
| progress: "transition dir (a, s) (a, s)"
| verify: "s \<in> {StatusReceiving, StatusResuming} \<Longrightarrow> transition dir (True, s) (True, StatusVerifying)"
| complete: "transition dir (True, StatusVerifying) (True, StatusCompleted)"
| fail: "transition dir (True, StatusVerifying) (True, StatusFailed)"
| restart_out: "dir = DirectionOutbound \<Longrightarrow> in_flight s \<Longrightarrow> transition dir (a, s) (a, StatusQueued)"
| restart_in: "dir = DirectionInbound \<Longrightarrow> transition dir (a, StatusVerifying) (a, StatusReceiving)"

inductive_cases transition_completedE: "transition dir (a, StatusCompleted) q"
inductive_cases transition_cancelledE: "transition dir (a, StatusCancelled) q"
inductive_cases transition_queuedE: "transition dir (a, StatusQueued) q"

text \<open>A transfer starts queued, approved exactly when it is outbound, and never changes sides.\<close>

definition legal :: "transfer option \<Rightarrow> transfer \<Rightarrow> bool" where
  "legal old t \<longleftrightarrow>
     (case old of
        None \<Rightarrow> tStatus t = StatusQueued \<and> (tApproved t \<longleftrightarrow> tDirection t = DirectionOutbound)
      | Some t0 \<Rightarrow> tDirection t = tDirection t0 \<and> tDeviceID t = tDeviceID t0 \<and>
          transition (tDirection t0) (tApproved t0, tStatus t0) (tApproved t, tStatus t))"

text \<open>\<open>db_step\<close>: a transfer or a chunk is saved; \<open>db_move\<close> adds the deletion of the history.\<close>

inductive db_step :: "tdb \<Rightarrow> tdb \<Rightarrow> bool" where
  save: "legal (lookup d (tID t)) t \<Longrightarrow> db_step d (SaveTransfer t d)"
| chunk: "db_step d (SaveChunk c d)"

inductive db_move :: "tdb \<Rightarrow> tdb \<Rightarrow> bool" where
  step: "db_step d d' \<Longrightarrow> db_move d d'"
| purge: "db_move d (DeleteHistory d)"

lemma db_step_inv: "db_step d d' \<Longrightarrow> db_inv d \<Longrightarrow> db_inv d'"
  by (induction rule: db_step.induct) (simp_all add: db_inv_save db_inv_chunk)

lemma db_steps_inv: "db_step\<^sup>*\<^sup>* d d' \<Longrightarrow> db_inv d \<Longrightarrow> db_inv d'"
  by (induction rule: rtranclp_induct) (auto intro: db_step_inv)

lemma db_steps_moves: "db_step\<^sup>*\<^sup>* d d' \<Longrightarrow> db_move\<^sup>*\<^sup>* d d'"
  by (rule rtranclp_mono [THEN predicate2D]) (auto intro: db_move.step)

lemma db_moves_inv: "db_move\<^sup>*\<^sup>* d d' \<Longrightarrow> db_inv d \<Longrightarrow> db_inv d'"
  by (induction rule: rtranclp_induct) (auto elim!: db_move.cases intro: db_step_inv db_inv_purge)

section \<open>A logic of saves\<close>

text \<open>
  \<open>saves_on d K m\<close>: from a world whose tables are \<open>d\<close>, the computation \<open>m\<close>, whether it returns a
  value or an error, leaves the tables alone or saves one transfer, with \<open>K\<close>.
\<close>

definition saves_on :: "tdb \<Rightarrow> (transfer \<Rightarrow> bool) \<Rightarrow> (tworld, 'e, 'a) gom \<Rightarrow> bool" where
  "saves_on d K m \<longleftrightarrow> (\<forall>w r w'. wDb w = d \<longrightarrow> m w = (r, w') \<longrightarrow>
     wDb w' = d \<or> (\<exists>t. wDb w' = SaveTransfer t d \<and> K t))"

named_theorems saves_rules

lemma saves_onD: "saves_on d K m \<Longrightarrow> wDb w = d \<Longrightarrow> m w = (r, w') \<Longrightarrow>
    wDb w' = d \<or> (\<exists>t. wDb w' = SaveTransfer t d \<and> K t)"
  unfolding saves_on_def by blast

lemma stable_db:
  assumes "\<And>P. keeps (\<lambda>w. P (wDb w)) m" "m w = (r, w')"
  shows "wDb w' = wDb w"
  using keepsD [OF assms(1) [of "\<lambda>d. d = wDb w"] refl assms(2)] .

lemma saves_stable: "(\<And>P. keeps (\<lambda>w. P (wDb w)) m) \<Longrightarrow> saves_on d K m"
  unfolding saves_on_def using stable_db by blast

lemma saves_base [saves_rules]:
  "saves_on d K (retE a)" "saves_on d K (throwE e)" "saves_on d K (guardE b e)" "saves_on d K (liftE r)"
  by (auto simp: saves_on_def guardE_def)

lemma saves_bind:
  assumes "\<And>P. keeps (\<lambda>w. P (wDb w)) m" "\<And>a. saves_on d K (f a)"
  shows "saves_on d K (bindE m f)"
  unfolding saves_on_def
proof (intro allI impI)
  fix w r w' assume w: "wDb w = d" "bindE m f w = (r, w')"
  obtain r1 w1 where 1: "m w = (r1, w1)" by (cases "m w")
  have d: "wDb w1 = d" using stable_db [OF assms(1) 1] w(1) by simp
  show "wDb w' = d \<or> (\<exists>t. wDb w' = SaveTransfer t d \<and> K t)"
  proof (cases r1)
    case (Inl e)
    then show ?thesis using 1 d w(2) by (simp add: bindE_def)
  next
    case (Inr a)
    then show ?thesis using 1 d w(2) saves_onD [OF assms(2)] by (simp add: bindE_def)
  qed
qed

lemma saves_seq:
  "(\<And>P. keeps (\<lambda>w. P (wDb w)) m) \<Longrightarrow> saves_on d K n \<Longrightarrow> saves_on d K (seqE m n)"
  unfolding seqE_def by (rule saves_bind)

lemma saves_get [saves_rules]:
  assumes "\<And>t. GetTransfer d i = Inr t \<Longrightarrow> saves_on d K (f t)"
  shows "saves_on d K (bindE (getTransfer E i) f)"
  unfolding saves_on_def
proof (intro allI impI)
  fix w r w' assume w: "wDb w = d" "bindE (getTransfer E i) f w = (r, w')"
  show "wDb w' = d \<or> (\<exists>t. wDb w' = SaveTransfer t d \<and> K t)"
  proof (cases "hFault E (wTick w) = None \<and> (\<exists>t. GetTransfer d i = Inr t)")
    case True
    then obtain t where t: "GetTransfer d i = Inr t" "f t (bump w) = (r, w')"
      using w by (auto simp: bindE_def getTransfer_def db_read_def)
    then show ?thesis using saves_onD [OF assms [OF t(1)] _ t(2)] w(1) by simp
  next
    case False
    then show ?thesis using w
      by (auto simp: bindE_def getTransfer_def db_read_def split: option.splits sum.splits)
  qed
qed

lemma saves_Get [saves_rules]:
  assumes "\<And>t. GetTransfer d i = Inr t \<Longrightarrow> saves_on d K (f t)"
  shows "saves_on d K (bindE (Get E i) f)"
  using saves_get [OF assms, where E = E] unfolding saves_on_def
  by (auto simp: bindE_def seqE_def guardE_def Get_def split: if_splits)

lemma saves_guard [saves_rules]:
  "(\<not> b \<Longrightarrow> saves_on d K n) \<Longrightarrow> saves_on d K (seqE (guardE b e) n)"
  by (auto simp: saves_on_def seqE_def bindE_def guardE_def)

lemma saves_save [saves_rules]:
  assumes "K t" "\<And>P. keeps (\<lambda>w. P (wDb w)) n"
  shows "saves_on d K (seqE (saveTransfer E t) n)"
  unfolding saves_on_def
proof (intro allI impI)
  fix w r w' assume w: "wDb w = d" "seqE (saveTransfer E t) n w = (r, w')"
  show "wDb w' = d \<or> (\<exists>t. wDb w' = SaveTransfer t d \<and> K t)"
  proof (cases "hFault E (wTick w)")
    case (Some e)
    then show ?thesis using w by (auto simp: seqE_def bindE_def saveTransfer_def db_write_def)
  next
    case None
    then have n: "n ((bump w)\<lparr>wDb := SaveTransfer t d\<rparr>) = (r, w')"
      using w by (simp add: seqE_def bindE_def saveTransfer_def db_write_def)
    have "wDb w' = SaveTransfer t d" using stable_db [OF assms(2) n] by simp
    then show ?thesis using assms(1) by blast
  qed
qed

lemma saves_last [saves_rules]: "K t \<Longrightarrow> saves_on d K (saveTransfer E t)"
  by (auto simp: saves_on_def saveTransfer_def db_write_def split: option.splits)

lemma saves_if [saves_rules]:
  "(b \<Longrightarrow> saves_on d K m) \<Longrightarrow> (\<not> b \<Longrightarrow> saves_on d K n) \<Longrightarrow> saves_on d K (if b then m else n)"
  by simp

lemma saves_option [saves_rules]:
  "saves_on d K m \<Longrightarrow> (\<And>x. saves_on d K (f x)) \<Longrightarrow> saves_on d K (case v of None \<Rightarrow> m | Some x \<Rightarrow> f x)"
  by (cases v) simp_all

lemma saves_sum [saves_rules]:
  "(\<And>e. saves_on d K (g e)) \<Longrightarrow> (\<And>x. saves_on d K (f x)) \<Longrightarrow>
   saves_on d K (case v of Inl e \<Rightarrow> g e | Inr x \<Rightarrow> f x)"
  by (cases v) simp_all

lemma saves_mono: "saves_on d K m \<Longrightarrow> (\<And>t. K t \<Longrightarrow> L t) \<Longrightarrow> saves_on d L m"
  unfolding saves_on_def by blast

text \<open>After the first save nothing but reads follows; a saving computation may come first as well.\<close>

lemma saves_then:
  assumes "saves_on d K m" "\<And>a P. keeps (\<lambda>w. P (wDb w)) (f a)"
  shows "saves_on d K (bindE m f)"
  unfolding saves_on_def
proof (intro allI impI)
  fix w r w' assume w: "wDb w = d" "bindE m f w = (r, w')"
  obtain r1 w1 where 1: "m w = (r1, w1)" by (cases "m w")
  have "wDb w' = wDb w1"
  proof (cases r1)
    case (Inl e)
    then show ?thesis using 1 w(2) by (simp add: bindE_def)
  next
    case (Inr a)
    then have "f a w1 = (r, w')" using 1 w(2) by (simp add: bindE_def)
    then show ?thesis using stable_db [OF assms(2)] by blast
  qed
  then show "wDb w' = d \<or> (\<exists>t. wDb w' = SaveTransfer t d \<and> K t)"
    using saves_onD [OF assms(1) w(1) 1] by simp
qed

lemma saves_try: "saves_on d K m \<Longrightarrow> saves_on d K (tryE m)"
  by (auto simp: saves_on_def tryE_def split: prod.splits)

lemma saves_moves:
  assumes "saves_on (wDb w) (\<lambda>t. legal (lookup (wDb w) (tID t)) t) m" "m w = (r, w')"
  shows "db_step\<^sup>*\<^sup>* (wDb w) (wDb w')"
  using saves_onD [OF assms(1) refl assms(2)] db_step.save by auto

section \<open>Every operation is a step of the machine\<close>

lemma legal_get:
  assumes "GetTransfer d i = Inr t" and "tID t' = tID t" "tDirection t' = tDirection t" "tDeviceID t' = tDeviceID t"
    and "transition (tDirection t) (tApproved t, tStatus t) (tApproved t', tStatus t')"
  shows "legal (lookup d (tID t')) t'"
proof -
  from assms(1) obtain t0 where "lookup d i = Some t0" "t = by_path t0"
    by (auto simp: GetTransfer_lookup split: option.splits)
  moreover from this have "tID t = i" using lookup_id by simp
  ultimately show ?thesis using assms(2-) by (simp add: legal_def)
qed

abbreviation follows :: "tdb \<Rightarrow> (tworld, 'e, 'a) gom \<Rightarrow> bool" where
  "follows d m \<equiv> saves_on d (\<lambda>t. legal (lookup d (tID t)) t) m"

lemma db_stable_control [db_stable]:
  "keeps (\<lambda>w. P (wDb w)) (cancel_active i)"
  "keeps (\<lambda>w. P (wDb w)) (queue_path E path)"
  "keeps (\<lambda>w. P (wDb w)) (queue_peer E rq)"
  "keeps (\<lambda>w. P (wDb w)) (ctx_err E ctx)"
  "keeps (\<lambda>w. P (wDb w)) (modE (\<lambda>w. w\<lparr>wIdentity := f w\<rparr>))"
proof -
  show "keeps (\<lambda>w. P (wDb w)) (cancel_active i)"
    unfolding cancel_active_def by (rule keeps_mod) (simp split: option.splits)
  show "keeps (\<lambda>w. P (wDb w)) (queue_path E path)"
    unfolding queue_path_def by (intro keeps_rules db_stable)
  show "keeps (\<lambda>w. P (wDb w)) (queue_peer E rq)"
    unfolding queue_peer_def by (intro keeps_rules db_stable)
  show "keeps (\<lambda>w. P (wDb w)) (ctx_err E ctx)"
    by (auto simp: keeps_def ctx_err_def)
  show "keeps (\<lambda>w. P (wDb w)) (modE (\<lambda>w. w\<lparr>wIdentity := f w\<rparr>))"
    by (rule keeps_mod) simp
qed

lemma saves_finish:
  "(\<And>n. K (finished t s msg n)) \<Longrightarrow> saves_on d K (finish E t s msg k)"
  unfolding finish_def Let_def
  by (rule saves_rules saves_bind saves_seq keeps_rules db_stable | assumption)+

lemmas follows_rules = saves_rules saves_bind saves_seq keeps_rules db_stable saves_finish

lemma not_inbound: "dir \<noteq> DirectionInbound \<longleftrightarrow> dir = DirectionOutbound"
  by (cases dir) simp_all

lemma follows_Pause: "follows d (Pause E i)"
  unfolding Pause_def
  by (rule follows_rules | (rule legal_get, assumption, simp, simp, simp, simp add: transition.pause))+

lemma follows_Resume: "follows d (Resume E i)"
  unfolding Resume_def
  by (rule follows_rules
    | (rule legal_get, assumption, simp, simp, simp, simp add: not_inbound transition.resume_in transition.resume_out))+

lemma follows_Retry: "follows d (Retry E i)"
  unfolding Retry_def
  by (rule follows_rules
    | (rule legal_get, assumption, simp, simp, simp, simp add: not_inbound transition.retry transition.retry_in))+

lemma finished_keeps_simps [simp]:
  "tID (finished t s msg n) = tID t" "tDirection (finished t s msg n) = tDirection t"
  "tDeviceID (finished t s msg n) = tDeviceID t" "tApproved (finished t s msg n) = tApproved t"
  "tStatus (finished t s msg n) = s"
  by (simp_all add: finished_def)

lemma follows_Reject: "follows d (Reject E i)"
  unfolding Reject_def
  by (rule follows_rules | (rule legal_get, assumption, simp, simp, simp, simp add: transition.cancel))+

lemma follows_ProtocolCancel: "follows d (ProtocolCancel E i token)"
  unfolding ProtocolCancel_def
  by (rule follows_rules | (rule legal_get, assumption, simp, simp, simp, simp add: transition.cancel))+

lemma db_stable_remote [db_stable]: "keeps (\<lambda>w. P (wDb w)) (cancel_remote E t)"
  unfolding cancel_remote_def by (intro keeps_rules db_stable)

lemma follows_Cancel: "follows d (Cancel E i)"
  unfolding Cancel_def
  by (rule saves_guard saves_seq saves_Get saves_then saves_finish keeps_rules db_stable
    | (rule legal_get, assumption, simp, simp, simp, simp add: transition.cancel))+

lemma saves_tryget:
  assumes "\<And>t. GetTransfer d i = Inr t \<Longrightarrow> saves_on d K (f (Inr t))"
    and "\<And>e. env_error e \<or> GetTransfer d i = Inl e \<Longrightarrow> saves_on d K (f (Inl e))"
  shows "saves_on d K (bindE (tryE (getTransfer E i)) f)"
  unfolding saves_on_def
proof (intro allI impI)
  fix w r w' assume w: "wDb w = d" "bindE (tryE (getTransfer E i)) f w = (r, w')"
  obtain g w1 where g: "getTransfer E i w = (g, w1)" by (cases "getTransfer E i w")
  then have f: "f g w1 = (r, w')" using w(2) by (simp add: bindE_def tryE_def)
  have d: "wDb w1 = d" using stable_db [OF db_stable_calls(6) g] w(1) by simp
  have "saves_on d K (f g)"
  proof (cases g)
    case (Inl e)
    then show ?thesis using assms(2) g w(1)
      by (auto simp: getTransfer_def db_read_def split: option.splits)
  next
    case (Inr t)
    then show ?thesis using assms(1) g w(1) by (auto elim: getTransfer_InrE)
  qed
  from saves_onD [OF this d f] show "wDb w' = d \<or> (\<exists>t. wDb w' = SaveTransfer t d \<and> K t)" .
qed

lemma GetTransfer_Inl: "GetTransfer d i = Inl e \<Longrightarrow> lookup d i = None"
  by (simp add: GetTransfer_lookup split: option.splits)

lemma follows_record_offer: "follows d (record_offer E oo p remote)"
  unfolding record_offer_def Let_def sum.case
  by (rule saves_tryget saves_guard saves_bind saves_seq saves_save saves_base keeps_rules db_stable
    | (simp add: legal_def GetTransfer_Inl env_error_def split: option.splits; fail)
    | simp only: sum.case)+

lemma follows_ReceiveOffer: "follows d (ReceiveOffer E oo remote auth)"
  unfolding ReceiveOffer_def admit_offer_def
  by (rule follows_record_offer saves_guard saves_seq saves_option saves_base saves_bind keeps_rules db_stable)+

lemma accepted_simps [simp]:
  "tID (accepted t root policy fs n) = tID t" "tDirection (accepted t root policy fs n) = tDirection t"
  "tDeviceID (accepted t root policy fs n) = tDeviceID t" "tApproved (accepted t root policy fs n)"
  "tStatus (accepted t root policy fs n) = StatusReceiving" "tFiles (accepted t root policy fs n) = fs"
  "tConflictPolicy (accepted t root policy fs n) = policy"
  by (simp_all add: accepted_def)

lemma follows_Accept: "follows d (Accept E i rq)"
  unfolding Accept_def Let_def
  by (rule follows_rules | (rule legal_get, assumption, simp, simp, simp, simp add: transition.accept))+

lemma refreshed_device [simp]: "tDeviceID (refreshed E t cs n) = tDeviceID t"
  by (simp add: refreshed_def Let_def)

lemma follows_refreshProgress: "follows d (refreshProgress E t n)"
  unfolding refreshProgress_def Let_def
  by (rule follows_rules | (rule legal_get, assumption, simp, simp, simp, simp add: transition.progress))+

section \<open>Operations of several saves\<close>

lemma saves_value:
  assumes "\<And>P. keeps (\<lambda>w. P (wDb w)) m"
    and "\<And>w a w'. m w = (Inr a, w') \<Longrightarrow> wDb w = d \<Longrightarrow> saves_on d K (f a)"
  shows "saves_on d K (bindE m f)"
  unfolding saves_on_def
proof (intro allI impI)
  fix w r w' assume w: "wDb w = d" "bindE m f w = (r, w')"
  obtain r1 w1 where 1: "m w = (r1, w1)" by (cases "m w")
  have d: "wDb w1 = d" using stable_db [OF assms(1) 1] w(1) by simp
  show "wDb w' = d \<or> (\<exists>t. wDb w' = SaveTransfer t d \<and> K t)"
  proof (cases r1)
    case (Inl e)
    then show ?thesis using 1 d w(2) by (simp add: bindE_def)
  next
    case (Inr a)
    then have "f a w1 = (r, w')" using 1 w(2) by (simp add: bindE_def)
    then show ?thesis using saves_onD [OF assms(2) d] 1 Inr w(1) by blast
  qed
qed

lemma follows_begin_finalize: "follows d (begin_finalize E i token)"
  unfolding begin_finalize_def Let_def
proof (rule saves_value)
  show "keeps (\<lambda>w. P (wDb w)) (receiving_session E i token)" for P by (rule db_stable)
  fix w t w' assume "receiving_session E i token w = (Inr t, w')" "wDb w = d"
  then have g: "GetTransfer d i = Inr t" "tApproved t" "tStatus t \<in> {StatusReceiving, StatusResuming}"
    by (auto elim: receiving_session_InrE)
  have "legal (lookup d (tID t')) t'" if "t' = t\<lparr>tStatus := StatusVerifying, tUpdatedAt := n\<rparr>" for t' n
    using g by (intro legal_get [OF g(1)]) (auto simp: that intro: transition.verify)
  then show "follows d (bindE (now E) (\<lambda>n. seqE (saveTransfer E (t\<lparr>tStatus := StatusVerifying, tUpdatedAt := n\<rparr>))
      (seqE (logAndPublish E EventVerification (t\<lparr>tStatus := StatusVerifying, tUpdatedAt := n\<rparr>))
        (retE (t\<lparr>tStatus := StatusVerifying, tUpdatedAt := n\<rparr>)))))"
    by (intro saves_bind db_stable saves_save keeps_rules) blast
qed

lemma saves_bind_ok:
  assumes "saves_on d K m" "\<And>w a w'. m w = (Inr a, w') \<Longrightarrow> wDb w' = wDb w" "\<And>a. saves_on d K (f a)"
  shows "saves_on d K (bindE m f)"
  unfolding saves_on_def
proof (intro allI impI)
  fix w r w' assume w: "wDb w = d" "bindE m f w = (r, w')"
  obtain r1 w1 where 1: "m w = (r1, w1)" by (cases "m w")
  show "wDb w' = d \<or> (\<exists>t. wDb w' = SaveTransfer t d \<and> K t)"
  proof (cases r1)
    case (Inl e)
    then show ?thesis using 1 w saves_onD [OF assms(1) w(1) 1] by (simp add: bindE_def)
  next
    case (Inr a)
    then have "f a w1 = (r, w')" "wDb w1 = d" using 1 w assms(2) by (auto simp: bindE_def)
    then show ?thesis using saves_onD [OF assms(3)] by blast
  qed
qed

lemma saves_seq_ok:
  "saves_on d K m \<Longrightarrow> (\<And>w a w'. m w = (Inr a, w') \<Longrightarrow> wDb w' = wDb w) \<Longrightarrow> saves_on d K n \<Longrightarrow>
   saves_on d K (seqE m n)"
  unfolding seqE_def by (rule saves_bind_ok)

lemma saves_each_ok:
  "(\<And>x. saves_on d K (f x)) \<Longrightarrow> (\<And>x w a w'. f x w = (Inr a, w') \<Longrightarrow> wDb w' = wDb w) \<Longrightarrow>
   saves_on d K (eachE f xs)"
  by (induction xs) (auto intro!: saves_seq_ok saves_base)

lemma saves_fail: "(\<And>msg n. K (finished t StatusFailed msg n)) \<Longrightarrow> saves_on d K (fail E t e)"
  unfolding fail_def seqE_def by (intro saves_then saves_finish keeps_rules) blast

lemma saves_or_fail:
  assumes "\<And>P. keeps (\<lambda>w. P (wDb w)) m" "\<And>msg n. K (finished t StatusFailed msg n)"
  shows "saves_on d K (or_fail E t m)"
  unfolding or_fail_def
  by (intro saves_bind keeps_try assms(1) saves_sum saves_fail assms(2) saves_base)

lemma or_fail_ok:
  assumes "\<And>P. keeps (\<lambda>w. P (wDb w)) m" "or_fail E t m w = (Inr a, w')"
  shows "wDb w' = wDb w"
  using assms(2) by (rule or_fail_InrE) (rule stable_db [OF assms(1)])

lemma saves_verify:
  assumes K: "\<And>msg n. K (finished t StatusFailed msg n)"
  shows "saves_on d K (verify_file E t cs f)"
proof -
  let ?p = "partialPath E (tID t) (fRelativePath f)"
  have os: "keeps (\<lambda>w. P (wDb w)) (osE (fs_call E g))" "keeps (\<lambda>w. P (wDb w)) (osE (checksumFile E ?p))" for P g
    by (intro keeps_osE db_stable)+
  have z: "saves_on d K (if fSize f = 0 then
      seqE (or_fail E t (osE (fs_call E (os_mkdir_all (path_dir ?p))))) (or_fail E t (osE (fs_call E (os_open_create ?p))))
      else retE ())"
    by (intro saves_if saves_seq_ok saves_or_fail os K or_fail_ok saves_base) (assumption | rule os)+
  have zi: "wDb w' = wDb w" if "(if fSize f = 0 then
      seqE (or_fail E t (osE (fs_call E (os_mkdir_all (path_dir ?p))))) (or_fail E t (osE (fs_call E (os_open_create ?p))))
      else retE ()) w = (Inr a, w')" for w a w'
    using that by (auto split: if_splits elim!: seqE_InrE dest!: or_fail_ok [OF os(1)])
  have c: "saves_on d K (bindE (or_fail E t (osE (checksumFile E ?p))) (\<lambda>checksum.
      or_fail E t (guardE (checksum \<noteq> fChecksum f) (wrapped ErrChecksumMismatch (fRelativePath f)))))"
    by (intro saves_bind_ok saves_or_fail os K keeps_rules or_fail_ok) (assumption | rule os)+
  have g: "saves_on d K (or_fail E t (guardE b e) :: unit tm)" for b e by (intro saves_or_fail K keeps_rules)
  have gi: "wDb w' = wDb w" if "or_fail E t (guardE b e) w = (Inr a, w')" for b e w a w'
    using that by (rule or_fail_ok [rotated]) (rule keeps_rules)
  show ?thesis
    unfolding verify_file_def Let_def
    by (intro saves_if saves_base saves_seq_ok [OF g gi] saves_seq_ok [OF z zi] c) assumption+
qed

lemma saves_commit:
  assumes K: "\<And>msg n. K (finished t StatusFailed msg n)"
  shows "saves_on d K (commit_one E t f)"
proof -
  have s: "keeps (\<lambda>w. P (wDb w)) (osE (fs_call E g))" "keeps (\<lambda>w. P (wDb w)) (resolveConflict E path policy)"
    "keeps (\<lambda>w. P (wDb w)) (osE (commitFile E a b c))" "keeps (\<lambda>w. P (wDb w)) (guardE u e :: unit tm)"
    for P g path policy a b c u e
    by (intro keeps_osE db_stable keeps_rules)+
  show ?thesis
    unfolding commit_one_def
    by (intro saves_seq_ok saves_bind_ok saves_if saves_or_fail s K) (erule or_fail_ok [rotated], rule s)+
qed

lemma commit_each_db: "eachE (commit_one E t) fs w = (Inr a, w') \<Longrightarrow> wDb w' = wDb w"
proof (induction fs arbitrary: w)
  case (Cons f fs)
  then obtain x w1 where 1: "commit_one E t f w = (Inr x, w1)" "eachE (commit_one E t) fs w1 = (Inr a, w')"
    by (auto elim: seqE_InrE)
  then show ?case using commit_one_Inr [OF 1(1)] Cons.IH by (metis (full_types))
qed simp

lemma follows_end_finalize:
  assumes d: "GetTransfer d (tID t) = Inr t0" "tStatus t0 = StatusVerifying" "tApproved t0"
    and t: "tDirection t = tDirection t0" "tDeviceID t = tDeviceID t0" "tApproved t"
  shows "follows d (end_finalize E t)"
proof -
  have i: "tID t0 = tID t" using GetTransfer_id [OF d(1)] .
  have L: "legal (lookup d (tID x)) x"
    if "tID x = tID t0" "tDirection x = tDirection t0" "tDeviceID x = tDeviceID t0" "tApproved x"
      "tStatus x = StatusFailed \<or> tStatus x = StatusCompleted" for x
    by (rule legal_get [OF d(1)]) (use that d in \<open>auto intro: transition.fail transition.complete\<close>)
  have F: "legal (lookup d (tID (finished t StatusFailed msg n))) (finished t StatusFailed msg n)"
    "legal (lookup d (tID (finished t' StatusCompleted msg n))) (finished t' StatusCompleted msg n)"
    if "t' = t\<lparr>tProgress := tSize t\<rparr>" for t' msg n
    by (rule L; simp add: that t i)+
  have v: "wDb w' = wDb w" if "eachE (verify_file E t cs) fs w = (Inr a, w')" for cs fs w a w'
    using verify_all [OF that] by simp
  have c1: "wDb w' = wDb w" if "commit_one E t f w = (Inr a, w')" for f w a w'
    using commit_one_Inr [OF that] by (simp split: if_splits)
  have c: "wDb w' = wDb w" if "eachE (commit_one E t) fs w = (Inr a, w')" for fs w a w'
    using that by (rule commit_each_db)
  have v1: "wDb w' = wDb w" if "verify_file E t cs f w = (Inr a, w')" for cs f w a w'
    using verify_file_Inr [OF that] by simp
  show ?thesis
    unfolding end_finalize_def
    by (intro saves_bind db_stable saves_seq_ok [OF saves_each_ok [OF saves_verify v1] v]
        saves_seq_ok [OF saves_each_ok [OF saves_commit c1] c] saves_finish F) (assumption | rule refl)+
qed

text \<open>\<open>moves_on m\<close>: every run of \<open>m\<close>, to a value or an error, takes the tables along steps of the machine.\<close>

definition moves_on :: "(tworld, 'e, 'a) gom \<Rightarrow> bool" where
  "moves_on m \<longleftrightarrow> (\<forall>w r w'. m w = (r, w') \<longrightarrow> db_inv (wDb w) \<longrightarrow> db_step\<^sup>*\<^sup>* (wDb w) (wDb w'))"

lemma moves_follows: "(\<And>d. follows d m) \<Longrightarrow> moves_on m"
  unfolding moves_on_def using saves_moves by blast

lemma moves_stable: "(\<And>P. keeps (\<lambda>w. P (wDb w)) m) \<Longrightarrow> moves_on m"
  unfolding moves_on_def by (metis rtranclp.rtrancl_refl stable_db)

lemma moves_bind:
  assumes "moves_on m" "\<And>a. moves_on (f a)"
  shows "moves_on (bindE m f)"
  unfolding moves_on_def
proof (intro allI impI)
  fix w r w' assume w: "bindE m f w = (r, w')" "db_inv (wDb w)"
  obtain r1 w1 where 1: "m w = (r1, w1)" by (cases "m w")
  have m: "db_step\<^sup>*\<^sup>* (wDb w) (wDb w1)" using assms(1) 1 w(2) by (simp add: moves_on_def)
  show "db_step\<^sup>*\<^sup>* (wDb w) (wDb w')"
  proof (cases r1)
    case (Inl e)
    then show ?thesis using m 1 w(1) by (simp add: bindE_def)
  next
    case (Inr a)
    then have "f a w1 = (r, w')" using 1 w(1) by (simp add: bindE_def)
    then show ?thesis using m assms(2) db_steps_inv [OF m w(2)] unfolding moves_on_def by (meson rtranclp_trans)
  qed
qed

lemma moves_seq: "moves_on m \<Longrightarrow> moves_on n \<Longrightarrow> moves_on (seqE m n)"
  unfolding seqE_def by (rule moves_bind)

lemma moves_saveChunk: "moves_on (saveChunk E c)"
  unfolding moves_on_def saveChunk_def db_write_def
  by (auto split: option.splits intro!: r_into_rtranclp db_step.chunk)

lemma moves_ReceiveChunk: "moves_on (ReceiveChunk E i fileID token index sha enc contents)"
proof -
  have w: "moves_on (osE (write_part E p off buffer))" "moves_on (now E :: time tm)" for p off buffer
    by (rule moves_stable, intro keeps_osE db_stable)+
  have "moves_on (refreshProgress E t n)" for t n by (rule moves_follows) (rule follows_refreshProgress)
  note r = this
  have "moves_on (store_chunk E i t index fb)" for t fb
    unfolding store_chunk_def Let_def by (intro moves_seq moves_bind moves_saveChunk w r)
  then show ?thesis
    unfolding ReceiveChunk_def
    by (intro moves_bind) (rule moves_stable, intro db_stable keeps_rules)+
qed

lemma moves_Finalize: "moves_on (Finalize E i token)"
  unfolding moves_on_def
proof (intro allI impI)
  fix w r w' assume w: "Finalize E i token w = (r, w')" "db_inv (wDb w)"
  obtain r1 w1 where 1: "begin_finalize E i token w = (r1, w1)" by (cases "begin_finalize E i token w")
  have m: "db_step\<^sup>*\<^sup>* (wDb w) (wDb w1)" using saves_moves [OF follows_begin_finalize 1] .
  show "db_step\<^sup>*\<^sup>* (wDb w) (wDb w')"
  proof (cases r1)
    case (Inl e)
    then show ?thesis using m 1 w(1) by (simp add: Finalize_def bindE_def)
  next
    case (Inr tv)
    then have e: "end_finalize E tv w1 = (r, w')" using 1 w(1) by (simp add: Finalize_def bindE_def)
    from 1 Inr have "begin_finalize E i token w = (Inr tv, w1)" by simp
    then obtain t0 n where g: "tApproved t0" "tv = t0\<lparr>tStatus := StatusVerifying, tUpdatedAt := n\<rparr>"
      "wDb w1 = SaveTransfer tv (wDb w)" by (rule begin_finalize_InrE)
    then have gt: "GetTransfer (wDb w1) (tID tv) = Inr (by_path (persist (lookup (wDb w) (tID tv)) tv))"
      using lookup_save [OF w(2)] by (simp add: GetTransfer_lookup)
    have "follows (wDb w1) (end_finalize E tv)"
      by (rule follows_end_finalize [OF gt]) (simp_all add: g persist_def by_path_def)
    from saves_moves [OF this e] m show ?thesis by (meson rtranclp_trans)
  qed
qed

section \<open>Recovery\<close>

lemma set_ListTransfers:
  assumes "db_inv d"
  shows "t \<in> set (ListTransfers d) \<longleftrightarrow> GetTransfer d (tID t) = Inr t"
proof
  have di: "distinct (map rID (dbTransfers d))" using assms by (simp add: db_inv_def)
  show "GetTransfer d (tID t) = Inr t" if m: "t \<in> set (ListTransfers d)"
  proof -
    obtain r where r: "r \<in> set (dbTransfers d)" "t = (scanTransfer r)\<lparr>tFiles := listFiles d (rID r)\<rparr>"
      using m unfolding ListTransfers_def by auto
    then show ?thesis using select_distinct [OF di r(1)] by (simp add: GetTransfer_def)
  qed
  show "t \<in> set (ListTransfers d)" if m: "GetTransfer d (tID t) = Inr t"
  proof -
    obtain r where r: "select rID (tID t) (dbTransfers d) = Some r"
        "(scanTransfer r)\<lparr>tFiles := listFiles d (tID t)\<rparr> = t"
      using m by (auto simp: GetTransfer_def split: option.splits)
    then have "r \<in> set (dbTransfers d)" "(scanTransfer r)\<lparr>tFiles := listFiles d (rID r)\<rparr> = t"
      using select_SomeD [OF r(1)] by simp_all
    then show ?thesis unfolding ListTransfers_def by (force simp: image_iff)
  qed
qed

lemma distinct_ListTransfers:
  assumes "db_inv d"
  shows "distinct (map tID (ListTransfers d))"
proof -
  have "map tID (ListTransfers d) = map rID (sort_key (\<lambda>r. (rPriority r, rCreatedAt r)) (dbTransfers d))"
    by (simp add: ListTransfers_def)
  moreover have "distinct (map rID (sort_key (\<lambda>r. (rPriority r, rCreatedAt r)) (dbTransfers d)))"
    using assms by (simp add: db_inv_def distinct_map)
  ultimately show ?thesis by simp
qed

lemma recovered_Some:
  assumes "recovered t n = Some t'"
  shows "tID t' = tID t \<and> tDirection t' = tDirection t \<and> tDeviceID t' = tDeviceID t \<and> tApproved t' = tApproved t \<and>
    transition (tDirection t) (tApproved t, tStatus t) (tApproved t', tStatus t')"
proof (cases "tDirection t")
  case DirectionOutbound
  then show ?thesis using assms by (auto simp: recovered_def intro: transition.restart_out split: if_splits)
next
  case DirectionInbound
  then show ?thesis using assms by (auto simp: recovered_def intro: transition.restart_in split: if_splits)
qed

lemma recovered_time: "recovered t n = None \<longleftrightarrow> recovered t m = None"
  by (simp add: recovered_def)

lemma recover_one_cases:
  assumes "recover_one E t w = (r, w')"
  shows "wDb w' = wDb w \<and> (\<forall>u. r = Inr u \<longrightarrow> recovered t 0 = None) \<or>
    (\<exists>t' n. recovered t n = Some t' \<and> wDb w' = SaveTransfer t' (wDb w))"
proof (cases "recovered t 0")
  case (Some x)
  then obtain t' where t': "recovered t (hNow E (wTick w)) = Some t'"
    using recovered_time [of t 0 "hNow E (wTick w)"] by (cases "recovered t (hNow E (wTick w))") auto
  then have "saveTransfer E t' (bump w) = (r, w')"
    using assms Some by (simp add: recover_one_def bindE_def now_run)
  then have "wDb w' = wDb w \<and> (\<exists>e. r = Inl e) \<or> wDb w' = SaveTransfer t' (wDb w)"
    by (auto simp: saveTransfer_def db_write_def split: option.splits)
  with t' Some show ?thesis by blast
qed (use assms in \<open>simp add: recover_one_def\<close>)

lemma recover_each:
  assumes "eachE (recover_one E) ts w = (r, w')" "db_inv (wDb w)" "distinct (map tID ts)"
    "\<forall>t \<in> set ts. GetTransfer (wDb w) (tID t) = Inr t"
  shows "db_step\<^sup>*\<^sup>* (wDb w) (wDb w')"
  using assms
proof (induction ts arbitrary: w)
  case (Cons t ts)
  obtain r1 w1 where 1: "recover_one E t w = (r1, w1)" by (cases "recover_one E t w")
  have m: "db_step\<^sup>*\<^sup>* (wDb w) (wDb w1) \<and> (\<forall>i. i \<noteq> tID t \<longrightarrow> lookup (wDb w1) i = lookup (wDb w) i)"
    using recover_one_cases [OF 1]
  proof (elim disjE exE conjE)
    fix t' n assume t': "recovered t n = Some t'" "wDb w1 = SaveTransfer t' (wDb w)"
    have "legal (lookup (wDb w) (tID t')) t'"
      using recovered_Some [OF t'(1)] Cons.prems(4) by (intro legal_get [where t = t]) auto
    then have "db_step (wDb w) (wDb w1)" unfolding t'(2) by (rule db_step.save)
    then show ?thesis
      using t'(2) recovered_Some [OF t'(1)] lookup_save [OF Cons.prems(2)] by auto
  qed simp
  show ?case
  proof (cases r1)
    case (Inl e)
    then show ?thesis using m 1 Cons.prems(1) by (simp add: seqE_def bindE_def)
  next
    case (Inr a)
    then have e: "eachE (recover_one E) ts w1 = (r, w')" using 1 Cons.prems(1) by (simp add: seqE_def bindE_def)
    have "\<forall>t \<in> set ts. GetTransfer (wDb w1) (tID t) = Inr t"
      using m Cons.prems(3,4) by (auto simp: GetTransfer_lookup image_iff)
    then have "db_step\<^sup>*\<^sup>* (wDb w1) (wDb w')"
      using Cons.prems(2,3) m db_steps_inv by (intro Cons.IH [OF e]) auto
    then show ?thesis using m by (meson rtranclp_trans)
  qed
qed simp

lemma moves_recover: "moves_on (recover E)"
  unfolding moves_on_def
proof (intro allI impI)
  fix w r w' assume w: "recover E w = (r, w')" "db_inv (wDb w)"
  obtain r1 w1 where 1: "listTransfers E w = (r1, w1)" by (cases "listTransfers E w")
  show "db_step\<^sup>*\<^sup>* (wDb w) (wDb w')"
  proof (cases r1)
    case (Inl e)
    have "wDb w1 = wDb w" using stable_db [OF db_stable_calls(7) 1] .
    then show ?thesis using 1 Inl w(1) by (simp add: recover_def bindE_def)
  next
    case (Inr ts)
    then have ts: "ts = ListTransfers (wDb w)" "w1 = bump w" using 1 by (auto elim: listTransfers_InrE)
    obtain r2 w2 where 2: "eachE (recover_one E) ts w1 = (r2, w2)" by (cases "eachE (recover_one E) ts w1")
    have "db_step\<^sup>*\<^sup>* (wDb w1) (wDb w2)"
      using recover_each [OF 2] ts w(2) distinct_ListTransfers set_ListTransfers by simp
    moreover have "wDb w' = wDb w2" using w(1) 1 2 Inr
      by (auto simp: recover_def bindE_def seqE_def signal_def split: sum.splits)
    ultimately show ?thesis using ts(2) by simp
  qed
qed

section \<open>The service as a whole\<close>

text \<open>
  What reaches the service: requests of the local API, requests of a peer, the dispatcher's
  timer, a change of the display name and a restart of the process over the same disk.
  Each is served as a whole before the next; the outbound worker is modelled on its own.
\<close>

datatype call =
    CallQueue queue_request | CallAccept string accept_request | CallReject string
  | CallPause string | CallResume string | CallCancel string | CallRetry string
  | CallDeleteHistory | CallRename string | CallDispatch | CallRestart identity
  | PeerOffer offer string peer_authentication | PeerStatus string string | PeerCancel string string
  | PeerChunk string string string int string string body | PeerComplete string string

definition restarted :: "identity \<Rightarrow> tworld \<Rightarrow> tworld" where
  "restarted i w = (initial_world i (wDb w) (wFs w))\<lparr>wTick := wTick w\<rparr>"

fun serve :: "service \<Rightarrow> call \<Rightarrow> tworld \<Rightarrow> tworld" where
  "serve E (CallQueue rq) w = snd (Queue E rq w)"
| "serve E (CallAccept i rq) w = snd (Accept E i rq w)"
| "serve E (CallReject i) w = snd (Reject E i w)"
| "serve E (CallPause i) w = snd (Pause E i w)"
| "serve E (CallResume i) w = snd (Resume E i w)"
| "serve E (CallCancel i) w = snd (Cancel E i w)"
| "serve E (CallRetry i) w = snd (Retry E i w)"
| "serve E CallDeleteHistory w = snd (deleteHistory E w)"
| "serve E (CallRename name) w = snd (SetDisplayName name w :: (terr + unit) \<times> tworld)"
| "serve E CallDispatch w = snd (dispatch E w :: (terr + unit) \<times> tworld)"
| "serve E (CallRestart i) w = snd (recover E (restarted i w))"
| "serve E (PeerOffer oo remote auth) w = snd (ReceiveOffer E oo remote auth w)"
| "serve E (PeerStatus i token) w = snd (ProtocolStatus E i token w)"
| "serve E (PeerCancel i token) w = snd (ProtocolCancel E i token w)"
| "serve E (PeerChunk i f token index sha enc contents) w =
     snd (ReceiveChunk E i f token index sha enc contents w)"
| "serve E (PeerComplete i token) w = snd (Finalize E i token w)"

text \<open>The identifiers \<open>uuid.NewString\<close> returns are new.\<close>

definition fresh_id :: "service \<Rightarrow> call \<Rightarrow> tworld \<Rightarrow> bool" where
  "fresh_id E c w \<longleftrightarrow> (case c of CallQueue rq \<Rightarrow>
     (\<forall>n \<ge> wTick w. lookup (wDb w) (hUuid E n) = None) | _ \<Rightarrow> True)"

inductive service_run :: "service \<Rightarrow> tworld \<Rightarrow> call list \<Rightarrow> tworld \<Rightarrow> bool" for E w where
  start: "service_run E w [] w"
| call: "service_run E w cs w1 \<Longrightarrow> fresh_id E c w1 \<Longrightarrow> service_run E w (cs @ [c]) (serve E c w1)"

inductive_cases service_run_callE: "service_run E w (cs @ [c]) w'"

lemma tick_queue:
  "keeps (\<lambda>w. k \<le> wTick w) (queue_peer E rq)" "keeps (\<lambda>w. k \<le> wTick w) (eachE (queue_path E) ps)"
  unfolding queue_peer_def peer_def queue_path_def
  by (intro keeps_rules keeps_outside keeps_outsideE keeps_fs_read, simp_all)+

lemma enqueue_cases:
  assumes "enqueue E rq p policy w = (r, w')"
  shows "wDb w' = wDb w \<or> (\<exists>i n. i = hUuid E (Suc (wTick w)) \<and>
    wDb w' = SaveTransfer (queued_transfer E rq p policy i n) (wDb w))"
  using assms
  by (auto simp: enqueue_def bindE_def seqE_def call_runs Let_def saveTransfer_def db_write_def signal_def
      split: option.splits)

lemma Queue_cases:
  assumes "Queue E rq w = (r, w')"
  shows "wDb w' = wDb w \<or> (\<exists>p policy k n. wTick w \<le> k \<and>
    wDb w' = SaveTransfer (queued_transfer E rq p policy (hUuid E k) n) (wDb w))"
proof -
  let ?policy = "if qConflictPolicy rq = [] then ConflictPrompt else qConflictPolicy rq"
  obtain r1 w1 where 1: "queue_peer E rq w = (r1, w1)" by (cases "queue_peer E rq w")
  have d1: "wDb w1 = wDb w" "wTick w \<le> wTick w1"
    using stable_db [OF db_stable_control(3) 1] keepsD [OF tick_queue(1) order_refl 1] by auto
  show ?thesis
  proof (cases r1)
    case (Inl e)
    then show ?thesis using assms 1 d1 by (simp add: Queue_def bindE_def)
  next
    case (Inr p)
    obtain r2 w2 where 2: "eachE (queue_path E) (qPaths rq) w1 = (r2, w2)" by (cases "eachE (queue_path E) (qPaths rq) w1")
    have k: "\<And>P. keeps (\<lambda>w. P (wDb w)) (eachE (queue_path E) (qPaths rq))" by (intro keeps_rules db_stable)
    have d2: "wDb w2 = wDb w" "wTick w \<le> wTick w2"
      using stable_db [OF k 2] keepsD [OF tick_queue(2) order_refl 2] d1 by auto
    show ?thesis
    proof (cases "\<exists>u. r2 = Inr u \<and> validPolicy ?policy")
      case True
      then have "enqueue E rq p ?policy w2 = (r, w')"
        using assms 1 2 Inr by (simp add: Queue_def Let_def bindE_def seqE_def)
      from enqueue_cases [OF this] d2 show ?thesis by (metis le_Suc_eq)
    next
      case False
      then show ?thesis using assms 1 2 Inr d2
        by (auto simp: Queue_def Let_def bindE_def seqE_def guardE_def split: sum.splits if_splits)
    qed
  qed
qed

lemma dispatch_db: "wDb (snd (dispatch E w)) = wDb w"
proof -
  have "wDb (foldl (launch E) v ts) = wDb v" for v ts
    by (induction ts arbitrary: v) (simp_all add: launch_def)
  note f = this
  obtain r w1 where 1: "listTransfers E w = (r, w1)" by (cases "listTransfers E w")
  have "wDb w1 = wDb w" using stable_db [OF db_stable_calls(7) 1] .
  then show ?thesis using f 1 by (cases r) (simp_all add: dispatch_def)
qed

lemma moves_run: "moves_on m \<Longrightarrow> db_inv (wDb v) \<Longrightarrow> db_step\<^sup>*\<^sup>* (wDb v) (wDb (snd (m v)))"
  unfolding moves_on_def using surjective_pairing by blast

lemma follows_run: "(\<And>d. follows d m) \<Longrightarrow> db_step\<^sup>*\<^sup>* (wDb v) (wDb (snd (m v)))"
  by (rule saves_moves [OF _ surjective_pairing])

lemma stable_run:
  assumes "\<And>P. keeps (\<lambda>w. P (wDb w)) m"
  shows "db_step\<^sup>*\<^sup>* (wDb v) (wDb (snd (m v)))"
  using stable_db [OF assms surjective_pairing] by simp

lemma queue_steps:
  assumes "fresh_id E (CallQueue rq) w"
  shows "db_step\<^sup>*\<^sup>* (wDb w) (wDb (snd (Queue E rq w)))"
proof -
  obtain r w' where q: "Queue E rq w = (r, w')" by (cases "Queue E rq w")
  from Queue_cases [OF q] show ?thesis
  proof (elim disjE exE conjE)
    fix p policy k n
    assume k: "wTick w \<le> k" "wDb w' = SaveTransfer (queued_transfer E rq p policy (hUuid E k) n) (wDb w)"
    then have "lookup (wDb w) (hUuid E k) = None" using assms by (simp add: fresh_id_def)
    then have "db_step (wDb w) (wDb w')" unfolding k(2) by (intro db_step.save) (simp add: legal_def)
    then show ?thesis using q by simp
  qed (use q in simp)
qed

lemma rename_stable: "keeps (\<lambda>w. P (wDb w)) (SetDisplayName name :: unit tm)"
  unfolding SetDisplayName_def Let_def by (intro keeps_rules keeps_mod) simp

lemma status_stable: "keeps (\<lambda>w. P (wDb w)) (ProtocolStatus E i token)"
  unfolding ProtocolStatus_def by (intro keeps_rules db_stable)

lemma restart_steps:
  assumes "db_inv (wDb w)"
  shows "db_step\<^sup>*\<^sup>* (wDb w) (wDb (snd (recover E (restarted i w))))"
  using moves_run [OF moves_recover, of "restarted i w" E] assms by (simp add: restarted_def initial_world_def)

lemmas call_steps = queue_steps restart_steps stable_run [OF rename_stable] stable_run [OF status_stable]
  follows_run [OF follows_Accept] follows_run [OF follows_Reject] follows_run [OF follows_Pause]
  follows_run [OF follows_Resume] follows_run [OF follows_Cancel] follows_run [OF follows_Retry]
  follows_run [OF follows_ReceiveOffer] follows_run [OF follows_ProtocolCancel]
  moves_run [OF moves_ReceiveChunk] moves_run [OF moves_Finalize]

lemma serve_steps:
  assumes "db_inv (wDb w)" "fresh_id E c w" "c \<noteq> CallDeleteHistory"
  shows "db_step\<^sup>*\<^sup>* (wDb w) (wDb (serve E c w))"
  using assms by (cases c) (simp_all add: call_steps dispatch_db)

lemma serve_moves:
  assumes "db_inv (wDb w)" "fresh_id E c w"
  shows "db_move\<^sup>*\<^sup>* (wDb w) (wDb (serve E c w))"
proof (cases "c = CallDeleteHistory")
  case True
  then show ?thesis
    by (auto simp: deleteHistory_def db_write_def split: option.splits intro: db_move.purge)
next
  case False
  then show ?thesis using serve_steps [OF assms] db_steps_moves by blast
qed

section \<open>Properties\<close>

lemma service_run_moves:
  assumes "service_run E w cs w'" "db_inv (wDb w)"
  shows "db_move\<^sup>*\<^sup>* (wDb w) (wDb w') \<and> db_inv (wDb w')"
  using assms
proof (induction rule: service_run.induct)
  case (call cs w1 c)
  then have "db_move\<^sup>*\<^sup>* (wDb w) (wDb w1)" "db_inv (wDb w1)" by simp_all
  then show ?case using serve_moves [OF _ call.hyps(2)] db_moves_inv by (meson rtranclp_trans)
qed simp


definition idle_world :: tworld where
  "idle_world = initial_world sample_identity empty_db (wFs sample_world)"

lemma sample_run: "service_run sample_service idle_world [CallDeleteHistory] (serve sample_service CallDeleteHistory idle_world)"
  using service_run.call [OF service_run.start, of sample_service CallDeleteHistory idle_world]
  by (simp add: fresh_id_def)

lemma idle_inv: "db_inv (wDb idle_world)"
  by (simp add: idle_world_def initial_world_def db_inv_empty)


definition waits :: "tdb \<Rightarrow> bool" where
  "waits d \<longleftrightarrow> (\<forall>i t. lookup d i = Some t \<longrightarrow> tDirection t = DirectionInbound \<longrightarrow> \<not> tApproved t \<longrightarrow>
     tStatus t \<in> {StatusQueued, StatusCancelled})"

lemma transition_unapproved:
  assumes "transition DirectionInbound (a, s) (False, s')" "\<not> a \<Longrightarrow> s \<in> {StatusQueued, StatusCancelled}"
  shows "s' \<in> {StatusQueued, StatusCancelled}"
  using assms by (cases rule: transition.cases) (auto simp: pausable_def)

lemma waits_save:
  assumes "legal (lookup d (tID t)) t" "db_inv d" "waits d"
  shows "waits (SaveTransfer t d)"
proof -
  have "tStatus t \<in> {StatusQueued, StatusCancelled}" if dir: "tDirection t = DirectionInbound" "\<not> tApproved t"
  proof (cases "lookup d (tID t)")
    case None
    then show ?thesis using assms(1) dir by (simp add: legal_def)
  next
    case (Some t0)
    then have 0: "tDirection t0 = DirectionInbound"
      using assms(1) dir(1) unfolding legal_def by auto
    have "transition (tDirection t0) (tApproved t0, tStatus t0) (tApproved t, tStatus t)"
      using assms(1) Some unfolding legal_def by simp
    then have "transition DirectionInbound (tApproved t0, tStatus t0) (False, tStatus t)"
      using 0 dir(2) by (simp only: simp_thms)
    moreover have "\<not> tApproved t0 \<Longrightarrow> tStatus t0 \<in> {StatusQueued, StatusCancelled}"
      using assms(3) Some 0 by (auto simp: waits_def)
    ultimately show ?thesis using transition_unapproved by blast
  qed
  then show ?thesis using assms(3) lookup_save [OF assms(2)] by (auto simp: waits_def)
qed

lemma waits_move: "db_move d d' \<Longrightarrow> db_inv d \<Longrightarrow> waits d \<Longrightarrow> waits d'"
proof (induction rule: db_move.induct)
  case (step d d')
  then show ?case by (cases rule: db_step.cases) (auto intro: waits_save, simp add: waits_def)
next
  case (purge d)
  then show ?case using lookup_purge by (auto simp: waits_def split: option.splits if_splits)
qed

lemma waits_moves: "db_move\<^sup>*\<^sup>* d d' \<Longrightarrow> db_inv d \<Longrightarrow> waits d \<Longrightarrow> waits d'"
proof (induction rule: rtranclp_induct)
  case (step d1 d2)
  then show ?case using waits_move db_moves_inv by blast
qed


lemma closed_step:
  assumes "db_step d d'" "db_inv d" "lookup d i = Some t" "closed_status (tStatus t)"
  shows "\<exists>t'. lookup d' i = Some t' \<and> tStatus t' = tStatus t"
  using assms(1)
proof (cases rule: db_step.cases)
  case (save s)
  show ?thesis
  proof (cases "tID s = i")
    case True
    then have "transition (tDirection t) (tApproved t, tStatus t) (tApproved s, tStatus s)"
      using save(2) assms(3) by (simp add: legal_def)
    then have "tStatus s = tStatus t"
      using assms(4) by (cases rule: transition.cases) (auto simp: closed_status_def pausable_def in_flight_def)
    then show ?thesis using save(1) True lookup_save [OF assms(2)] by auto
  qed (use save(1) assms(3) lookup_save [OF assms(2)] in auto)
qed (use assms(3) in simp)

lemma closed_steps:
  assumes "db_step\<^sup>*\<^sup>* d d'" "db_inv d" "lookup d i = Some t" "closed_status (tStatus t)"
  shows "\<exists>t'. lookup d' i = Some t' \<and> tStatus t' = tStatus t"
  using assms(1)
proof (induction rule: rtranclp_induct)
  case (step d1 d2)
  then show ?case using closed_step [OF step.hyps(2) db_steps_inv [OF step.hyps(1) assms(2)]] assms(4) by metis
qed (use assms(3) in simp)

text \<open>completed and cancelled are final. No sequence of requests, each served as a whole,
  changes the status of a transfer that is completed or cancelled; only the deletion of the
  history removes it.\<close>

theorem closed_is_final:
  assumes "service_run E w cs w'" and "db_inv (wDb w)" and "GetTransfer (wDb w) i = Inr t"
    and "closed_status (tStatus t)" and "CallDeleteHistory \<notin> set cs"
  shows "\<exists>t'. GetTransfer (wDb w') i = Inr t' \<and> tStatus t' = tStatus t"
proof -
  obtain t0 where t0: "lookup (wDb w) i = Some t0" "tStatus t0 = tStatus t"
    using assms(3) by (auto simp: GetTransfer_lookup split: option.splits)
  have "db_step\<^sup>*\<^sup>* (wDb w) (wDb w') \<and> db_inv (wDb w')"
    using assms(1,5)
  proof (induction rule: service_run.induct)
    case (call cs w1 c)
    then have "db_step\<^sup>*\<^sup>* (wDb w1) (wDb (serve E c w1))" by (intro serve_steps) auto
    then show ?case using call db_steps_inv by (auto intro: rtranclp_trans)
  qed (use assms(2) in simp)
  then have "\<exists>t'. lookup (wDb w') i = Some t' \<and> tStatus t' = tStatus t"
    using closed_steps assms(2,4) t0 by metis
  then show ?thesis by (auto simp: GetTransfer_lookup)
qed

lemma sample_offered:
  obtains w' t where
    "service_run sample_service sample_world [PeerOffer sample_offer ''10.0.0.2'' sample_auth] w'"
    "GetTransfer (wDb w') ''t9'' = Inr t" "tDirection t = DirectionInbound" "\<not> tApproved t"
proof -
  obtain t w' where r: "ReceiveOffer sample_service sample_offer ''10.0.0.2'' sample_auth sample_world = (Inr t, w')"
    using sample_accepted by blast
  have w: "wDb sample_world = empty_db" "oTransferID sample_offer = ''t9''"
    by (simp_all add: sample_world_def sample_offer_def)
  have none: "GetTransfer empty_db i \<noteq> Inr x" for i x
    by (simp add: GetTransfer_def empty_db_def select_def)
  from ReceiveOffer_Inr [OF r] none have "wDb w' = SaveTransfer t empty_db" "tID t = ''t9''"
    "tDirection t = DirectionInbound" "\<not> tApproved t"
    unfolding w by blast+
  moreover from this have "GetTransfer (wDb w') ''t9'' = Inr (by_path (persist (lookup empty_db ''t9'') t))"
    using lookup_save [OF db_inv_empty] by (simp add: GetTransfer_lookup)
  moreover have "service_run sample_service sample_world [PeerOffer sample_offer ''10.0.0.2'' sample_auth] w'"
    using service_run.call [OF service_run.start, of sample_service "PeerOffer sample_offer ''10.0.0.2'' sample_auth"
        sample_world] r
    by (simp add: fresh_id_def)
  ultimately show thesis using that [of w'] by simp
qed


definition sample_closed :: tworld where
  "sample_closed = sample_world\<lparr>wDb := SaveTransfer (sample_transfer\<lparr>tStatus := StatusCompleted\<rparr>) empty_db\<rparr>"

lemma sample_closed_db:
  "db_inv (wDb sample_closed)"
  "GetTransfer (wDb sample_closed) ''t1'' = Inr (by_path (persist None (sample_transfer\<lparr>tStatus := StatusCompleted\<rparr>)))"
proof -
  have d: "wDb sample_closed = SaveTransfer (sample_transfer\<lparr>tStatus := StatusCompleted\<rparr>) empty_db"
    by (simp add: sample_closed_def)
  have "lookup empty_db ''t1'' = None" by (simp add: lookup_def empty_db_def select_def)
  then show "db_inv (wDb sample_closed)"
    "GetTransfer (wDb sample_closed) ''t1'' = Inr (by_path (persist None (sample_transfer\<lparr>tStatus := StatusCompleted\<rparr>)))"
    unfolding d using db_inv_save [OF db_inv_empty] lookup_save [OF db_inv_empty]
    by (simp_all add: GetTransfer_lookup)
qed

theorem closed_is_final_witness:
  "\<exists>t'. GetTransfer (wDb (serve sample_service (CallCancel ''t1'') sample_closed)) ''t1'' = Inr t' \<and>
     tStatus t' = StatusCompleted"
proof -
  have r: "service_run sample_service sample_closed [CallCancel ''t1''] (serve sample_service (CallCancel ''t1'') sample_closed)"
    using service_run.call [OF service_run.start, of sample_service "CallCancel ''t1''" sample_closed]
    by (simp add: fresh_id_def)
  have c: "closed_status (tStatus (by_path (persist None (sample_transfer\<lparr>tStatus := StatusCompleted\<rparr>))))"
    "CallDeleteHistory \<notin> set [CallCancel ''t1'']"
    by (simp_all add: closed_status_def)
  from closed_is_final [OF r sample_closed_db(1,2) c] show ?thesis by simp
qed

section \<open>A race\<close>

lemma Cancel_InrE:
  assumes "Cancel E i w = (Inr t', w')"
  obtains t n where "GetTransfer (wDb w) i = Inr t" "t' = finished t StatusCancelled [] n"
    "wDb w' = SaveTransfer t' (wDb w)"
proof -
  from assms obtain x v t v1 y v2 z v3 u v4 where
    c: "cancel_active i w = (Inr x :: terr + unit, v)" and g: "Get E i v = (Inr t, v1)" and
    u: "guardE (tStatus t = StatusCompleted \<or> tStatus t = StatusCancelled) (plain ErrInvalidState) v1 = (Inr y, v2)" and
    f: "finish E t StatusCancelled [] EventQueueUpdated v2 = (Inr z, v3)" and
    l: "cancel_remote E t v3 = (Inr u, v4)" "retE z v4 = (Inr t' :: terr + transfer, w')"
    unfolding Cancel_def by (elim seqE_InrE bindE_InrE) (rule that, assumption+)
  have d: "wDb v = wDb w" using stable_db [OF db_stable_control(1) c] .
  have g': "GetTransfer (wDb w) i = Inr t" "wDb v2 = wDb w" using g u d by (auto elim!: Get_InrE guardE_InrE)
  have e: "wDb w' = wDb v3" using stable_db [OF db_stable_remote l(1)] l(2) by simp
  have "z = t'" using l(2) by simp
  moreover from f obtain n where "z = finished t StatusCancelled [] n" "wDb v3 = SaveTransfer z (wDb v2)"
    by (rule finish_InrE)
  ultimately show thesis using that [OF g'(1), of n] g' e by simp
qed

text \<open>C18: a cancellation can be overwritten. \<open>Finalize\<close> holds the record it read while it verifies
  and moves the files. If the user cancels the transfer in between, the request reports
  success and the transfer is stored as cancelled; but when \<open>Finalize\<close> ends it saves its own
  copy, and the cancelled transfer becomes completed.\<close>

theorem finalize_overrides_cancel:
  assumes "begin_finalize E i token w = (Inr t, w1)" and "Cancel E i w1 = (Inr c, w2)"
    and "end_finalize E t w2 = (Inr t', w3)" and "db_inv (wDb w)"
  shows "map_option tStatus (lookup (wDb w2) i) = Some StatusCancelled \<and>
    map_option tStatus (lookup (wDb w3) i) = Some StatusCompleted"
proof -
  from assms(1) obtain t0 n where b: "t = t0\<lparr>tStatus := StatusVerifying, tUpdatedAt := n\<rparr>"
    "wDb w1 = SaveTransfer t (wDb w)" "GetTransfer (wDb w) i = Inr t0" by (rule begin_finalize_InrE)
  from assms(2) obtain t1 m where c: "GetTransfer (wDb w1) i = Inr t1" "c = finished t1 StatusCancelled [] m"
    "wDb w2 = SaveTransfer c (wDb w1)" by (rule Cancel_InrE)
  have i: "tID t = i" "tID c = i" using GetTransfer_id [OF b(3)] GetTransfer_id [OF c(1)] b(1) c(2) by simp_all
  have inv: "db_inv (wDb w1)" "db_inv (wDb w2)" using assms(4) b(2) c(3) db_inv_save by simp_all
  from assms(3) obtain v1 x y v2 v3 where
    e: "wDb v1 = wDb w2" "eachE (verify_file E t (ListChunks (wDb w2) (tID t))) (tFiles t) v1 = (Inr x, v2)"
      "eachE (commit_one E t) (tFiles t) v2 = (Inr y, v3)"
      "finish E (t\<lparr>tProgress := tSize t\<rparr>) StatusCompleted [] EventCompleted v3 = (Inr t', w3)"
    by (rule end_finalize_Inr)
  from e(4) obtain k where f: "t' = finished (t\<lparr>tProgress := tSize t\<rparr>) StatusCompleted [] k"
    "wDb w3 = SaveTransfer t' (wDb v3)" by (rule finish_InrE)
  have "wDb v3 = wDb w2" using verify_all [OF e(2)] commit_each_db [OF e(3)] e(1) by simp
  then show ?thesis
    using lookup_save [OF inv(1)] lookup_save [OF inv(2)] c(2,3) f i by simp
qed

lemma Cancel_quiet:
  assumes "quiet E" "hUuidOk E i" "GetTransfer (wDb w) i = Inr t" "tDirection t = DirectionInbound"
    "tStatus t \<noteq> StatusCompleted" "tStatus t \<noteq> StatusCancelled"
  shows "\<exists>c w2. Cancel E i w = (Inr c, w2) \<and> wFs w2 = wFs w"
proof -
  obtain v where v: "cancel_active i w = (Inr () :: terr + unit, v)" "wDb v = wDb w" "wFs v = wFs w"
    by (auto simp: cancel_active_def modE_def split: option.splits)
  show ?thesis
    using assms v
    by (simp add: Cancel_def seqE_def bindE_def Get_def finish_def call_runs Let_def cancel_remote_def guardE_def)
qed

theorem finalize_overrides_cancel_witness:
  "\<exists>t w1 c w2 t' w3. begin_finalize sample_service ''t1'' ''token'' sample_arrived = (Inr t, w1) \<and>
     Cancel sample_service ''t1'' w1 = (Inr c, w2) \<and> end_finalize sample_service t w2 = (Inr t', w3) \<and>
     map_option tStatus (lookup (wDb w3) ''t1'') = Some StatusCompleted"
proof -
  obtain w1 n where b: "begin_finalize sample_service ''t1'' ''token'' sample_arrived = (Inr (sample_verifying n), w1)"
    "wFs w1 = wFs sample_arrived" "ListChunks (wDb w1) ''t1'' = ListChunks (wDb sample_arrived) ''t1''"
    using sample_begin by blast
  have inv: "db_inv (wDb sample_arrived)"
    using db_inv_chunk [OF db_inv_chunk [OF db_inv_save [OF db_inv_empty]]] by (simp add: sample_arrived_def)
  from b(1) have "wDb w1 = SaveTransfer (sample_verifying n) (wDb sample_arrived)"
    by (rule begin_finalize_InrE) simp
  then have g: "GetTransfer (wDb w1) ''t1'' = Inr (by_path (persist (lookup (wDb sample_arrived) ''t1'') (sample_verifying n)))"
    using lookup_save [OF inv] sample_verifying_simps(1) by (simp add: GetTransfer_lookup)
  have "\<exists>c w2. Cancel sample_service ''t1'' w1 = (Inr c, w2) \<and> wFs w2 = wFs w1"
    by (rule Cancel_quiet [OF quiet_sample sample_id g]) (simp_all add: sample_verifying_simps)
  then obtain c w2 where c: "Cancel sample_service ''t1'' w1 = (Inr c, w2)" "wFs w2 = wFs w1" by blast
  then have "ListChunks (wDb w2) ''t1'' = ListChunks (wDb w1) ''t1''" by (auto elim: Cancel_InrE)
  note c = c this
  obtain t' w3 where e: "end_finalize sample_service (sample_verifying n) w2 = (Inr t', w3)"
    using sample_end [of w2 n] b c by auto
  from conjunct2 [OF finalize_overrides_cancel [OF b(1) c(1) e inv]] b(1) c(1) e show ?thesis by blast
qed

end
