(* ===== verification/TransferSender.thy ===== *)
theory TransferSender
  imports TransferLifecycle
begin

text \<open>
  \<open>transfer/sender.go\<close>: the worker of an outbound transfer, from the manifest over the offer and
  the wait for approval to the chunks and the completion.

  The wait polls until the receiver decides, which it may never do: \<open>await_approval\<close> takes the
  number of polls and returns \<open>None\<close> when they are used up and the wait goes on. The chunk
  workers take tasks from a channel; the model performs the tasks one after the other in the
  order the argument \<open>sched\<close> gives, and stops at the first error, which cancels the others.
  \<open>url.PathEscape\<close> is the identity on the UUIDs it is applied to.
\<close>

section \<open>Requests\<close>

text \<open>\<open>fmt.Errorf("prefix: %w", err)\<close>.\<close>

definition wrap_err :: "string \<Rightarrow> terr \<Rightarrow> terr" where
  "wrap_err pre e = TErr (terr_kind e) (pre @ '': '' @ terr_text e)"

definition transfers_path :: "string \<Rightarrow> string \<Rightarrow> string" where
  "transfers_path i rest = ''/v1/transfers/'' @ i @ rest"

definition response_limit :: nat where
  "response_limit = 16 * 2 ^ 20"

definition remoteStatus :: "service \<Rightarrow> transfer \<Rightarrow> resume_map tm" where
  "remoteStatus E t =
     bindE (jsonRequest E ''GET'' (tRemoteAddress t) (transfers_path (tID t) ''/status'') (tDeviceID t)
       (tSessionToken t) None) (\<lambda>answer. liftE (hResumeMap E (take response_limit answer)))"

section \<open>Chunks\<close>

definition compressible :: "('r) host_scheme \<Rightarrow> string \<Rightarrow> bool" where
  "compressible E path =
     (let kind = hMime E (to_lower (hLower E) (path_ext path))
      in has_prefix kind ''text/'' \<or> str_contains kind ''json'' \<or> str_contains kind ''xml'' \<or>
         str_contains kind ''javascript'' \<or> str_contains kind ''svg'')"

text \<open>\<open>ReadAt\<close> of a whole chunk.\<close>

definition chunk_slice :: "transfer_file \<Rightarrow> int \<Rightarrow> string \<Rightarrow> terr + string" where
  "chunk_slice f index c =
     (let sz = chunk_length (fSize f) (fChunkSize f) index; off = wrap64 (index * fChunkSize f);
          contents = take (nat sz) (drop (nat off) c)
      in if off < 0 then Inl (other ''negative offset'')
         else if int (length contents) \<noteq> sz then Inl (other ''unexpected EOF'')
         else Inr contents)"

definition read_chunk :: "('r) host_scheme \<Rightarrow> transfer_file \<Rightarrow> int \<Rightarrow> string tm" where
  "read_chunk E f index =
     bindE (mapErrE (wrap_err (''open source '' @ fRelativePath f)) (osE (fs_read E (\<lambda>fs. os_read_file fs (fSourcePath f)))))
       (\<lambda>c. liftE (chunk_slice f index c))"

text \<open>The body sent for a chunk and its encoding.\<close>

definition chunk_payload :: "('r) host_scheme \<Rightarrow> transfer \<Rightarrow> transfer_file \<Rightarrow> string \<Rightarrow> string \<times> string" where
  "chunk_payload E t f contents =
     (if tCompression t \<and> compressible E (fRelativePath f) \<and> length (hGzip E contents) + 128 < length contents
      then (hGzip E contents, ''gzip'') else (contents, []))"

definition chunk_http :: "transfer \<Rightarrow> transfer_file \<Rightarrow> int \<Rightarrow> int \<Rightarrow> string \<Rightarrow> string \<times> string \<Rightarrow> http_request" where
  "chunk_http t f index sz checksum payload = \<lparr>hqMethod = ''PUT'',
     hqURL = tRemoteAddress t @ transfers_path (tID t) (''/files/'' @ fID f @ ''/chunks/'' @ int_dec index),
     hqDevice = tDeviceID t,
     hqHeaders = [(''Authorization'', ''Bearer '' @ tSessionToken t), (''Content-Type'', ''application/octet-stream''),
       (''X-Chunk-SHA256'', checksum), (''X-Chunk-Size'', int_dec sz)] @
       (if snd payload = [] then [] else [(''Content-Encoding'', snd payload)]),
     hqBody = fst payload\<rparr>"

definition chunk_attempt :: "service \<Rightarrow> transfer \<Rightarrow> http_request \<Rightarrow> terr option tm" where
  "chunk_attempt E t rq =
     bindE (peerClient E (tDeviceID t)) (\<lambda>pinned.
     bindE (tryE (client_do E pinned rq)) (\<lambda>r. case r of
       Inr rs \<Rightarrow>
         if 200 \<le> hsCode rs \<and> hsCode rs < 300 then retE None
         else retE (Some (other (''receiver returned '' @ hsStatus rs)))
     | Inl e \<Rightarrow> retE (Some e)))"

definition chunkRetryLimit :: int where
  "chunkRetryLimit = 3"

fun chunk_attempts :: "service \<Rightarrow> nat \<Rightarrow> transfer \<Rightarrow> http_request \<Rightarrow> int list \<Rightarrow> terr \<Rightarrow> unit tm" where
  "chunk_attempts E ctx t rq [] lastErr =
     throwE (wrap_err (''send chunk after '' @ int_dec chunkRetryLimit @ '' attempts'') lastErr)"
| "chunk_attempts E ctx t rq (attempt # rest) lastErr =
     seqE (waitForThrottle E ctx)
     (bindE (chunk_attempt E t rq) (\<lambda>r. case r of
        None \<Rightarrow> recordCongestion False
      | Some e \<Rightarrow> seqE (recordCongestion True) (seqE (ctx_err E ctx) (chunk_attempts E ctx t rq rest e))))"

definition sendChunk :: "service \<Rightarrow> nat \<Rightarrow> transfer \<Rightarrow> transfer_file \<Rightarrow> int \<Rightarrow> unit tm" where
  "sendChunk E ctx t f index =
     bindE (read_chunk E f index) (\<lambda>contents.
     chunk_attempts E ctx t
       (chunk_http t f index (chunk_length (fSize f) (fChunkSize f) index) (checksumBytes E contents)
         (chunk_payload E t f contents))
       [1 .. chunkRetryLimit] (other []))"

definition sent_chunk :: "transfer \<Rightarrow> transfer_file \<Rightarrow> int \<Rightarrow> time \<Rightarrow> chunk" where
  "sent_chunk t f index n = \<lparr>kTransferID = tID t, kFileID = fID f, kIndex = index,
     kOffset = wrap64 (index * fChunkSize f), kSize = chunk_length (fSize f) (fChunkSize f) index, kChecksum = [],
     kStatus = ChunkComplete, kAttempts = 1, kUpdatedAt = n\<rparr>"

text \<open>One task of a chunk worker. The progress is refreshed as far as that works.\<close>

definition note_progress :: "service \<Rightarrow> string \<Rightarrow> unit tm" where
  "note_progress E i =
     bindE (tryE (Get E i)) (\<lambda>r :: terr + transfer. case r of
       Inl _ \<Rightarrow> retE ()
     | Inr current \<Rightarrow> bindE (now E) (\<lambda>m.
         bindE (tryE (refreshProgress E current m)) (\<lambda>_ :: terr + transfer. retE ())))"

definition send_task :: "service \<Rightarrow> nat \<Rightarrow> transfer \<Rightarrow> transfer_file \<times> int \<Rightarrow> unit tm" where
  "send_task E ctx t task =
     seqE (sendChunk E ctx t (fst task) (snd task))
     (bindE (now E) (\<lambda>n. seqE (saveChunk E (sent_chunk t (fst task) (snd task) n)) (note_progress E (tID t))))"

text \<open>The tasks enqueued: every chunk of every regular file the receiver does not have.\<close>

definition file_tasks :: "(string \<rightharpoonup> int list) \<Rightarrow> transfer_file \<Rightarrow> (transfer_file \<times> int) list" where
  "file_tasks completed f =
     (if fDirectory f then []
      else map (Pair f) (filter (\<lambda>i. i \<notin> set (case completed (fID f) of None \<Rightarrow> [] | Some is \<Rightarrow> is))
        [0 .. fChunkCount f - 1]))"

definition pending_tasks :: "transfer_file list \<Rightarrow> (string \<rightharpoonup> int list) \<Rightarrow> (transfer_file \<times> int) list" where
  "pending_tasks files completed = concat (map (file_tasks completed) files)"

section \<open>The worker\<close>

definition prepare_outbound :: "service \<Rightarrow> transfer \<Rightarrow> transfer tm" where
  "prepare_outbound E t =
     (if tFiles t \<noteq> [] then retE t
      else bindE (now E) (\<lambda>n.
        let t1 = t\<lparr>tStatus := StatusPreparing, tUpdatedAt := n\<rparr> in
        seqE (saveTransfer E t1) (seqE (logAndPublish E EventQueueUpdated t1)
        (bindE (buildManifest E (tSourcePaths t1) (tChunkSize t1)) (\<lambda>(files, sz, checksum).
         bindE (now E) (\<lambda>m.
         let t2 = t1\<lparr>tFiles := files, tSize := sz, tChecksum := checksum, tAttempts := wrap64 (tAttempts t1 + 1),
           tUpdatedAt := m\<rparr>
         in seqE (saveTransfer E t2) (retE t2)))))))"

definition connecting :: "service \<Rightarrow> device \<Rightarrow> string \<Rightarrow> time \<Rightarrow> transfer \<Rightarrow> transfer" where
  "connecting E p token n t = t\<lparr>tRemoteAddress := peerAddress E p, tSessionToken := token,
     tStartedAt := (case tStartedAt t of None \<Rightarrow> Some n | Some s \<Rightarrow> Some s),
     tStatus := StatusConnecting, tUpdatedAt := n\<rparr>"

definition connect_outbound :: "service \<Rightarrow> transfer \<Rightarrow> transfer tm" where
  "connect_outbound E t =
     bindE (peer E (tDeviceID t)) (\<lambda>found. case found of
       None \<Rightarrow> throwE (other ''destination device is offline'')
     | Some p \<Rightarrow>
         seqE (guardE (\<not> dOnline p) (other ''destination device is offline''))
         (bindE (if tSessionToken t = [] then generateToken E else retE (tSessionToken t)) (\<lambda>token.
          bindE (now E) (\<lambda>n.
          let t1 = connecting E p token n t in
          seqE (saveTransfer E t1) (seqE (logAndPublish E EventQueueUpdated t1) (retE t1))))))"

definition offer_of :: "sender_identity \<Rightarrow> transfer \<Rightarrow> offer" where
  "offer_of i t = \<lparr>oTransferID = tID t, oDeviceID = iID i, oDeviceName = iName i, oDeviceHostname = iHostname i,
     oDevicePlatform = iPlatform i, oSessionToken = tSessionToken t, oFilename = tFilename t, oSize = tSize t,
     oFiles = tFiles t, oChunkSize = tChunkSize t, oCompression = tCompression t, oProtocolVersion = ProtocolVersion\<rparr>"

definition send_offer :: "service \<Rightarrow> transfer \<Rightarrow> offer \<Rightarrow> unit tm" where
  "send_offer E t oo =
     mapErrE (wrap_err ''negotiate transfer'')
       (bindE (jsonRequest E ''POST'' (tRemoteAddress t) offers_path (tDeviceID t) [] (Some oo))
         (\<lambda>answer. bindE (liftE (hOfferResponse E (take response_limit answer))) (\<lambda>_. retE ())))"

definition negotiate_outbound :: "service \<Rightarrow> transfer \<Rightarrow> transfer tm" where
  "negotiate_outbound E t =
     bindE identitySnapshot (\<lambda>i.
     bindE (now E) (\<lambda>n.
     let t1 = t\<lparr>tStatus := StatusNegotiating, tUpdatedAt := n\<rparr> in
     seqE (saveTransfer E t1) (seqE (send_offer E t1 (offer_of i t)) (retE t1))))"

fun await_approval :: "nat \<Rightarrow> service \<Rightarrow> nat \<Rightarrow> transfer \<Rightarrow> resume_map option tm" where
  "await_approval 0 E ctx t = retE None"
| "await_approval (Suc polls) E ctx t =
     seqE (ctx_err E ctx)
     (bindE (tryE (remoteStatus E t)) (\<lambda>r. case r of
        Inr m \<Rightarrow>
          if rmApproved m \<and> (rmStatus m = StatusReceiving \<or> rmStatus m = StatusResuming) then retE (Some m)
          else if rmStatus m = StatusCancelled \<or> rmStatus m = StatusFailed
          then throwE (other ''receiver ended transfer'')
          else seqE (ctx_err E ctx) (await_approval polls E ctx t)
      | Inl _ \<Rightarrow> seqE (ctx_err E ctx) (await_approval polls E ctx t)))"

definition start_sending :: "service \<Rightarrow> transfer \<Rightarrow> transfer tm" where
  "start_sending E t =
     bindE (now E) (\<lambda>n.
     let t1 = t\<lparr>tStatus := StatusSending, tApproved := True, tUpdatedAt := n\<rparr> in
     seqE (saveTransfer E t1) (seqE (logAndPublish E EventResumed t1) (retE t1)))"

definition finalize_remote :: "service \<Rightarrow> transfer \<Rightarrow> unit tm" where
  "finalize_remote E t =
     mapErrE (wrap_err ''finalize remote transfer'')
       (bindE (jsonRequest E ''POST'' (tRemoteAddress t) (transfers_path (tID t) ''/complete'') (tDeviceID t)
           (tSessionToken t) None)
         (\<lambda>answer. bindE (liftE (hTransfer E (take response_limit answer))) (\<lambda>_. retE ())))"

definition complete_outbound :: "service \<Rightarrow> transfer \<Rightarrow> unit tm" where
  "complete_outbound E t =
     seqE (finalize_remote E t)
     (bindE (Get E (tID t)) (\<lambda>latest.
      bindE (finish E (latest\<lparr>tProgress := tSize latest\<rparr>) StatusCompleted [] EventCompleted) (\<lambda>_. retE ())))"

definition send_files ::
  "service \<Rightarrow> nat \<Rightarrow> ((transfer_file \<times> int) list \<Rightarrow> (transfer_file \<times> int) list) \<Rightarrow> transfer \<Rightarrow> resume_map \<Rightarrow> unit tm" where
  "send_files E ctx sched t m =
     bindE (start_sending E t) (\<lambda>t1.
     seqE (eachE (send_task E ctx t1) (sched (pending_tasks (tFiles t1) (rmChunks m))))
     (seqE (ctx_err E ctx) (complete_outbound E t1)))"

definition processOutbound ::
  "nat \<Rightarrow> ((transfer_file \<times> int) list \<Rightarrow> (transfer_file \<times> int) list) \<Rightarrow> service \<Rightarrow> nat \<Rightarrow> string \<Rightarrow> unit option tm" where
  "processOutbound polls sched E ctx i =
     bindE (Get E i) (\<lambda>t.
     bindE (prepare_outbound E t) (\<lambda>t1.
     bindE (connect_outbound E t1) (\<lambda>t2.
     bindE (negotiate_outbound E t2) (\<lambda>t3.
     bindE (await_approval polls E ctx t3) (\<lambda>approved. case approved of
       None \<Rightarrow> retE None
     | Some m \<Rightarrow> bindE (send_files E ctx sched t3 m) (\<lambda>u. retE (Some u)))))))"

section \<open>What a chunk carries\<close>

lemma read_chunk_Inr:
  assumes "read_chunk E f index w = (Inr contents, w')"
  shows "int (length contents) = chunk_length (fSize f) (fChunkSize f) index \<and>
    (\<exists>c. wFs w (fSourcePath f) = Some (NFile c) \<and> 0 \<le> wrap64 (index * fChunkSize f) \<and>
       contents = take (length contents) (drop (nat (wrap64 (index * fChunkSize f))) c))"
  using assms
  by (auto simp: read_chunk_def chunk_slice_def Let_def os_read_file_def
      elim!: bindE_InrE mapErrE_InrE osE_InrE fs_read_InrE liftE_InrE split: option.splits node.splits if_splits)

lemma chunk_length_le: "chunk_length sz cs i \<le> cs"
  by (simp add: chunk_length_def Let_def)

text \<open>A chunk the sender sends is one the receiver accepts. Whatever the sender \<open>E\<close> has for a
  chunk of a file, compressed or not, the receiver \<open>R\<close> that knows the file by the same size and
  chunk size takes the request for that chunk and decodes exactly the same bytes. Of gzip it is
  assumed that it decodes what it encoded, of SHA-256 that it has 32 bytes.\<close>

theorem sent_chunk_accepted:
  assumes n: "int (length contents) = chunk_length (fSize f) (fChunkSize f) index" and "chunk_payload E t f contents = (sent, enc)"
    and "findFile (tFiles r) (fID f) = Some g" "fSize g = fSize f" "fChunkSize g = fChunkSize f"
      "fChunkCount g = fChunkCount f" "\<not> fDirectory g"
    and "0 \<le> index" "index < fChunkCount f" "fChunkSize f \<le> MaximumChunkSize"
    and "length (hSha256 E contents) = 32" "hSha256 R = hSha256 E"
    and gz: "hGunzip R (hGzip E contents) False = Some (contents, False)"
  shows "requested_chunk R r (fID f) index (checksumBytes E contents) enc \<lparr>bBytes = sent, bBroken = False\<rparr> = Inr (g, contents)"
proof -
  let ?n = "chunk_length (fSize f) (fChunkSize f) index"
  have n: "int (length contents) = ?n" "?n \<le> MaximumChunkSize"
    using n chunk_length_le [of "fSize f" "fChunkSize f" index] assms(10) by auto
  have w: "wrap64 (?n + 1) = ?n + 1" using n by (simp add: in64_def MaximumChunkSize_def)
  have lim: "read_limited \<lparr>bBytes = contents, bBroken = False\<rparr> (wrap64 (?n + 1)) = Inr contents"
    using w unfolding n(1) [symmetric] by (simp add: read_limited_def)
  have "chunk_bytes R enc \<lparr>bBytes = sent, bBroken = False\<rparr> ?n = Inr contents"
  proof (cases "enc = []")
    case True
    then have "sent = contents" using assms(2) by (simp add: chunk_payload_def split: if_splits)
    then show ?thesis using True lim by (simp add: chunk_bytes_def)
  next
    case False
    then have e: "enc = ''gzip''" "sent = hGzip E contents" "length sent < length contents"
      using assms(2) by (auto simp: chunk_payload_def split: if_splits)
    then have "int (length sent) < MaximumChunkSize + 1" using n by linarith
    then have "length sent < nat (MaximumChunkSize + 1)" by (simp add: MaximumChunkSize_def)
    then show ?thesis using e gz lim by (simp add: chunk_bytes_def Let_def)
  qed
  moreover have "validSHA256 (checksumBytes E contents)" using assms(11) by (simp add: checksumBytes_def validSHA256_hex)
  moreover have "checksumBytes R contents = checksumBytes E contents" using assms(12) by (simp add: checksumBytes_def)
  ultimately show ?thesis using assms(3-9) n(1) by (simp add: requested_chunk_def Let_def)
qed

section \<open>What a completed worker did\<close>

lemma pending_tasks_iff: "(f, i) \<in> set (pending_tasks fs m) \<longleftrightarrow> f \<in> set fs \<and> \<not> fDirectory f \<and> 0 \<le> i \<and> i < fChunkCount f \<and>
    i \<notin> set (case m (fID f) of None \<Rightarrow> [] | Some is \<Rightarrow> is)"
  by (auto simp: pending_tasks_def file_tasks_def)

lemma db_stable_sender [db_stable]:
  "keeps (\<lambda>w. P (wDb w)) (recordCongestion b)"
  "keeps (\<lambda>w. P (wDb w)) (waitForThrottle E ctx)"
  "keeps (\<lambda>w. P (wDb w)) (remoteStatus Z t)"
  "keeps (\<lambda>w. P (wDb w)) (read_chunk E f index)"
  "keeps (\<lambda>w. P (wDb w)) (chunk_attempt Z t rq)"
  "keeps (\<lambda>w. P (wDb w)) identitySnapshot"
  "keeps (\<lambda>w. P (wDb w)) (send_offer Z t oo)"
  "keeps (\<lambda>w. P (wDb w)) (finalize_remote Z t)"
  unfolding recordCongestion_def waitForThrottle_def remoteStatus_def read_chunk_def chunk_attempt_def identitySnapshot_def
    send_offer_def finalize_remote_def Let_def
  by (intro keeps_rules db_stable keeps_mod; simp)+

lemma db_stable_attempts [db_stable]: "keeps (\<lambda>w. P (wDb w)) (chunk_attempts Z ctx t rq ks e)"
  by (induction ks arbitrary: e) (auto intro!: keeps_rules db_stable)

lemma db_stable_sendChunk [db_stable]: "keeps (\<lambda>w. P (wDb w)) (sendChunk Z ctx t f index)"
  unfolding sendChunk_def by (intro keeps_rules db_stable)

lemma db_stable_await [db_stable]: "keeps (\<lambda>w. P (wDb w)) (await_approval polls Z ctx t)"
proof (induction polls)
  case 0
  show ?case unfolding await_approval.simps by (rule keeps_ret)
next
  case (Suc polls)
  show ?case unfolding await_approval.simps by (intro keeps_rules db_stable Suc)
qed

text \<open>What every save and every complete chunk of the transfer keeps, the worker keeps.\<close>

definition survives :: "string \<Rightarrow> (tdb \<Rightarrow> bool) \<Rightarrow> bool" where
  "survives i P \<longleftrightarrow> (\<forall>d t. P d \<longrightarrow> P (SaveTransfer t d)) \<and>
     (\<forall>d c. P d \<longrightarrow> kTransferID c = i \<longrightarrow> kStatus c = ChunkComplete \<longrightarrow> P (SaveChunk c d))"

lemma survives_save: "survives i P \<Longrightarrow> keeps (\<lambda>w. P (wDb w)) (saveTransfer E t)"
  by (simp add: survives_def keeps_saveTransfer)

lemma survives_chunk: "survives i P \<Longrightarrow> tID t = i \<Longrightarrow> keeps (\<lambda>w. P (wDb w)) (saveChunk E (sent_chunk t f k n))"
  by (simp add: survives_def keeps_saveChunk sent_chunk_def)

lemma survives_finish: "survives i P \<Longrightarrow> keeps (\<lambda>w. P (wDb w)) (finish E t st msg k)"
  unfolding finish_def Let_def by (intro keeps_rules db_stable survives_save)

lemma survives_refresh: "survives i P \<Longrightarrow> keeps (\<lambda>w. P (wDb w)) (refreshProgress E t n)"
  unfolding refreshProgress_def Let_def by (intro keeps_rules db_stable survives_save)

lemma survives_note: "survives i P \<Longrightarrow> keeps (\<lambda>w. P (wDb w)) (note_progress E j)"
  unfolding note_progress_def by (intro keeps_rules db_stable survives_refresh)

lemma survives_task: "survives i P \<Longrightarrow> tID t = i \<Longrightarrow> keeps (\<lambda>w. P (wDb w)) (send_task E ctx t task)"
  unfolding send_task_def by (intro keeps_rules db_stable survives_chunk survives_note)

lemma survives_worker: "survives i P \<Longrightarrow> keeps (\<lambda>w. P (wDb w)) (prepare_outbound E t)"
  "survives i P \<Longrightarrow> keeps (\<lambda>w. P (wDb w)) (connect_outbound E t)"
  "survives i P \<Longrightarrow> keeps (\<lambda>w. P (wDb w)) (negotiate_outbound E t)"
  "survives i P \<Longrightarrow> keeps (\<lambda>w. P (wDb w)) (start_sending E t)"
  unfolding prepare_outbound_def connect_outbound_def negotiate_outbound_def start_sending_def Let_def
  by (intro keeps_rules db_stable survives_save; assumption)+

definition has_chunk :: "string \<Rightarrow> transfer_file \<times> int \<Rightarrow> tdb \<Rightarrow> bool" where
  "has_chunk i task d \<longleftrightarrow> db_inv d \<and>
     (\<exists>c \<in> set (ListChunks d i). kFileID c = fID (fst task) \<and> kIndex c = snd task \<and> kStatus c = ChunkComplete)"

lemma survives_inv: "survives i db_inv"
  by (simp add: survives_def db_inv_save db_inv_chunk)

lemma survives_has_chunk: "survives i (has_chunk i task)"
proof -
  have "has_chunk i task (SaveChunk c d)"
    if h: "has_chunk i task d" and c: "kTransferID c = i" "kStatus c = ChunkComplete" for d c
  proof -
    obtain k where k: "k \<in> set (ListChunks d i)" "kFileID k = fID (fst task)" "kIndex k = snd task"
      "kStatus k = ChunkComplete" using h by (auto simp: has_chunk_def)
    show ?thesis
    proof (cases "chunk_key_of k = chunk_key_of c")
      case True
      then have "kFileID c = fID (fst task)" "kIndex c = snd task" using k by (simp_all add: chunk_key_of_def)
      then show ?thesis using h c by (auto simp: has_chunk_def db_inv_chunk sqlite.chunks_put)
    next
      case False
      then show ?thesis using h c k by (auto simp: has_chunk_def db_inv_chunk sqlite.chunks_put)
    qed
  qed
  then show ?thesis by (auto simp: survives_def has_chunk_def db_inv_save sqlite.chunks_save)
qed

lemma send_task_Inr:
  assumes "send_task E ctx t task w = (Inr (), w')" "db_inv (wDb w)"
  shows "has_chunk (tID t) task (wDb w')"
proof -
  obtain u w1 n w2 x w3 where s: "sendChunk E ctx t (fst task) (snd task) w = (Inr u, w1)" "(now E :: time tm) w1 = (Inr n, w2)"
    "saveChunk E (sent_chunk t (fst task) (snd task) n) w2 = (Inr x, w3)"
    and r: "note_progress E (tID t) w3 = (Inr (), w')"
    using assms(1) unfolding send_task_def
    by (elim seqE_InrE bindE_InrE) (rule that, assumption+)
  have "db_inv (wDb w1)" by (rule keepsD [OF db_stable_sendChunk [where P = db_inv] assms(2) s(1)])
  then have "has_chunk (tID t) task (wDb w3)"
    using s(2,3) by (auto elim!: now_InrE saveChunk_InrE simp: has_chunk_def db_inv_chunk sqlite.chunks_put sent_chunk_def)
  then show ?thesis
    by (rule keepsD [OF survives_note [OF survives_has_chunk] _ r])
qed

lemma send_tasks_Inr:
  assumes "eachE (send_task E ctx t) tasks w = (Inr (), w')" "db_inv (wDb w)"
  shows "db_inv (wDb w') \<and> (\<forall>task \<in> set tasks. has_chunk (tID t) task (wDb w'))"
  using assms
proof (induction tasks arbitrary: w)
  case (Cons x xs)
  from Cons.prems(1) obtain w1 where 1: "send_task E ctx t x w = (Inr (), w1)" "eachE (send_task E ctx t) xs w1 = (Inr (), w')"
    by (auto elim!: seqE_InrE)
  have x: "has_chunk (tID t) x (wDb w1)" by (rule send_task_Inr [OF 1(1) Cons.prems(2)])
  have "keeps (\<lambda>w. has_chunk (tID t) x (wDb w)) (eachE (send_task E ctx t) xs)"
    by (intro keeps_each survives_task [OF survives_has_chunk refl])
  from keepsD [OF this x 1(2)] x Cons.IH [OF 1(2)] show ?case by (auto simp: has_chunk_def)
qed simp

lemma worker_Inr:
  assumes "processOutbound polls sched E ctx i w = (Inr (Some u), w')"
  shows "\<exists>t0 w0 t1 w1 t2 w2 t3 w3 m w4. Get E i w = (Inr t0, w0) \<and> prepare_outbound E t0 w0 = (Inr t1, w1) \<and>
    connect_outbound E t1 w1 = (Inr t2, w2) \<and> negotiate_outbound E t2 w2 = (Inr t3, w3) \<and>
    await_approval polls E ctx t3 w3 = (Inr (Some m), w4) \<and> send_files E ctx sched t3 m w4 = (Inr u, w')"
proof -
  obtain t0 w0 t1 w1 t2 w2 t3 w3 mo w4 where s: "Get E i w = (Inr t0, w0)" "prepare_outbound E t0 w0 = (Inr t1, w1)"
    "connect_outbound E t1 w1 = (Inr t2, w2)" "negotiate_outbound E t2 w2 = (Inr t3, w3)"
    "await_approval polls E ctx t3 w3 = (Inr mo, w4)"
    and r: "(case mo of None \<Rightarrow> retE None
       | Some m \<Rightarrow> bindE (send_files E ctx sched t3 m) (\<lambda>u. retE (Some u))) w4 = (Inr (Some u), w')"
    using assms unfolding processOutbound_def by (elim bindE_InrE) (rule that, assumption+)
  obtain m where "mo = Some m" using r by (cases mo) auto
  then show ?thesis using s r by (auto elim!: bindE_InrE)
qed

lemma worker_keeps_files:
  "connect_outbound E t w = (Inr t', w') \<Longrightarrow> tFiles t' = tFiles t \<and> tID t' = tID t"
  "negotiate_outbound E t w = (Inr t', w') \<Longrightarrow> tFiles t' = tFiles t \<and> tID t' = tID t"
  "start_sending E t w = (Inr t', w') \<Longrightarrow> tFiles t' = tFiles t \<and> tID t' = tID t"
  "prepare_outbound E t w = (Inr t', w') \<Longrightarrow> tID t' = tID t"
  by (auto simp: connect_outbound_def negotiate_outbound_def start_sending_def prepare_outbound_def connecting_def Let_def
      elim!: bindE_InrE seqE_InrE guardE_InrE split: option.splits if_splits prod.splits)

lemma await_approved:
  "await_approval polls E ctx t w = (Inr (Some m), w') \<Longrightarrow>
     rmApproved m \<and> (rmStatus m = StatusReceiving \<or> rmStatus m = StatusResuming)"
proof (induction polls arbitrary: w)
  case (Suc polls)
  from Suc.prems show ?case
    by (auto elim!: seqE_InrE bindE_InrE dest: Suc.IH split: sum.splits if_splits)
qed simp

lemma complete_outbound_Inr:
  assumes "complete_outbound E t w = (Inr u, w')" "db_inv (wDb w)"
  shows "\<exists>t'. GetTransfer (wDb w') (tID t) = Inr t' \<and> tStatus t' = StatusCompleted \<and> tProgress t' = tSize t' \<and>
    tError t' = [] \<and> (\<forall>x. has_chunk (tID t) x (wDb w) \<longrightarrow> has_chunk (tID t) x (wDb w'))"
proof -
  obtain a w1 latest w2 t' w3 where s: "finalize_remote E t w = (Inr a, w1)" "Get E (tID t) w1 = (Inr latest, w2)"
    "finish E (latest\<lparr>tProgress := tSize latest\<rparr>) StatusCompleted [] EventCompleted w2 = (Inr t', w3)" "w' = w3"
    using assms(1) unfolding complete_outbound_def by (auto elim!: bindE_InrE seqE_InrE)
  obtain n where f: "t' = finished (latest\<lparr>tProgress := tSize latest\<rparr>) StatusCompleted [] n"
    "wDb w' = SaveTransfer t' (wDb w2)"
    using s(3,4) by (auto elim: finish_InrE)
  have d1: "wDb w1 = wDb w"
    by (rule keepsD [OF db_stable_sender(8) [where P = "\<lambda>d. d = wDb w"] refl s(1)])
  have l: "tID latest = tID t" "wDb w2 = wDb w" using s(2) d1 by (auto elim!: Get_InrE simp: GetTransfer_id)
  have inv: "db_inv (wDb w2)" using assms(2) l by simp
  have "GetTransfer (wDb w') (tID t) = Inr (by_path (persist (lookup (wDb w2) (tID t)) t'))"
    using sqlite.find_save [OF inv, of t' "tID t"] f l by (simp add: GetTransfer_lookup)
  moreover have "has_chunk (tID t) x (wDb w')" if "has_chunk (tID t) x (wDb w)" for x
    using survives_has_chunk [of "tID t" x] that f(2) l(2) by (simp add: survives_def)
  ultimately show ?thesis using f(1) by simp
qed


section \<open>An example\<close>

definition sample_sent_file :: transfer_file where
  "sample_sent_file = \<lparr>fID = ''f1'', fRelativePath = ''a.txt'', fDirectory = False, fSourcePath = ''/in/a.txt'',
     fDestinationPath = [], fSize = 5, fChecksum = [], fChunkSize = 4194304, fChunkCount = 1\<rparr>"

definition sample_outbound :: transfer where
  "sample_outbound = transfer_zero\<lparr>tID := ''q1'', tDeviceID := ''peer'', tFiles := [sample_sent_file], tSize := 5,
     tStatus := StatusQueued, tApproved := True, tChunkSize := 4194304, tSessionToken := ''tok''\<rparr>"

definition sample_sender :: service where
  "sample_sender = sample_service\<lparr>sPeerScheme := ''http'',
     hHttp := (\<lambda>_ _. Inr \<lparr>hsCerts = [], hsCode = 200, hsStatus = ''200 OK'', hsBody = ''{}''\<rparr>),
     hOfferResponse := (\<lambda>_. Inr \<lparr>orTransferID = ''q1'', orStatus = StatusQueued, orApproved = False\<rparr>),
     hResumeMap := (\<lambda>_. Inr \<lparr>rmTransferID = ''q1'', rmStatus = StatusReceiving, rmApproved = True, rmChunks = Map.empty\<rparr>),
     hTransfer := (\<lambda>_. Inr transfer_zero)\<rparr>"

definition sample_outbound_world :: tworld where
  "sample_outbound_world = sample_world\<lparr>wDb := SaveTransfer sample_outbound empty_db\<rparr>"

theorem sent_chunk_accepted_witness:
  "\<exists>w'. read_chunk sample_sender sample_sent_file 0 sample_world = (Inr ''hello'', w') \<and>
     requested_chunk sample_sender sample_outbound ''f1'' 0 (checksumBytes sample_sender ''hello'') []
       \<lparr>bBytes = ''hello'', bBroken = False\<rparr> = Inr (sample_sent_file, ''hello'')"
proof -
  have s: "quiet sample_sender" "hSha256 sample_sender = pad32" "hGzip sample_sender = id"
    "hGunzip sample_sender = (\<lambda>s b. Some (s, b))"
    by (simp_all add: quiet_def sample_sender_def sample_service_def)
  have "\<exists>w'. read_chunk sample_sender sample_sent_file 0 sample_world = (Inr ''hello'', w')"
    by (simp add: read_chunk_def bindE_def mapErrE_def osE_def s quiet_calls chunk_slice_def chunk_length_def Let_def
        sample_sent_file_def sample_world_def os_read_file_def in64_def)
  then obtain w' where r: "read_chunk sample_sender sample_sent_file 0 sample_world = (Inr ''hello'', w')" by blast
  have p: "chunk_payload sample_sender sample_outbound sample_sent_file ''hello'' = (''hello'', [])"
    by (simp add: chunk_payload_def sample_outbound_def transfer_zero_def)
  have f: "findFile (tFiles sample_outbound) (fID sample_sent_file) = Some sample_sent_file"
    by (simp add: sample_outbound_def)
  show ?thesis
    using r sent_chunk_accepted [OF conjunct1 [OF read_chunk_Inr [OF r]] p f, of sample_sender]
    by (simp add: s) (simp add: sample_sent_file_def MaximumChunkSize_def)
qed

lemma sample_sender_simps [simp]:
  "quiet sample_sender" "hUuidOk sample_sender i = (i \<noteq> [])" "hDevices sample_sender k = [sample_peer]"
  "sPeerScheme sample_sender = ''http''" "hSharedKey sample_sender k d = Inr ''key''"
  "hHttp sample_sender k rq = Inr \<lparr>hsCerts = [], hsCode = 200, hsStatus = ''200 OK'', hsBody = ''{}''\<rparr>"
  "hOfferResponse sample_sender x = Inr \<lparr>orTransferID = ''q1'', orStatus = StatusQueued, orApproved = False\<rparr>"
  "hResumeMap sample_sender x =
     Inr \<lparr>rmTransferID = ''q1'', rmStatus = StatusReceiving, rmApproved = True, rmChunks = Map.empty\<rparr>"
  "hTransfer sample_sender x = Inr transfer_zero" "hOfferJson sample_sender oo = Inr (oTransferID oo)"
  "hFault sample_sender k = None"
  by (simp_all add: quiet_def sample_sender_def sample_service_def)

lemma sample_json: "jsonRequest sample_sender verb addr path d token None w = (Inr ''{}'', bump w)"
  by (simp add: jsonRequest_def bindE_def seqE_def peerClient_def client_do_def outsideE_run)

lemma sample_offer_json: "\<exists>w'. jsonRequest sample_sender verb addr path d [] (Some oo) w = (Inr ''{}'', w') \<and>
    wDb w' = wDb w \<and> wFs w' = wFs w \<and> wCancelled w' = wCancelled w \<and> wThrottle w' = wThrottle w"
  by (simp add: jsonRequest_def bindE_def seqE_def peerClient_def client_do_def call_runs sign_offer_def Let_def)

lemma sample_attempt: "chunk_attempt sample_sender t rq w = (Inr None, bump w)"
  by (simp add: chunk_attempt_def bindE_def seqE_def peerClient_def client_do_def outsideE_run tryE_def)

lemma sample_send: "wFs w = wFs sample_world \<Longrightarrow> wThrottle w = 0 \<Longrightarrow>
    \<exists>w'. sendChunk sample_sender ctx t sample_sent_file 0 w = (Inr (), w') \<and> wDb w' = wDb w \<and> wCancelled w' = wCancelled w"
  by (simp add: sendChunk_def read_chunk_def bindE_def mapErrE_def osE_def quiet_calls chunk_slice_def chunk_length_def Let_def
      sample_sent_file_def sample_world_def os_read_file_def in64_def chunkRetryLimit_def upto.simps waitForThrottle_def seqE_def
      sample_attempt recordCongestion_def)

lemma sample_task:
  assumes "wFs w = wFs sample_world" "wThrottle w = 0" "tID t = ''q1''"
  shows "\<exists>w'. send_task sample_sender ctx t (sample_sent_file, 0) w = (Inr (), w') \<and> wCancelled w' = wCancelled w"
proof -
  obtain w1 where 1: "sendChunk sample_sender ctx t sample_sent_file 0 w = (Inr (), w1)" "wCancelled w1 = wCancelled w"
    using sample_send [OF assms(1,2)] by blast
  have "\<exists>w'. note_progress sample_sender i v = (Inr (), w') \<and> wCancelled w' = wCancelled v" for i v
  proof -
    have r: "\<exists>r w'. refreshProgress sample_sender x m v = (r, w') \<and> wCancelled w' = wCancelled v" for x m v
      by (cases "GetTransfer (wDb v) (tID x)")
        (auto simp: refreshProgress_def bindE_def seqE_def quiet_calls call_runs Let_def)
    have g: "\<exists>r w'. Get sample_sender i v = (r, w') \<and> wCancelled w' = wCancelled v"
      by (simp add: Get_def seqE_def bindE_def validateDeviceID_def quiet_calls guardE_def)
    obtain x v1 where g: "Get sample_sender i v = (x, v1)" "wCancelled v1 = wCancelled v" using g by blast
    show ?thesis
    proof (cases x)
      case (Inl e)
      then show ?thesis using g by (simp add: note_progress_def bindE_def tryE_def)
    next
      case (Inr y)
      obtain z v2 where "refreshProgress sample_sender y (hNow sample_sender (wTick v1)) (bump v1) = (z, v2)"
        "wCancelled v2 = wCancelled v1" using r [of y "hNow sample_sender (wTick v1)" "bump v1"] by auto
      then show ?thesis using g Inr by (simp add: note_progress_def bindE_def tryE_def now_run)
    qed
  qed
  then obtain w2 where "note_progress sample_sender ''q1''
      ((bump (bump w1))\<lparr>wDb := SaveChunk (sent_chunk t sample_sent_file 0 (hNow sample_sender (wTick w1))) (wDb w1)\<rparr>) =
      (Inr (), w2)" "wCancelled w2 = wCancelled w" using 1(2) by fastforce
  then show ?thesis
    using 1 assms(3) by (simp add: send_task_def seqE_def bindE_def now_run quiet_calls)
qed

text \<open>What the stages of the example leave alone.\<close>

definition sample_ready :: "tworld \<Rightarrow> bool" where
  "sample_ready w \<longleftrightarrow> wFs w = wFs sample_world \<and> wThrottle w = 0 \<and> wCancelled w = [] \<and> wPinned w = Map.empty"

lemma sample_ready_bump [simp]: "sample_ready (bump w) = sample_ready w"
  "sample_ready (w\<lparr>wDb := d\<rparr>) = sample_ready w" "sample_ready (w\<lparr>wEvents := e\<rparr>) = sample_ready w"
  by (simp_all add: sample_ready_def)

definition sample_sending :: "transfer \<Rightarrow> bool" where
  "sample_sending t \<longleftrightarrow> tID t = ''q1'' \<and> tDeviceID t = ''peer'' \<and> tSessionToken t = ''tok'' \<and> tFiles t = [sample_sent_file]"

lemma sample_connect:
  assumes "sample_ready w" "sample_sending t"
  shows "\<exists>t' w'. connect_outbound sample_sender t w = (Inr t', w') \<and> sample_ready w' \<and> sample_sending t'"
  using assms
  by (simp add: connect_outbound_def peer_def bindE_def seqE_def call_runs Let_def sample_sending_def sample_peer_def
      connecting_def)

lemma sample_negotiate:
  assumes "sample_ready w" "sample_sending t"
  shows "\<exists>t' w'. negotiate_outbound sample_sender t w = (Inr t', w') \<and> sample_ready w' \<and> sample_sending t'"
  using assms
  by (simp add: negotiate_outbound_def identitySnapshot_def bindE_def seqE_def call_runs Let_def sample_sending_def
      send_offer_def mapErrE_def jsonRequest_def peerClient_def client_do_def sign_offer_def sample_ready_def)

lemma sample_await:
  assumes "sample_ready w"
  shows "\<exists>w'. await_approval 1 sample_sender 0 t w = (Inr (Some \<lparr>rmTransferID = ''q1'', rmStatus = StatusReceiving,
    rmApproved = True, rmChunks = Map.empty\<rparr>), w') \<and> sample_ready w'"
  using assms
  by (simp add: One_nat_def seqE_def bindE_def ctx_err_def tryE_def remoteStatus_def sample_json sample_ready_def)

lemma sample_finish:
  assumes "sample_ready w" "sample_sending t" "db_inv (wDb w)" "lookup (wDb w) ''q1'' = Some x"
  shows "\<exists>w'. send_files sample_sender 0 id t \<lparr>rmTransferID = ''q1'', rmStatus = StatusReceiving, rmApproved = True,
    rmChunks = Map.empty\<rparr> w = (Inr (), w')"
proof -
  obtain t1 w1 where 1: "start_sending sample_sender t w = (Inr t1, w1)" "sample_ready w1" "sample_sending t1"
    using assms(1,2) by (simp add: start_sending_def bindE_def seqE_def call_runs Let_def sample_sending_def)
  obtain w2 where 2: "send_task sample_sender 0 t1 (sample_sent_file, 0) w1 = (Inr (), w2)" "wCancelled w2 = []"
    using sample_task [of w1 t1 0] 1 by (auto simp: sample_ready_def sample_sending_def)
  let ?P = "\<lambda>d. db_inv d \<and> lookup d ''q1'' \<noteq> None"
  have P: "survives ''q1'' ?P"
    by (auto simp: survives_def db_inv_save db_inv_chunk sqlite.find_save sqlite.find_put)
  have "?P (wDb w1)" by (rule keepsD [OF survives_worker(4) [OF P] _ 1(1)]) (use assms(3,4) in simp)
  from keepsD [OF survives_task [OF P] this 2(1)] have "?P (wDb w2)" using 1(3) by (simp add: sample_sending_def)
  then obtain y where y: "GetTransfer (wDb w2) ''q1'' = Inr (by_path y)" by (auto simp: GetTransfer_lookup)
  have "pending_tasks (tFiles t1) Map.empty = [(sample_sent_file, 0)]"
    using 1(3) by (simp add: sample_sending_def pending_tasks_def file_tasks_def sample_sent_file_def)
  then show ?thesis
    using 1 2 y
    by (simp add: send_files_def bindE_def seqE_def ctx_err_def complete_outbound_def finalize_remote_def mapErrE_def
        sample_json Get_def sample_sending_def quiet_calls finish_def call_runs Let_def)
qed


end
