(* ===== verification/TransferExchange.thy ===== *)
theory TransferExchange
  imports TransferSender TransferOffers
begin

text \<open>
  Two transfer engines, a sender \<open>S\<close> and a receiver \<open>R\<close>: what one side of \<open>sender.go\<close> produces is what
  the handlers of \<open>service.go\<close> on the other side understand.
\<close>

section \<open>What the two engines share\<close>

text \<open>
  Both are built from the same libraries: the same HMAC, digest and case folding, and gzip decodes what it encoded. An identifier the sender
  makes up is a UUID. \<open>received\<close> is what the receiver decodes of an offer: the paths on the disk of the
  sender have the tag \<open>json:"-"\<close>; encoding the decoded offer gives the same text.
\<close>

definition received :: "offer \<Rightarrow> offer" where
  "received oo = oo\<lparr>oFiles := map on_wire (oFiles oo)\<rparr>"

definition same_libraries :: "service \<Rightarrow> service \<Rightarrow> bool" where
  "same_libraries S R \<longleftrightarrow> hLower R = hLower S \<and> hHmac R = hHmac S \<and> hSha256 R = hSha256 S \<and>
     (\<forall>c. length (hSha256 S c) = 32) \<and> (\<forall>c. hGunzip R (hGzip S c) False = Some (c, False)) \<and> (\<forall>n. hUuid S n \<noteq> [] \<and> hUuidOk R (hUuid S n)) \<and>
     (\<forall>oo enc. hOfferJson S oo = Inr enc \<longrightarrow> hOfferJson R (received oo) = Inr enc)"

text \<open>The receiver, as it reads an offer, trusts the sender, holds the key of their pairing and sees it online.\<close>

definition knows_sender :: "service \<Rightarrow> nat \<Rightarrow> string \<Rightarrow> string \<Rightarrow> string \<Rightarrow> bool" where
  "knows_sender R k i remote key \<longleftrightarrow> hUuidOk R i \<and> hTrusted R k i = Inr True \<and> hSharedKey R (k + 2) i = Inr key \<and>
     (\<exists>p. find_first (\<lambda>d. dID d = i) (hDevices R (k + 4)) = Some p \<and> dOnline p \<and> sameIP (dLocalIP p) remote)"

section \<open>The headers of an offer\<close>

fun header_value :: "string \<Rightarrow> (string \<times> string) list \<Rightarrow> string" where
  "header_value k [] = []"
| "header_value k ((n, v) # hs) = (if n = k then v else header_value k hs)"

definition authentication_of :: "(string \<times> string) list \<Rightarrow> peer_authentication" where
  "authentication_of hs = \<lparr>paDeviceID = header_value ''X-SyncSpace-Device-ID'' hs,
     paTimestamp = header_value ''X-SyncSpace-Timestamp'' hs, paNonce = header_value ''X-SyncSpace-Nonce'' hs,
     paSignature = header_value ''X-SyncSpace-Signature'' hs\<rparr>"

text \<open>The headers the sender signs an offer with carry its authentication over to the receiver.\<close>

lemma sign_offer_authentication:
  assumes "sign_offer S verb path dest oo enc w = (Inr hs, w')"
  obtains key where "hSharedKey S (wTick w) dest = Inr key"
    "authentication_of hs = \<lparr>paDeviceID = oDeviceID oo, paTimestamp = int_dec (unix (hNow S (wTick w + 1))),
       paNonce = hUuid S (wTick w + 2),
       paSignature = offerSignature S key verb path (oDeviceID oo) (int_dec (unix (hNow S (wTick w + 1))))
         (hUuid S (wTick w + 2)) enc\<rparr>"
  using assms
  by (auto simp: sign_offer_def bindE_def call_runs Let_def authentication_of_def numeral_eq_Suc split: sum.splits)

section \<open>An offer of an honest sender\<close>

lemma signature_shared:
  assumes "hHmac R = hHmac S" "hSha256 R = hSha256 S"
  shows "validOfferSignature R key \<lparr>paDeviceID = d, paTimestamp = ts, paNonce = x,
     paSignature = offerSignature S key verb path d ts x content\<rparr> verb path content"
  using honest_signature [of R key d ts x verb path content] assms
  by (simp add: offerSignature_def canonical_def)

lemma fresh_time:
  assumes "in64 s" "\<bar>unix n - s\<bar> \<le> 120"
  shows "validProtocolTime (int_dec s) n"
proof -
  have "in64 (unix n - s)" "in64 (- (unix n - s))" using assms(2) by (auto simp: in64_def abs_le_iff)
  then show ?thesis using assms
    by (simp only: validProtocolTime_def parse_int_dec option.case Let_def wrap64_id) (simp add: abs_le_iff)
qed

lemma authenticate_offer_honest:
  assumes "hUuidOk R (oTransferID oo)" "knows_sender R (wTick u) (oDeviceID oo) remote key" "paDeviceID auth = oDeviceID oo"
    and "validProtocolTime (paTimestamp auth) (hNow R (wTick u + 1))" "paNonce auth \<noteq> []" "hOfferJson R oo = Inr enc"
    and "validOfferSignature R key auth ''POST'' offers_path enc" "wNonces u (paNonce auth) = None"
  shows "\<exists>u1. authenticate_offer R oo auth u = (Inr (), u1) \<and> wDb u1 = wDb u \<and> wTick u1 = wTick u + 4"
proof -
  have "\<exists>u1. authenticate_offer R oo auth u = (Inr (), u1)"
    using assms unfolding knows_sender_def
    by (auto simp: authenticate_offer_def bindE_def seqE_def tryE_def validateDeviceID_def useAuthenticationNonce_def
        call_runs prune_def numeral_eq_Suc Let_def)
  then obtain u1 where a: "authenticate_offer R oo auth u = (Inr (), u1)" by blast
  moreover have "wDb u1 = wDb u" using keepsD [OF db_stable_checks(4) [where P = "\<lambda>d. d = wDb u"] _ a] by simp
  ultimately show ?thesis using authenticate_offer_Inr(3) [OF a] by blast
qed

lemma admit_offer_honest:
  assumes "quiet R" "find_first (\<lambda>d. dID d = oDeviceID oo) (hDevices R (wTick u)) = Some p" "dOnline p"
    "sameIP (dLocalIP p) remote" "offer_labels oo = Inr ()" "check_files R (oChunkSize oo) ([], 0) (oFiles oo) = Inr (ks, oSize oo)"
    "GetTransfer (wDb u) (oTransferID oo) = Inl (plain ErrNotFound)"
  shows "\<exists>n u'. admit_offer R oo remote u = (Inr (offered_transfer R oo p remote n), u')"
  using assms(2-7) by (intro exI [of _ "hNow R (Suc (Suc (wTick u)))"])
    (simp add: admit_offer_def record_offer_def peer_run bindE_def seqE_def tryE_def call_runs quiet_calls [OF assms(1)] Let_def)

text \<open>What an honest sender puts into its offer.\<close>

definition presentable :: "service \<Rightarrow> sender_identity \<Rightarrow> transfer \<Rightarrow> bool" where
  "presentable R i t \<longleftrightarrow> hUuidOk R (tID t) \<and> trim_space (iName i) \<noteq> [] \<and> length (iName i) \<le> 128 \<and>
     length (iHostname i) \<le> 255 \<and> length (iPlatform i) \<le> 64 \<and> trim_space (tFilename t) \<noteq> [] \<and>
     length (tFilename t) \<le> 512 \<and> tFiles t \<noteq> [] \<and> 0 \<le> tSize t \<and> 32 \<le> length (tSessionToken t)"

lemma presentable_labels:
  "presentable R i t \<Longrightarrow> 0 < tChunkSize t \<Longrightarrow> tChunkSize t \<le> MaximumChunkSize \<Longrightarrow>
     offer_labels (received (offer_of i t)) = Inr ()"
  by (simp add: presentable_def offer_labels_def received_def offer_of_def)

lemma honest_offer_run:
  assumes "same_libraries S R" "quiet R" "presentable R i t"
    and "buildManifest S paths (tChunkSize t) m = (Inr (tFiles t, tSize t, agg), m')"
    and "hOfferJson S (offer_of i t) = Inr enc"
    and "sign_offer S ''POST'' offers_path (tDeviceID t) (offer_of i t) enc v = (Inr headers, v')"
    and "knows_sender R (wTick u) (iID i) remote key" "hSharedKey S (wTick v) (tDeviceID t) = Inr key"
    and "in64 (unix (hNow S (wTick v + 1)))"
    and "\<bar>unix (hNow R (wTick u + 1)) - unix (hNow S (wTick v + 1))\<bar> \<le> 120"
    and "wNonces u (hUuid S (wTick v + 2)) = None" "GetTransfer (wDb u) (tID t) = Inl (plain ErrNotFound)"
  shows "\<exists>r u'. ReceiveOffer R (received (offer_of i t)) remote (authentication_of headers) u = (Inr r, u') \<and>
    tID r = tID t \<and> tDeviceID r = iID i \<and> tDirection r = DirectionInbound \<and> tStatus r = StatusQueued \<and> \<not> tApproved r \<and>
    tFiles r = map on_wire (tFiles t) \<and> tSize r = tSize t \<and> tChunkSize r = tChunkSize t \<and>
    tokenMatches R (tSessionTokenHash r) (tSessionToken t)"
proof -
  let ?o = "received (offer_of i t)" and ?a = "authentication_of headers"
  have o: "oTransferID ?o = tID t" "oDeviceID ?o = iID i" "oFiles ?o = map on_wire (tFiles t)" "oSize ?o = tSize t"
    "oChunkSize ?o = tChunkSize t" by (simp_all add: received_def offer_of_def)
  have lib: "hLower R = hLower S" "hHmac R = hHmac S" "hSha256 R = hSha256 S" "\<forall>n. hUuidOk R (hUuid S n)" "\<forall>n. hUuid S n \<noteq> []"
    "\<forall>c. length (hSha256 S c) = 32" "hOfferJson R ?o = Inr enc"
    using assms(1,5) by (simp_all add: same_libraries_def)
  obtain key' where "hSharedKey S (wTick v) (tDeviceID t) = Inr key'" and
    a: "?a = \<lparr>paDeviceID = oDeviceID (offer_of i t), paTimestamp = int_dec (unix (hNow S (wTick v + 1))),
       paNonce = hUuid S (wTick v + 2), paSignature = offerSignature S key' ''POST'' offers_path (oDeviceID (offer_of i t))
         (int_dec (unix (hNow S (wTick v + 1)))) (hUuid S (wTick v + 2)) enc\<rparr>"
    by (rule sign_offer_authentication [OF assms(6)])
  then have k: "key' = key" using assms(8) by simp
  have sig: "validOfferSignature R key ?a ''POST'' offers_path enc"
    unfolding a k by (rule signature_shared [OF lib(2,3)])
  have time: "validProtocolTime (paTimestamp ?a) (hNow R (wTick u + 1))"
    using fresh_time [OF assms(9,10)] by (simp add: a)
  have au: "paDeviceID ?a = iID i" "paNonce ?a = hUuid S (wTick v + 2)" by (simp_all add: a offer_of_def)
  have "\<exists>u1. authenticate_offer R ?o ?a u = (Inr (), u1) \<and> wDb u1 = wDb u \<and> wTick u1 = wTick u + 4"
    using assms(3,7,11) lib(5,7) sig time
    by (intro authenticate_offer_honest [where key = key and enc = enc and remote = remote])
      (simp_all add: o au presentable_def)
  then obtain u1 where u1: "authenticate_offer R ?o ?a u = (Inr (), u1)" "wDb u1 = wDb u" "wTick u1 = wTick u + 4" by blast
  obtain p where p: "find_first (\<lambda>d. dID d = iID i) (hDevices R (wTick u + 4)) = Some p" "dOnline p" "sameIP (dLocalIP p) remote"
    using assms(7) by (auto simp: knows_sender_def)
  obtain ks where ks: "check_files R (tChunkSize t) ([], 0) (map on_wire (tFiles t)) = Inr (ks, tSize t)"
    using manifest_acceptable [OF assms(4) lib(1,4,6)] by blast
  have l: "offer_labels ?o = Inr ()"
    using manifest_facts [OF assms(4)] by (intro presentable_labels [OF assms(3)]) simp_all
  have "\<exists>n u'. admit_offer R ?o remote u1 = (Inr (offered_transfer R ?o p remote n), u')"
    using p u1 ks l assms(12) by (intro admit_offer_honest [OF assms(2)]) (simp_all add: o)
  then obtain n u' where "ReceiveOffer R ?o remote ?a u = (Inr (offered_transfer R ?o p remote n), u')"
    by (auto simp: ReceiveOffer_def seqE_def bindE_def u1(1))
  then show ?thesis
    by (intro exI [of _ "offered_transfer R ?o p remote n"] exI [of _ u'])
      (simp add: offered_transfer_def transfer_zero_def Let_def o received_def offer_of_def tokenMatches_iff)
qed


section \<open>Example\<close>

lemma sample_libraries: "same_libraries sample_service sample_service"
  by (simp add: same_libraries_def received_def sample_service_def)

lemma sample_knows: "knows_sender sample_service k ''peer'' ''10.0.0.2'' ''key''"
proof -
  have "sameIP ''10.0.0.2'' ''10.0.0.2''" by code_simp
  then show ?thesis by (simp add: knows_sender_def sample_service_def sample_peer_def)
qed

definition sample_peer_identity :: sender_identity where
  "sample_peer_identity = \<lparr>iID = ''peer'', iName = ''Peer'', iHostname = [], iPlatform = []\<rparr>"

definition sample_announced :: "transfer_file list \<Rightarrow> transfer" where
  "sample_announced files = transfer_zero\<lparr>tID := ''t1'', tDeviceID := ''me'', tFilename := ''in'', tFiles := files, tSize := 5,
    tChunkSize := 4, tSessionToken := replicate 32 CHR ''k''\<rparr>"

lemma sample_announced_simps [simp]:
  "tID (sample_announced files) = ''t1''" "tFiles (sample_announced files) = files" "tSize (sample_announced files) = 5"
  "tChunkSize (sample_announced files) = 4" "tSessionToken (sample_announced files) = replicate 32 CHR ''k''"
  by (simp_all add: sample_announced_def)

text \<open>What the sample sender offers meets the conditions above.\<close>

lemma sample_honest:
  assumes "files \<noteq> []"
  obtains headers v' where "presentable sample_service sample_peer_identity (sample_announced files)"
    "hOfferJson sample_service (offer_of sample_peer_identity (sample_announced files)) = Inr ''t1''"
    "sign_offer sample_service ''POST'' offers_path (tDeviceID (sample_announced files)) (offer_of sample_peer_identity (sample_announced files))
       ''t1'' sample_world = (Inr headers, v')"
    "knows_sender sample_service (wTick sample_world) (iID sample_peer_identity) ''10.0.0.2'' ''key''"
    "hSharedKey sample_service (wTick sample_world) (tDeviceID (sample_announced files)) = Inr ''key''"
    "in64 (unix (hNow sample_service (wTick sample_world + 1)))"
    "\<bar>unix (hNow sample_service (wTick sample_world + 1)) - unix (hNow sample_service (wTick sample_world + 1))\<bar> \<le> 120"
    "wNonces sample_world (hUuid sample_service (wTick sample_world + 2)) = None"
    "GetTransfer (wDb sample_world) (tID (sample_announced files)) = Inl (plain ErrNotFound)"
proof -
  have "trim_space ''Peer'' \<noteq> []" "trim_space ''in'' \<noteq> []" by code_simp+
  then have p: "presentable sample_service sample_peer_identity (sample_announced files)"
    using assms by (simp add: presentable_def sample_announced_def sample_peer_identity_def sample_service_def)
  obtain headers v' where h: "sign_offer sample_service ''POST'' offers_path (tDeviceID (sample_announced files))
      (offer_of sample_peer_identity (sample_announced files)) ''t1'' sample_world = (Inr headers, v')"
    by (simp add: sign_offer_def bindE_def call_runs sample_service_def Let_def)
  have e: "hOfferJson sample_service (offer_of sample_peer_identity (sample_announced files)) = Inr ''t1''"
    by (simp add: sample_service_def offer_of_def)
  have k: "knows_sender sample_service (wTick sample_world) (iID sample_peer_identity) ''10.0.0.2'' ''key''"
    using sample_knows by (simp add: sample_peer_identity_def)
  have w: "wTick sample_world = 0" "wNonces sample_world = Map.empty" "wDb sample_world = empty_db" by (simp_all add: sample_world_def)
  have n: "hNow sample_service j = int (min j 1000) * second" "hSharedKey sample_service j d = Inr ''key''" for j d
    by (simp_all add: sample_service_def)
  have d: "GetTransfer (wDb sample_world) (tID (sample_announced files)) = Inl (plain ErrNotFound)"
    by (simp add: w GetTransfer_def empty_db_def select_def)
  show thesis by (rule that [OF p e h k n(2) _ _ _ d]) (simp_all add: w n in64_def unix_def second_def)
qed


end
