(* ===== verification/TransferWhole.thy ===== *)
theory TransferWhole
  imports TransferExchange
begin

text \<open>
  A transfer as a whole: the chunks an honest sender has for its files, received in any order by a receiver
  whose disk does not fail, and then finalized, put the bytes of the sender at the destinations.
\<close>

section \<open>A file put together from its chunks\<close>

text \<open>\<open>holds src cs D c\<close>: of the bytes \<open>src\<close>, cut into chunks of size \<open>cs\<close>, the file \<open>c\<close> has those in \<open>D\<close>.\<close>

definition holds :: "string \<Rightarrow> int \<Rightarrow> int set \<Rightarrow> string \<Rightarrow> bool" where
  "holds src cs D c \<longleftrightarrow> length c \<le> length src \<and>
     (\<forall>k < length src. int k div cs \<in> D \<longrightarrow> k < length c \<and> c ! k = src ! k)"

lemma holds_nothing: "holds src cs {} []"
  by (simp add: holds_def)

lemma nth_window: "off \<le> k \<Longrightarrow> k < off + m \<Longrightarrow> off \<le> length x \<Longrightarrow> take m (drop off x) ! (k - off) = x ! k"
  by (subst nth_take, linarith, subst nth_drop) simp_all

lemma holds_write:
  assumes "holds src cs D c" "0 < cs" "off = nat (j * cs)" "0 \<le> j" "j * cs < int (length src)"
    and d: "d = take (nat (min cs (int (length src) - j * cs))) (drop off src)"
  shows "holds src cs (insert j D) (write_bytes c off d)"
proof -
  have off: "int off = j * cs" using assms(2-4) by simp
  have len: "int (length d) = min cs (int (length src) - j * cs)"
    using assms(2,5) off unfolding d by (simp add: min_def) linarith
  have "off + length d \<le> length src" using len off by linarith
  moreover have "k < length (write_bytes c off d) \<and> write_bytes c off d ! k = src ! k"
    if k: "k < length src" "int k div cs \<in> insert j D" for k
  proof (cases "off \<le> k \<and> k < off + length d")
    case True
    have "off \<le> length (write_bytes c off d)" by (simp add: length_write_bytes le_max_iff_disj)
    then have "write_bytes c off d ! k = take (length d) (drop off (write_bytes c off d)) ! (k - off)"
      using True by (simp add: nth_window)
    also have "\<dots> = src ! k"
      unfolding write_bytes_read unfolding d using True assms(5) off by (intro nth_window) (simp_all add: d)
    finally show ?thesis using True by (simp add: length_write_bytes less_max_iff_disj)
  next
    case False
    have "int k div cs \<noteq> j"
    proof
      assume "int k div cs = j"
      then have "int k = j * cs + int k mod cs" using div_mult_mod_eq [of "int k" cs] by simp
      then have "j * cs \<le> int k" "int k < j * cs + cs"
        using assms(2) pos_mod_bound [of cs "int k"] pos_mod_sign [of cs "int k"] by linarith+
      then show False using False len off k(1) by linarith
    qed
    then have "k < length c" "c ! k = src ! k" using assms(1) k by (auto simp: holds_def)
    then show ?thesis using False write_bytes_nth_other [of k c off d] by (auto simp: length_write_bytes)
  qed
  ultimately show ?thesis using assms(1) by (simp add: holds_def length_write_bytes)
qed

lemma holds_all:
  assumes "holds src cs {0..<n} c" "0 < cs" "int (length src) \<le> n * cs"
  shows "c = src"
proof (rule nth_equalityI)
  have k: "k < length c \<and> c ! k = src ! k" if "k < length src" for k
  proof -
    have "int k div cs < n"
    proof (rule ccontr)
      assume "\<not> int k div cs < n"
      then have "n * cs \<le> int k div cs * cs" using assms(2) by simp
      also have "\<dots> \<le> int k" using assms(2) div_mult_mod_eq [of "int k" cs] pos_mod_sign [of cs "int k"] by linarith
      finally show False using that assms(3) by linarith
    qed
    then show ?thesis using assms(1,2) that by (simp add: holds_def pos_imp_zdiv_nonneg_iff)
  qed
  have "length src \<le> length c" using k [of "length c"] by (meson less_irrefl not_less)
  then show "length c = length src" using assms(1) by (simp add: holds_def)
  then show "c ! i = src ! i" if "i < length c" for i using k that by simp
qed

section \<open>Places of a transfer\<close>

text \<open>A tree is tame for a set \<open>D\<close> of directories and a set \<open>F\<close> of files if nothing else stands at these places.\<close>

definition tame :: "string set \<Rightarrow> string set \<Rightarrow> fsys \<Rightarrow> bool" where
  "tame D F tree \<longleftrightarrow> (\<forall>d \<in> D. tree d = None \<or> tree d = Some NDir) \<and>
     (\<forall>p \<in> F. tree p = None \<or> (\<exists>c. tree p = Some (NFile c)))"

lemma tame_mono: "tame D F tree \<Longrightarrow> D' \<subseteq> D \<Longrightarrow> F' \<subseteq> F \<Longrightarrow> tame D' F' tree"
  by (auto simp: tame_def)

definition bytes_at :: "fsys \<Rightarrow> string \<Rightarrow> string" where
  "bytes_at tree p = (case tree p of Some (NFile c) \<Rightarrow> c | _ \<Rightarrow> [])"

lemma path_dir_ancestor:
  assumes "is_abs p" shows "path_dir p \<in> set (ancestors (path_dir p))"
proof -
  obtain q where p: "p = slash # q" using assms by (auto simp: is_abs_def prefix_def)
  define r where "r = rev (dropWhile (\<lambda>c. c \<noteq> slash) (rev p))"
  have "r = slash # tl r"
  proof -
    have "dropWhile (\<lambda>c. c \<noteq> slash) (rev q @ [slash]) \<noteq> []" by (simp add: dropWhile_eq_Nil_conv)
    moreover have "suffix (dropWhile (\<lambda>c. c \<noteq> slash) (rev p)) (rev p)" by (rule suffix_dropWhile)
    then have "prefix r p" by (simp add: r_def suffix_to_prefix)
    ultimately show ?thesis using p by (cases r) (auto simp: r_def)
  qed
  then have "is_abs r" by (simp add: is_abs_def prefix_def) metis
  then have d: "path_dir p = abs_path (clean_elems r)" "normal_elems (clean_elems r)"
    using clean_abs clean_elems_normal by (simp_all add: path_dir_def r_def)
  then have "is_abs (path_dir p)" "clean (path_dir p) = path_dir p"
    using clean_abs_path by (simp_all add: is_abs_def abs_path_def)
  then show ?thesis using ancestors_self by metis
qed

lemma tame_mkdir:
  assumes "tame D F tree" "D \<inter> F = {}" "set (ancestors q) \<subseteq> D"
  shows "\<exists>tree'. os_mkdir_all q tree = Inr tree' \<and> tame D F tree' \<and> (\<forall>p \<in> F. tree' p = tree p) \<and>
    (\<forall>d \<in> set (ancestors q). tree' d = Some NDir)"
proof -
  let ?tree = "\<lambda>p. if tree p = None \<and> p \<in> set (ancestors q) then Some NDir else tree p"
  have "list_all (\<lambda>p. tree p = None \<or> tree p = Some NDir) (ancestors q)"
    using assms(1,3) by (auto simp: list_all_iff tame_def)
  then have "os_mkdir_all q tree = Inr ?tree" by (simp add: os_mkdir_all_def)
  moreover have "tame D F ?tree" "\<forall>p \<in> F. ?tree p = tree p" using assms by (auto simp: tame_def)
  moreover have "\<forall>d \<in> set (ancestors q). tree d = None \<or> tree d = Some NDir"
    using assms(1,3) unfolding tame_def by blast
  then have "\<forall>d \<in> set (ancestors q). ?tree d = Some NDir" by auto
  ultimately show ?thesis by blast
qed

lemma tame_put:
  assumes "tame D F tree" "D \<inter> F = {}" "p \<in> F"
  shows "tame D F (tree(p \<mapsto> NFile c))" "tame D F (tree(p := None))"
  using assms by (auto simp: tame_def)

lemma create_tame:
  assumes "quiet E" "tame D F (wFs w)" "D \<inter> F = {}" "p \<in> F" "is_abs p" "set (ancestors (path_dir p)) \<subseteq> D"
  obtains t1 t2 where "os_mkdir_all (path_dir p) (wFs w) = Inr t1" "os_open_create p t1 = Inr t2"
    "t2 p = Some (NFile (bytes_at (wFs w) p))" "tame D F t2" "\<forall>q \<in> F - {p}. t2 q = wFs w q"
    "\<forall>q c. wFs w q = Some (NFile c) \<longrightarrow> t2 q = Some (NFile c)"
proof -
  obtain t1 where t1: "os_mkdir_all (path_dir p) (wFs w) = Inr t1" "tame D F t1" "\<forall>q \<in> F. t1 q = wFs w q" "t1 (path_dir p) = Some NDir"
    using tame_mkdir [OF assms(2,3,6)] path_dir_ancestor [OF assms(5)] by blast
  have files: "t1 q = Some (NFile c)" if "wFs w q = Some (NFile c)" for q c
    using mkdir_all_file [OF t1(1)] that by blast
  have "t1 p = None \<or> (\<exists>c. t1 p = Some (NFile c))" using t1(2) assms(4) by (auto simp: tame_def)
  then show thesis
  proof
    assume n: "t1 p = None"
    have "os_open_create p t1 = Inr (t1(p \<mapsto> NFile []))" using n t1(4) by (simp add: os_open_create_def has_parent_def)
    moreover have "bytes_at (wFs w) p = []" using n t1(3) assms(4) by (simp add: bytes_at_def)
    ultimately show thesis using tame_put(1) [OF t1(2) assms(3,4)] t1(1,3) n files
      by (intro that [of t1 "t1(p \<mapsto> NFile [])"]) auto
  next
    assume "\<exists>c. t1 p = Some (NFile c)"
    then show thesis using t1 assms(4) files by (intro that [of t1 t1]) (auto simp: os_open_create_def bytes_at_def)
  qed
qed

lemma write_part_tame:
  assumes "quiet E" "tame D F (wFs w)" "D \<inter> F = {}" "p \<in> F" "is_abs p" "set (ancestors (path_dir p)) \<subseteq> D" "0 \<le> off"
  shows "\<exists>w1. write_part E p off buffer w = (Inr (), w1) \<and> tame D F (wFs w1) \<and>
    wFs w1 p = Some (NFile (write_bytes (bytes_at (wFs w) p) (nat off) buffer)) \<and> (\<forall>q \<in> F - {p}. wFs w1 q = wFs w q)"
proof -
  obtain t1 t2 where t: "os_mkdir_all (path_dir p) (wFs w) = Inr t1" "os_open_create p t1 = Inr t2"
    "t2 p = Some (NFile (bytes_at (wFs w) p))" "tame D F t2" "\<forall>q \<in> F - {p}. t2 q = wFs w q"
    by (rule create_tame [OF assms(1-6)])
  let ?c = "write_bytes (bytes_at (wFs w) p) (nat off) buffer"
  have t3: "os_write_at p off buffer t2 = Inr (t2(p \<mapsto> NFile ?c))" using t(3) assms(7) by (simp add: os_write_at_def)
  have "\<exists>w1. write_part E p off buffer w = (Inr (), w1) \<and> wFs w1 = t2(p \<mapsto> NFile ?c)"
    using assms(1) t(1,2) t3
    by (simp add: quiet_def write_part_def fs_call_def fs_write_def fs_sync_def bindE_def seqE_def tryE_def)
  then show ?thesis using t(5) tame_put(1) [OF t(4) assms(3,4)] by force
qed

text \<open>
  The places of the files of a transfer: the partial files and the destinations of its regular files, and
  the directories these and its own directories need. In a good layout none is taken twice. (A
  transfer of \<open>a\<close> and \<open>a.part/b\<close> has no good layout: the partial file of the one is a directory of the other.)
\<close>

definition regular :: "transfer_file list \<Rightarrow> transfer_file list" where
  "regular fs = filter (\<lambda>f. \<not> fDirectory f) fs"

definition file_places :: "service \<Rightarrow> string \<Rightarrow> transfer_file list \<Rightarrow> string list" where
  "file_places E i fs = map (\<lambda>f. partialPath E i (fRelativePath f)) (regular fs) @ map fDestinationPath (regular fs)"

definition dir_places :: "service \<Rightarrow> string \<Rightarrow> transfer_file list \<Rightarrow> string list" where
  "dir_places E i fs = concat (map (\<lambda>f. if fDirectory f then ancestors (fDestinationPath f)
     else ancestors (path_dir (partialPath E i (fRelativePath f))) @ ancestors (path_dir (fDestinationPath f))) fs)"

definition laid_out :: "service \<Rightarrow> string \<Rightarrow> transfer_file list \<Rightarrow> bool" where
  "laid_out E i fs \<longleftrightarrow> distinct (file_places E i fs) \<and> set (file_places E i fs) \<inter> set (dir_places E i fs) = {} \<and>
     (\<forall>p \<in> set (file_places E i fs). is_abs p) \<and> (\<forall>f \<in> set fs. fDestinationPath f \<noteq> [])"

abbreviation tame_for :: "service \<Rightarrow> string \<Rightarrow> transfer_file list \<Rightarrow> fsys \<Rightarrow> bool" where
  "tame_for E i fs \<equiv> tame (set (dir_places E i fs)) (set (file_places E i fs))"

lemma regular_iff [simp]: "f \<in> set (regular fs) \<longleftrightarrow> f \<in> set fs \<and> \<not> fDirectory f"
  by (auto simp: regular_def)

lemma places:
  assumes "f \<in> set fs" "\<not> fDirectory f"
  shows "partialPath E i (fRelativePath f) \<in> set (file_places E i fs)" "fDestinationPath f \<in> set (file_places E i fs)"
    "set (ancestors (path_dir (partialPath E i (fRelativePath f)))) \<subseteq> set (dir_places E i fs)"
    "set (ancestors (path_dir (fDestinationPath f))) \<subseteq> set (dir_places E i fs)"
  using assms by (auto simp: file_places_def dir_places_def intro!: bexI [of _ f])

section \<open>The session on the receiver\<close>

definition session :: "service \<Rightarrow> string \<Rightarrow> string \<Rightarrow> transfer_file list \<Rightarrow> string \<Rightarrow> tdb \<Rightarrow> bool" where
  "session E i token fs policy d \<longleftrightarrow> db_inv d \<and> (\<exists>r. GetTransfer d i = Inr r \<and> tSessionTokenHash r = hashToken E token \<and>
     tApproved r \<and> tStatus r \<in> {StatusReceiving, StatusResuming} \<and> tFiles r = fs \<and> tConflictPolicy r = policy)"

lemma upsert_same: "distinct (map fID fs) \<Longrightarrow> f \<in> set fs \<Longrightarrow> upsert fID (\<lambda>_ new. new) f fs = fs"
  by (induction fs) (auto simp: image_iff)

lemma merge_same: "distinct (map fID old) \<Longrightarrow> set fs \<subseteq> set old \<Longrightarrow> merge_files fs old = old"
  unfolding merge_files_def by (induction fs) (simp_all add: upsert_same)

lemma saved_again:
  assumes "db_inv d" "GetTransfer d i = Inr r" "distinct (map fID (tFiles r))" "tFiles t = tFiles r" "tID t = i"
  shows "\<exists>r'. GetTransfer (SaveTransfer t d) i = Inr r' \<and> tFiles r' = tFiles r \<and>
    tSessionTokenHash r' = tSessionTokenHash t \<and> tApproved r' = tApproved t \<and> tStatus r' = tStatus t \<and>
    tConflictPolicy r' = tConflictPolicy t \<and> tSize r' = tSize t"
proof -
  obtain o' where o': "lookup d i = Some o'" "r = by_path o'"
    using assms(2) by (auto simp: GetTransfer_lookup split: option.splits)
  have "merge_files (tFiles t) (tFiles o') = tFiles o'"
    using assms(3) o'(2) by (intro merge_same) (simp_all add: assms(4) by_path_def distinct_map)
  then show ?thesis
    using assms(1,5) o' by (simp add: GetTransfer_lookup lookup_save by_path_def) (simp add: persist_def)
qed

lemma complete_iff: "j \<in> set (complete_indices cs g) \<longleftrightarrow> (\<exists>c \<in> set cs. kStatus c = ChunkComplete \<and> kFileID c = g \<and> kIndex c = j)"
  by (auto simp: complete_indices_def)

lemma complete_after:
  assumes "db_inv d"
  shows "set (complete_indices (ListChunks (SaveChunk (new_chunk i f index n sha m) d) i) g) =
    (if g = fID f then {index} else {}) \<union> set (complete_indices (ListChunks d i) g)"
proof (rule set_eqI)
  fix j
  let ?c = "new_chunk i f index n sha m"
  have "set (ListChunks (SaveChunk ?c d) i) = insert (?c\<lparr>kUpdatedAt := trunc_ms (kUpdatedAt ?c)\<rparr>)
      {k \<in> set (ListChunks d i). chunk_key_of k \<noteq> chunk_key_of ?c}"
    using ListChunks_put [OF assms, of ?c i] by (simp add: new_chunk_def)
  moreover have k: "chunk_key_of k \<noteq> chunk_key_of ?c \<longleftrightarrow> \<not> (kFileID k = fID f \<and> kIndex k = index)" for k
    by (simp add: chunk_key_of_def new_chunk_def)
  moreover have c: "kStatus ?c = ChunkComplete" "kFileID ?c = fID f" "kIndex ?c = index" by (simp_all add: new_chunk_def)
  ultimately have "j \<in> set (complete_indices (ListChunks (SaveChunk ?c d) i) g) \<longleftrightarrow> fID f = g \<and> index = j \<or>
      (\<exists>k \<in> set (ListChunks d i). \<not> (kFileID k = fID f \<and> kIndex k = index) \<and> kStatus k = ChunkComplete \<and> kFileID k = g \<and> kIndex k = j)"
    unfolding complete_iff by simp blast
  then show "j \<in> set (complete_indices (ListChunks (SaveChunk ?c d) i) g) \<longleftrightarrow>
      j \<in> (if g = fID f then {index} else {}) \<union> set (complete_indices (ListChunks d i) g)"
    by (cases "g = fID f \<and> j = index") (auto simp: complete_iff [of j "ListChunks d i"])
qed

section \<open>Receiving\<close>

text \<open>\<open>described R src f\<close>: \<open>f\<close> describes the bytes \<open>src f\<close>, as a manifest does.\<close>

definition described :: "service \<Rightarrow> (transfer_file \<Rightarrow> string) \<Rightarrow> transfer_file \<Rightarrow> bool" where
  "described R src f \<longleftrightarrow> fSize f = int (length (src f)) \<and> 0 < fChunkSize f \<and> fChunkSize f \<le> MaximumChunkSize \<and>
     fSize f + fChunkSize f < 2 ^ 63 \<and> chunkCount (fSize f) (fChunkSize f) = Some (fChunkCount f) \<and>
     fChecksum f = checksumBytes R (src f)"

definition done_chunks :: "string \<Rightarrow> tworld \<Rightarrow> transfer_file \<Rightarrow> int set" where
  "done_chunks i w f = set (complete_indices (ListChunks (wDb w) i) (fID f))"

text \<open>What is recorded as complete stands in the partial files.\<close>

definition holding :: "service \<Rightarrow> string \<Rightarrow> (transfer_file \<Rightarrow> string) \<Rightarrow> transfer_file list \<Rightarrow> tworld \<Rightarrow> bool" where
  "holding R i src fs w \<longleftrightarrow> (\<forall>f \<in> set (regular fs). done_chunks i w f \<subseteq> {0..<fChunkCount f} \<and>
     holds (src f) (fChunkSize f) (done_chunks i w f) (bytes_at (wFs w) (partialPath R i (fRelativePath f))))"

definition receiving :: "service \<Rightarrow> string \<Rightarrow> string \<Rightarrow> (transfer_file \<Rightarrow> string) \<Rightarrow> transfer_file list \<Rightarrow> string \<Rightarrow> tworld \<Rightarrow> bool" where
  "receiving R i token src fs policy w \<longleftrightarrow> session R i token fs policy (wDb w) \<and> tame_for R i fs (wFs w) \<and> holding R i src fs w \<and>
     (\<forall>f \<in> set (regular fs). wFs w (fDestinationPath f) = None)"

text \<open>A transfer both sides can work with.\<close>

definition workable :: "service \<Rightarrow> string \<Rightarrow> (transfer_file \<Rightarrow> string) \<Rightarrow> transfer_file list \<Rightarrow> bool" where
  "workable R i src fs \<longleftrightarrow> quiet R \<and> hUuidOk R i \<and> distinct (map fID fs) \<and> laid_out R i fs \<and> (\<forall>f \<in> set (regular fs). described R src f)"

lemma described_chunk:
  assumes "described R src f" "0 \<le> j" "j < fChunkCount f"
  shows "chunk_length (fSize f) (fChunkSize f) j = min (fChunkSize f) (int (length (src f)) - j * fChunkSize f)"
    "j * fChunkSize f < int (length (src f))" "wrap64 (j * fChunkSize f) = j * fChunkSize f" "0 \<le> j * fChunkSize f"
proof -
  have d: "0 \<le> fSize f" "0 < fChunkSize f" "fSize f + fChunkSize f < 2 ^ 63" "fSize f = int (length (src f))"
    using assms(1) by (simp_all add: described_def)
  have "chunkCount (fSize f) (fChunkSize f) = Some (fChunkCount f)" using assms(1) unfolding described_def by blast
  then have "fChunkCount f = (fSize f + fChunkSize f - 1) div fChunkSize f" unfolding chunkCount_ceil [OF d(1-3)] by simp
  then have "j < (fSize f + fChunkSize f - 1) div fChunkSize f" using assms(3) by simp
  note r = chunk_length_range [OF d(1-3) assms(2) this]
  show "chunk_length (fSize f) (fChunkSize f) j = min (fChunkSize f) (int (length (src f)) - j * fChunkSize f)"
    "j * fChunkSize f < int (length (src f))" "wrap64 (j * fChunkSize f) = j * fChunkSize f" "0 \<le> j * fChunkSize f"
    using r d assms(2) by simp_all
qed

lemma findFile_distinct: "distinct (map fID fs) \<Longrightarrow> f \<in> set fs \<Longrightarrow> findFile fs (fID f) = Some f"
  by (induction fs) (auto simp: image_iff)

text \<open>The bytes of a chunk.\<close>

definition piece :: "(transfer_file \<Rightarrow> string) \<Rightarrow> transfer_file \<Rightarrow> int \<Rightarrow> string" where
  "piece src f j = take (nat (chunk_length (fSize f) (fChunkSize f) j)) (drop (nat (j * fChunkSize f)) (src f))"

lemma piece_length:
  assumes "described R src f" "0 \<le> j" "j < fChunkCount f"
  shows "int (length (piece src f j)) = chunk_length (fSize f) (fChunkSize f) j"
proof -
  note c = described_chunk [OF assms]
  have cs: "0 < fChunkSize f" using assms(1) by (simp add: described_def)
  then have "0 \<le> chunk_length (fSize f) (fChunkSize f) j" using c(1,2) by (simp add: min_def)
  moreover have "chunk_length (fSize f) (fChunkSize f) j \<le> int (length (src f)) - j * fChunkSize f" using c(1) by simp
  ultimately show ?thesis using c(2,4) by (simp add: piece_def)
qed

lemma partial_inj:
  assumes "laid_out R i fs" "f \<in> set (regular fs)" "g \<in> set (regular fs)" "partialPath R i (fRelativePath f) = partialPath R i (fRelativePath g)"
  shows "f = g"
  using assms by (auto simp: laid_out_def file_places_def distinct_map dest: inj_onD)

lemma parts_apart:
  assumes "laid_out R i fs" "g \<in> set (regular fs)" "f \<in> set (regular fs)"
  shows "fDestinationPath g \<noteq> partialPath R i (fRelativePath f)"
proof -
  have "(\<lambda>f. partialPath R i (fRelativePath f)) ` set (regular fs) \<inter> fDestinationPath ` set (regular fs) = {}"
    using assms(1) by (simp add: laid_out_def file_places_def)
  then show ?thesis using imageI [OF assms(2), of fDestinationPath] imageI [OF assms(3), of "\<lambda>f. partialPath R i (fRelativePath f)"]
    by auto
qed

lemma dest_inj:
  assumes "laid_out R i fs" "f \<in> set (regular fs)" "g \<in> set (regular fs)" "fDestinationPath f = fDestinationPath g"
  shows "f = g"
  using assms by (auto simp: laid_out_def file_places_def distinct_map dest: inj_onD)

lemma holding_write:
  assumes "holding R i src fs w" "workable R i src fs" "f \<in> set (regular fs)" "0 \<le> j" "j < fChunkCount f"
    and d: "\<And>g. done_chunks i w' g = (if fID g = fID f then {j} else {}) \<union> done_chunks i w g"
    and p: "wFs w' (partialPath R i (fRelativePath f)) =
      Some (NFile (write_bytes (bytes_at (wFs w) (partialPath R i (fRelativePath f))) (nat (j * fChunkSize f)) (piece src f j)))"
    and o: "\<forall>q \<in> set (file_places R i fs) - {partialPath R i (fRelativePath f)}. wFs w' q = wFs w q"
  shows "holding R i src fs w'"
  unfolding holding_def
proof (intro ballI)
  fix g assume g: "g \<in> set (regular fs)"
  have h: "done_chunks i w g \<subseteq> {0..<fChunkCount g}" "holds (src g) (fChunkSize g) (done_chunks i w g) (bytes_at (wFs w) (partialPath R i (fRelativePath g)))"
    using assms(1) g by (simp_all add: holding_def)
  have l: "laid_out R i fs" "distinct (map fID fs)" "described R src f" using assms(2,3) by (simp_all add: workable_def)
  show "done_chunks i w' g \<subseteq> {0..<fChunkCount g} \<and>
      holds (src g) (fChunkSize g) (done_chunks i w' g) (bytes_at (wFs w') (partialPath R i (fRelativePath g)))"
  proof (cases "g = f")
    case True
    have "holds (src f) (fChunkSize f) (insert j (done_chunks i w f))
        (write_bytes (bytes_at (wFs w) (partialPath R i (fRelativePath f))) (nat (j * fChunkSize f)) (piece src f j))"
      using h(2) l(3) assms(4) described_chunk [OF l(3) assms(4,5)] unfolding True
      by (intro holds_write) (simp_all add: described_def piece_def)
    then show ?thesis using h(1) assms(4,5) d [of f] p True by (simp add: bytes_at_def)
  next
    case False
    then have "fID g \<noteq> fID f" using l(2) g assms(3) by (auto simp: distinct_map dest: inj_onD)
    moreover have "partialPath R i (fRelativePath g) \<noteq> partialPath R i (fRelativePath f)"
      using partial_inj [OF l(1) g assms(3)] False by blast
    ultimately show ?thesis using h d [of g] o places(1) [of g fs R i] g by (simp add: bytes_at_def)
  qed
qed

lemma refreshed_session [simp]:
  "tSessionTokenHash (refreshed E t ks n) = tSessionTokenHash t" "tConflictPolicy (refreshed E t ks n) = tConflictPolicy t"
  by (simp_all add: refreshed_def Let_def)

text \<open>A request for a chunk which the receiver understands is carried out, and the session goes on.\<close>

lemma receive_step:
  assumes wk: "workable R i src fs" and re: "receiving R i token src fs policy w"
    and f: "f \<in> set (regular fs)" "0 \<le> j" "j < fChunkCount f"
    and rq: "\<And>r. tFiles r = fs \<Longrightarrow> requested_chunk R r (fID f) j sha enc contents = Inr (f, piece src f j)"
  shows "\<exists>t' w'. ReceiveChunk R i (fID f) token j sha enc contents w = (Inr t', w') \<and> receiving R i token src fs policy w' \<and>
    (\<forall>g. done_chunks i w' g = (if fID g = fID f then {j} else {}) \<union> done_chunks i w g)"
proof -
  let ?p = "partialPath R i (fRelativePath f)"
  have q: "quiet R" "hUuidOk R i" "distinct (map fID fs)" "laid_out R i fs" "described R src f"
    using wk f(1) by (simp_all add: workable_def)
  obtain r where r: "db_inv (wDb w)" "GetTransfer (wDb w) i = Inr r" "tSessionTokenHash r = hashToken R token" "tApproved r"
      "tStatus r = StatusReceiving \<or> tStatus r = StatusResuming" "tFiles r = fs" "tConflictPolicy r = policy"
    using re by (auto simp: receiving_def session_def)
  have ta: "tame_for R i fs (wFs w)" and ho: "holding R i src fs w"
    and free: "\<forall>f \<in> set (regular fs). wFs w (fDestinationPath f) = None"
    using re by (simp_all add: receiving_def)
  note ch = described_chunk [OF q(5) f(2,3)]
  have places': "?p \<in> set (file_places R i fs)" "set (ancestors (path_dir ?p)) \<subseteq> set (dir_places R i fs)"
    using places [of f fs R i] f(1) by simp_all
  have l: "is_abs ?p" "set (dir_places R i fs) \<inter> set (file_places R i fs) = {}"
    using q(4) places'(1) by (auto simp: laid_out_def)
  obtain w1 where w1: "write_part R ?p (wrap64 (j * fChunkSize f)) (piece src f j) (bump w) = (Inr (), w1)"
      "tame_for R i fs (wFs w1)" "wFs w1 ?p = Some (NFile (write_bytes (bytes_at (wFs w) ?p) (nat (j * fChunkSize f)) (piece src f j)))"
      "\<forall>q \<in> set (file_places R i fs) - {?p}. wFs w1 q = wFs w q"
    using write_part_tame [OF q(1) _ l(2) places'(1) l(1) places'(2), of "bump w" "j * fChunkSize f" "piece src f j"] ta ch
    by auto
  obtain t' w' where c: "ReceiveChunk R i (fID f) token j sha enc contents w = (Inr t', w')"
    using ReceiveChunk_quiet [OF q(1,2) r(2,1,3,4,5) rq [OF r(6)]] w1(1) by blast
  obtain n where e: "wFs w' = wFs w1" "wDb w' = SaveTransfer t' (SaveChunk (new_chunk i f j (int (length (piece src f j))) sha n) (wDb w))"
      "\<exists>ks. t' = refreshed R r ks n"
    using ReceiveChunk_effect [OF c] r(2) rq [OF r(6)] w1(1) by auto
  let ?d = "SaveChunk (new_chunk i f j (int (length (piece src f j))) sha n) (wDb w)"
  have dn: "done_chunks i w' g = (if fID g = fID f then {j} else {}) \<union> done_chunks i w g" for g
    using complete_after [OF r(1)] by (simp add: done_chunks_def e(2))
  have t': "tFiles t' = fs" "tID t' = i" "tSessionTokenHash t' = tSessionTokenHash r" "tApproved t' = tApproved r"
      "tStatus t' = tStatus r" "tConflictPolicy t' = tConflictPolicy r"
    using e(3) r(6) GetTransfer_id [OF r(2)] by auto
  have "db_inv ?d" "GetTransfer ?d i = Inr r" using r(1,2) db_inv_chunk getTransfer_after by blast+
  then have "session R i token fs policy (wDb w')"
    using saved_again [of ?d i r t'] t' r q(3) db_inv_save by (auto simp: session_def e(2))
  moreover have "holding R i src fs w'"
    using w1(3,4) e(1) by (intro holding_write [OF ho wk f dn]) simp_all
  moreover have "wFs w' (fDestinationPath g) = None" if "g \<in> set (regular fs)" for g
  proof -
    have "fDestinationPath g \<noteq> ?p" using parts_apart [OF q(4) that f(1)] .
    then show ?thesis using w1(4) e(1) free that places(2) [of g fs R i] by simp
  qed
  ultimately show ?thesis using c dn w1(2) e(1) by (auto simp: receiving_def)
qed

section \<open>Finalizing\<close>

lemma or_fail_run: "m w = (Inr a, w') \<Longrightarrow> or_fail E t m w = (Inr a, w')"
  by (simp add: or_fail_def bindE_def tryE_def)

lemma osE_run: "m w = (Inr a, w') \<Longrightarrow> osE m w = (Inr a, w')"
  by (simp add: osE_def mapErrE_def)

lemma fs_call_run: "quiet E \<Longrightarrow> f (wFs w) = Inr tree \<Longrightarrow> fs_call E f w = (Inr (), (bump w)\<lparr>wFs := tree\<rparr>)"
  by (simp add: quiet_fs_call)

lemma eachE_run:
  assumes "\<forall>x \<in> set xs. \<forall>w. I w \<longrightarrow> (\<exists>w'. f x w = (Inr (), w') \<and> I w' \<and> Q x w' \<and> (\<forall>y. Q y w \<longrightarrow> Q y w'))" and "I w"
  shows "\<exists>w'. eachE f xs w = (Inr (), w') \<and> I w' \<and> (\<forall>x \<in> set xs. Q x w') \<and> (\<forall>y. Q y w \<longrightarrow> Q y w')"
  using assms
proof (induction xs arbitrary: w)
  case (Cons x xs)
  have "\<exists>w'. f x w = (Inr (), w') \<and> I w' \<and> Q x w' \<and> (\<forall>y. Q y w \<longrightarrow> Q y w')" using Cons.prems by simp
  then obtain w1 where w1: "f x w = (Inr (), w1)" "I w1" "Q x w1" "\<forall>y. Q y w \<longrightarrow> Q y w1" by blast
  have "\<forall>x \<in> set xs. \<forall>w. I w \<longrightarrow> (\<exists>w'. f x w = (Inr (), w') \<and> I w' \<and> Q x w' \<and> (\<forall>y. Q y w \<longrightarrow> Q y w'))"
    using Cons.prems(1) by simp
  from Cons.IH [OF this w1(2)] obtain w2 where w2: "eachE f xs w1 = (Inr (), w2)" "I w2" "\<forall>y \<in> set xs. Q y w2"
    "\<forall>y. Q y w1 \<longrightarrow> Q y w2" by blast
  have "eachE f (x # xs) w = (Inr (), w2)" by (simp add: seqE_def bindE_def w1(1) w2(1))
  moreover have "\<forall>y \<in> set (x # xs). Q y w2" "\<forall>y. Q y w \<longrightarrow> Q y w2" using w1(3,4) w2(3,4) by simp_all
  ultimately show ?case using w2(2) by blast
qed simp

text \<open>With every chunk in place a file passes the verification; an empty one is created.\<close>

definition complete_tree :: "service \<Rightarrow> string \<Rightarrow> (transfer_file \<Rightarrow> string) \<Rightarrow> transfer_file list \<Rightarrow> fsys \<Rightarrow> bool" where
  "complete_tree R i src fs tree \<longleftrightarrow> tame_for R i fs tree \<and>
     (\<forall>f \<in> set (regular fs). bytes_at tree (partialPath R i (fRelativePath f)) = src f \<and> tree (fDestinationPath f) = None)"

lemma verify_file_run:
  assumes wk: "workable R i src fs" and f: "f \<in> set fs" and t: "tID t = i"
    and n: "\<not> fDirectory f \<Longrightarrow> int (length (complete_indices cs (fID f))) = fChunkCount f"
    and ct: "complete_tree R i src fs (wFs w)"
  shows "\<exists>w'. verify_file R t cs f w = (Inr (), w') \<and> complete_tree R i src fs (wFs w') \<and> wDb w' = wDb w \<and>
    (\<not> fDirectory f \<longrightarrow> wFs w' (partialPath R i (fRelativePath f)) = Some (NFile (src f))) \<and>
    (\<forall>q c. wFs w q = Some (NFile c) \<longrightarrow> wFs w' q = Some (NFile c))"
proof (cases "fDirectory f")
  case False
  let ?p = "partialPath R i (fRelativePath f)"
  have q: "quiet R" "laid_out R i fs" "described R src f" using wk f False by (simp_all add: workable_def)
  have pl: "?p \<in> set (file_places R i fs)" "set (ancestors (path_dir ?p)) \<subseteq> set (dir_places R i fs)"
    using places [OF f False] by simp_all
  have l: "is_abs ?p" "set (dir_places R i fs) \<inter> set (file_places R i fs) = {}"
    using q(2) pl(1) by (auto simp: laid_out_def)
  have b: "bytes_at (wFs w) ?p = src f" and ta: "tame_for R i fs (wFs w)" using ct f False by (simp_all add: complete_tree_def)
  have c: "checksumBytes R (src f) = fChecksum f" "fSize f = int (length (src f))" using q(3) by (simp_all add: described_def)
  obtain w1 where w1: "(if fSize f = 0 then seqE (or_fail R t (osE (fs_call R (os_mkdir_all (path_dir ?p)))))
               (or_fail R t (osE (fs_call R (os_open_create ?p)))) else retE ()) w = (Inr (), w1)"
      "wFs w1 ?p = Some (NFile (src f))" "complete_tree R i src fs (wFs w1)" "wDb w1 = wDb w"
      "\<forall>q c. wFs w q = Some (NFile c) \<longrightarrow> wFs w1 q = Some (NFile c)"
  proof (cases "fSize f = 0")
    case True
    obtain t1 t2 where tt: "os_mkdir_all (path_dir ?p) (wFs w) = Inr t1" "os_open_create ?p t1 = Inr t2"
      "t2 ?p = Some (NFile (src f))" "tame_for R i fs t2" "\<forall>q \<in> set (file_places R i fs) - {?p}. t2 q = wFs w q"
      "\<forall>q c. wFs w q = Some (NFile c) \<longrightarrow> t2 q = Some (NFile c)"
      by (rule create_tame [OF q(1) ta l(2) pl(1) l(1) pl(2)]) (simp add: b)
    have "complete_tree R i src fs t2" unfolding complete_tree_def
    proof (intro conjI ballI)
      fix g assume g: "g \<in> set (regular fs)"
      show "bytes_at t2 (partialPath R i (fRelativePath g)) = src g"
        using tt(3,5) ct g places(1) [of g fs R i] partial_inj [OF q(2) g, of f] f \<open>\<not> fDirectory f\<close>
        by (cases "partialPath R i (fRelativePath g) = ?p") (auto simp: complete_tree_def bytes_at_def)
      show "t2 (fDestinationPath g) = None"
        using tt(5) ct g places(2) [of g fs R i] parts_apart [OF q(2) g, of f] f \<open>\<not> fDirectory f\<close> by (simp add: complete_tree_def)
    qed (rule tt(4))
    moreover have "\<exists>w1. seqE (or_fail R t (osE (fs_call R (os_mkdir_all (path_dir ?p))))) (or_fail R t (osE (fs_call R (os_open_create ?p)))) w = (Inr (), w1) \<and>
        wFs w1 = t2 \<and> wDb w1 = wDb w"
      by (simp add: seqE_def bindE_def or_fail_run osE_run fs_call_run q(1) tt(1,2))
    ultimately show thesis using that True tt(3,6) by auto
  next
    case False
    then have "wFs w ?p = Some (NFile (src f))" using b c(2) by (auto simp: bytes_at_def split: option.splits node.splits)
    then show thesis using False ct by (intro that [of w]) simp_all
  qed
  have "or_fail R t (osE (checksumFile R ?p)) w1 = (Inr (fChecksum f), bump w1)"
    using w1(2) c(1) by (intro or_fail_run osE_run)
      (simp add: checksumFile_def bindE_def quiet_calls [OF q(1)] os_read_file_def checksumBytes_def)
  then show ?thesis using w1 n False t
    by (auto simp: verify_file_def Let_def seqE_def bindE_def or_fail_run)
qed (use ct in \<open>simp add: verify_file_def\<close>)

lemma verify_all_run:
  assumes "workable R i src fs" "tID t = i" "complete_tree R i src fs (wFs w)"
    and "\<forall>f \<in> set (regular fs). int (length (complete_indices cs (fID f))) = fChunkCount f"
  shows "\<exists>w'. eachE (verify_file R t cs) fs w = (Inr (), w') \<and> complete_tree R i src fs (wFs w') \<and> wDb w' = wDb w \<and>
    (\<forall>f \<in> set (regular fs). wFs w' (partialPath R i (fRelativePath f)) = Some (NFile (src f)))"
proof -
  let ?I = "\<lambda>v :: tworld. complete_tree R i src fs (wFs v) \<and> wDb v = wDb w"
    and ?Q = "\<lambda>f (v :: tworld). \<not> fDirectory f \<longrightarrow> wFs v (partialPath R i (fRelativePath f)) = Some (NFile (src f))"
  have "\<forall>f \<in> set fs. \<forall>v. ?I v \<longrightarrow> (\<exists>v'. verify_file R t cs f v = (Inr (), v') \<and> ?I v' \<and> ?Q f v' \<and> (\<forall>g. ?Q g v \<longrightarrow> ?Q g v'))"
  proof (intro ballI allI impI)
    fix f v assume f: "f \<in> set fs" and v: "?I v"
    have "\<exists>v'. verify_file R t cs f v = (Inr (), v') \<and> complete_tree R i src fs (wFs v') \<and> wDb v' = wDb v \<and>
        (\<not> fDirectory f \<longrightarrow> wFs v' (partialPath R i (fRelativePath f)) = Some (NFile (src f))) \<and>
        (\<forall>q c. wFs v q = Some (NFile c) \<longrightarrow> wFs v' q = Some (NFile c))"
      using assms(4) f v by (intro verify_file_run [OF assms(1) f assms(2)]) simp_all
    then show "\<exists>v'. verify_file R t cs f v = (Inr (), v') \<and> ?I v' \<and> ?Q f v' \<and> (\<forall>g. ?Q g v \<longrightarrow> ?Q g v')" using v by auto
  qed
  from eachE_run [OF this] assms(3) show ?thesis by fastforce
qed

text \<open>The commit of a file whose destination is free moves its partial file there.\<close>

lemma commit_file_run:
  assumes wk: "workable R i src fs" and f: "f \<in> set fs" "\<not> fDirectory f" and t: "tID t = i" and ta: "tame_for R i fs (wFs w)"
    and p: "wFs w (partialPath R i (fRelativePath f)) = Some (NFile c)" and d: "wFs w (fDestinationPath f) = None"
  shows "\<exists>w'. commit_one R t f w = (Inr (), w') \<and> tame_for R i fs (wFs w') \<and> wFs w' (fDestinationPath f) = Some (NFile c) \<and>
    (\<forall>q \<in> set (file_places R i fs) - {partialPath R i (fRelativePath f), fDestinationPath f}. wFs w' q = wFs w q)"
proof -
  let ?p = "partialPath R i (fRelativePath f)" and ?d = "fDestinationPath f"
  have q: "quiet R" "laid_out R i fs" using wk by (simp_all add: workable_def)
  have pl: "?p \<in> set (file_places R i fs)" "?d \<in> set (file_places R i fs)" "set (ancestors (path_dir ?d)) \<subseteq> set (dir_places R i fs)"
    using places [OF f] by simp_all
  have l: "is_abs ?d" "set (dir_places R i fs) \<inter> set (file_places R i fs) = {}" "?d \<noteq> []"
    using q(2) pl(2) f(1) by (auto simp: laid_out_def)
  have ne: "?p \<noteq> ?d" using p d by auto
  obtain t1 where t1: "os_mkdir_all (path_dir ?d) (wFs w) = Inr t1" "tame_for R i fs t1"
      "\<forall>q \<in> set (file_places R i fs). t1 q = wFs w q" "t1 (path_dir ?d) = Some NDir"
    using tame_mkdir [OF ta l(2) pl(3)] path_dir_ancestor [OF l(1)] by blast
  let ?t2 = "t1(?p := None, ?d \<mapsto> NFile c)"
  have r: "os_rename ?p ?d t1 = Inr ?t2"
    using t1(3,4) p d pl(1,2) ne by (simp add: os_rename_def has_parent_def)
  have re: "resolveConflict R ?d (tConflictPolicy t) w = (Inr ?d, bump w)"
    by (simp add: resolveConflict_def bindE_def tryE_def quiet_calls [OF q(1)] os_lstat_def d)
  have "\<exists>w'. commitFile R ?p ?d ow (bump w) = (Inr (), w') \<and> wFs w' = ?t2" for ow
    using t1(3) d pl(2)
    by (cases ow) (simp_all add: commitFile_def clear_target_def bindE_def seqE_def tryE_def fs_call_run [OF q(1)]
        quiet_calls [OF q(1)] t1(1) r os_lstat_def)
  then obtain w' where c: "commitFile R ?p ?d (tConflictPolicy t = ConflictOverwrite) (bump w) = (Inr (), w')" "wFs w' = ?t2"
    by blast
  have "commit_one R t f w = (Inr (), w')"
    using f(2) l(3) t by (simp add: commit_one_def seqE_def bindE_def or_fail_run osE_run re c(1))
  moreover have "tame_for R i fs ?t2" using tame_put [OF _ l(2)] t1(2) pl(1,2) by blast
  ultimately show ?thesis using c(2) t1(3) by auto
qed

lemma commit_all_run:
  assumes "workable R i src fs" "tID t = i" "tame_for R i fs (wFs w)" "set gs \<subseteq> set fs" "distinct gs"
    and "\<forall>f \<in> set (regular gs). wFs w (partialPath R i (fRelativePath f)) = Some (NFile (src f)) \<and> wFs w (fDestinationPath f) = None"
  shows "\<exists>w'. eachE (commit_one R t) gs w = (Inr (), w') \<and> (\<forall>f \<in> set (regular gs). wFs w' (fDestinationPath f) = Some (NFile (src f))) \<and>
    (\<forall>q \<in> set (file_places R i fs) - set (file_places R i gs). wFs w' q = wFs w q)"
  using assms(3-6)
proof (induction gs arbitrary: w)
  case (Cons f gs)
  have q: "quiet R" "laid_out R i fs" using assms(1) by (simp_all add: workable_def)
  have l: "set (dir_places R i fs) \<inter> set (file_places R i fs) = {}" using q(2) by (auto simp: laid_out_def)
  have f: "f \<in> set fs" using Cons.prems(2) by simp
  show ?case
  proof (cases "fDirectory f")
    case True
    have "set (ancestors (fDestinationPath f)) \<subseteq> set (dir_places R i fs)" using f True by (auto simp: dir_places_def intro!: bexI [of _ f])
    from tame_mkdir [OF Cons.prems(1) l this] obtain t1 where t1: "os_mkdir_all (fDestinationPath f) (wFs w) = Inr t1"
      "tame_for R i fs t1" "\<forall>q \<in> set (file_places R i fs). t1 q = wFs w q" by blast
    let ?w = "(bump w)\<lparr>wFs := t1\<rparr>"
    have c: "commit_one R t f w = (Inr (), ?w)"
      using True q(2) f by (simp add: commit_one_def seqE_def bindE_def or_fail_run osE_run fs_call_run [OF q(1)] t1(1) laid_out_def)
    have "\<forall>g \<in> set (regular gs). wFs ?w (partialPath R i (fRelativePath g)) = Some (NFile (src g)) \<and> wFs ?w (fDestinationPath g) = None"
      using Cons.prems(2,4) t1(3) places(1,2) [of _ fs R i] by auto
    from Cons.IH [OF _ _ _ this] t1(2) Cons.prems(2,3) obtain w' where
      w': "eachE (commit_one R t) gs ?w = (Inr (), w')" "\<forall>f \<in> set (regular gs). wFs w' (fDestinationPath f) = Some (NFile (src f))"
        "\<forall>q \<in> set (file_places R i fs) - set (file_places R i gs). wFs w' q = wFs ?w q" by auto
    moreover have "set (file_places R i (f # gs)) = set (file_places R i gs)" using True by (simp add: file_places_def regular_def)
    ultimately show ?thesis using c t1(3) True by (auto simp: seqE_def bindE_def)
  next
    case False
    have fr: "f \<in> set (regular fs)" using f False by simp
    have pd: "wFs w (partialPath R i (fRelativePath f)) = Some (NFile (src f))" "wFs w (fDestinationPath f) = None"
      using Cons.prems(4) False by simp_all
    obtain w1 where w1: "commit_one R t f w = (Inr (), w1)" "tame_for R i fs (wFs w1)" "wFs w1 (fDestinationPath f) = Some (NFile (src f))"
      "\<forall>q \<in> set (file_places R i fs) - {partialPath R i (fRelativePath f), fDestinationPath f}. wFs w1 q = wFs w q"
      using commit_file_run [OF assms(1) f False assms(2) Cons.prems(1) pd] by blast
    have ne: "partialPath R i (fRelativePath g) \<noteq> partialPath R i (fRelativePath f)" "fDestinationPath g \<noteq> fDestinationPath f"
      "partialPath R i (fRelativePath g) \<noteq> fDestinationPath f" "fDestinationPath g \<noteq> partialPath R i (fRelativePath f)"
      if "g \<in> set (regular gs)" for g
    proof -
      have g: "g \<in> set (regular fs)" "g \<noteq> f" using that Cons.prems(2,3) by auto
      show "partialPath R i (fRelativePath g) \<noteq> partialPath R i (fRelativePath f)" "fDestinationPath g \<noteq> fDestinationPath f"
        using partial_inj [OF q(2) g(1) fr] dest_inj [OF q(2) g(1) fr] g(2) by blast+
      show "partialPath R i (fRelativePath g) \<noteq> fDestinationPath f" "fDestinationPath g \<noteq> partialPath R i (fRelativePath f)"
        using parts_apart [OF q(2) fr g(1)] parts_apart [OF q(2) g(1) fr] by metis+
    qed
    have "wFs w1 (partialPath R i (fRelativePath g)) = Some (NFile (src g)) \<and> wFs w1 (fDestinationPath g) = None"
      if "g \<in> set (regular gs)" for g
    proof -
      have "g \<in> set fs" "\<not> fDirectory g" using that Cons.prems(2) by auto
      then show ?thesis using ne [OF that] w1(4) places(1,2) [of g fs R i] Cons.prems(4) that by simp
    qed
    then obtain w' where
      w': "eachE (commit_one R t) gs w1 = (Inr (), w')" "\<forall>f \<in> set (regular gs). wFs w' (fDestinationPath f) = Some (NFile (src f))"
        "\<forall>q \<in> set (file_places R i fs) - set (file_places R i gs). wFs w' q = wFs w1 q"
      using Cons.IH [OF w1(2)] Cons.prems(2,3) by auto
    have "fDestinationPath f \<notin> set (file_places R i gs)" using ne by (auto simp: file_places_def) metis+
    then have "wFs w' (fDestinationPath f) = Some (NFile (src f))" using w'(3) w1(3) places(2) [OF f False, of R i] by simp
    moreover have "set (file_places R i (f # gs)) = {partialPath R i (fRelativePath f), fDestinationPath f} \<union> set (file_places R i gs)"
      using False by (auto simp: file_places_def regular_def)
    ultimately show ?thesis using w' w1(1,4) False by (auto simp: seqE_def bindE_def regular_def)
  qed
qed simp

lemma begin_finalize_run:
  assumes "quiet R" "hUuidOk R i" "GetTransfer (wDb w) i = Inr r" "tSessionTokenHash r = hashToken R token" "tApproved r"
    "tStatus r = StatusReceiving \<or> tStatus r = StatusResuming"
  shows "\<exists>n w'. begin_finalize R i token w = (Inr (r\<lparr>tStatus := StatusVerifying, tUpdatedAt := n\<rparr>), w') \<and> wFs w' = wFs w \<and>
    wDb w' = SaveTransfer (r\<lparr>tStatus := StatusVerifying, tUpdatedAt := n\<rparr>) (wDb w)"
proof -
  have "receiving_session R i token w = (Inr r, bump w)"
    using assms by (auto simp: receiving_session_def Get_def bindE_def seqE_def guardE_def tokenMatches_iff)
  then show ?thesis
    by (simp add: begin_finalize_def bindE_def seqE_def Let_def call_runs quiet_calls [OF assms(1)]) blast
qed

lemma all_chunks:
  assumes "described R src f" "done_chunks i w f = {0..<fChunkCount f}"
    and "holds (src f) (fChunkSize f) (done_chunks i w f) c"
  shows "c = src f" "int (length (complete_indices (ListChunks (wDb w) i) (fID f))) = fChunkCount f"
proof -
  have d: "0 \<le> fSize f" "0 < fChunkSize f" "fSize f + fChunkSize f < 2 ^ 63" "fSize f = int (length (src f))"
    "chunkCount (fSize f) (fChunkSize f) = Some (fChunkCount f)"
    using assms(1) by (auto simp: described_def)
  then have n: "fChunkCount f = (fSize f + fChunkSize f - 1) div fChunkSize f" using chunkCount_ceil [OF d(1-3)] by (metis option.inject)
  show "c = src f" using holds_all [of "src f" "fChunkSize f" "fChunkCount f" c] assms(2,3) d(2,4) ceil_bounds(1) [OF d(2) n] by simp
  have "0 \<le> fChunkCount f" using n d(1,2) by (simp add: pos_imp_zdiv_nonneg_iff)
  moreover have "distinct (complete_indices (ListChunks (wDb w) i) (fID f))" by (simp add: complete_indices_def)
  ultimately show "int (length (complete_indices (ListChunks (wDb w) i) (fID f))) = fChunkCount f"
    using assms(2) distinct_card [of "complete_indices (ListChunks (wDb w) i) (fID f)"] by (simp add: done_chunks_def)
qed

text \<open>With every chunk received, \<open>Finalize\<close> succeeds and the bytes stand at the destinations.\<close>

lemma Finalize_run:
  assumes wk: "workable R i src fs" and re: "receiving R i token src fs policy w"
    and all: "\<forall>f \<in> set (regular fs). done_chunks i w f = {0..<fChunkCount f}"
  shows "\<exists>t' w' d. Finalize R i token w = (Inr t', w') \<and> tID t' = i \<and> tStatus t' = StatusCompleted \<and> wDb w' = SaveTransfer t' d \<and>
    (\<forall>f \<in> set (regular fs). wFs w' (fDestinationPath f) = Some (NFile (src f)))"
proof -
  have q: "quiet R" "hUuidOk R i" "distinct (map fID fs)" using wk by (simp_all add: workable_def)
  obtain r where r: "GetTransfer (wDb w) i = Inr r" "tSessionTokenHash r = hashToken R token" "tApproved r"
      "tStatus r = StatusReceiving \<or> tStatus r = StatusResuming" "tFiles r = fs"
    using re by (auto simp: receiving_def session_def)
  obtain n w0 where w0: "begin_finalize R i token w = (Inr (r\<lparr>tStatus := StatusVerifying, tUpdatedAt := n\<rparr>), w0)" "wFs w0 = wFs w"
      "wDb w0 = SaveTransfer (r\<lparr>tStatus := StatusVerifying, tUpdatedAt := n\<rparr>) (wDb w)"
    using begin_finalize_run [OF q(1,2) r(1-4)] by blast
  let ?t = "r\<lparr>tStatus := StatusVerifying, tUpdatedAt := n\<rparr>" and ?cs = "ListChunks (wDb w) i"
  have t: "tID ?t = i" "tFiles ?t = fs" using GetTransfer_id [OF r(1)] r(5) by simp_all
  have each: "bytes_at (wFs w) (partialPath R i (fRelativePath f)) = src f \<and> int (length (complete_indices ?cs (fID f))) = fChunkCount f"
    if "f \<in> set (regular fs)" for f
  proof -
    have "described R src f" "done_chunks i w f = {0..<fChunkCount f}"
      "holds (src f) (fChunkSize f) (done_chunks i w f) (bytes_at (wFs w) (partialPath R i (fRelativePath f)))"
      using wk re all that by (simp_all add: workable_def receiving_def holding_def)
    from all_chunks [OF this] show ?thesis by blast
  qed
  have "complete_tree R i src fs (wFs (bump w0))" using re each w0(2) by (simp add: complete_tree_def receiving_def)
  then obtain w1 where w1: "eachE (verify_file R ?t ?cs) fs (bump w0) = (Inr (), w1)" "complete_tree R i src fs (wFs w1)"
      "\<forall>f \<in> set (regular fs). wFs w1 (partialPath R i (fRelativePath f)) = Some (NFile (src f))"
    using verify_all_run [OF wk t(1), of "bump w0" ?cs] each by blast
  obtain w2 where w2: "eachE (commit_one R ?t) fs w1 = (Inr (), w2)" "\<forall>f \<in> set (regular fs). wFs w2 (fDestinationPath f) = Some (NFile (src f))"
    using commit_all_run [OF wk t(1), of w1 fs] w1(2,3) q(3) by (auto simp: complete_tree_def distinct_map)
  let ?d = "?t\<lparr>tProgress := tSize ?t\<rparr>"
  obtain m w3 where w3: "finish R ?d StatusCompleted [] EventCompleted w2 = (Inr (finished ?d StatusCompleted [] m), w3)"
      "wFs w3 = wFs w2" "wDb w3 = SaveTransfer (finished ?d StatusCompleted [] m) (wDb w2)"
    by (simp add: finish_def bindE_def seqE_def Let_def call_runs quiet_calls [OF q(1)])
  have "end_finalize R ?t w0 = (Inr (finished ?d StatusCompleted [] m), w3)"
    using w1(1) w2(1) w3(1) t by (simp add: end_finalize_def bindE_def seqE_def quiet_calls [OF q(1)] w0(3))
  then have "Finalize R i token w = (Inr (finished ?d StatusCompleted [] m), w3)"
    using w0(1) by (simp add: Finalize_def bindE_def)
  then show ?thesis using w3(2,3) w2(2) t(1) by (intro exI [of _ "finished ?d StatusCompleted [] m"] exI [of _ w3] exI [of _ "wDb w2"]) simp
qed

section \<open>The whole transfer\<close>

text \<open>The calls of \<open>ReceiveChunk\<close> that the handler of \<open>PUT .../chunks/:index\<close> makes: file, index, checksum, encoding, body.\<close>

type_synonym chunk_call = "string \<times> int \<times> string \<times> string \<times> body"

fun receive_all :: "service \<Rightarrow> string \<Rightarrow> string \<Rightarrow> chunk_call list \<Rightarrow> unit tm" where
  "receive_all R i token [] = retE ()"
| "receive_all R i token ((fileID, j, sha, enc, contents) # cs) =
     bindE (ReceiveChunk R i fileID token j sha enc contents) (\<lambda>_. receive_all R i token cs)"

text \<open>The call for a chunk of a file of the sender, whose files are those of \<open>tree\<close>.\<close>

definition chunk_call :: "service \<Rightarrow> transfer \<Rightarrow> fsys \<Rightarrow> transfer_file \<times> int \<Rightarrow> chunk_call" where
  "chunk_call S t tree task =
     (let (f, j) = task; contents = piece (\<lambda>f. bytes_at tree (fSourcePath f)) f j; (sent, enc) = chunk_payload S t f contents
      in (fID f, j, checksumBytes S contents, enc, \<lparr>bBytes = sent, bBroken = False\<rparr>))"

definition source_bytes :: "transfer_file list \<Rightarrow> fsys \<Rightarrow> transfer_file \<Rightarrow> string" where
  "source_bytes files tree g = (case findFile files (fID g) of None \<Rightarrow> [] | Some f \<Rightarrow> bytes_at tree (fSourcePath f))"

text \<open>The bytes in that call are those \<open>sendChunk\<close> reads.\<close>

lemma read_piece:
  assumes "quiet S" "wFs v (fSourcePath f) = Some (NFile c)" "described S (\<lambda>f. bytes_at (wFs v) (fSourcePath f)) f" "0 \<le> j" "j < fChunkCount f"
  shows "read_chunk S f j v = (Inr (piece (\<lambda>f. bytes_at (wFs v) (fSourcePath f)) f j), bump v)"
proof -
  let ?src = "\<lambda>f. bytes_at (wFs v) (fSourcePath f)"
  have "?src f = c" using assms(2) by (simp add: bytes_at_def)
  then show ?thesis
    using piece_length [OF assms(3-5)] described_chunk(3,4) [OF assms(3-5)] assms(2)
    by (simp add: read_chunk_def bindE_def mapErrE_def osE_def quiet_calls [OF assms(1)] os_read_file_def chunk_slice_def
        piece_def Let_def)
qed

definition understood :: "service \<Rightarrow> (transfer_file \<Rightarrow> string) \<Rightarrow> transfer_file list \<Rightarrow> chunk_call \<Rightarrow> bool" where
  "understood R src fs call \<longleftrightarrow> (case call of (fileID, j, sha, enc, contents) \<Rightarrow>
     \<exists>f \<in> set (regular fs). fileID = fID f \<and> 0 \<le> j \<and> j < fChunkCount f \<and>
       (\<forall>r. tFiles r = fs \<longrightarrow> requested_chunk R r (fID f) j sha enc contents = Inr (f, piece src f j)))"

lemma receive_all_run:
  assumes "workable R i src fs" "receiving R i token src fs policy w" "\<forall>c \<in> set calls. understood R src fs c"
  shows "\<exists>w'. receive_all R i token calls w = (Inr (), w') \<and> receiving R i token src fs policy w' \<and>
    (\<forall>g. done_chunks i w' g = {j. (fID g, j) \<in> set (map (\<lambda>(x, j, _). (x, j)) calls)} \<union> done_chunks i w g)"
  using assms(2,3)
proof (induction calls arbitrary: w)
  case (Cons c calls)
  obtain x j sha enc contents where c: "c = (x, j, sha, enc, contents)" by (cases c)
  from Cons.prems(2) obtain f where f: "f \<in> set (regular fs)" "x = fID f" "0 \<le> j" "j < fChunkCount f"
      "\<And>r. tFiles r = fs \<Longrightarrow> requested_chunk R r (fID f) j sha enc contents = Inr (f, piece src f j)"
    by (auto simp: understood_def c)
  obtain t1 w1 where w1: "ReceiveChunk R i x token j sha enc contents w = (Inr t1, w1)" "receiving R i token src fs policy w1"
      "\<forall>g. done_chunks i w1 g = (if fID g = fID f then {j} else {}) \<union> done_chunks i w g"
    using receive_step [OF assms(1) Cons.prems(1) f(1,3,4,5)] f(2) by blast
  obtain w2 where w2: "receive_all R i token calls w1 = (Inr (), w2)" "receiving R i token src fs policy w2"
      "\<forall>g. done_chunks i w2 g = {j. (fID g, j) \<in> set (map (\<lambda>(x, j, _). (x, j)) calls)} \<union> done_chunks i w1 g"
    using Cons.IH [OF w1(2)] Cons.prems(2) by auto
  have "done_chunks i w2 g = {j. (fID g, j) \<in> set (map (\<lambda>(x, j, _). (x, j)) (c # calls))} \<union> done_chunks i w g" for g
    using w2(3) w1(3) f(2) by (auto simp: c)
  then show ?case using w1(1) w2(1,2) by (simp add: c bindE_def)
qed simp

lemma received_chunks_set:
  "set (case received_chunks cs g of None \<Rightarrow> [] | Some is \<Rightarrow> is) = set (complete_indices cs g)"
proof -
  define step where "step = (\<lambda>m (c :: chunk). if kStatus c = ChunkComplete
       then m(kFileID c \<mapsto> (case m (kFileID c) of None \<Rightarrow> [] | Some is \<Rightarrow> is) @ [kIndex c]) else m)"
  have "set (case foldl step m cs g of None \<Rightarrow> [] | Some is \<Rightarrow> is) =
      set (case m g of None \<Rightarrow> [] | Some is \<Rightarrow> is) \<union> {kIndex c | c. c \<in> set cs \<and> kStatus c = ChunkComplete \<and> kFileID c = g}" for m
  proof (induction cs arbitrary: m)
    case (Cons c cs)
    show ?case unfolding foldl_Cons Cons.IH by (auto simp: step_def split: option.splits)
  qed simp
  from this [of Map.empty] show ?thesis unfolding received_chunks_def step_def by (auto simp: complete_iff)
qed

text \<open>The files of the receiver are those of the manifest.\<close>

lemma matching_file:
  assumes "map on_wire fs = map on_wire files" "g \<in> set fs" "distinct (map fID files)"
  obtains f where "f \<in> set files" "on_wire f = on_wire g" "findFile files (fID g) = Some f"
proof -
  have "on_wire g \<in> set (map on_wire fs)" using assms(2) by simp
  then obtain f where f: "f \<in> set files" "on_wire f = on_wire g" unfolding assms(1) by auto
  then have "fID f = fID g" by (metis on_wire_simps(1))
  then show thesis using that [OF f] findFile_distinct [OF assms(3) f(1)] by simp
qed

lemma on_wire_eqD:
  "on_wire f = on_wire g \<Longrightarrow> fID f = fID g \<and> fRelativePath f = fRelativePath g \<and> fDirectory f = fDirectory g \<and> fSize f = fSize g \<and>
     fChecksum f = fChecksum g \<and> fChunkSize f = fChunkSize g \<and> fChunkCount f = fChunkCount g"
  by (metis on_wire_simps)

lemma same_ids: "map on_wire fs = map on_wire files \<Longrightarrow> map fID fs = map fID files"
proof -
  assume "map on_wire fs = map on_wire files"
  then have "map fID (map on_wire fs) = map fID (map on_wire files)" by (rule arg_cong)
  then show ?thesis by (simp add: comp_def)
qed

lemma matching_described:
  assumes "manifest_entry S tree cs f" "\<not> fDirectory f" "on_wire f = on_wire g" "findFile files (fID g) = Some f"
    and "hSha256 R = hSha256 S" "0 < cs" "cs \<le> MaximumChunkSize" "fSize f + fChunkSize f < 2 ^ 63"
  shows "described R (source_bytes files tree) g" "source_bytes files tree g = bytes_at tree (fSourcePath f)"
    "tree (fSourcePath f) = Some (NFile (source_bytes files tree g))"
proof -
  note o = on_wire_eqD [OF assms(3)]
  obtain c where c: "tree (fSourcePath f) = Some (NFile c)" "fSize f = int (length c)" "fChecksum f = checksumBytes S c"
      "fChunkSize f = cs" "chunkCount (fSize f) cs = Some (fChunkCount f)"
    using assms(1,2) by (auto simp: manifest_entry_def)
  show s: "source_bytes files tree g = bytes_at tree (fSourcePath f)" using assms(4) by (simp add: source_bytes_def)
  then have "source_bytes files tree g = c" using c(1) by (simp add: bytes_at_def)
  then show "described R (source_bytes files tree) g" "tree (fSourcePath f) = Some (NFile (source_bytes files tree g))"
    using o c assms(5-8) by (simp_all add: described_def checksumBytes_def)
qed

lemma call_understood:
  assumes "manifest_entry S tree cs f" "\<not> fDirectory f" "on_wire f = on_wire g" "findFile files (fID g) = Some f"
    and lib: "same_libraries S R" and cs: "0 < cs" "cs \<le> MaximumChunkSize" "fSize f + fChunkSize f < 2 ^ 63"
    and g: "g \<in> set fs" "distinct (map fID fs)" and j: "0 \<le> j" "j < fChunkCount f"
  shows "understood R (source_bytes files tree) fs (chunk_call S t tree (f, j))"
proof -
  let ?src = "source_bytes files tree"
  note o = on_wire_eqD [OF assms(3)]
  have l: "hSha256 R = hSha256 S" "\<forall>c. length (hSha256 S c) = 32" "\<forall>c. hGunzip R (hGzip S c) False = Some (c, False)"
    using lib by (simp_all add: same_libraries_def)
  note m = matching_described [OF assms(1-4) l(1) cs]
  have p: "piece (\<lambda>f. bytes_at tree (fSourcePath f)) f j = piece ?src g j" using o m(2) by (simp add: piece_def)
  obtain sent enc where pay: "chunk_payload S t f (piece ?src g j) = (sent, enc)" by fastforce
  have "requested_chunk R r (fID f) j (checksumBytes S (piece ?src g j)) enc \<lparr>bBytes = sent, bBroken = False\<rparr> = Inr (g, piece ?src g j)"
    if "tFiles r = fs" for r
    using piece_length [OF m(1), of j] o j l assms(1,2) cs findFile_distinct [OF g(2,1)] that
    by (intro sent_chunk_accepted [OF _ pay]) (auto simp: manifest_entry_def)
  then show ?thesis using g(1) o j assms(2) pay by (auto simp: understood_def chunk_call_def p Let_def)
qed

text \<open>What the proof uses of the manifest and of the files of the receiver.\<close>

definition mirrored :: "service \<Rightarrow> service \<Rightarrow> transfer \<Rightarrow> fsys \<Rightarrow> transfer_file list \<Rightarrow> bool" where
  "mirrored S R t tree fs \<longleftrightarrow> same_libraries S R \<and> 0 < tChunkSize t \<and> tChunkSize t \<le> MaximumChunkSize \<and>
     (\<forall>f \<in> set (tFiles t). manifest_entry S tree (tChunkSize t) f \<and> fSize f + fChunkSize f < 2 ^ 63) \<and>
     distinct (map fID (tFiles t)) \<and> map on_wire fs = map on_wire (tFiles t)"

lemma mirrored_file:
  assumes "mirrored S R t tree fs" "g \<in> set fs"
  obtains f where "f \<in> set (tFiles t)" "on_wire f = on_wire g" "findFile (tFiles t) (fID g) = Some f" "fDirectory f = fDirectory g"
    "\<not> fDirectory g \<Longrightarrow> described R (source_bytes (tFiles t) tree) g"
    "\<not> fDirectory g \<Longrightarrow> tree (fSourcePath f) = Some (NFile (source_bytes (tFiles t) tree g))"
proof -
  have m: "map on_wire fs = map on_wire (tFiles t)" "distinct (map fID (tFiles t))" "hSha256 R = hSha256 S"
    "0 < tChunkSize t" "tChunkSize t \<le> MaximumChunkSize"
    using assms(1) by (simp_all add: mirrored_def same_libraries_def)
  obtain f where f: "f \<in> set (tFiles t)" "on_wire f = on_wire g" "findFile (tFiles t) (fID g) = Some f"
    by (rule matching_file [OF m(1) assms(2) m(2)])
  have e: "manifest_entry S tree (tChunkSize t) f" "fSize f + fChunkSize f < 2 ^ 63" using assms(1) f(1) by (simp_all add: mirrored_def)
  have d: "fDirectory f = fDirectory g" using on_wire_eqD [OF f(2)] by simp
  show thesis using that [OF f d] matching_described [OF e(1) _ f(2,3) m(3-5) e(2)] d by simp
qed

lemma mirrored_ids: "mirrored S R t tree fs \<Longrightarrow> distinct (map fID fs)"
  using same_ids [of fs "tFiles t"] by (simp add: mirrored_def)

lemma mirrored_workable:
  assumes "mirrored S R t tree fs" "quiet R" "hUuidOk R i" "laid_out R i fs"
  shows "workable R i (source_bytes (tFiles t) tree) fs"
proof -
  have "described R (source_bytes (tFiles t) tree) g" if "g \<in> set (regular fs)" for g
  proof -
    have g: "g \<in> set fs" "\<not> fDirectory g" using that by simp_all
    show ?thesis by (rule mirrored_file [OF assms(1) g(1)]) (use g(2) in simp)
  qed
  then show ?thesis using assms(2-4) mirrored_ids [OF assms(1)] by (simp add: workable_def)
qed

lemma mirrored_understood:
  assumes "mirrored S R t tree fs" "f \<in> set (tFiles t)" "\<not> fDirectory f" "0 \<le> j" "j < fChunkCount f"
  shows "understood R (source_bytes (tFiles t) tree) fs (chunk_call S t tree (f, j))"
proof -
  have m: "map on_wire fs = map on_wire (tFiles t)" "distinct (map fID (tFiles t))" "same_libraries S R"
    "0 < tChunkSize t" "tChunkSize t \<le> MaximumChunkSize" "manifest_entry S tree (tChunkSize t) f" "fSize f + fChunkSize f < 2 ^ 63"
    using assms(1,2) by (simp_all add: mirrored_def)
  have "on_wire f \<in> set (map on_wire fs)" using assms(2) m(1) by simp
  then obtain g where g: "g \<in> set fs" "on_wire f = on_wire g" by auto
  have "findFile (tFiles t) (fID g) = Some f" using findFile_distinct [OF m(2) assms(2)] on_wire_eqD [OF g(2)] by simp
  then show ?thesis by (rule call_understood [OF m(6) assms(3) g(2) _ m(3-5,7) g(1) mirrored_ids [OF assms(1)] assms(4,5)])
qed

text \<open>After the chunks which the status lacked all are there.\<close>

lemma mirrored_received:
  assumes mi: "mirrored S R t tree fs" and wk: "quiet R" "hUuidOk R i" "laid_out R i fs"
    and re: "receiving R i token (source_bytes (tFiles t) tree) fs policy w"
    and ts: "set tasks = set (pending_tasks (tFiles t) (received_chunks (ListChunks (wDb w) i)))"
  shows "\<exists>w'. receive_all R i token (map (chunk_call S t tree) tasks) w = (Inr (), w') \<and>
    receiving R i token (source_bytes (tFiles t) tree) fs policy w' \<and>
    (\<forall>g \<in> set (regular fs). done_chunks i w' g = {0..<fChunkCount g})"
proof -
  let ?src = "source_bytes (tFiles t) tree" and ?calls = "map (chunk_call S t tree) tasks"
  have pend: "(f, j) \<in> set tasks \<longleftrightarrow> f \<in> set (tFiles t) \<and> \<not> fDirectory f \<and> 0 \<le> j \<and> j < fChunkCount f \<and> j \<notin> done_chunks i w f" for f j
    unfolding ts pending_tasks_iff received_chunks_set by (simp add: done_chunks_def)
  have "\<forall>c \<in> set ?calls. understood R ?src fs c" using mirrored_understood [OF mi] pend by auto
  then obtain w1 where w1: "receive_all R i token ?calls w = (Inr (), w1)" "receiving R i token ?src fs policy w1"
      "\<forall>g. done_chunks i w1 g = {j. (fID g, j) \<in> set (map (\<lambda>(x, j, _). (x, j)) ?calls)} \<union> done_chunks i w g"
    using receive_all_run [OF mirrored_workable [OF mi wk] re, of ?calls] by blast
  have "done_chunks i w1 g = {0..<fChunkCount g}" if g: "g \<in> set (regular fs)" for g
  proof -
    have "g \<in> set fs" using g by simp
    then obtain f where f: "f \<in> set (tFiles t)" "on_wire f = on_wire g" by (rule mirrored_file [OF mi])
    note o = on_wire_eqD [OF f(2)]
    have "j \<in> done_chunks i w1 g" if "0 \<le> j" "j < fChunkCount g" for j
    proof (cases "j \<in> done_chunks i w g")
      case False
      then have "(f, j) \<in> set tasks" using pend [of f j] f(1) g o that by (simp add: done_chunks_def)
      then have "(\<lambda>(x, j, _). (x, j)) (chunk_call S t tree (f, j)) \<in> set (map (\<lambda>(x, j, _). (x, j)) ?calls)" by force
      then show ?thesis using w1(3) o by (simp add: chunk_call_def split_def Let_def)
    qed (use w1(3) in simp)
    then show ?thesis using w1(2) g by (fastforce simp: receiving_def holding_def)
  qed
  then show ?thesis using w1(1,2) by blast
qed

text \<open>From such a state the whole transfer runs through.\<close>

lemma transfer_run:
  assumes "same_libraries S R" "buildManifest S paths (tChunkSize t) m = (Inr (tFiles t, tSize t, agg), m')"
    and "\<forall>f \<in> set (tFiles t). fSize f + fChunkSize f < 2 ^ 63" "distinct (map fID (tFiles t))"
    and "map on_wire fs = map on_wire (tFiles t)" "quiet R" "hUuidOk R i" "laid_out R i fs"
    and "receiving R i token (source_bytes (tFiles t) (wFs m)) fs policy w"
    and "set tasks = set (pending_tasks (tFiles t) (received_chunks (ListChunks (wDb w) i)))"
  shows "\<exists>r w' d. seqE (receive_all R i token (map (chunk_call S t (wFs m)) tasks)) (Finalize R i token) w = (Inr r, w') \<and>
    tID r = i \<and> tStatus r = StatusCompleted \<and> wDb w' = SaveTransfer r d \<and>
    (\<forall>f \<in> set (tFiles t). \<forall>g \<in> set fs. \<not> fDirectory f \<and> fID g = fID f \<longrightarrow> wFs w' (fDestinationPath g) = wFs m (fSourcePath f))"
proof -
  have mi: "mirrored S R t (wFs m) fs"
    using assms(1-5) manifest_facts [OF assms(2)] by (simp add: mirrored_def)
  note wk = mirrored_workable [OF mi assms(6-8)]
  obtain w1 where w1: "receive_all R i token (map (chunk_call S t (wFs m)) tasks) w = (Inr (), w1)"
      "receiving R i token (source_bytes (tFiles t) (wFs m)) fs policy w1"
      "\<forall>g \<in> set (regular fs). done_chunks i w1 g = {0..<fChunkCount g}"
    using mirrored_received [OF mi assms(6-10)] by blast
  obtain r w' d where fin: "Finalize R i token w1 = (Inr r, w')" "tID r = i" "tStatus r = StatusCompleted" "wDb w' = SaveTransfer r d"
      "\<forall>g \<in> set (regular fs). wFs w' (fDestinationPath g) = Some (NFile (source_bytes (tFiles t) (wFs m) g))"
    using Finalize_run [OF wk w1(2,3)] by blast
  have "wFs w' (fDestinationPath g) = wFs m (fSourcePath f)"
    if f: "f \<in> set (tFiles t)" "g \<in> set fs" "\<not> fDirectory f" "fID g = fID f" for f g
  proof (rule mirrored_file [OF mi f(2)])
    fix f' assume f': "findFile (tFiles t) (fID g) = Some f'" "fDirectory f' = fDirectory g"
      "\<not> fDirectory g \<Longrightarrow> wFs m (fSourcePath f') = Some (NFile (source_bytes (tFiles t) (wFs m) g))"
    have "f' = f" using f'(1) findFile_distinct [OF assms(4) f(1)] f(4) by simp
    then show ?thesis using f' f(2,3) fin(5) by simp
  qed
  then show ?thesis using w1(1) fin(1-4) by (intro exI [of _ r] exI [of _ w'] exI [of _ d]) (simp add: seqE_def bindE_def)
qed

text \<open>C2: An honest transfer is delivered. Let a receiver whose disk does not fail hold an approved session for the manifest of
  a sender, with the recorded chunks in its partial files and the destinations free. If it gets, in any
  order and possibly more than once, the chunks its answer to a status request lacks, and then the call to
  complete, every call succeeds, the transfer is stored as completed, and every regular file of the
  sender stands byte for byte at its destination. The files must have a layout in which no two places collide.\<close>

theorem honest_transfer_delivered:
  assumes "same_libraries S R" "buildManifest S paths (tChunkSize t) m = (Inr (tFiles t, tSize t, agg), m')"
    and "\<forall>f \<in> set (tFiles t). fSize f + fChunkSize f < 2 ^ 63" "distinct (map fID (tFiles t))"
    and "map on_wire fs = map on_wire (tFiles t)" "quiet R" "hUuidOk R i" "laid_out R i fs"
    and "receiving R i token (source_bytes (tFiles t) (wFs m)) fs policy w"
    and "set tasks = set (pending_tasks (tFiles t) (received_chunks (ListChunks (wDb w) i)))"
  shows "\<exists>r w' d. seqE (receive_all R i token (map (chunk_call S t (wFs m)) tasks)) (Finalize R i token) w = (Inr r, w') \<and>
    tID r = i \<and> tStatus r = StatusCompleted \<and> wDb w' = SaveTransfer r d \<and>
    (\<forall>f \<in> set (tFiles t). \<forall>g \<in> set fs. \<not> fDirectory f \<and> fID g = fID f \<longrightarrow> wFs w' (fDestinationPath g) = wFs m (fSourcePath f))"
  using assms by (rule transfer_run)

section \<open>Example\<close>

text \<open>The directory \<open>/in\<close> of the sample sender, received into \<open>/out\<close>.\<close>

lemma sample_sent_manifest:
  obtains a b agg m' where "buildManifest sample_service [''/in''] 4 sample_world = (Inr ([a, b], 5, agg), m')"
    "fRelativePath a = ''in''" "fRelativePath b = ''in/a.txt''" "fDirectory a" "\<not> fDirectory b" "fID a \<noteq> fID b"
    "fSourcePath b = ''/in/a.txt''" "fSize a + fChunkSize a < 2 ^ 63" "fSize b + fChunkSize b < 2 ^ 63"
proof -
  have "(case buildManifest sample_service [''/in''] 4 sample_world of
      (Inr (fs, n, agg), w') \<Rightarrow> n = 5 \<and> map fRelativePath fs = [''in'', ''in/a.txt''] \<and> map fDirectory fs = [True, False] \<and>
        distinct (map fID fs) \<and> map fSourcePath fs = [''/in'', ''/in/a.txt''] \<and> list_all (\<lambda>f. fSize f + fChunkSize f < 2 ^ 63) fs
    | _ \<Rightarrow> False)"
    by code_simp
  then have "\<exists>fs agg m'. buildManifest sample_service [''/in''] 4 sample_world = (Inr (fs, 5, agg), m') \<and>
      map fRelativePath fs = [''in'', ''in/a.txt''] \<and> map fDirectory fs = [True, False] \<and> distinct (map fID fs) \<and>
      map fSourcePath fs = [''/in'', ''/in/a.txt''] \<and> list_all (\<lambda>f. fSize f + fChunkSize f < 2 ^ 63) fs"
    by (auto split: prod.splits sum.splits)
  then obtain fs agg m' where m: "buildManifest sample_service [''/in''] 4 sample_world = (Inr (fs, 5, agg), m')"
    "map fRelativePath fs = [''in'', ''in/a.txt'']" "map fDirectory fs = [True, False]" "distinct (map fID fs)"
    "map fSourcePath fs = [''/in'', ''/in/a.txt'']" "list_all (\<lambda>f. fSize f + fChunkSize f < 2 ^ 63) fs"
    by (elim exE conjE) (rule that)
  obtain a b where "fs = [a, b]" using m(2) by (auto simp only: map_eq_Cons_conv map_is_Nil_conv)
  then show thesis using m by (intro that [of a b agg m']) simp_all
qed

text \<open>The places of a transfer can collide: the partial file of \<open>x\<close> is the directory of the partial file of \<open>x.part/y\<close>.\<close>

lemma partial_names_collide:
  "path_dir (partialPath sample_service ''t1'' ''x.part/y'') = partialPath sample_service ''t1'' ''x''"
  by code_simp

definition sample_placed :: "transfer_file \<Rightarrow> transfer_file" where
  "sample_placed f = f\<lparr>fSourcePath := [], fDestinationPath := ''/out/'' @ fRelativePath f\<rparr>"

lemma sample_placed_simps [simp]:
  "on_wire (sample_placed f) = on_wire f" "fID (sample_placed f) = fID f" "fRelativePath (sample_placed f) = fRelativePath f"
  "fDirectory (sample_placed f) = fDirectory f" "fDestinationPath (sample_placed f) = ''/out/'' @ fRelativePath f"
  by (simp_all add: sample_placed_def on_wire_def)

abbreviation (input) sample_part :: string where "sample_part \<equiv> ''/data/incoming/t1/in/a.txt.part''"

lemma sample_part: "partialPath sample_service ''t1'' ''in/a.txt'' = sample_part"
  by code_simp

lemma sample_layout:
  assumes "fRelativePath a = ''in''" "fRelativePath b = ''in/a.txt''" "fDirectory a" "\<not> fDirectory b"
  shows "file_places sample_service ''t1'' [sample_placed a, sample_placed b] = [sample_part, ''/out/in/a.txt'']"
    "dir_places sample_service ''t1'' [sample_placed a, sample_placed b] =
      [''/'', ''/out'', ''/out/in'', ''/'', ''/data'', ''/data/incoming'', ''/data/incoming/t1'', ''/data/incoming/t1/in'',
       ''/'', ''/out'', ''/out/in'']"
proof -
  show "file_places sample_service ''t1'' [sample_placed a, sample_placed b] = [sample_part, ''/out/in/a.txt'']"
    using assms(4) by (simp only: file_places_def regular_def sample_placed_simps assms sample_part filter.simps list.map append.simps if_True if_False simp_thms)
  have 1: "ancestors ''/out/in'' = [''/'', ''/out'', ''/out/in'']" by code_simp
  have 2: "ancestors (path_dir ''/out/in/a.txt'') = [''/'', ''/out'', ''/out/in'']" by code_simp
  have 3: "ancestors (path_dir sample_part) = [''/'', ''/data'', ''/data/incoming'', ''/data/incoming/t1'', ''/data/incoming/t1/in'']"
    by code_simp
  show "dir_places sample_service ''t1'' [sample_placed a, sample_placed b] =
      [''/'', ''/out'', ''/out/in'', ''/'', ''/data'', ''/data/incoming'', ''/data/incoming/t1'', ''/data/incoming/t1/in'',
       ''/'', ''/out'', ''/out/in'']"
    using assms(3,4) by (simp only: dir_places_def sample_placed_simps assms(1,2) sample_part 1 2 3 list.map append.simps concat.simps if_True if_False simp_thms)
qed


lemma sample_tame: "tame {''/'', ''/out'', ''/out/in'', ''/data'', ''/data/incoming'', ''/data/incoming/t1'', ''/data/incoming/t1/in''}
    {sample_part, ''/out/in/a.txt''} (wFs sample_world)"
  "wFs sample_world sample_part = None" "wFs sample_world ''/out/in/a.txt'' = None"
  by (simp_all add: sample_world_def tame_def)

definition sample_waiting_world :: "transfer_file list \<Rightarrow> tworld" where
  "sample_waiting_world fs = sample_world\<lparr>wDb := SaveTransfer (sample_transfer\<lparr>tFiles := fs\<rparr>) empty_db\<rparr>"

lemma sample_session:
  assumes "fs = [sample_placed a, sample_placed b]" "fRelativePath a = ''in''" "fRelativePath b = ''in/a.txt''" "fID a \<noteq> fID b"
  shows "session sample_service ''t1'' ''token'' fs ConflictPrompt (wDb (sample_waiting_world fs))"
    "ListChunks (wDb (sample_waiting_world fs)) ''t1'' = []"
proof -
  let ?t = "sample_transfer\<lparr>tFiles := fs\<rparr>"
  have "''in'' \<le> ''in/a.txt''" by code_simp
  then have f: "tFiles (by_path (persist None ?t)) = fs"
    using assms by (simp add: by_path_def persist_def merge_files_def)
  have none: "lookup empty_db ''t1'' = None" by (simp add: lookup_def empty_db_def select_def)
  have "db_inv (wDb (sample_waiting_world fs))" "GetTransfer (wDb (sample_waiting_world fs)) ''t1'' = Inr (by_path (persist None ?t))"
    using db_inv_save [OF db_inv_empty, of ?t] lookup_save [OF db_inv_empty, of ?t "''t1''"]
    by (simp_all add: sample_waiting_world_def GetTransfer_lookup none)
  then show "session sample_service ''t1'' ''token'' fs ConflictPrompt (wDb (sample_waiting_world fs))"
    using f by (simp add: session_def) (simp add: by_path_def persist_def sample_transfer_def)
  show "ListChunks (wDb (sample_waiting_world fs)) ''t1'' = []"
    by (simp add: sample_waiting_world_def) (simp add: ListChunks_def empty_db_def)
qed


theorem honest_transfer_delivered_witness:
  "\<exists>t fs r w'. seqE (receive_all sample_service ''t1'' ''token'' (map (chunk_call sample_service t (wFs sample_world)) (pending_tasks (tFiles t) (received_chunks []))))
     (Finalize sample_service ''t1'' ''token'') (sample_waiting_world fs) = (Inr r, w') \<and> tStatus r = StatusCompleted \<and>
     wFs w' ''/out/in/a.txt'' = Some (NFile ''hello'')"
proof -
  obtain a b agg m' where m: "buildManifest sample_service [''/in''] 4 sample_world = (Inr ([a, b], 5, agg), m')"
    and ab: "fRelativePath a = ''in''" "fRelativePath b = ''in/a.txt''" "fDirectory a" "\<not> fDirectory b" "fID a \<noteq> fID b"
      "fSourcePath b = ''/in/a.txt''" "fSize a + fChunkSize a < 2 ^ 63" "fSize b + fChunkSize b < 2 ^ 63"
    by (rule sample_sent_manifest)
  define t where "t = transfer_zero\<lparr>tFiles := [a, b], tSize := 5, tChunkSize := 4\<rparr>"
  have t: "tFiles t = [a, b]" "tSize t = 5" "tChunkSize t = 4" by (simp_all add: t_def)
  define fs where "fs = [sample_placed a, sample_placed b]"
  note lay = sample_layout [OF ab(1-4), folded fs_def]
  have out: "laid_out sample_service ''t1'' fs"
    unfolding laid_out_def lay using ab(1,2) by (simp add: fs_def is_abs_def)
  have ses: "session sample_service ''t1'' ''token'' fs ConflictPrompt (wDb (sample_waiting_world fs))"
      "ListChunks (wDb (sample_waiting_world fs)) ''t1'' = []"
    by (rule sample_session [OF fs_def ab(1,2,5)])+
  have wf: "wFs (sample_waiting_world fs) = wFs sample_world" by (simp add: sample_waiting_world_def)
  have reg: "regular fs = [sample_placed b]" using ab(3,4) by (simp add: fs_def regular_def)
  have none: "done_chunks ''t1'' (sample_waiting_world fs) f = {}" for f
    by (simp add: done_chunks_def ses(2) complete_indices_def)
  have hold: "holding sample_service ''t1'' src fs (sample_waiting_world fs)" for src
    unfolding holding_def reg wf none by (simp add: ab(2) sample_part bytes_at_def sample_tame(2) holds_nothing)
  have tame: "tame_for sample_service ''t1'' fs (wFs sample_world)" unfolding lay by (rule tame_mono [OF sample_tame(1)]) auto
  have "receiving sample_service ''t1'' ''token'' (source_bytes (tFiles t) (wFs sample_world)) fs ConflictPrompt (sample_waiting_world fs)"
    unfolding receiving_def wf reg using ses(1) hold tame sample_tame(3) ab(2) by simp
  from honest_transfer_delivered [OF sample_libraries _ _ _ _ quiet_sample sample_id out this, of "[''/in'']" agg m'
      "pending_tasks (tFiles t) (received_chunks [])"]
  obtain r w' where "seqE (receive_all sample_service ''t1'' ''token'' (map (chunk_call sample_service t (wFs sample_world))
      (pending_tasks (tFiles t) (received_chunks [])))) (Finalize sample_service ''t1'' ''token'') (sample_waiting_world fs) = (Inr r, w')"
    "tStatus r = StatusCompleted" "wFs w' (fDestinationPath (sample_placed b)) = wFs sample_world (fSourcePath b)"
    using m ab(4,5,7,8) ses(2) by (auto simp: t fs_def)
  moreover have "wFs sample_world ''/in/a.txt'' = Some (NFile ''hello'')" by (simp add: sample_world_def)
  ultimately show ?thesis using ab(2,6) by (intro exI [of _ t] exI [of _ fs] exI [of _ r] exI [of _ w']) simp
qed

end
