(* ===== verification/TransferJourney.thy ===== *)
theory TransferJourney
  imports TransferWhole
begin

text \<open>
  The whole way of an honest transfer: the offer, the approval of the user, the chunks and the call to complete.
\<close>

section \<open>Rows saved the first and the second time\<close>

lemma upsert_end: "fID f \<notin> fID ` set pre \<Longrightarrow> upsert fID (\<lambda>_ new. new) f (pre @ rest) = pre @ upsert fID (\<lambda>_ new. new) f rest"
  by (induction pre) auto

lemma merge_empty:
  assumes "distinct (map fID fs)" shows "merge_files fs [] = fs"
proof -
  have "fold (upsert fID (\<lambda>_ new. new)) fs pre = pre @ fs" if "distinct (map fID (pre @ fs))" for pre
    using that
  proof (induction fs arbitrary: pre)
    case (Cons f fs)
    have "upsert fID (\<lambda>_ new. new) f (pre @ []) = pre @ [f]" using Cons.prems by (subst upsert_end) auto
    then show ?case using Cons.IH [of "pre @ [f]"] Cons.prems by simp
  qed simp
  from this [of "[]"] assms show ?thesis by (simp add: merge_files_def)
qed

lemma merge_replace:
  assumes "map fID new = map fID old" "distinct (map fID old)" shows "merge_files new old = new"
proof -
  have "length new = length old" using assms(1) map_eq_imp_length_eq by blast
  then have "fold (upsert fID (\<lambda>_ new. new)) new (pre @ old) = pre @ new"
    if "map fID new = map fID old" "distinct (map fID (pre @ old))" for pre
    using that
  proof (induction new old arbitrary: pre rule: list_induct2)
    case (Cons x new y old)
    have "upsert fID (\<lambda>_ new. new) x (pre @ y # old) = pre @ x # old" using Cons.prems by (subst upsert_end) auto
    then show ?case using Cons.IH [of "pre @ [x]"] Cons.prems by simp
  qed simp
  from this [of "[]"] assms show ?thesis by (simp add: merge_files_def)
qed

lemma first_save:
  assumes "db_inv d" "GetTransfer d (tID t) = Inl e" "distinct (map fID (tFiles t))"
  shows "\<exists>o'. lookup (SaveTransfer t d) (tID t) = Some o' \<and> tFiles o' = tFiles t \<and> tSessionTokenHash o' = tSessionTokenHash t"
proof -
  have "lookup d (tID t) = None" using assms(2) by (simp add: GetTransfer_lookup split: option.splits)
  then show ?thesis using assms(3) by (simp add: lookup_save [OF assms(1)] persist_def merge_empty)
qed

text \<open>A second save that keeps the identifiers puts the new entries in the place of the old ones.\<close>

lemma second_save:
  assumes "db_inv d" "lookup d (tID t) = Some o'" "distinct (map fID (tFiles o'))" "map fID (tFiles t) = map fID (tFiles o')"
    and "sorted (map fRelativePath (tFiles t))"
  shows "\<exists>r. GetTransfer (SaveTransfer t d) (tID t) = Inr r \<and> tFiles r = tFiles t \<and> tSessionTokenHash r = tSessionTokenHash t \<and>
    tApproved r = tApproved t \<and> tStatus r = tStatus t \<and> tConflictPolicy r = tConflictPolicy t"
proof -
  have "GetTransfer (SaveTransfer t d) (tID t) = Inr (by_path (persist (Some o') t))"
    using lookup_save [OF assms(1)] assms(2) by (simp add: GetTransfer_lookup)
  then show ?thesis using assms(3-5) by (simp add: by_path_def persist_def merge_replace sort_key_id_if_sorted)
qed

section \<open>The approval\<close>

definition placed :: "service \<Rightarrow> string \<Rightarrow> fsys \<Rightarrow> transfer_file \<Rightarrow> transfer_file \<Rightarrow> bool" where
  "placed R root tree f g \<longleftrightarrow> (\<exists>p. secureJoin (hCwd R) root (fRelativePath f) = Inr p \<and> g = f\<lparr>fDestinationPath := p\<rparr> \<and> tree p = None)"

lemma place_file_iff:
  assumes "quiet R"
  shows "place_file R root ConflictPrompt f w = (Inr g, w') \<longleftrightarrow> placed R root (wFs w) f g \<and> w' = bump w"
  by (auto simp: place_file_def placed_def bindE_def tryE_def liftE_def quiet_calls [OF assms] os_lstat_def Let_def throwE_def retE_def
      split: sum.splits option.splits)

lemma place_files_Inr:
  assumes "quiet R" "mapE (place_file R root ConflictPrompt) fs w = (Inr gs, w')"
  shows "list_all2 (placed R root (wFs w)) fs gs \<and> wFs w' = wFs w \<and> wDb w' = wDb w"
  using assms(2)
proof (induction fs arbitrary: gs w)
  case (Cons f fs)
  then obtain g gs' w1 where g: "place_file R root ConflictPrompt f w = (Inr g, w1)" "gs = g # gs'"
      "mapE (place_file R root ConflictPrompt) fs w1 = (Inr gs', w')"
    by (auto simp: bindE_def retE_def split: sum.splits prod.splits)
  then have "placed R root (wFs w) f g" "w1 = bump w" using place_file_iff [OF assms(1)] by blast+
  then show ?case using Cons.IH [OF g(3)] g(2) by simp
qed (simp add: retE_def)

lemma place_files_run:
  assumes "quiet R" "list_all2 (placed R root tree) fs gs" "wFs w = tree"
  shows "\<exists>w'. mapE (place_file R root ConflictPrompt) fs w = (Inr gs, w') \<and> wFs w' = tree \<and> wDb w' = wDb w"
  using assms(2,3)
proof (induction fs gs arbitrary: w rule: list_all2_induct)
  case (Cons f fs g gs)
  have "place_file R root ConflictPrompt f w = (Inr g, bump w)" using Cons.hyps(1) Cons.prems place_file_iff [OF assms(1)] by simp
  then show ?case using Cons.IH [of "bump w"] Cons.prems by (auto simp: bindE_def retE_def)
qed (simp add: retE_def)

lemma Accept_Inr:
  assumes "quiet R" "Accept R i rq w = (Inr a, w')" "aConflictPolicy rq \<in> {[], ConflictPrompt}"
  obtains t root n where "GetTransfer (wDb w) i = Inr t" "list_all2 (placed R root (wFs w')) (tFiles t) (tFiles a)"
    "a = accepted t root ConflictPrompt (tFiles a) n" "wDb w' = SaveTransfer a (wDb w)"
proof -
  have policy: "(if aConflictPolicy rq = [] then ConflictPrompt else aConflictPolicy rq) = ConflictPrompt" using assms(3) by auto
  have "\<exists>t root tree files w2. mapE (place_file R root ConflictPrompt) (tFiles t) (bump (bump (bump w)\<lparr>wFs := tree\<rparr>)) = (Inr files, w2) \<and>
      GetTransfer (wDb w) i = Inr t \<and> a = accepted t root ConflictPrompt files (hNow R (wTick w2)) \<and> wFs w' = wFs w2 \<and>
      wDb w' = SaveTransfer a (wDb w2)"
    using assms(2)
    by (clarsimp simp: Accept_def policy Get_def Let_def availableStorage_def getE_def
      elim!: bindE_InrE seqE_InrE call_elims split: option.splits) blast
  then obtain t root tree files w2 where
    m: "mapE (place_file R root ConflictPrompt) (tFiles t) (bump (bump (bump w)\<lparr>wFs := tree\<rparr>)) = (Inr files, w2)" and
    t: "GetTransfer (wDb w) i = Inr t" and
    a: "a = accepted t root ConflictPrompt files (hNow R (wTick w2))" "wFs w' = wFs w2" "wDb w' = SaveTransfer a (wDb w2)"
    by blast
  show thesis
    using that [OF t, of root "hNow R (wTick w2)"] place_files_Inr [OF assms(1) m] a by (simp add: accepted_def)
qed


text \<open>An approval of files that can be placed succeeds.\<close>

lemma Accept_run:
  assumes "quiet R" "hUuidOk R i" "GetTransfer (wDb w) i = Inr t" "tDirection t = DirectionInbound" "tStatus t = StatusQueued"
    and "tApprovalRequired t" "trim_space (aDestinationPath rq) \<noteq> []" "aConflictPolicy rq \<in> {[], ConflictPrompt}"
    and "path_abs (hCwd R) (aDestinationPath rq) = Some root" "os_mkdir_all root (wFs w) = Inr tree"
    and "\<And>k q. \<not> (0 < hAvail R k q \<and> hAvail R k q < tSize t)" "list_all2 (placed R root tree) (tFiles t) gs"
  shows "\<exists>a w'. Accept R i rq w = (Inr a, w') \<and> tFiles a = gs \<and> tPath a = root \<and> wFs w' = tree"
proof -
  have policy: "(if aConflictPolicy rq = [] then ConflictPrompt else aConflictPolicy rq) = ConflictPrompt" using assms(8) by auto
  have "validPolicy ConflictPrompt" by (simp add: validPolicy_def)
  obtain w1 where "mapE (place_file R root ConflictPrompt) (tFiles t) (bump ((bump (bump w))\<lparr>wFs := tree\<rparr>)) = (Inr gs, w1)" "wFs w1 = tree"
    using place_files_run [OF assms(1,12), of "bump ((bump (bump w))\<lparr>wFs := tree\<rparr>)"] by auto
  then show ?thesis
    using assms(2-10) assms(11) \<open>validPolicy ConflictPrompt\<close>
    by (simp add: Accept_def policy Get_def Let_def availableStorage_def getE_def bindE_def seqE_def osE_def mapErrE_def
      quiet_calls [OF assms(1)] quiet_fs_call [OF assms(1)] call_runs accepted_def)
qed


section \<open>From the offer to the session\<close>

lemma on_wire_comp [simp]: "fID \<circ> on_wire = fID" "fRelativePath \<circ> on_wire = fRelativePath"
  by (simp_all add: fun_eq_iff on_wire_def)

lemma offered_row:
  assumes "ReceiveOffer R (received (offer_of s t)) remote auth u = (Inr r, u')" "GetTransfer (wDb u) (tID t) = Inl e"
    and "db_inv (wDb u)" "distinct (map fID (tFiles t))"
  shows "\<exists>o'. lookup (wDb u') (tID t) = Some o' \<and> tFiles o' = map on_wire (tFiles t) \<and>
    tSessionTokenHash o' = hashToken R (tSessionToken t) \<and> db_inv (wDb u') \<and> ListChunks (wDb u') i = ListChunks (wDb u) i"
proof -
  have o: "oTransferID (received (offer_of s t)) = tID t" "oFiles (received (offer_of s t)) = map on_wire (tFiles t)"
    "oSessionToken (received (offer_of s t)) = tSessionToken t" by (simp_all add: received_def offer_of_def)
  have r: "wDb u' = SaveTransfer r (wDb u)" "tID r = tID t" "tFiles r = map on_wire (tFiles t)"
    "tSessionTokenHash r = hashToken R (tSessionToken t)"
    using ReceiveOffer_Inr [OF assms(1)] assms(2) unfolding o by auto
  then show ?thesis
    using first_save [of "wDb u" r e] assms(2-4) r by (simp add: db_inv_save)
qed

lemma placed_same: "placed R root tree f g \<Longrightarrow> on_wire g = on_wire f \<and> fID g = fID f \<and> fRelativePath g = fRelativePath f \<and>
    fDirectory g = fDirectory f \<and> secureJoin (hCwd R) root (fRelativePath f) = Inr (fDestinationPath g) \<and> tree (fDestinationPath g) = None"
  by (auto simp: placed_def on_wire_def)

lemma placed_maps:
  assumes "list_all2 (placed R root tree) fs gs"
  shows "map on_wire gs = map on_wire fs" "map fID gs = map fID fs" "map fRelativePath gs = map fRelativePath fs"
    "\<forall>g \<in> set gs. secureJoin (hCwd R) root (fRelativePath g) = Inr (fDestinationPath g) \<and> tree (fDestinationPath g) = None"
  using assms by (induction fs gs rule: list_all2_induct) (auto dest: placed_same)

text \<open>The approval opens a session in which nothing has been received.\<close>

lemma accepted_receiving:
  assumes "quiet R" "Accept R i rq u = (Inr a, w)" "aConflictPolicy rq \<in> {[], ConflictPrompt}"
    and "db_inv (wDb u)" "lookup (wDb u) i = Some o'" "tFiles o' = map on_wire files" "tSessionTokenHash o' = hashToken R token"
    and "distinct (map fID files)" "sorted (map fRelativePath files)" "ListChunks (wDb u) i = []"
    and "tame_for R i (tFiles a) (wFs w)" "\<forall>g \<in> set (regular (tFiles a)). wFs w (partialPath R i (fRelativePath g)) = None"
  shows "map on_wire (tFiles a) = map on_wire files \<and> receiving R i token src (tFiles a) ConflictPrompt w \<and> ListChunks (wDb w) i = [] \<and>
    (\<forall>g \<in> set (tFiles a). secureJoin (hCwd R) (tPath a) (fRelativePath g) = Inr (fDestinationPath g))"
proof -
  obtain t root n where t: "GetTransfer (wDb u) i = Inr t" and p: "list_all2 (placed R root (wFs w)) (tFiles t) (tFiles a)" and
    a: "a = accepted t root ConflictPrompt (tFiles a) n" "wDb w = SaveTransfer a (wDb u)"
    by (rule Accept_Inr [OF assms(1-3)])
  have i: "map fID (tFiles o') = map fID files" "map fRelativePath (tFiles o') = map fRelativePath files"
    using assms(6) by simp_all
  have srt: "sort_key fRelativePath (map on_wire files) = map on_wire files"
    by (rule sort_key_id_if_sorted) (use assms(6,9) i(2) in \<open>simp only:\<close>)
  have "t = by_path o'" using t assms(5) by (simp add: GetTransfer_lookup)
  moreover have "tID o' = i" using assms(5) by (rule lookup_id)
  ultimately have t': "tFiles t = map on_wire files" "tID t = i" "tSessionTokenHash t = hashToken R token"
    using assms(6,7) srt by (simp_all add: by_path_def)
  have a': "tID a = i" "tSessionTokenHash a = hashToken R token" "tApproved a" "tStatus a = StatusReceiving"
    "tConflictPolicy a = ConflictPrompt" "tPath a = root"
    using t' by (subst a(1), simp add: accepted_def)+
  note m = placed_maps [OF p, unfolded t'(1)]
  have "map fID (tFiles a) = map fID (tFiles o')" "sorted (map fRelativePath (tFiles a))"
    using m(2,3) assms(6,9) i by simp_all
  then obtain r where "GetTransfer (wDb w) i = Inr r" "tFiles r = tFiles a" "tSessionTokenHash r = tSessionTokenHash a"
    "tApproved r = tApproved a" "tStatus r = tStatus a" "tConflictPolicy r = tConflictPolicy a"
    using second_save [of "wDb u" a o'] assms(4,5,8) i(1) a(2) a'(1) by auto
  then have "session R i token (tFiles a) ConflictPrompt (wDb w)"
    using a' assms(4) a(2) by (simp add: session_def db_inv_save)
  moreover have c: "ListChunks (wDb w) i = []" using assms(10) a(2) by simp
  moreover have "holding R i src (tFiles a) w"
    using assms(12) by (simp add: holding_def done_chunks_def c complete_indices_def bytes_at_def holds_nothing)
  ultimately show ?thesis using m assms(11) a'(6) by (simp add: receiving_def comp_def on_wire_def)
qed


text \<open>C3: An honest transfer arrives. A receiver whose disk does not fail takes the offer of an honest sender under an
  identifier it does not know; its user accepts it into a directory; then every chunk comes at least once, in any order, and
  at last the call to complete. The receiver ends with the transfer completed, and every regular file of the sender stands,
  byte for byte, at the place its relative path has below the chosen directory. The files must have a layout
  in which no two places collide, and no older partial file may stand in their way.\<close>

theorem offered_transfer_delivered:
  assumes "same_libraries S R" "quiet R" "hUuidOk R (tID t)"
    and "buildManifest S paths (tChunkSize t) m = (Inr (tFiles t, tSize t, agg), m')"
    and "\<forall>f \<in> set (tFiles t). fSize f + fChunkSize f < 2 ^ 63" "distinct (map fID (tFiles t))"
    and "db_inv (wDb u)" "GetTransfer (wDb u) (tID t) = Inl e" "ListChunks (wDb u) (tID t) = []"
    and "ReceiveOffer R (received (offer_of s t)) remote auth u = (Inr r, u')"
    and "Accept R (tID t) rq u' = (Inr a, w)" "aConflictPolicy rq \<in> {[], ConflictPrompt}"
    and "laid_out R (tID t) (tFiles a)" "tame_for R (tID t) (tFiles a) (wFs w)"
    and "\<forall>g \<in> set (regular (tFiles a)). wFs w (partialPath R (tID t) (fRelativePath g)) = None"
    and "set tasks = set (pending_tasks (tFiles t) (received_chunks []))"
  shows "\<exists>c w' d. seqE (receive_all R (tID t) (tSessionToken t) (map (chunk_call S t (wFs m)) tasks))
      (Finalize R (tID t) (tSessionToken t)) w = (Inr c, w') \<and> tStatus c = StatusCompleted \<and> wDb w' = SaveTransfer c d \<and>
    (\<forall>f \<in> set (tFiles t). \<not> fDirectory f \<longrightarrow>
       (\<exists>p. secureJoin (hCwd R) (tPath a) (fRelativePath f) = Inr p \<and> wFs w' p = wFs m (fSourcePath f)))"
proof -
  note mf = manifest_facts [OF assms(4)]
  obtain o' where o': "lookup (wDb u') (tID t) = Some o'" "tFiles o' = map on_wire (tFiles t)"
      "tSessionTokenHash o' = hashToken R (tSessionToken t)" "db_inv (wDb u')" "ListChunks (wDb u') (tID t) = []"
    using offered_row [OF assms(10,8,7,6)] assms(9) by metis
  have acc: "map on_wire (tFiles a) = map on_wire (tFiles t)"
      "receiving R (tID t) (tSessionToken t) (source_bytes (tFiles t) (wFs m)) (tFiles a) ConflictPrompt w"
      "ListChunks (wDb w) (tID t) = []"
      "\<forall>g \<in> set (tFiles a). secureJoin (hCwd R) (tPath a) (fRelativePath g) = Inr (fDestinationPath g)"
    using accepted_receiving [OF assms(2,11,12) o'(4,1-3) assms(6) _ o'(5) assms(14,15)] mf by blast+
  obtain c w' d where run: "seqE (receive_all R (tID t) (tSessionToken t) (map (chunk_call S t (wFs m)) tasks))
      (Finalize R (tID t) (tSessionToken t)) w = (Inr c, w')" "tStatus c = StatusCompleted" "wDb w' = SaveTransfer c d"
      "\<forall>f \<in> set (tFiles t). \<forall>g \<in> set (tFiles a). \<not> fDirectory f \<and> fID g = fID f \<longrightarrow> wFs w' (fDestinationPath g) = wFs m (fSourcePath f)"
    using transfer_run [OF assms(1,4,5,6) acc(1) assms(2,3,13) acc(2), of tasks] assms(16) acc(3) by auto
  have "\<exists>p. secureJoin (hCwd R) (tPath a) (fRelativePath f) = Inr p \<and> wFs w' p = wFs m (fSourcePath f)"
    if f: "f \<in> set (tFiles t)" "\<not> fDirectory f" for f
  proof -
    have "on_wire f \<in> set (map on_wire (tFiles a))" using f(1) acc(1) by simp
    then obtain g where "g \<in> set (tFiles a)" "on_wire g = on_wire f" by force
    moreover from this have "fID g = fID f" "fRelativePath g = fRelativePath f" using on_wire_eqD by blast+
    ultimately show ?thesis using run(4) f acc(4) by metis
  qed
  with run(1-3) show ?thesis by blast
qed

section \<open>Example\<close>

text \<open>The directory \<open>/in\<close> of the sample sender, offered to the sample receiver and accepted into \<open>/out\<close>.\<close>

lemma sample_offer_stored:
  assumes "buildManifest sample_service [''/in''] 4 sample_world = (Inr (files, 5, agg), m')" "files \<noteq> []" "distinct (map fID files)"
  obtains headers r u' t where
    "ReceiveOffer sample_service (received (offer_of sample_peer_identity (sample_announced files))) ''10.0.0.2''
       (authentication_of headers) sample_world = (Inr r, u')" "wFs u' = wFs sample_world"
    "GetTransfer (wDb u') ''t1'' = Inr t" "tDirection t = DirectionInbound" "tStatus t = StatusQueued" "tApprovalRequired t"
    "tFiles t = map on_wire files" "tSize t = 5"
proof -
  let ?t = "sample_announced files" and ?o = "received (offer_of sample_peer_identity (sample_announced files))"
  have m1: "buildManifest sample_service [''/in''] (tChunkSize ?t) sample_world = (Inr (tFiles ?t, tSize ?t, agg), m')"
    using assms(1) by simp
  have db: "wDb sample_world = empty_db" "db_inv (wDb sample_world)" by (simp_all add: sample_world_def db_inv_empty)
  have o: "oTransferID ?o = ''t1''" "oFiles ?o = map on_wire files" by (simp_all add: received_def offer_of_def)
  have "\<exists>headers r u'. ReceiveOffer sample_service ?o ''10.0.0.2'' (authentication_of headers) sample_world = (Inr r, u') \<and> tSize r = 5 \<and>
      GetTransfer (wDb sample_world) ''t1'' = Inl (plain ErrNotFound)"
  proof (rule sample_honest [OF assms(2)], goal_cases)
    case (1 headers v')
    show ?case using honest_offer_run [OF sample_libraries quiet_sample 1(1) m1 1(2-9)] 1(9) by auto
  qed
  then obtain headers r u' where r: "ReceiveOffer sample_service ?o ''10.0.0.2'' (authentication_of headers) sample_world = (Inr r, u')" "tSize r = 5"
    and none: "GetTransfer (wDb sample_world) ''t1'' = Inl (plain ErrNotFound)" by blast
  have k: "keeps (\<lambda>w. wFs w = wFs sample_world) (ReceiveOffer sample_service ?o ''10.0.0.2'' a)" for a
    unfolding ReceiveOffer_def admit_offer_def record_offer_def Let_def peer_def by (intro keeps_rules fs_stable fs_stable_checks)
  have fs: "wFs u' = wFs sample_world" using keepsD [OF k _ r(1)] by simp
  have s: "wDb u' = SaveTransfer r (wDb sample_world)" "tID r = ''t1''" "tFiles r = map on_wire files" "tDirection r = DirectionInbound"
      "tStatus r = StatusQueued" "tApprovalRequired r"
    using ReceiveOffer_Inr [OF r(1)] none unfolding o by auto
  have "lookup (wDb sample_world) ''t1'' = None" using none by (simp add: GetTransfer_lookup split: option.splits)
  then have g: "GetTransfer (wDb u') ''t1'' = Inr (by_path (persist None r))"
    using lookup_save [OF db(2), of r "''t1''"] s(1,2) by (simp add: GetTransfer_lookup)
  have "sorted (map fRelativePath files)" using manifest_facts [OF assms(1)] by simp
  then have "sort_key fRelativePath (map on_wire files) = map on_wire files" by (intro sort_key_id_if_sorted) simp
  then have "tFiles (by_path (persist None r)) = map on_wire files"
    using assms(3) s(3) by (simp add: by_path_def) (simp add: persist_def merge_empty)
  then show thesis using that [OF r(1) fs g] s r(2) by simp
qed

lemma sample_accepts:
  assumes "GetTransfer (wDb u) ''t1'' = Inr t" "tDirection t = DirectionInbound" "tStatus t = StatusQueued" "tApprovalRequired t"
    and "tFiles t = map on_wire [x, y]" "tSize t = 5" "wFs u = wFs sample_world"
    and "fRelativePath x = ''in''" "fRelativePath y = ''in/a.txt''"
  obtains a w where "Accept sample_service ''t1'' \<lparr>aDestinationPath = ''/out'', aConflictPolicy = []\<rparr> u = (Inr a, w)"
    "tFiles a = [sample_placed x, sample_placed y]" "wFs w = (wFs sample_world)(''/out'' \<mapsto> NDir)"
    "secureJoin (hCwd sample_service) (tPath a) (fRelativePath y) = Inr ''/out/in/a.txt''"
proof -
  let ?tree = "(wFs sample_world)(''/out'' \<mapsto> NDir)"
  have c: "hCwd sample_service = Some ''/''" by (simp add: sample_service_def)
  have p: "secureJoin (Some ''/'') ''/out'' ''in'' = Inr ''/out/in''" "secureJoin (Some ''/'') ''/out'' ''in/a.txt'' = Inr ''/out/in/a.txt''"
    "path_abs (Some ''/'') ''/out'' = Some ''/out''" "trim_space ''/out'' \<noteq> []" "ancestors ''/out'' = [''/'', ''/out'']"
    by code_simp+
  have "os_mkdir_all ''/out'' (wFs sample_world) = Inr ?tree"
    unfolding os_mkdir_all_def p(5) by (auto simp: sample_world_def fun_eq_iff)
  moreover have "list_all2 (placed sample_service ''/out'' ?tree) (tFiles t) [sample_placed x, sample_placed y]"
    using p(1,2) by (simp add: assms(5,8,9) placed_def c on_wire_def sample_placed_def sample_world_def)
  moreover have "\<not> (0 < hAvail sample_service k q \<and> hAvail sample_service k q < tSize t)" for k q
    by (simp add: assms(6)) (simp add: sample_service_def)
  ultimately obtain a w where "Accept sample_service ''t1'' \<lparr>aDestinationPath = ''/out'', aConflictPolicy = []\<rparr> u = (Inr a, w)"
    "tFiles a = [sample_placed x, sample_placed y]" "tPath a = ''/out''" "wFs w = ?tree"
    using Accept_run [OF quiet_sample sample_id assms(1-4), of "\<lparr>aDestinationPath = ''/out'', aConflictPolicy = []\<rparr>" "''/out''" ?tree
        "[sample_placed x, sample_placed y]"] p(3,4) by (auto simp: assms(7) c)
  then show thesis using p(2) by (intro that [of a w]) (simp_all only: c assms(9))
qed

theorem offered_transfer_delivered_witness:
  "\<exists>t headers r u' a w c w'. ReceiveOffer sample_service (received (offer_of sample_peer_identity t)) ''10.0.0.2''
       (authentication_of headers) sample_world = (Inr r, u') \<and>
     Accept sample_service ''t1'' \<lparr>aDestinationPath = ''/out'', aConflictPolicy = []\<rparr> u' = (Inr a, w) \<and>
     seqE (receive_all sample_service ''t1'' (tSessionToken t) (map (chunk_call sample_service t (wFs sample_world))
       (pending_tasks (tFiles t) (received_chunks [])))) (Finalize sample_service ''t1'' (tSessionToken t)) w = (Inr c, w') \<and>
     tStatus c = StatusCompleted \<and> wFs w' ''/out/in/a.txt'' = Some (NFile ''hello'')"
proof -
  obtain x y agg m' where m: "buildManifest sample_service [''/in''] 4 sample_world = (Inr ([x, y], 5, agg), m')"
    and xy: "fRelativePath x = ''in''" "fRelativePath y = ''in/a.txt''" "fDirectory x" "\<not> fDirectory y" "fID x \<noteq> fID y"
      "fSourcePath y = ''/in/a.txt''" "fSize x + fChunkSize x < 2 ^ 63" "fSize y + fChunkSize y < 2 ^ 63"
    by (rule sample_sent_manifest)
  define t where "t = sample_announced [x, y]"
  have t: "tID t = ''t1''" "tFiles t = [x, y]" "tSize t = 5" "tChunkSize t = 4" by (simp_all add: t_def)
  have f: "distinct (map fID [x, y])" using xy(5) by simp
  obtain headers r u' o' where r: "ReceiveOffer sample_service (received (offer_of sample_peer_identity t)) ''10.0.0.2''
      (authentication_of headers) sample_world = (Inr r, u')" and u': "wFs u' = wFs sample_world"
    "GetTransfer (wDb u') ''t1'' = Inr o'" "tDirection o' = DirectionInbound" "tStatus o' = StatusQueued" "tApprovalRequired o'"
    "tFiles o' = map on_wire [x, y]" "tSize o' = 5"
    by (rule sample_offer_stored [OF m _ f, folded t_def]) (simp, rule that)
  obtain a w where a: "Accept sample_service ''t1'' \<lparr>aDestinationPath = ''/out'', aConflictPolicy = []\<rparr> u' = (Inr a, w)"
    "tFiles a = [sample_placed x, sample_placed y]" "wFs w = (wFs sample_world)(''/out'' \<mapsto> NDir)"
    "secureJoin (hCwd sample_service) (tPath a) (fRelativePath y) = Inr ''/out/in/a.txt''"
    by (rule sample_accepts [OF u'(2-7,1) xy(1,2)])
  note lay = sample_layout [OF xy(1-4), folded a(2)]
  have out: "laid_out sample_service ''t1'' (tFiles a)"
    unfolding laid_out_def lay using xy(1,2) by (simp add: a(2) is_abs_def)
  have tame: "tame_for sample_service ''t1'' (tFiles a) (wFs w)"
    unfolding lay a(3) by (simp add: tame_def sample_world_def)
  have free: "\<forall>g \<in> set (regular (tFiles a)). wFs w (partialPath sample_service ''t1'' (fRelativePath g)) = None"
    using xy(2-4) by (auto simp: a(2,3) sample_part sample_world_def)
  have db: "db_inv (wDb sample_world)" "GetTransfer (wDb sample_world) ''t1'' = Inl (plain ErrNotFound)" "ListChunks (wDb sample_world) ''t1'' = []"
    by (simp_all add: sample_world_def db_inv_empty) (simp_all add: GetTransfer_def ListChunks_def empty_db_def select_def)
  from offered_transfer_delivered [OF sample_libraries quiet_sample, of t "[''/in'']" sample_world agg m' sample_world "plain ErrNotFound"
      sample_peer_identity "''10.0.0.2''" "authentication_of headers" r u' "\<lparr>aDestinationPath = ''/out'', aConflictPolicy = []\<rparr>" a w
      "pending_tasks (tFiles t) (received_chunks [])"]
  obtain c w' where "seqE (receive_all sample_service ''t1'' (tSessionToken t) (map (chunk_call sample_service t (wFs sample_world))
       (pending_tasks (tFiles t) (received_chunks [])))) (Finalize sample_service ''t1'' (tSessionToken t)) w = (Inr c, w')"
     "tStatus c = StatusCompleted" "wFs w' ''/out/in/a.txt'' = wFs sample_world (fSourcePath y)"
    using sample_id m xy(4,5,7,8) db r a(1,4) out tame free by (auto simp: t)
  moreover have "wFs sample_world ''/in/a.txt'' = Some (NFile ''hello'')" by (simp add: sample_world_def)
  ultimately show ?thesis using r a(1) xy(6) by metis
qed

end
