(* ===== verification/TransferSchedule.thy ===== *)
theory TransferSchedule
  imports TransferLifecycle
begin

text \<open>
  What the dispatcher, the recovery after a restart, the queue and the throttle guarantee, and
  what the dispatcher does not: a transfer whose worker has not yet saved its first status is
  started again.
\<close>

section \<open>The dispatcher\<close>

abbreviation dispatched :: "service \<Rightarrow> tworld \<Rightarrow> tworld" where
  "dispatched E w \<equiv> snd (dispatch E w :: (terr + unit) \<times> tworld)"

lemma update_absent: "k \<notin> fst ` set al \<Longrightarrow> AList.update k v al = al @ [(k, v)]"
  by (induction al) auto

lemma launch_simps [simp]:
  "wDb (launch E w t) = wDb w" "wFs (launch E w t) = wFs w" "wCancelled (launch E w t) = wCancelled w"
  by (simp_all add: launch_def)

lemma length_update_le: "length (AList.update k v al) \<le> Suc (length al)"
  by (induction al) auto

lemma launch_bound:
  "int (length (wActive w)) \<le> sMaxConcurrent E \<Longrightarrow> int (length (wActive (launch E w t))) \<le> sMaxConcurrent E"
  using length_update_le [of "tID t" "wNextCtx w" "wActive w"] by (auto simp: launch_def)

lemma launches_bound:
  "int (length (wActive w)) \<le> sMaxConcurrent E \<Longrightarrow>
   int (length (wActive (foldl (launch E) w ts))) \<le> sMaxConcurrent E"
  by (induction ts arbitrary: w) (simp_all add: launch_bound)

lemma launches_full:
  "sMaxConcurrent E \<le> int (length (wActive w)) \<Longrightarrow> foldl (launch E) w ts = w"
  by (induction ts) (simp_all add: launch_def)

lemma launches:
  assumes "distinct (map tID ts)" "\<forall>t \<in> set ts. dispatchable t \<longrightarrow> tID t \<notin> fst ` set (wActive w)"
  shows "map fst (wWorkers (foldl (launch E) w ts)) = map fst (wWorkers w) @
    take (nat (sMaxConcurrent E - int (length (wActive w)))) (map tID (filter dispatchable ts))"
  using assms
proof (induction ts arbitrary: w)
  case (Cons t ts)
  show ?case
  proof (cases "sMaxConcurrent E \<le> int (length (wActive w))")
    case True
    then show ?thesis using launches_full [OF True, of "t # ts"] by simp
  next
    case room: False
    show ?thesis
    proof (cases "dispatchable t")
      case False
      then show ?thesis using Cons by (simp add: launch_def)
    next
      case True
      then have l: "wActive (launch E w t) = wActive w @ [(tID t, wNextCtx w)]"
        "map fst (wWorkers (launch E w t)) = map fst (wWorkers w) @ [tID t]"
        using room Cons.prems(2) by (simp_all add: launch_def update_absent)
      have k: "nat (sMaxConcurrent E - int (length (wActive w))) = Suc (nat (sMaxConcurrent E - (int (length (wActive w)) + 1)))"
        using room by simp
      have "map fst (wWorkers (foldl (launch E) (launch E w t) ts)) = map fst (wWorkers (launch E w t)) @
        take (nat (sMaxConcurrent E - int (length (wActive (launch E w t))))) (map tID (filter dispatchable ts))"
        using Cons.prems l(1) by (intro Cons.IH) (auto simp: image_iff)
      then show ?thesis using True l k by (simp add: add.commute)
    qed
  qed
qed simp

text \<open>the dispatcher starts the right transfers. With a working database, and when none of the
  waiting transfers has a worker already, it starts exactly as many workers as there are free
  places, for the outbound transfers that are queued or resuming, lowest priority value
  first; and it never enters more than the configured number of transfers as active.\<close>

theorem dispatch_starts:
  assumes "quiet E" and "db_inv (wDb w)" and "int (length (wActive w)) \<le> sMaxConcurrent E"
    and "\<forall>t \<in> set (ListTransfers (wDb w)). dispatchable t \<longrightarrow> tID t \<notin> fst ` set (wActive w)"
  shows "map fst (wWorkers (dispatched E w)) = map fst (wWorkers w) @
      take (nat (sMaxConcurrent E - int (length (wActive w))))
        (map tID (filter dispatchable (sort_key tPriority (ListTransfers (wDb w))))) \<and>
    int (length (wActive (dispatched E w))) \<le> sMaxConcurrent E"
proof (cases "sMaxConcurrent E \<le> int (length (wActive w))")
  case True
  then show ?thesis using assms(3) by (simp add: dispatch_def)
next
  case False
  let ?ts = "sort_key tPriority (ListTransfers (wDb w))"
  have d: "dispatched E w = foldl (launch E) (bump w) ?ts" using False assms(1) by (simp add: dispatch_def)
  have "distinct (map tID ?ts)" using distinct_ListTransfers [OF assms(2)] by (simp add: distinct_map)
  then show ?thesis
    unfolding d using launches [of ?ts "bump w" E] launches_bound [of "bump w" E ?ts] assms(3,4) by simp
qed

definition sample_waiting :: transfer where
  "sample_waiting = transfer_zero\<lparr>tID := ''q1'', tApproved := True, tSourcePaths := [''/in/a.txt''],
     tDeviceID := ''peer'', tChunkSize := 4\<rparr>"

definition sample_queue_world :: tworld where
  "sample_queue_world = sample_world\<lparr>wDb := SaveTransfer sample_waiting empty_db\<rparr>"

lemma sample_queue_db:
  "db_inv (wDb sample_queue_world)" "GetTransfer (wDb sample_queue_world) ''q1'' = Inr (by_path (persist None sample_waiting))"
  "ListTransfers (wDb sample_queue_world) = [by_path (persist None sample_waiting)]"
proof -
  have n: "lookup empty_db ''q1'' = None" by (simp add: lookup_def empty_db_def select_def)
  show i: "db_inv (wDb sample_queue_world)" by (simp add: sample_queue_world_def db_inv_save db_inv_empty)
  show g: "GetTransfer (wDb sample_queue_world) ''q1'' = Inr (by_path (persist None sample_waiting))"
    using lookup_save [OF db_inv_empty, of sample_waiting "''q1''"] n
    by (simp add: sample_queue_world_def GetTransfer_lookup sample_waiting_def)
  have "length (ListTransfers (wDb sample_queue_world)) = 1"
    by (simp add: sample_queue_world_def ListTransfers_def empty_db_def)
  then obtain x where x: "ListTransfers (wDb sample_queue_world) = [x]" by (cases "ListTransfers (wDb sample_queue_world)") auto
  have "by_path (persist None sample_waiting) \<in> set (ListTransfers (wDb sample_queue_world))"
    using g by (simp add: set_ListTransfers [OF i] sample_waiting_def)
  then show "ListTransfers (wDb sample_queue_world) = [by_path (persist None sample_waiting)]" using x by simp
qed

lemma sample_waiting_simps:
  "tID sample_waiting = ''q1''" "dispatchable (by_path (persist None sample_waiting))"
  by (simp_all add: sample_waiting_def transfer_zero_def dispatchable_def)

theorem dispatch_starts_witness:
  "map fst (wWorkers (dispatched sample_service sample_queue_world)) = [''q1'']"
proof -
  have w: "wActive sample_queue_world = []" "wWorkers sample_queue_world = []" "sMaxConcurrent sample_service = 2"
    by (simp_all add: sample_queue_world_def sample_world_def sample_service_def)
  have a: "int (length (wActive sample_queue_world)) \<le> sMaxConcurrent sample_service"
    "\<forall>t \<in> set (ListTransfers (wDb sample_queue_world)). dispatchable t \<longrightarrow> tID t \<notin> fst ` set (wActive sample_queue_world)"
    by (simp_all add: w)
  show ?thesis
    using dispatch_starts [OF quiet_sample sample_queue_db(1) a]
    by (simp add: w sample_queue_db(3) sample_waiting_simps)
qed

text \<open>C19: the dispatcher starts a transfer twice. The record of a transfer stays queued until its
  worker saves the first change; a second round of the dispatcher before that finds it
  queued, finds a free place, since the transfer that is active counts once, and starts a
  second worker for it, whose cancel function replaces that of the first.\<close>

theorem dispatch_relaunches:
  assumes "quiet E" and "ListTransfers (wDb w) = [t]" and "dispatchable t" and "1 < sMaxConcurrent E"
    and "wActive w = []" and "wWorkers w = []"
  shows "wWorkers (dispatched E (dispatched E w)) = [(tID t, wNextCtx w), (tID t, Suc (wNextCtx w))] \<and>
    wActive (dispatched E (dispatched E w)) = [(tID t, Suc (wNextCtx w))]"
  using assms by (simp add: dispatch_def launch_def)

theorem dispatch_relaunches_witness:
  "wWorkers (dispatched sample_service (dispatched sample_service sample_queue_world)) = [(''q1'', 0), (''q1'', 1)]"
proof -
  have w: "wActive sample_queue_world = []" "wWorkers sample_queue_world = []" "1 < sMaxConcurrent sample_service"
    "wNextCtx sample_queue_world = 0"
    by (simp_all add: sample_queue_world_def sample_world_def sample_service_def)
  show ?thesis
    using conjunct1 [OF dispatch_relaunches [OF quiet_sample sample_queue_db(3) sample_waiting_simps(2) w(3,1,2)]]
    by (simp add: w sample_waiting_simps)
qed

section \<open>Recovery\<close>

lemma recover_each_Inr:
  assumes "eachE (recover_one E) ts w = (Inr u, w')" "db_inv (wDb w)" "distinct (map tID ts)"
  shows "(\<forall>i. i \<notin> tID ` set ts \<longrightarrow> lookup (wDb w') i = lookup (wDb w) i) \<and>
    (\<forall>t \<in> set ts. if recovered t 0 = None then lookup (wDb w') (tID t) = lookup (wDb w) (tID t)
       else \<exists>n t'. recovered t n = Some t' \<and>
         lookup (wDb w') (tID t) = Some (persist (lookup (wDb w) (tID t)) t'))"
  using assms
proof (induction ts arbitrary: w)
  case (Cons t ts)
  from Cons.prems(1) obtain x w1 where 1: "recover_one E t w = (Inr x, w1)" and
    2: "eachE (recover_one E) ts w1 = (Inr u, w')" by (auto elim: seqE_InrE)
  have m: "(\<forall>i. i \<noteq> tID t \<longrightarrow> lookup (wDb w1) i = lookup (wDb w) i) \<and> db_inv (wDb w1) \<and>
    (if recovered t 0 = None then lookup (wDb w1) (tID t) = lookup (wDb w) (tID t)
     else \<exists>n t'. recovered t n = Some t' \<and> lookup (wDb w1) (tID t) = Some (persist (lookup (wDb w) (tID t)) t'))"
    using recover_one_cases [OF 1]
  proof (elim disjE exE conjE)
    fix t' n assume t': "recovered t n = Some t'" "wDb w1 = SaveTransfer t' (wDb w)"
    have "recovered t 0 \<noteq> None" using t'(1) recovered_time [of t 0 n] by simp
    then show ?thesis
      using t' recovered_Some [OF t'(1)] lookup_save [OF Cons.prems(2)] db_inv_save [OF Cons.prems(2)] by auto
  qed (use Cons.prems(2) in simp)
  have "lookup (wDb w') (tID t) = lookup (wDb w1) (tID t)"
    using Cons.IH [OF 2] m Cons.prems(3) by auto
  moreover have "lookup (wDb w1) (tID s) = lookup (wDb w) (tID s)" if "s \<in> set ts" for s
    using m that Cons.prems(3) by (metis distinct.simps(2) image_eqI list.set_map list.simps(9))
  ultimately show ?case
    using Cons.IH [OF 2] m Cons.prems(3) by auto
qed simp

text \<open>nothing is left in flight after a restart. When \<open>recover\<close> succeeds, no outbound transfer
  is preparing, connecting, negotiating, sending or resuming, and no inbound one verifying:
  the former are queued again, the latter receiving; every other transfer is untouched, and
  the dispatcher is woken.\<close>

theorem recover_clears:
  assumes "recover E w = (Inr u, w')" and "db_inv (wDb w)" and "GetTransfer (wDb w') i = Inr t'"
  shows "\<not> (tDirection t' = DirectionOutbound \<and> in_flight (tStatus t')) \<and>
    \<not> (tDirection t' = DirectionInbound \<and> tStatus t' = StatusVerifying) \<and> wWake w' \<and>
    (\<exists>t. GetTransfer (wDb w) i = Inr t \<and>
       (if recovered t 0 = None then t' = t
        else tStatus t' = (if tDirection t = DirectionOutbound then StatusQueued else StatusReceiving)))"
proof -
  from assms(1) obtain ts w1 x w2 where l: "listTransfers E w = (Inr ts, w1)" and
    e: "eachE (recover_one E) ts w1 = (Inr x, w2)" and s: "signal w2 = (Inr u :: terr + unit, w')"
    unfolding recover_def by (elim bindE_InrE seqE_InrE) (rule that)
  have ts: "ts = ListTransfers (wDb w)" "wDb w1 = wDb w" using l by (auto elim: listTransfers_InrE)
  have w': "wDb w' = wDb w2" "wWake w'" using s by (auto simp: signal_def)
  obtain b where b: "lookup (wDb w') i = Some b" "t' = by_path b"
    using assms(3) by (auto simp: GetTransfer_lookup split: option.splits)
  note r = recover_each_Inr [OF e]
  have inv: "db_inv (wDb w1)" "distinct (map tID ts)" using ts assms(2) distinct_ListTransfers by simp_all
  have mem: "t \<in> set ts \<longleftrightarrow> GetTransfer (wDb w) (tID t) = Inr t" for t
    using set_ListTransfers [OF assms(2)] ts(1) by simp
  have ex: "\<exists>t. GetTransfer (wDb w) i = Inr t \<and> tID t = i"
  proof (rule ccontr)
    assume no: "\<nexists>t. GetTransfer (wDb w) i = Inr t \<and> tID t = i"
    then have "i \<notin> tID ` set ts" using mem by auto
    then have "lookup (wDb w) i = Some b" using r [OF inv] b(1) w' ts(2) by simp
    then have "GetTransfer (wDb w) i = Inr (by_path b)" by (simp add: GetTransfer_lookup)
    then show False using no GetTransfer_id by blast
  qed
  then obtain t where t: "GetTransfer (wDb w) i = Inr t" "tID t = i" by blast
  then have "t \<in> set ts" using mem by simp
  with r [OF inv] t(2) w' ts(2) have k: "if recovered t 0 = None then lookup (wDb w') i = lookup (wDb w) i
       else \<exists>n t''. recovered t n = Some t'' \<and> lookup (wDb w') i = Some (persist (lookup (wDb w) i) t'')"
    by auto
  show ?thesis
  proof (cases "recovered t 0")
    case None
    then have "t' = t" using k b t(1) by (auto simp: GetTransfer_lookup split: option.splits)
    then show ?thesis using None t(1) w'(2) by (auto simp: recovered_def split: if_splits)
  next
    case (Some y)
    then obtain n t'' where "recovered t n = Some t''" "b = persist (lookup (wDb w) i) t''"
      using k b(1) by auto
    then have "tDirection t' = tDirection t"
      "tStatus t' = (if tDirection t = DirectionOutbound then StatusQueued else StatusReceiving)"
      using b(2) by (auto simp: recovered_def split: if_splits)
    then show ?thesis using Some t(1) w'(2) by (auto simp: in_flight_def)
  qed
qed

definition sample_crashed :: tworld where
  "sample_crashed = sample_world\<lparr>wDb := SaveTransfer (sample_waiting\<lparr>tStatus := StatusSending\<rparr>) empty_db\<rparr>"

lemma sample_recovers: "\<exists>w'. eachE (recover_one sample_service) xs w = (Inr (), w')"
proof (induction xs arbitrary: w)
  case (Cons x xs)
  have "\<exists>w'. recover_one sample_service x w = (Inr (), w')"
    by (simp add: recover_one_def bindE_def call_runs)
  then obtain w1 where "recover_one sample_service x w = (Inr (), w1)" by blast
  then show ?case using Cons [of w1] by (simp add: seqE_def bindE_def)
qed simp

theorem recover_clears_witness:
  "\<exists>w' t'. recover sample_service sample_crashed = (Inr (), w') \<and> GetTransfer (wDb w') ''q1'' = Inr t' \<and>
     \<not> in_flight (tStatus t')"
proof -
  let ?t = "by_path (persist None (sample_waiting\<lparr>tStatus := StatusSending\<rparr>))"
  have n: "lookup empty_db ''q1'' = None" by (simp add: lookup_def empty_db_def select_def)
  have i: "db_inv (wDb sample_crashed)" by (simp add: sample_crashed_def db_inv_save db_inv_empty)
  have g: "GetTransfer (wDb sample_crashed) ''q1'' = Inr ?t"
    using lookup_save [OF db_inv_empty, of "sample_waiting\<lparr>tStatus := StatusSending\<rparr>" "''q1''"] n
    by (simp add: sample_crashed_def GetTransfer_lookup sample_waiting_def)
  have t: "recovered ?t k \<noteq> None" "tID ?t = ''q1''" "tDirection ?t = DirectionOutbound" for k
    by (simp_all add: recovered_def in_flight_def sample_waiting_def transfer_zero_def)
  obtain w2 where each2:
    "eachE (recover_one sample_service) (ListTransfers (wDb sample_crashed)) (bump sample_crashed) = (Inr (), w2)"
    using sample_recovers by blast
  then have r: "recover sample_service sample_crashed = (Inr (), w2\<lparr>wWake := True\<rparr>)"
    by (simp add: recover_def bindE_def seqE_def signal_def)
  have "?t \<in> set (ListTransfers (wDb sample_crashed))" using set_ListTransfers [OF i] g t(2) by simp
  moreover have "\<forall>x \<in> set (ListTransfers (wDb sample_crashed)). if recovered x 0 = None
      then lookup (wDb w2) (tID x) = lookup (wDb sample_crashed) (tID x)
      else \<exists>n t'. recovered x n = Some t' \<and>
        lookup (wDb w2) (tID x) = Some (persist (lookup (wDb sample_crashed) (tID x)) t')"
    using recover_each_Inr [OF each2, unfolded bump_simps, OF i distinct_ListTransfers [OF i]] by blast
  ultimately have "if recovered ?t 0 = None
      then lookup (wDb w2) (tID ?t) = lookup (wDb sample_crashed) (tID ?t)
      else \<exists>n t'. recovered ?t n = Some t' \<and>
        lookup (wDb w2) (tID ?t) = Some (persist (lookup (wDb sample_crashed) (tID ?t)) t')"
    by (rule bspec [rotated])
  then obtain b where "lookup (wDb w2) ''q1'' = Some b" unfolding t(2) if_not_P [OF t(1)] by blast
  then have g2: "GetTransfer (wDb (w2\<lparr>wWake := True\<rparr>)) ''q1'' = Inr (by_path b)" by (simp add: GetTransfer_lookup)
  have "tDirection (by_path b) = DirectionOutbound \<longrightarrow> \<not> in_flight (tStatus (by_path b))"
    and "\<exists>t. GetTransfer (wDb sample_crashed) ''q1'' = Inr t \<and> (if recovered t 0 = None then by_path b = t
        else tStatus (by_path b) = (if tDirection t = DirectionOutbound then StatusQueued else StatusReceiving))"
    using recover_clears [OF r i g2] by blast+
  then have "tStatus (by_path b) = StatusQueued" using g t by auto
  then show ?thesis using r g2 by (auto simp: in_flight_def)
qed

section \<open>The queue\<close>

lemma queue_peer_Inr:
  assumes "queue_peer E rq w = (Inr p, w')"
  shows "hUuidOk E (qDeviceID rq) \<and> qPaths rq \<noteq> [] \<and> hTrusted E (wTick w) (qDeviceID rq) = Inr True \<and>
    find_first (\<lambda>d. dID d = qDeviceID rq) (hDevices E (wTick w + 1)) = Some p \<and> dOnline p \<and>
    dTransferCapability p \<and> dSupportedProtocolVersion p = ProtocolVersion \<and> 0 < dMaximumChunkSize p \<and>
    wFs w' = wFs w \<and> wDb w' = wDb w"
  using assms
  by (auto simp: queue_peer_def bindE_def seqE_def guardE_def validateDeviceID_def peer_run call_runs
      split: if_splits sum.splits option.splits prod.splits)

lemma queue_paths_Inr:
  assumes "eachE (queue_path E) ps w = (Inr u, w')"
  shows "(\<forall>p \<in> set ps. wFs w p \<noteq> None) \<and> wDb w' = wDb w"
  using assms
proof (induction ps arbitrary: w)
  case (Cons p ps)
  from Cons.prems obtain x w1 where 1: "queue_path E p w = (Inr x, w1)" "eachE (queue_path E) ps w1 = (Inr u, w')"
    by (auto elim: seqE_InrE)
  have "wFs w p \<noteq> None \<and> wFs w1 = wFs w \<and> wDb w1 = wDb w"
    using 1(1) by (auto simp: queue_path_def bindE_def tryE_def fs_read_def os_lstat_def
        split: option.splits sum.splits prod.splits)
  then show ?case using Cons.IH [OF 1(2)] by auto
qed simp

text \<open>what the queue accepts. If \<open>Queue\<close> succeeds, the device is trusted and online and speaks
  this protocol, every path exists and the policy is known; the new transfer is stored as
  approved, outbound and queued, with a chunk size neither side refuses, and the dispatcher
  is woken.\<close>

theorem Queue_accepts:
  assumes "Queue E rq w = (Inr t, w')"
  shows "\<exists>p. hTrusted E (wTick w) (qDeviceID rq) = Inr True \<and>
    find_first (\<lambda>d. dID d = qDeviceID rq) (hDevices E (wTick w + 1)) = Some p \<and> dOnline p \<and>
    dTransferCapability p \<and> dSupportedProtocolVersion p = ProtocolVersion \<and>
    qPaths rq \<noteq> [] \<and> (\<forall>q \<in> set (qPaths rq). wFs w q \<noteq> None) \<and> validPolicy (tConflictPolicy t) \<and>
    wDb w' = SaveTransfer t (wDb w) \<and> tDirection t = DirectionOutbound \<and> tStatus t = StatusQueued \<and>
    tApproved t \<and> tSourcePaths t = qPaths rq \<and> tChunkSize t \<le> dMaximumChunkSize p \<and>
    tChunkSize t \<le> sChunkSize E \<and> wWake w'"
proof -
  let ?policy = "if qConflictPolicy rq = [] then ConflictPrompt else qConflictPolicy rq"
  from assms obtain p w1 u w2 v w3 where
    q: "queue_peer E rq w = (Inr p, w1)" and e: "eachE (queue_path E) (qPaths rq) w1 = (Inr u, w2)" and
    g: "guardE (\<not> validPolicy ?policy) (wrapped ErrInvalidRequest ''invalid conflict policy'') w2 = (Inr v, w3)" and
    n: "enqueue E rq p ?policy w3 = (Inr t, w')"
    unfolding Queue_def Let_def by (elim bindE_InrE seqE_InrE) (rule that)
  have w3: "validPolicy ?policy" "w3 = w2" using g by (auto elim: guardE_InrE)
  from n obtain i m where t: "t = queued_transfer E rq p ?policy i m" "wDb w' = SaveTransfer t (wDb w3)" "wWake w'"
    by (auto simp: enqueue_def bindE_def seqE_def call_runs Let_def saveTransfer_def db_write_def signal_def
        split: option.splits)
  show ?thesis
    using queue_peer_Inr [OF q] queue_paths_Inr [OF e] w3 t by (intro exI [of _ p]) simp
qed

definition sample_queue_request :: queue_request where
  "sample_queue_request = \<lparr>qDeviceID = ''peer'', qPaths = [''/in/a.txt''], qConflictPolicy = []\<rparr>"

theorem Queue_accepts_witness:
  "\<exists>t w'. Queue sample_service sample_queue_request sample_world = (Inr t, w') \<and> tStatus t = StatusQueued \<and> wWake w'"
proof -
  have h: "hUuidOk sample_service ''peer''" "hTrusted sample_service k ''peer'' = Inr True"
    "hDevices sample_service k = [sample_peer]" for k
    by (simp_all add: sample_service_def)
  have p: "dID sample_peer = ''peer''" "dOnline sample_peer" "dTransferCapability sample_peer"
    "dSupportedProtocolVersion sample_peer = ProtocolVersion" "0 < dMaximumChunkSize sample_peer"
    by (simp_all add: sample_peer_def ProtocolVersion_def)
  have f: "wFs sample_world ''/in/a.txt'' = Some (NFile ''hello'')" by (simp add: sample_world_def)
  have "\<exists>w1. queue_peer sample_service sample_queue_request sample_world = (Inr sample_peer, w1) \<and> wFs w1 = wFs sample_world"
    using p by (simp add: queue_peer_def sample_queue_request_def bindE_def seqE_def validateDeviceID_def peer_run call_runs h)
  then obtain w1 where q: "queue_peer sample_service sample_queue_request sample_world = (Inr sample_peer, w1)"
    "wFs w1 = wFs sample_world" by blast
  have e: "eachE (queue_path sample_service) [''/in/a.txt''] w1 = (Inr (), bump w1)"
    using q(2) f by (simp add: queue_path_def bindE_def seqE_def tryE_def os_lstat_def)
  have "\<exists>t w'. Queue sample_service sample_queue_request sample_world = (Inr t, w')"
    using q(1) e by (simp add: Queue_def bindE_def seqE_def sample_queue_request_def validPolicy_def Let_def enqueue_def
        call_runs signal_def)
  then obtain t w' where r: "Queue sample_service sample_queue_request sample_world = (Inr t, w')" by blast
  from Queue_accepts [OF r] r show ?thesis by blast
qed

section \<open>The throttle\<close>

lemma congested_bounds: "0 \<le> d \<Longrightarrow> d \<le> second \<Longrightarrow> 0 \<le> congested d \<and> congested d \<le> second"
  by (auto simp: congested_def millisecond_def second_def)

lemma relaxed_bounds: "0 \<le> d \<Longrightarrow> d \<le> second \<Longrightarrow> 0 \<le> relaxed d \<and> relaxed d \<le> second"
  by (auto simp: relaxed_def millisecond_def second_def Let_def)

lemma relaxed_mono: "0 \<le> a \<Longrightarrow> a \<le> b \<Longrightarrow> relaxed a \<le> relaxed b"
  by (auto simp: relaxed_def millisecond_def Let_def zdiv_mono1 intro: order_trans)

definition throttled :: "bool list \<Rightarrow> tworld \<Rightarrow> tworld" where
  "throttled bs w = foldl (\<lambda>w b. snd (recordCongestion b w :: (terr + unit) \<times> tworld)) w bs"

lemma throttled_Cons: "throttled (b # bs) w = throttled bs (snd (recordCongestion b w :: (terr + unit) \<times> tworld))"
  by (simp add: throttled_def)

lemma throttled_bounds:
  "0 \<le> wThrottle w \<Longrightarrow> wThrottle w \<le> second \<Longrightarrow> 0 \<le> wThrottle (throttled bs w) \<and> wThrottle (throttled bs w) \<le> second"
proof (induction bs arbitrary: w)
  case (Cons b bs)
  then show ?case
    using congested_bounds [of "wThrottle w"] relaxed_bounds [of "wThrottle w"]
    by (auto simp: throttled_Cons recordCongestion_def intro: Cons.IH)
qed (simp add: throttled_def)

lemma throttled_successes: "wThrottle (throttled (replicate n False) w) = (relaxed ^^ n) (wThrottle w)"
proof (induction n arbitrary: w)
  case (Suc n)
  then show ?case by (simp add: throttled_Cons recordCongestion_def funpow_swap1)
qed (simp add: throttled_def)

lemma relaxed_iter: "0 \<le> d \<Longrightarrow> d \<le> second \<Longrightarrow> (relaxed ^^ n) d \<le> (relaxed ^^ n) second \<and> 0 \<le> (relaxed ^^ n) d"
proof (induction n)
  case (Suc n)
  then show ?case by (auto intro!: relaxed_mono) (auto simp: relaxed_def millisecond_def Let_def)
qed simp

lemma relaxed_31: "(relaxed ^^ 31) second = 0"
  by (simp add: eval_nat_numeral relaxed_def second_def millisecond_def)

text \<open>the delay between chunks stays between nothing and a second, whatever succeeds and fails,
  and 31 successes in a row end it.\<close>

theorem throttle_bounded:
  assumes "wThrottle w = 0"
  shows "0 \<le> wThrottle (throttled bs w) \<and> wThrottle (throttled bs w) \<le> second \<and>
    wThrottle (throttled (replicate 31 False) (throttled bs w)) = 0"
proof -
  have b: "0 \<le> wThrottle (throttled bs w)" "wThrottle (throttled bs w) \<le> second"
    using throttled_bounds [of w bs] assms by (simp_all add: second_def)
  then show ?thesis using relaxed_iter [OF b, of 31] relaxed_31 by (simp add: throttled_successes)
qed

theorem throttle_bounded_witness:
  "wThrottle (throttled [True, True, False] sample_world) \<le> second \<and> wThrottle sample_world = 0"
  using throttle_bounded [of sample_world "[True, True, False]"] by (simp add: sample_world_def)

end
