(* ===== verification/TransferStaging.thy ===== *)
theory TransferStaging
  imports TransferSchedule
begin

text \<open>
  \<open>transfer/staging.go\<close>: upload areas for files a browser selects, and their promotion into the
  queue; and the start and the rounds of \<open>Service.Run\<close>.

  The body of an upload is read under the request context, whose end is a fault of the moment.
  \<open>os.Stat\<close> of a staging directory sees what the tree holds there, without following a link.
  The modification times the operating system reports are an argument of \<open>removeExpiredStages\<close>.
\<close>

section \<open>Active uploads\<close>

definition staging_count :: "tworld \<Rightarrow> string \<Rightarrow> int" where
  "staging_count w i = (case wStaging w i of None \<Rightarrow> 0 | Some k \<Rightarrow> k)"

definition beginStageUpload :: "string \<Rightarrow> (tworld, 'e, unit) gom" where
  "beginStageUpload i = modE (\<lambda>w. w\<lparr>wStaging := (wStaging w)(i \<mapsto> wrap64 (staging_count w i + 1))\<rparr>)"

definition endStageUpload :: "string \<Rightarrow> (tworld, 'e, unit) gom" where
  "endStageUpload i = modE (\<lambda>w. w\<lparr>wStaging :=
     (if staging_count w i \<le> 1 then (wStaging w)(i := None)
      else (wStaging w)(i \<mapsto> wrap64 (staging_count w i - 1)))\<rparr>)"

definition stageUploadActive :: "string \<Rightarrow> (tworld, 'e, bool) gom" where
  "stageUploadActive i = getE (\<lambda>w. 0 < staging_count w i)"

section \<open>Sessions\<close>

definition uploadingStagePath :: "service \<Rightarrow> string \<Rightarrow> string" where
  "uploadingStagePath E i = path_join [sDataDirectory E, ''staging'', ''uploading'', i]"

definition queuedStagePath :: "service \<Rightarrow> string \<Rightarrow> string" where
  "queuedStagePath E i = path_join [sDataDirectory E, ''staging'', ''queued'', i]"

definition os_wrap :: "string \<Rightarrow> os_error \<Rightarrow> terr" where
  "os_wrap pre e = other (pre @ '': '' @ os_text e)"

definition CreateStage :: "service \<Rightarrow> staging_session tm" where
  "CreateStage E =
     bindE (now E) (\<lambda>n.
     bindE (outside (hUuid E)) (\<lambda>i.
     let root = uploadingStagePath E i in
     seqE (mapErrE (os_wrap ''create transfer staging session'') (fs_call E (os_mkdir_all root)))
     (seqE (mapErrE (os_wrap ''timestamp transfer staging session'') (fs_sync E))
     (seqE (modE (\<lambda>w. w\<lparr>wMtime := (wMtime w)(root \<mapsto> n)\<rparr>))
     (retE \<lparr>sgID = i, sgCreatedAt = n\<rparr>)))))"

definition valid_session :: "service \<Rightarrow> string \<Rightarrow> unit tm" where
  "valid_session E i = guardE (\<not> hUuidOk E i) (wrapped ErrInvalidRequest ''invalid staging session'')"

definition stage_root :: "service \<Rightarrow> string \<Rightarrow> unit tm" where
  "stage_root E root =
     bindE (tryE (fs_read E (\<lambda>fs. os_lstat fs root))) (\<lambda>r :: os_error + node. case r of
       Inl e \<Rightarrow> if e = OsNotExist then throwE (plain ErrNotFound) else throwE (os_terr e)
     | Inr n \<Rightarrow> guardE (n \<noteq> NDir) (plain ErrInvalidRequest))"

text \<open>\<open>contextReader\<close> refuses to read once the request is over.\<close>

definition read_upload :: "service \<Rightarrow> body \<Rightarrow> int \<Rightarrow> string tm" where
  "read_upload E contents sz = (\<lambda>w.
     if hFault E (wTick w) = Some FaultCanceled then (Inl (plain ErrCanceled), bump w)
     else (read_limited contents (wrap64 (sz + 1)), bump w))"

text \<open>What happens between opening the target and the deferred cleanup.\<close>

definition fill_upload :: "service \<Rightarrow> string \<Rightarrow> int \<Rightarrow> body \<Rightarrow> unit tm" where
  "fill_upload E target sz contents =
     bindE (read_upload E contents sz) (\<lambda>bytes.
     seqE (osE (fs_write E target 0 bytes))
     (seqE (guardE (int (length bytes) \<noteq> sz)
        (wrapped ErrInvalidRequest ''uploaded size does not match content length''))
     (seqE (osE (fs_sync E)) (osE (fs_sync E)))))"

definition open_upload :: "service \<Rightarrow> string \<Rightarrow> unit tm" where
  "open_upload E target =
     bindE (tryE (fs_call E (os_open_excl target))) (\<lambda>r :: os_error + unit. case r of
       Inl e \<Rightarrow> if e = OsExist then throwE (wrapped ErrInvalidRequest ''staged path already exists'')
                else throwE (os_terr e)
     | Inr _ \<Rightarrow> retE ())"

definition drop_upload :: "service \<Rightarrow> string \<Rightarrow> unit tm" where
  "drop_upload E target = bindE (tryE (fs_call E (os_remove target))) (\<lambda>_ :: os_error + unit. retE ())"

definition store_upload :: "service \<Rightarrow> string \<Rightarrow> int \<Rightarrow> body \<Rightarrow> unit tm" where
  "store_upload E target sz contents =
     seqE (open_upload E target)
     (bindE (tryE (fill_upload E target sz contents)) (\<lambda>r. case r of
        Inl e \<Rightarrow> seqE (drop_upload E target) (throwE e)
      | Inr _ \<Rightarrow> retE ()))"

definition upload_into :: "service \<Rightarrow> string \<Rightarrow> string \<Rightarrow> int \<Rightarrow> body \<Rightarrow> unit tm" where
  "upload_into E root relativePath sz contents =
     bindE (availableStorage E root) (\<lambda>available.
     seqE (guardE (0 \<le> available \<and> available < sz) (wrapped ErrInvalidRequest ''insufficient storage''))
     (bindE (liftE (secureJoin (hCwd E) root relativePath)) (\<lambda>target.
      seqE (osE (fs_call E (os_mkdir_all (path_dir target))))
      (store_upload E target sz contents))))"

definition UploadStagedFile :: "service \<Rightarrow> string \<Rightarrow> string \<Rightarrow> int \<Rightarrow> body \<Rightarrow> unit tm" where
  "UploadStagedFile E i relativePath sz contents =
     seqE (valid_session E i)
     (seqE (liftE (validateRelativePath relativePath))
     (seqE (guardE (sz < 0) (wrapped ErrInvalidRequest ''content length is required''))
     (let root = uploadingStagePath E i in
      seqE (stage_root E root)
      (seqE (beginStageUpload i)
      (bindE (tryE (upload_into E root relativePath sz contents)) (\<lambda>r.
       seqE (endStageUpload i) (liftE r)))))))"

text \<open>One round of the loop over the selected roots: the lower-case names seen, and the queued paths.\<close>

definition staged_path :: "service \<Rightarrow> string \<Rightarrow> string list \<times> string list \<Rightarrow> string \<Rightarrow> (string list \<times> string list) tm" where
  "staged_path E i st name =
     (let rootName = trim_space name in
      seqE (guardE (validateRelativePath rootName \<noteq> Inr () \<or> slash \<in> set rootName)
         (wrapped ErrInvalidRequest ''roots must be top-level staged names''))
      (let key = to_lower (hLower E) rootName in
       if key \<in> set (fst st) then retE st
       else bindE (liftE (secureJoin (hCwd E) (uploadingStagePath E i) rootName)) (\<lambda>candidate.
         bindE (tryE (fs_read E (\<lambda>fs. os_lstat fs candidate))) (\<lambda>r :: os_error + node. case r of
           Inl e \<Rightarrow> if e = OsNotExist then throwE (wrapped ErrInvalidRequest ''staged root does not exist'')
                    else throwE (os_terr e)
         | Inr _ \<Rightarrow> retE (key # fst st, snd st @ [path_join [queuedStagePath E i, rootName]])))))"

definition promote :: "service \<Rightarrow> string \<Rightarrow> unit tm" where
  "promote E i =
     seqE (osE (fs_call E (os_mkdir_all (path_dir (queuedStagePath E i)))))
     (bindE (tryE (fs_call E (os_rename (uploadingStagePath E i) (queuedStagePath E i)))) (\<lambda>r :: os_error + unit. case r of
        Inl e \<Rightarrow> if e = OsNotExist then throwE (plain ErrNotFound) else throwE (os_terr e)
      | Inr _ \<Rightarrow> retE ()))"

definition roll_back :: "service \<Rightarrow> string \<Rightarrow> unit tm" where
  "roll_back E i =
     bindE (tryE (fs_call E (os_rename (queuedStagePath E i) (uploadingStagePath E i)))) (\<lambda>_ :: os_error + unit. retE ())"

definition QueueStage :: "service \<Rightarrow> string \<Rightarrow> stage_queue_request \<Rightarrow> transfer tm" where
  "QueueStage E i rq =
     seqE (valid_session E i)
     (seqE (guardE (sqRoots rq = []) (wrapped ErrInvalidRequest ''staged roots are required''))
     (bindE (stageUploadActive i) (\<lambda>active.
      seqE (guardE active (wrapped ErrInvalidState ''staging upload is still active''))
      (bindE (foldE (staged_path E i) ([], []) (sqRoots rq)) (\<lambda>st.
       seqE (promote E i)
       (bindE (tryE (Queue E \<lparr>qDeviceID = sqDeviceID rq, qPaths = snd st, qConflictPolicy = sqConflictPolicy rq\<rparr>))
         (\<lambda>r :: terr + transfer. case r of
           Inl e \<Rightarrow> seqE (roll_back E i) (throwE e)
         | Inr t \<Rightarrow> retE t)))))))"

definition DeleteStage :: "service \<Rightarrow> string \<Rightarrow> unit tm" where
  "DeleteStage E i =
     seqE (valid_session E i)
     (bindE (stageUploadActive i) (\<lambda>active.
      seqE (guardE active (wrapped ErrInvalidState ''staging upload is still active''))
      (mapErrE (os_wrap ''remove transfer staging session'')
        (fs_call E (\<lambda>fs. Inr (os_remove_all (uploadingStagePath E i) fs))))))"

section \<open>Expiry\<close>

definition expire_entry :: "service \<Rightarrow> (string \<Rightarrow> time) \<Rightarrow> time \<Rightarrow> string \<Rightarrow> (tworld, terr, unit) gom" where
  "expire_entry E mtime n path =
     bindE (stageUploadActive (path_base path)) (\<lambda>active.
     if active then retE ()
     else bindE (tryE (fs_read E (\<lambda>fs. os_lstat fs path))) (\<lambda>r :: os_error + node. case r of
       Inr NDir \<Rightarrow>
         if 24 * 60 * minute < n - mtime path
         then bindE (tryE (fs_call E (\<lambda>fs. Inr (os_remove_all path fs)))) (\<lambda>_ :: os_error + unit. retE ())
         else retE ()
     | _ \<Rightarrow> retE ()))"

definition stage_entries :: "fsys \<Rightarrow> string \<Rightarrow> string list \<Rightarrow> string list" where
  "stage_entries fs root names = sort (filter (\<lambda>q. fs q \<noteq> None \<and> q \<noteq> root \<and> path_dir q = root) (remdups names))"

definition removeExpiredStages :: "service \<Rightarrow> (string \<Rightarrow> time) \<Rightarrow> time \<Rightarrow> unit tm" where
  "removeExpiredStages E mtime n =
     (let root = path_join [sDataDirectory E, ''staging'', ''uploading''] in
      bindE (tryE (fs_read E (\<lambda>fs. os_lstat fs root))) (\<lambda>r :: os_error + node. case r of
        Inl _ \<Rightarrow> retE ()
      | Inr _ \<Rightarrow>
          bindE (getE wFs) (\<lambda>fs.
          bindE (outside (hPaths E)) (\<lambda>names.
          eachE (expire_entry E mtime n) (stage_entries fs root names)))))"

section \<open>The main loop\<close>

text \<open>What \<open>Run\<close> does before its loop; \<open>False\<close> means that it returned.\<close>

definition run_startup :: "service \<Rightarrow> (string \<Rightarrow> time) \<Rightarrow> bool tm" where
  "run_startup E mtime =
     bindE (tryE (fs_call E (os_mkdir_all (path_join [sDataDirectory E, ''incoming''])))) (\<lambda>r :: os_error + unit. case r of
       Inl _ \<Rightarrow> retE False
     | Inr _ \<Rightarrow>
         bindE (tryE (recover E)) (\<lambda>_ :: terr + unit.
         bindE (now E) (\<lambda>n. seqE (removeExpiredStages E mtime n) (retE True))))"

text \<open>What wakes the loop; the context's end stops it.\<close>

datatype wakeup = WakeDone | WakeSignal | WakeTick | WakeCleanup time

definition run_round :: "service \<Rightarrow> (string \<Rightarrow> time) \<Rightarrow> wakeup \<Rightarrow> bool tm" where
  "run_round E mtime k =
     (case k of
        WakeDone \<Rightarrow> seqE stopAll (retE False)
      | WakeSignal \<Rightarrow> seqE (modE (\<lambda>w. w\<lparr>wWake := False\<rparr>)) (seqE (dispatch E) (retE True))
      | WakeTick \<Rightarrow> seqE (dispatch E) (retE True)
      | WakeCleanup n \<Rightarrow> seqE (removeExpiredStages E mtime n) (seqE (dispatch E) (retE True)))"

section \<open>Laws of the counter\<close>

definition counts_ok :: "tworld \<Rightarrow> bool" where
  "counts_ok w \<longleftrightarrow> (\<forall>i k. wStaging w i = Some k \<longrightarrow> 0 < k \<and> k < 2 ^ 62)"

lemma begin_end:
  assumes "counts_ok w" "beginStageUpload i w = (r, w1)" "wStaging w2 = wStaging w1" "endStageUpload i w2 = (r', w3)"
  shows "wStaging w3 = wStaging w"
proof (cases "wStaging w i")
  case None
  then show ?thesis
    using assms by (auto simp: beginStageUpload_def endStageUpload_def staging_count_def in64_def fun_upd_idem)
next
  case (Some k)
  then have k: "0 < k" "k < 2 ^ 62" using assms(1) by (auto simp: counts_ok_def)
  then have "wrap64 (k + 1) = k + 1" by (simp add: in64_def)
  then show ?thesis
    using assms(2-) Some k
    by (auto simp: beginStageUpload_def endStageUpload_def staging_count_def in64_def fun_upd_idem)
qed

text \<open>What an upload leaves alone.\<close>

named_theorems stage_stable

lemma stage_calls [stage_stable]:
  "keeps (\<lambda>w. P (wStaging w)) (outside f)"
  "keeps (\<lambda>w. P (wStaging w)) (fs_call E g)"
  "keeps (\<lambda>w. P (wStaging w)) (fs_read E q)"
  "keeps (\<lambda>w. P (wStaging w)) (fs_write E p off d)"
  "keeps (\<lambda>w. P (wStaging w)) (read_upload Z contents sz)"
  by (auto simp: keeps_def outside_def fs_call_def fs_read_def fs_write_def read_upload_def split: option.splits sum.splits)

lemma stage_upload [stage_stable]: "keeps (\<lambda>w. P (wStaging w)) (upload_into E root rel sz contents)"
  unfolding upload_into_def availableStorage_def store_upload_def open_upload_def fill_upload_def drop_upload_def fs_sync_def
  by (intro keeps_rules stage_stable)

section \<open>Uploads are all or nothing\<close>

definition files_of :: "fsys \<Rightarrow> (string \<times> string) set" where
  "files_of fs = {(q, d). fs q = Some (NFile d)}"

lemma files_mkdir: "os_mkdir_all p fs = Inr fs' \<Longrightarrow> files_of fs' = files_of fs"
  by (auto simp: files_of_def mkdir_all_file)

lemma quiet_fs_write: "quiet E \<Longrightarrow> fs_write E p off d w =
    (case os_write_at p off d (wFs w) of Inl e \<Rightarrow> (Inl e, bump w) | Inr fs \<Rightarrow> (Inr (), (bump w)\<lparr>wFs := fs\<rparr>))"
  by (simp add: quiet_def fs_write_def)

lemma read_upload_exact:
  assumes "read_limited contents (wrap64 (sz + 1)) = Inr c" "int (length c) = sz" "in64 sz"
  shows "c = bBytes contents \<and> \<not> bBroken contents"
proof -
  have "wrap64 (sz + 1) = sz + 1 \<or> wrap64 (sz + 1) = - (2 ^ 63) \<and> sz = 2 ^ 63 - 1"
    using assms(3) by (cases "sz = 2 ^ 63 - 1") (auto simp: in64_def wrap64_def)
  then show ?thesis
  proof
    assume w: "wrap64 (sz + 1) = sz + 1"
    have "\<not> sz + 1 \<le> int (length (bBytes contents))"
    proof
      assume l: "sz + 1 \<le> int (length (bBytes contents))"
      then have "c = take (nat (sz + 1)) (bBytes contents)" using assms(1,2) w by (auto simp: read_limited_def)
      moreover have "0 \<le> sz" using assms(2) by simp
      ultimately have "int (length c) = sz + 1" using l by simp
      then show False using assms(2) by simp
    qed
    then show ?thesis using assms(1,2) w by (auto simp: read_limited_def split: if_splits)
  next
    assume "wrap64 (sz + 1) = - (2 ^ 63) \<and> sz = 2 ^ 63 - 1"
    then show ?thesis using assms(1,2) by (auto simp: read_limited_def)
  qed
qed

lemma fill_upload_quiet:
  assumes q: "quiet E" and f: "wFs w target = Some (NFile [])" and r: "fill_upload E target sz contents w = (r, w')"
    and sz: "in64 sz"
  shows "(\<exists>c. wFs w' = (wFs w)(target \<mapsto> NFile c)) \<and>
    (r = Inr () \<longrightarrow> wFs w' target = Some (NFile (bBytes contents)) \<and> int (length (bBytes contents)) = sz \<and> \<not> bBroken contents)"
proof -
  have nf: "hFault E k \<noteq> Some FaultCanceled" for k using q by (simp add: quiet_def)
  have e: "\<exists>c. wFs w = (wFs w)(target \<mapsto> NFile c)" using f by (metis fun_upd_triv)
  show ?thesis
  proof (cases "read_limited contents (wrap64 (sz + 1))")
    case (Inl e)
    then show ?thesis
      using r nf e by (auto simp: fill_upload_def bindE_def read_upload_def)
  next
    case (Inr c)
    have wr: "os_write_at target 0 c (wFs w) = Inr ((wFs w)(target \<mapsto> NFile c))"
      using f by (simp add: os_write_at_def write_bytes_def)
    show ?thesis
    proof (cases "int (length c) = sz")
      case True
      then show ?thesis
        using r Inr wr nf q read_upload_exact [OF Inr True sz]
        by (auto simp: fill_upload_def bindE_def seqE_def read_upload_def osE_def mapErrE_def quiet_fs_write fs_sync_def
            quiet_fs_call)
    next
      case False
      then show ?thesis
        using r Inr wr nf q
        by (auto simp: fill_upload_def bindE_def seqE_def read_upload_def osE_def mapErrE_def quiet_fs_write guardE_def)
    qed
  qed
qed

lemma store_upload_quiet:
  assumes q: "quiet E" and r: "store_upload E target sz contents w = (r, w')" and sz: "in64 sz"
  shows "(if r = Inr () then wFs w target = None \<and> int (length (bBytes contents)) = sz \<and> \<not> bBroken contents \<and>
      wFs w' = (wFs w)(target \<mapsto> NFile (bBytes contents)) else wFs w' = wFs w)"
proof (cases "os_open_excl target (wFs w)")
  case (Inl e)
  then show ?thesis using r q
    by (auto simp: store_upload_def open_upload_def seqE_def bindE_def tryE_def quiet_fs_call split: if_splits)
next
  case (Inr fs)
  then have fs: "wFs w target = None" "fs = (wFs w)(target \<mapsto> NFile [])"
    by (auto simp: os_open_excl_def split: if_splits)
  let ?w = "(bump w)\<lparr>wFs := fs\<rparr>"
  obtain x w1 where x: "fill_upload E target sz contents ?w = (x, w1)" by force
  have f: "(\<exists>c. wFs w1 = (wFs ?w)(target \<mapsto> NFile c)) \<and>
    (x = Inr () \<longrightarrow> wFs w1 target = Some (NFile (bBytes contents)) \<and> int (length (bBytes contents)) = sz \<and> \<not> bBroken contents)"
    by (rule fill_upload_quiet [OF q _ x sz]) (simp add: fs)
  then obtain c where c: "wFs w1 = (wFs w)(target \<mapsto> NFile c)" by (auto simp: fs)
  have o: "open_upload E target w = (Inr (), ?w)"
    using Inr q by (simp add: open_upload_def bindE_def tryE_def quiet_fs_call)
  show ?thesis
  proof (cases x)
    case (Inl e)
    then show ?thesis
      using r o x c q fs(1)
      by (auto simp: store_upload_def seqE_def bindE_def tryE_def drop_upload_def quiet_fs_call os_remove_def fun_upd_idem)
  next
    case (Inr u)
    then show ?thesis using r o x c f fs(1) by (auto simp: store_upload_def seqE_def bindE_def tryE_def)
  qed
qed

lemma upload_into_quiet:
  assumes q: "quiet E" and r: "upload_into E root rel sz contents w = (r, w')" and sz: "in64 sz"
  shows "(if r = Inr () then \<exists>target. secureJoin (hCwd E) root rel = Inr target \<and> target \<notin> fst ` files_of (wFs w) \<and>
      int (length (bBytes contents)) = sz \<and> \<not> bBroken contents \<and>
      files_of (wFs w') = insert (target, bBytes contents) (files_of (wFs w))
    else files_of (wFs w') = files_of (wFs w))"
proof -
  let ?a = "hAvail E (wTick w) (storageProbePath (hCwd E) (wFs w) root)"
  have a: "(availableStorage E root :: int tm) w = (Inr ?a, bump w)" by (simp add: availableStorage_def outside_def bindE_def)
  consider "0 \<le> ?a \<and> ?a < sz" | e where "\<not> (0 \<le> ?a \<and> ?a < sz)" "secureJoin (hCwd E) root rel = Inl e"
    | target e where "\<not> (0 \<le> ?a \<and> ?a < sz)" "secureJoin (hCwd E) root rel = Inr target"
        "os_mkdir_all (path_dir target) (wFs w) = Inl e"
    | target fs where "\<not> (0 \<le> ?a \<and> ?a < sz)" "secureJoin (hCwd E) root rel = Inr target"
        "os_mkdir_all (path_dir target) (wFs w) = Inr fs"
    by (metis sum.exhaust)
  then show ?thesis
  proof cases
    case 1
    then show ?thesis using r a by (auto simp: upload_into_def bindE_def seqE_def)
  next
    case 2
    then show ?thesis using r a by (auto simp: upload_into_def bindE_def seqE_def guardE_def)
  next
    case 3
    then show ?thesis using r a q
      by (auto simp: upload_into_def bindE_def seqE_def guardE_def osE_def mapErrE_def quiet_fs_call)
  next
    case (4 target fs)
    then have s: "store_upload E target sz contents ((bump (bump w))\<lparr>wFs := fs\<rparr>) = (r, w')"
      using r a q by (auto simp: upload_into_def bindE_def seqE_def guardE_def osE_def mapErrE_def quiet_fs_call)
    note k = store_upload_quiet [OF q s sz] files_mkdir [OF 4(3)]
    show ?thesis
    proof (cases "r = Inr ()")
      case True
      have "files_of (fs(target \<mapsto> NFile d)) = insert (target, d) (files_of fs)" if "fs target = None" for d
        using that by (auto simp: files_of_def split: if_splits)
      moreover have "target \<notin> fst ` files_of fs" if "fs target = None" using that by (auto simp: files_of_def)
      ultimately show ?thesis using True k 4(2) by auto
    next
      case False
      then show ?thesis using k by auto
    qed
  qed
qed

text \<open>C27: an upload is stored whole or not at all. On a disk without failures, an upload into a
  staging session either succeeds, and then the tree has one new regular file, strictly below
  the directory of the session, with exactly the bytes of the body, as many as announced; or it
  fails, and then the tree has the regular files it had. Either way the session counts as many
  active uploads afterwards as before.\<close>

theorem upload_all_or_nothing:
  assumes r: "UploadStagedFile E i rel sz contents w = (r, w')" and q: "quiet E" and sz: "in64 sz" and ok: "counts_ok w"
  shows "wStaging w' = wStaging w \<and>
    (if r = Inr () then \<exists>target. secureJoin (hCwd E) (uploadingStagePath E i) rel = Inr target \<and>
        target \<notin> fst ` files_of (wFs w) \<and> int (length (bBytes contents)) = sz \<and> \<not> bBroken contents \<and>
        files_of (wFs w') = insert (target, bBytes contents) (files_of (wFs w))
      else files_of (wFs w') = files_of (wFs w))"
proof -
  let ?root = "uploadingStagePath E i"
  show ?thesis
  proof (cases "hUuidOk E i \<and> validateRelativePath rel = Inr () \<and> \<not> sz < 0 \<and> wFs w ?root = Some NDir")
    case False
    then show ?thesis using r q
      by (auto simp: UploadStagedFile_def valid_session_def seqE_def bindE_def guardE_def stage_root_def tryE_def quiet_calls
          os_lstat_def Let_def split: if_splits sum.splits option.splits)
  next
    case True
    obtain w1 where b: "beginStageUpload i (bump w) = (Inr () :: terr + unit, w1)" "wFs w1 = wFs w"
      by (simp add: beginStageUpload_def)
    obtain x w2 where x: "upload_into E ?root rel sz contents w1 = (x, w2)" by force
    have st: "wStaging w2 = wStaging w1"
      by (rule keepsD [OF stage_upload [where P = "\<lambda>m. m = wStaging w1"] refl x])
    obtain w3 where e: "endStageUpload i w2 = (Inr () :: terr + unit, w3)" "wFs w3 = wFs w2" by (simp add: endStageUpload_def)
    have "r = x \<and> w' = w3"
      using r True q b(1) x e(1)
      by (simp add: UploadStagedFile_def valid_session_def seqE_def bindE_def stage_root_def tryE_def quiet_calls os_lstat_def Let_def)
    moreover have "wStaging w3 = wStaging (bump w)"
      by (rule begin_end [OF _ b(1) st e(1)]) (use ok in \<open>simp add: counts_ok_def\<close>)
    ultimately show ?thesis using upload_into_quiet [OF q x sz] b(2) e(2) by (cases "x = Inr ()") auto
  qed
qed

definition sample_stage :: string where
  "sample_stage = ''/data/staging/uploading/s1''"

definition sample_stage_world :: tworld where
  "sample_stage_world = sample_world\<lparr>wFs := (wFs sample_world)(''/data/staging'' \<mapsto> NDir, ''/data/staging/uploading'' \<mapsto> NDir,
     sample_stage \<mapsto> NDir)\<rparr>"

lemma sample_stage_paths:
  "uploadingStagePath sample_service ''s1'' = sample_stage"
  "secureJoin (Some ''/'') sample_stage ''a.txt'' = Inr ''/data/staging/uploading/s1/a.txt''"
  "path_dir ''/data/staging/uploading/s1/a.txt'' = sample_stage"
  "ancestors sample_stage = [''/'', ''/data'', ''/data/staging'', ''/data/staging/uploading'', sample_stage]"
  "validateRelativePath ''a.txt'' = Inr ()"
  by code_simp+

theorem upload_all_or_nothing_witness:
  "\<exists>w'. UploadStagedFile sample_service ''s1'' ''a.txt'' 2 \<lparr>bBytes = ''hi'', bBroken = False\<rparr> sample_stage_world = (Inr (), w') \<and>
     files_of (wFs w') = insert (''/data/staging/uploading/s1/a.txt'', ''hi'') (files_of (wFs sample_stage_world))"
proof -
  let ?b = "\<lparr>bBytes = ''hi'', bBroken = False\<rparr>"
  have h: "hCwd sample_service = Some ''/''" "hUuidOk sample_service ''s1''" "hAvail sample_service k p = 1000000"
    "hFault sample_service k = None" for k p
    by (simp_all add: sample_service_def)
  have fs: "wFs sample_stage_world sample_stage = Some NDir" "wFs sample_stage_world ''/data/staging/uploading/s1/a.txt'' = None"
    "list_all (\<lambda>q. wFs sample_stage_world q = Some NDir) (ancestors sample_stage)"
    unfolding sample_stage_paths by (simp_all add: sample_stage_world_def sample_world_def sample_stage_def)
  have m: "os_mkdir_all sample_stage (wFs sample_stage_world) = Inr (wFs sample_stage_world)"
    by (rule mkdir_all_existing [OF fs(3)])
  have "\<exists>w'. UploadStagedFile sample_service ''s1'' ''a.txt'' 2 ?b sample_stage_world = (Inr (), w')"
    using fs m
    by (simp add: UploadStagedFile_def valid_session_def seqE_def bindE_def h sample_stage_paths Let_def stage_root_def tryE_def
        quiet_calls os_lstat_def beginStageUpload_def upload_into_def availableStorage_def outside_def osE_def mapErrE_def
        quiet_fs_call store_upload_def open_upload_def os_open_excl_def has_parent_def fill_upload_def read_upload_def
        read_limited_def in64_def quiet_fs_write os_write_at_def fs_sync_def endStageUpload_def)
  then obtain w' where r: "UploadStagedFile sample_service ''s1'' ''a.txt'' 2 ?b sample_stage_world = (Inr (), w')" by blast
  have "counts_ok sample_stage_world" by (simp add: counts_ok_def sample_stage_world_def sample_world_def)
  then show ?thesis
    using r upload_all_or_nothing [OF r] by (auto simp: in64_def h sample_stage_paths)
qed

end
