(* ===== verification/PairingModels.thy ===== *)
theory PairingModels
  imports Identity
begin

text \<open>
  The data of \<open>backend/internal/pairing\<close>: the records of \<open>models.go\<close>, the errors, the trust
  store (\<open>store.go\<close>, \<open>sqlite_store.go\<close>) over the table \<open>trusted_devices\<close>, and the cryptographic
  messages of \<open>crypto.go\<close>.

  An error is the sentinel \<open>errors.Is\<close> finds in it; \<open>ErrPairingOther\<close> is an error of the
  outside or a plain \<open>errors.New\<close>, with a text. \<open>ErrPairingPanic\<close> stands for a nil dereference.
\<close>

section \<open>Models\<close>

datatype perr =
    ErrPeerNotDiscovered | ErrAlreadyTrusted | ErrRequestNotFound | ErrInvalidIdentifier
  | ErrProtocol | ErrIdentityChanged | ErrPairingRateLimit | ErrTrustedDeviceNotFound
  | ErrPairingOther string | ErrPairingPanic

definition pairingProtocolVersion :: int where
  "pairingProtocolVersion = 1"

datatype trust_state = TrustStateTrusted | TrustStateBlocked

datatype request_state =
    RequestStatePending | RequestStateConfirming | RequestStatePaired
  | RequestStateRejected | RequestStateExpired

datatype request_direction = DirectionIncoming | DirectionOutgoing

record trusted_device =
  tdDeviceID :: string
  tdDeviceName :: string
  tdLocalName :: string
  tdPlatform :: string
  tdPublicKey :: string
  tdFingerprint :: string
  tdPairingKey :: string
  tdPairedAt :: time
  tdLastSeen :: time
  tdLastAuthenticated :: time
  tdTrustState :: trust_state
  tdBlocked :: bool
  tdIdentityKeyChanged :: bool
  tdNotes :: string

record pairing_request =
  prRequestID :: string
  prDeviceID :: string
  prDeviceName :: string
  prPlatform :: string
  prDirection :: request_direction
  prFingerprint :: string
  prVerificationCode :: string
  prRequestedAt :: time
  prExpiresAt :: time
  prState :: request_state
  prLocalConfirmed :: bool
  prRemoteConfirmed :: bool

record decision =
  dcRequest :: pairing_request
  dcTrustedDevice :: "trusted_device option"

record begin_request =
  brProtocolVersion :: int
  brRequestID :: string
  brDeviceID :: string
  brDeviceName :: string
  brPlatform :: string
  brPublicKey :: string
  brEphemeralKey :: string
  brTimestamp :: string
  brNonce :: string
  brSignature :: string

record begin_response =
  bsProtocolVersion :: int
  bsRequestID :: string
  bsDeviceID :: string
  bsDeviceName :: string
  bsPlatform :: string
  bsPublicKey :: string
  bsEphemeralKey :: string
  bsTimestamp :: string
  bsNonce :: string
  bsSignature :: string

record proof_message =
  pmProtocolVersion :: int
  pmRequestID :: string
  pmDeviceID :: string
  pmAction :: string
  pmTimestamp :: string
  pmNonce :: string
  pmMAC :: string

record peer_decision =
  pdRequestID :: string
  pdState :: request_state
  pdLocalConfirmed :: bool
  pdRemoteConfirmed :: bool
  pdTimestamp :: string
  pdMAC :: string

datatype pairing_event_type =
  EventPairingRequested | EventPairingAccepted | EventPairingRejected | EventTrustedDeviceRemoved

record pairing_event =
  pvType :: pairing_event_type
  pvRequest :: "pairing_request option"
  pvTrustedDevice :: "trusted_device option"
  pvTimestamp :: time

section \<open>The outside of the pairing service\<close>

text \<open>
  Ed25519, X25519, HKDF and the JSON encoder are not code of the repository, and the peer
  answers what it likes: \<open>pBegin\<close> and \<open>pProof\<close> are the \<open>PeerTransport\<close> of the service, which
  \<open>http_transport.go\<close> implements over \<open>pPost\<close>.
\<close>

record pair_host = host +
  pSign :: "string \<Rightarrow> string \<Rightarrow> string"
  pVerify :: "string \<Rightarrow> string \<Rightarrow> string \<Rightarrow> bool"
  pBeginJson :: "begin_request \<Rightarrow> string"
  pResponseJson :: "begin_response \<Rightarrow> string"
  pProofJson :: "proof_message \<Rightarrow> string"
  pDecisionJson :: "peer_decision \<Rightarrow> string"
  pResponseDecode :: "string \<Rightarrow> perr + begin_response"
  pDecisionDecode :: "string \<Rightarrow> perr + peer_decision"
  pEphemeral :: "nat \<Rightarrow> perr + string"
  pX25519 :: "string \<Rightarrow> string"
  pEcdh :: "string \<Rightarrow> string \<Rightarrow> perr + string"
  pHkdf :: "string \<Rightarrow> string \<Rightarrow> string \<Rightarrow> string"
  pBegin :: "nat \<Rightarrow> device \<Rightarrow> begin_request \<Rightarrow> perr + begin_response"
  pProof :: "nat \<Rightarrow> device \<Rightarrow> proof_message \<Rightarrow> perr + peer_decision"
  pPost :: "nat \<Rightarrow> string \<Rightarrow> string \<Rightarrow> perr + http_response"

text \<open>The one setting of the service that its methods read.\<close>

record pair_service = pair_host +
  psRequestTTL :: time

section \<open>The trust store\<close>

text \<open>A row of \<open>trusted_devices\<close>, with its times in milliseconds.\<close>

record trusted_row =
  trDeviceID :: string
  trDeviceName :: string
  trLocalName :: string
  trPlatform :: string
  trPublicKey :: string
  trFingerprint :: string
  trPairingKey :: string
  trPairedAt :: int
  trLastSeen :: int
  trLastAuthenticated :: int
  trTrustState :: trust_state
  trBlocked :: bool
  trIdentityKeyChanged :: bool
  trNotes :: string

definition trusted_row_of :: "trusted_device \<Rightarrow> trusted_row" where
  "trusted_row_of d = \<lparr>trDeviceID = tdDeviceID d, trDeviceName = tdDeviceName d, trLocalName = tdLocalName d,
     trPlatform = tdPlatform d, trPublicKey = tdPublicKey d, trFingerprint = tdFingerprint d,
     trPairingKey = tdPairingKey d, trPairedAt = unix_milli (tdPairedAt d),
     trLastSeen = unix_milli (tdLastSeen d), trLastAuthenticated = unix_milli (tdLastAuthenticated d),
     trTrustState = tdTrustState d, trBlocked = tdBlocked d, trIdentityKeyChanged = tdIdentityKeyChanged d,
     trNotes = tdNotes d\<rparr>"

definition scanTrustedDevice :: "trusted_row \<Rightarrow> trusted_device" where
  "scanTrustedDevice r = \<lparr>tdDeviceID = trDeviceID r, tdDeviceName = trDeviceName r, tdLocalName = trLocalName r,
     tdPlatform = trPlatform r, tdPublicKey = trPublicKey r, tdFingerprint = trFingerprint r,
     tdPairingKey = trPairingKey r, tdPairedAt = of_unix_milli (trPairedAt r),
     tdLastSeen = of_unix_milli (trLastSeen r),
     tdLastAuthenticated =
       (if 0 < trLastAuthenticated r then of_unix_milli (trLastAuthenticated r) else time_zero),
     tdTrustState = trTrustState r, tdBlocked = trBlocked r, tdIdentityKeyChanged = trIdentityKeyChanged r,
     tdNotes = trNotes r\<rparr>"

text \<open>On a conflict every column but the key and \<open>local_name\<close> is replaced.\<close>

definition update_trusted :: "trusted_row \<Rightarrow> trusted_row \<Rightarrow> trusted_row" where
  "update_trusted old new = new\<lparr>trLocalName := trLocalName old\<rparr>"

definition TrustedUpsert :: "trusted_device \<Rightarrow> trusted_row list \<Rightarrow> trusted_row list" where
  "TrustedUpsert d rows = upsert trDeviceID update_trusted (trusted_row_of d) rows"

definition TrustedGet :: "trusted_row list \<Rightarrow> string \<Rightarrow> perr + trusted_device" where
  "TrustedGet rows i = (case select trDeviceID i rows of
       None \<Rightarrow> Inl ErrTrustedDeviceNotFound | Some r \<Rightarrow> Inr (scanTrustedDevice r))"

definition TrustedList :: "trusted_row list \<Rightarrow> trusted_device list" where
  "TrustedList rows = map scanTrustedDevice (sort_key (\<lambda>r. (trPairedAt r, trDeviceID r)) rows)"

definition TrustedDelete :: "string \<Rightarrow> trusted_row list \<Rightarrow> perr + (trusted_device \<times> trusted_row list)" where
  "TrustedDelete i rows = (case TrustedGet rows i of
       Inl e \<Rightarrow> Inl e
     | Inr d \<Rightarrow> Inr (d, delete_rows (\<lambda>r. trDeviceID r = i) rows))"

text \<open>What a record is after a trip through the table.\<close>

definition stored_device :: "string \<Rightarrow> trusted_device \<Rightarrow> trusted_device" where
  "stored_device localName d = (scanTrustedDevice (trusted_row_of d))\<lparr>tdLocalName := localName\<rparr>"

lemma update_trusted_key [simp]: "trDeviceID (update_trusted old new) = trDeviceID new"
  and trusted_row_key [simp]: "trDeviceID (trusted_row_of d) = tdDeviceID d"
  by (simp_all add: update_trusted_def trusted_row_of_def)

lemma stored_simps [simp]:
  "tdDeviceID (stored_device l d) = tdDeviceID d" "tdPublicKey (stored_device l d) = tdPublicKey d"
  "tdFingerprint (stored_device l d) = tdFingerprint d" "tdPairingKey (stored_device l d) = tdPairingKey d"
  "tdTrustState (stored_device l d) = tdTrustState d" "tdBlocked (stored_device l d) = tdBlocked d"
  "tdIdentityKeyChanged (stored_device l d) = tdIdentityKeyChanged d"
  "tdLocalName (stored_device l d) = l"
  by (simp_all add: stored_device_def scanTrustedDevice_def trusted_row_of_def)

lemma trusted_upsert:
  "TrustedGet (TrustedUpsert d rows) i =
     (if i = tdDeviceID d
      then Inr (stored_device (case TrustedGet rows i of Inl _ \<Rightarrow> tdLocalName d | Inr e \<Rightarrow> tdLocalName e) d)
      else TrustedGet rows i)"
proof -
  have "scanTrustedDevice (trusted_row_of d) = stored_device (tdLocalName d) d"
    by (simp add: stored_device_def scanTrustedDevice_def trusted_row_of_def)
  moreover have "scanTrustedDevice (update_trusted r (trusted_row_of d)) = stored_device (trLocalName r) d" for r
    by (simp add: stored_device_def scanTrustedDevice_def trusted_row_of_def update_trusted_def)
  moreover have "tdLocalName (scanTrustedDevice r) = trLocalName r" for r
    by (simp add: scanTrustedDevice_def)
  ultimately show ?thesis
    by (simp add: TrustedGet_def TrustedUpsert_def select_upsert split: option.splits)
qed

lemma select_delete_key: "select key j (delete_rows (\<lambda>r. key r = i) rows) = (if j = i then None else select key j rows)"
  by (induction rows) (auto simp: select_def delete_rows_def)

lemma trusted_delete:
  assumes "TrustedDelete i rows = Inr (d, rows')"
  shows "TrustedGet rows i = Inr d"
    and "TrustedGet rows' j = (if j = i then Inl ErrTrustedDeviceNotFound else TrustedGet rows j)"
  using assms by (auto simp: TrustedDelete_def TrustedGet_def select_delete_key split: sum.splits)

end
