(* ===== verification/PairingCrypto.thy ===== *)
theory PairingCrypto
  imports PairingModels TransferWire
begin

text \<open>
  \<open>crypto.go\<close> and the checks at the end of \<open>service.go\<close>: signed begin messages, the derivation
  of the pairing key and of the verification code, the MACs of proofs and decisions, and what
  a stored credential must look like.
\<close>

section \<open>Signed messages\<close>

definition canonicalBeginRequest :: "('r) pair_host_scheme \<Rightarrow> begin_request \<Rightarrow> string" where
  "canonicalBeginRequest E v = pBeginJson E (v\<lparr>brSignature := []\<rparr>)"

definition canonicalBeginResponse :: "('r) pair_host_scheme \<Rightarrow> begin_response \<Rightarrow> string" where
  "canonicalBeginResponse E v = pResponseJson E (v\<lparr>bsSignature := []\<rparr>)"

definition signRequest :: "('r) pair_host_scheme \<Rightarrow> begin_request \<Rightarrow> string \<Rightarrow> begin_request" where
  "signRequest E v privateKey = v\<lparr>brSignature := b64_encode (pSign E privateKey (canonicalBeginRequest E v))\<rparr>"

definition signResponse :: "('r) pair_host_scheme \<Rightarrow> begin_response \<Rightarrow> string \<Rightarrow> begin_response" where
  "signResponse E v privateKey = v\<lparr>bsSignature := b64_encode (pSign E privateKey (canonicalBeginResponse E v))\<rparr>"

definition verifySignature :: "('r) pair_host_scheme \<Rightarrow> string \<Rightarrow> string \<Rightarrow> string \<Rightarrow> perr + string" where
  "verifySignature E publicEncoded signatureEncoded message =
     (case b64_decode publicEncoded of
        None \<Rightarrow> Inl (ErrPairingOther ''invalid Ed25519 public key'')
      | Some publicKey \<Rightarrow>
          if length publicKey \<noteq> 32 then Inl (ErrPairingOther ''invalid Ed25519 public key'')
          else case b64_decode signatureEncoded of
            None \<Rightarrow> Inl (ErrPairingOther ''invalid Ed25519 signature'')
          | Some signature \<Rightarrow>
              if length signature \<noteq> 64 then Inl (ErrPairingOther ''invalid Ed25519 signature'')
              else if \<not> pVerify E publicKey message signature
              then Inl (ErrPairingOther ''identity signature verification failed'')
              else Inr publicKey)"

definition verifyRequest :: "('r) pair_host_scheme \<Rightarrow> begin_request \<Rightarrow> perr + string" where
  "verifyRequest E v = verifySignature E (brPublicKey v) (brSignature v) (canonicalBeginRequest E v)"

definition verifyResponse :: "('r) pair_host_scheme \<Rightarrow> begin_response \<Rightarrow> perr + string" where
  "verifyResponse E v = verifySignature E (bsPublicKey v) (bsSignature v) (canonicalBeginResponse E v)"

section \<open>The pairing key and the code\<close>

definition big_endian :: "string \<Rightarrow> nat" where
  "big_endian bs = foldl (\<lambda>n c. 256 * n + of_char c) 0 bs"

definition pad3 :: "nat \<Rightarrow> string" where
  "pad3 n = replicate (3 - length (nat_dec n)) CHR ''0'' @ nat_dec n"

definition verification_code :: "string \<Rightarrow> string" where
  "verification_code tail =
     (let v = big_endian tail mod 1000000 in pad3 (v div 1000) @ '' '' @ pad3 (v mod 1000))"

text \<open>An X25519 public key is any string of 32 bytes.\<close>

definition derivePairing ::
  "('r) pair_host_scheme \<Rightarrow> string \<Rightarrow> string \<Rightarrow> begin_request \<Rightarrow> begin_response \<Rightarrow> perr + (string \<times> string)" where
  "derivePairing E privateKey remoteEncoded request response =
     (case b64_decode remoteEncoded of
        None \<Rightarrow> Inl (ErrPairingOther ''invalid X25519 public key'')
      | Some remoteKey \<Rightarrow>
          if length remoteKey \<noteq> 32 then Inl (ErrPairingOther ''decode X25519 public key'')
          else case pEcdh E privateKey remoteKey of
            Inl e \<Rightarrow> Inl e
          | Inr shared \<Rightarrow>
              (let transcript = hSha256 E (canonicalBeginRequest E request @ canonicalBeginResponse E response);
                   material = pHkdf E shared transcript ''SyncSpace authenticated pairing v1''
               in Inr (take 32 material, verification_code (take 8 (drop 32 material)))))"

section \<open>MACs\<close>

definition proofMAC :: "('r) pair_host_scheme \<Rightarrow> string \<Rightarrow> proof_message \<Rightarrow> string" where
  "proofMAC E secret p = b64_encode (hHmac E secret (pProofJson E (p\<lparr>pmMAC := []\<rparr>)))"

definition verifyProof :: "('r) pair_host_scheme \<Rightarrow> string \<Rightarrow> proof_message \<Rightarrow> bool" where
  "verifyProof E secret p =
     (case b64_decode (proofMAC E secret p) of
        None \<Rightarrow> False
      | Some expected \<Rightarrow>
          (case b64_decode (pmMAC p) of None \<Rightarrow> False | Some actual \<Rightarrow> expected = actual))"

definition decisionMAC :: "('r) pair_host_scheme \<Rightarrow> string \<Rightarrow> peer_decision \<Rightarrow> string" where
  "decisionMAC E secret d = b64_encode (hHmac E secret (pDecisionJson E (d\<lparr>pdMAC := []\<rparr>)))"

definition verifyDecision :: "('r) pair_host_scheme \<Rightarrow> string \<Rightarrow> peer_decision \<Rightarrow> bool" where
  "verifyDecision E secret d =
     (case b64_decode (decisionMAC E secret d) of
        None \<Rightarrow> False
      | Some expected \<Rightarrow>
          (case b64_decode (pdMAC d) of None \<Rightarrow> False | Some actual \<Rightarrow> expected = actual))"

section \<open>Checks\<close>

definition decodeSharedKey :: "string \<Rightarrow> perr + string" where
  "decodeSharedKey v =
     (case b64_decode v of
        None \<Rightarrow> Inl (ErrPairingOther ''invalid shared pairing key'')
      | Some decoded \<Rightarrow>
          if length decoded \<noteq> 32 then Inl (ErrPairingOther ''invalid shared pairing key'') else Inr decoded)"

definition shortFingerprint :: "string \<Rightarrow> string" where
  "shortFingerprint full =
     (let parts = split_on CHR '':'' full in
      join_with '':'' (if 4 < length parts then take 4 parts else parts))"

definition validProtocolTimestamp :: "string \<Rightarrow> int \<Rightarrow> int \<Rightarrow> bool" where
  "validProtocolTimestamp v nowUnix maxSkewSeconds =
     (case parse_int v of
        None \<Rightarrow> False
      | Some parsed \<Rightarrow>
          (let difference = wrap64 (parsed - nowUnix);
               difference' = (if difference < 0 then wrap64 (- difference) else difference)
           in difference' \<le> maxSkewSeconds))"

definition validateUUID :: "('r) host_scheme \<Rightarrow> string \<Rightarrow> perr + unit" where
  "validateUUID E v = (if hUuidOk E v then Inr () else Inl ErrInvalidIdentifier)"

definition decodeCredential :: "('r) host_scheme \<Rightarrow> trusted_device \<Rightarrow> perr + unit" where
  "decodeCredential E d =
     (case b64_decode (tdPublicKey d) of
        None \<Rightarrow> Inl (ErrPairingOther ''invalid trusted public identity'')
      | Some publicKey \<Rightarrow>
          if length publicKey \<noteq> 32 \<or> tdFingerprint d \<noteq> IdentityFingerprint E publicKey
          then Inl (ErrPairingOther ''invalid trusted public identity'')
          else case decodeSharedKey (tdPairingKey d) of Inl e \<Rightarrow> Inl e | Inr _ \<Rightarrow> Inr ())"

definition validateTrustedDevice :: "('r) host_scheme \<Rightarrow> trusted_device \<Rightarrow> perr + unit" where
  "validateTrustedDevice E d =
     (case validateUUID E (tdDeviceID d) of
        Inl e \<Rightarrow> Inl e
      | Inr _ \<Rightarrow>
          case b64_decode (tdPublicKey d) of
            None \<Rightarrow> Inl (ErrPairingOther ''invalid trusted public identity'')
          | Some publicKey \<Rightarrow>
              if length publicKey \<noteq> 32 \<or> tdFingerprint d \<noteq> IdentityFingerprint E publicKey
              then Inl (ErrPairingOther ''invalid trusted public identity'')
              else case decodeSharedKey (tdPairingKey d) of
                Inl e \<Rightarrow> Inl e
              | Inr _ \<Rightarrow>
                  if trim_space (tdDeviceName d) = [] \<or> 128 < length (tdDeviceName d) \<or>
                     trim_space (tdPlatform d) = [] \<or> 32 < length (tdPlatform d) \<or>
                     tdPairedAt d = time_zero \<or> tdLastSeen d = time_zero
                  then Inl (ErrPairingOther ''invalid trusted device'') else Inr ())"

section \<open>Laws\<close>

lemma verifyProof_iff: "verifyProof E secret p \<longleftrightarrow>
    b64_decode (pmMAC p) = Some (hHmac E secret (pProofJson E (p\<lparr>pmMAC := []\<rparr>)))"
  by (auto simp: verifyProof_def proofMAC_def b64_roundtrip split: option.splits)

lemma verifyDecision_iff: "verifyDecision E secret d \<longleftrightarrow>
    b64_decode (pdMAC d) = Some (hHmac E secret (pDecisionJson E (d\<lparr>pdMAC := []\<rparr>)))"
  by (auto simp: verifyDecision_def decisionMAC_def b64_roundtrip split: option.splits)

lemma verifyProof_own: "verifyProof E secret (p\<lparr>pmMAC := proofMAC E secret p\<rparr>)"
  by (simp add: verifyProof_iff proofMAC_def b64_roundtrip)

lemma verifyDecision_own: "verifyDecision E secret (d\<lparr>pdMAC := decisionMAC E secret d\<rparr>)"
  by (simp add: verifyDecision_iff decisionMAC_def b64_roundtrip)

lemma decodeSharedKey_iff: "decodeSharedKey v = Inr k \<longleftrightarrow> b64_decode v = Some k \<and> length k = 32"
  by (auto simp: decodeSharedKey_def split: option.splits)

lemma decodeSharedKey_encode [simp]: "length k = 32 \<Longrightarrow> decodeSharedKey (b64_encode k) = Inr k"
  by (simp add: decodeSharedKey_def b64_roundtrip)

lemma decodeCredential_iff: "decodeCredential E d = Inr () \<longleftrightarrow>
    (\<exists>pk k. b64_decode (tdPublicKey d) = Some pk \<and> length pk = 32 \<and>
       tdFingerprint d = IdentityFingerprint E pk \<and> decodeSharedKey (tdPairingKey d) = Inr k)"
  by (auto simp: decodeCredential_def split: option.splits sum.splits)

lemma validate_credential: "validateTrustedDevice E d = Inr () \<Longrightarrow> decodeCredential E d = Inr ()"
  by (auto simp: validateTrustedDevice_def decodeCredential_def split: option.splits sum.splits if_splits)

lemma verifySignature_Inr: "verifySignature E pub sig m = Inr k \<longleftrightarrow>
    b64_decode pub = Some k \<and> length k = 32 \<and>
    (\<exists>s. b64_decode sig = Some s \<and> length s = 64 \<and> pVerify E k m s)"
  by (auto simp: verifySignature_def split: option.splits)

lemma nat_dec_short: "n < 10 ^ k \<Longrightarrow> 0 < k \<Longrightarrow> length (nat_dec n) \<le> k"
proof (induction k arbitrary: n)
  case (Suc k)
  show ?case
  proof (cases "n < 10")
    case False
    then have "n div 10 < 10 ^ k" "0 < k" using Suc.prems by (auto simp: div_less_iff_less_mult mult.commute intro: gr0I)
    then have "length (nat_dec (n div 10)) \<le> k" by (rule Suc.IH)
    then show ?thesis using False by (subst nat_dec.simps) simp
  qed (subst nat_dec.simps, simp)
qed simp

text \<open>The code has the shape the user compares: three digits, a space, three digits.\<close>

lemma pad3_digits: "n < 1000 \<Longrightarrow> length (pad3 n) = 3 \<and> list_all is_digit (pad3 n)"
  using nat_dec_short [of n 3] nat_dec_digits [of n]
  by (auto simp: pad3_def list_all_iff is_digit_def Let_def)

lemma length_verification_code: "length (verification_code bs) = 7"
proof -
  have "big_endian bs mod 1000000 div 1000 < 1000" by (simp add: div_less_iff_less_mult)
  then show ?thesis by (simp add: verification_code_def Let_def pad3_digits)
qed

text \<open>
  The two sides of an exchange derive the same key and code, because X25519 commutes: this is
  the only law of the cryptographic library the ceremony needs.
\<close>

definition ecdh_commutes :: "('r) pair_host_scheme \<Rightarrow> bool" where
  "ecdh_commutes E \<longleftrightarrow> (\<forall>a. length (pX25519 E a) = 32) \<and>
     (\<forall>a b. pEcdh E a (pX25519 E b) = pEcdh E b (pX25519 E a))"

lemma derive_agrees: "ecdh_commutes E \<Longrightarrow>
    derivePairing E a (b64_encode (pX25519 E b)) request response =
    derivePairing E b (b64_encode (pX25519 E a)) request response"
  by (simp add: derivePairing_def b64_roundtrip ecdh_commutes_def)

lemma derive_Inr: "derivePairing E a k request response = Inr (secret, code) \<Longrightarrow>
    length code = 7 \<and> length secret \<le> 32"
  by (auto simp: derivePairing_def Let_def length_verification_code split: option.splits if_splits sum.splits)

lemma derive_secret_length: "derivePairing E a k request response = Inr (secret, code) \<Longrightarrow>
    (\<And>s t i. length (pHkdf E s t i) = 40) \<Longrightarrow> length secret = 32"
  by (auto simp: derivePairing_def Let_def split: option.splits if_splits sum.splits)

lemma wrap64_uminus: "wrap64 (- x) = (if wrap64 x = - (2 ^ 63) then - (2 ^ 63) else - wrap64 x)"
proof -
  let ?y = "(x + 2 ^ 63) mod 2 ^ 64"
  have e: "- x + 2 ^ 63 = - (x + 2 ^ 63) + 2 ^ 64" by simp
  have "wrap64 (- x) = (- (x + 2 ^ 63)) mod 2 ^ 64 - 2 ^ 63"
    unfolding wrap64_def e by (simp only: mod_add_self2)
  also have "\<dots> = (if ?y = 0 then 0 else 2 ^ 64 - ?y) - 2 ^ 63"
    unfolding zmod_zminus1_eq_if ..
  finally show ?thesis unfolding wrap64_def by (cases "?y = 0") simp_all
qed

lemma validProtocolTimestamp_transfer: "validProtocolTimestamp v (unix n) 120 = validProtocolTime v n"
proof (cases "parse_int v")
  case (Some p)
  define z where "z = wrap64 (unix n - p)"
  have z: "in64 z" by (simp add: z_def)
  have "wrap64 (p - unix n) = (if z = - (2 ^ 63) then - (2 ^ 63) else - z)"
    using wrap64_uminus [of "unix n - p"] by (simp add: z_def)
  moreover have "wrap64 (- z) = (if z = - (2 ^ 63) then - (2 ^ 63) else - z)"
    using wrap64_uminus [of z] z by simp
  moreover have "wrap64 (2 ^ 63) = - (2 ^ 63)" by (simp add: wrap64_def)
  ultimately show ?thesis
    using z Some
    by (cases "z = - (2 ^ 63)")
      (auto simp: validProtocolTimestamp_def validProtocolTime_def z_def [symmetric] Let_def)
qed (simp add: validProtocolTimestamp_def validProtocolTime_def)

end
