(* ===== verification/PairingService.thy ===== *)
theory PairingService
  imports PairingCrypto
begin

text \<open>
  \<open>pairing/service.go\<close> and \<open>http_transport.go\<close>: the ceremony by which two devices come to trust
  each other, and the trust decisions the rest of the program asks for.

  The state is what \<open>s.mu\<close> and \<open>s.identityMu\<close> protect, the trust table and the published events.
  The session map is an association list (Go leaves the order of a map open). A session is
  reached through the map only, so writing through the pointer is an update of its entry.
  Methods run one after the other; \<open>RequestPairing\<close> is split where it releases the lock and
  waits for the peer, so that the calls in between can be placed there.
\<close>

section \<open>The state\<close>

record pairing_session =
  psRequest :: pairing_request
  psSecret :: string
  psRemotePublicKey :: string
  psPeer :: device
  psResponse :: begin_response
  psProofNonces :: "string \<rightharpoonup> time"
  psTrusted :: "trusted_device option"

record pworld =
  pSessions :: "(string \<times> pairing_session) list"
  pPending :: "string \<rightharpoonup> string"
  pRecent :: "string \<rightharpoonup> time"
  pLastHost :: "string \<rightharpoonup> time"
  pTrustedRows :: "trusted_row list"
  pIdentity :: identity
  pEvents :: "pairing_event list"
  pTick :: nat

type_synonym 'a pm = "(pworld, perr, 'a) gom"

definition pairingCooldown :: time where "pairingCooldown = 2 * second"
definition maxPending :: nat where "maxPending = 32"
definition protocolMaxSkew :: int where "protocolMaxSkew = 120"

definition ptick :: "pworld \<Rightarrow> pworld" where
  "ptick w = w\<lparr>pTick := Suc (pTick w)\<rparr>"

definition p_out :: "(nat \<Rightarrow> 'a) \<Rightarrow> (pworld, 'e, 'a) gom" where
  "p_out f = (\<lambda>w. (Inr (f (pTick w)), ptick w))"

definition p_outE :: "(nat \<Rightarrow> 'e + 'a) \<Rightarrow> (pworld, 'e, 'a) gom" where
  "p_outE f = (\<lambda>w. (f (pTick w), ptick w))"

definition p_now :: "('r) host_scheme \<Rightarrow> (pworld, 'e, time) gom" where
  "p_now E = p_out (hNow E)"

fun pair_fault :: "fault \<Rightarrow> perr" where
  "pair_fault FaultCanceled = ErrPairingOther ''context canceled''"
| "pair_fault (FaultIO m) = ErrPairingOther m"

definition p_store :: "('r) host_scheme \<Rightarrow> (trusted_row list \<Rightarrow> perr + ('a \<times> trusted_row list)) \<Rightarrow> 'a pm" where
  "p_store E f = (\<lambda>w. case hFault E (pTick w) of
       Some e \<Rightarrow> (Inl (pair_fault e), ptick w)
     | None \<Rightarrow> (case f (pTrustedRows w) of
           Inl e \<Rightarrow> (Inl e, ptick w)
         | Inr (a, rows) \<Rightarrow> (Inr a, (ptick w)\<lparr>pTrustedRows := rows\<rparr>)))"

definition p_list :: "('r) host_scheme \<Rightarrow> trusted_device list pm" where
  "p_list E = p_store E (\<lambda>rows. Inr (TrustedList rows, rows))"

definition p_get :: "('r) host_scheme \<Rightarrow> string \<Rightarrow> trusted_device pm" where
  "p_get E i = p_store E (\<lambda>rows. map_sum id (\<lambda>d. (d, rows)) (TrustedGet rows i))"

definition p_upsert :: "('r) host_scheme \<Rightarrow> trusted_device \<Rightarrow> unit pm" where
  "p_upsert E d = p_store E (\<lambda>rows. Inr ((), TrustedUpsert d rows))"

definition p_delete :: "('r) host_scheme \<Rightarrow> string \<Rightarrow> trusted_device pm" where
  "p_delete E i = p_store E (TrustedDelete i)"

definition p_publish :: "pairing_event_type \<Rightarrow> pairing_request option \<Rightarrow> trusted_device option \<Rightarrow> time \<Rightarrow>
    (pworld, 'e, unit) gom" where
  "p_publish k rq d n = modE (\<lambda>w. w\<lparr>pEvents :=
     \<lparr>pvType = k, pvRequest = rq, pvTrustedDevice = d, pvTimestamp = n\<rparr> # pEvents w\<rparr>)"

definition find_session :: "string \<Rightarrow> pairing_session option pm" where
  "find_session rid = getE (\<lambda>w. map_of (pSessions w) rid)"

definition put_session :: "string \<Rightarrow> pairing_session \<Rightarrow> unit pm" where
  "put_session rid s = modE (\<lambda>w. w\<lparr>pSessions := AList.update rid s (pSessions w)\<rparr>)"

section \<open>Construction and names\<close>

record pairing_config =
  pcStore :: bool
  pcPeers :: bool
  pcIdentity :: identity
  pcRequestTTL :: time

definition initial_pairing :: "identity \<Rightarrow> trusted_row list \<Rightarrow> pworld" where
  "initial_pairing i rows = \<lparr>pSessions = [], pPending = Map.empty, pRecent = Map.empty, pLastHost = Map.empty,
     pTrustedRows = rows, pIdentity = i, pEvents = [], pTick = 0\<rparr>"

definition NewPairingService :: "pair_host \<Rightarrow> pairing_config \<Rightarrow> perr + pair_service" where
  "NewPairingService E c =
     (if \<not> pcStore c \<or> \<not> pcPeers c
      then Inl (ErrPairingOther ''trusted device store and peer directory are required'')
      else case Validate E (pcIdentity c) of
        Inl e \<Rightarrow> Inl (ErrPairingOther (''valid cryptographic identity is required: '' @ os_text e))
      | Inr _ \<Rightarrow>
          let ttl = (if pcRequestTTL c \<le> 0 then 5 * minute else pcRequestTTL c)
          in Inr (pair_host.extend E (pair_service.fields ttl)))"

definition SetPairingName :: "string \<Rightarrow> (pworld, 'e, unit) gom" where
  "SetPairingName name =
     (let n = trim_space name in
      if n = [] then retE () else modE (\<lambda>w. w\<lparr>pIdentity := (pIdentity w)\<lparr>idName := n\<rparr>\<rparr>))"

section \<open>Trust decisions\<close>

definition trusted :: "('r) host_scheme \<Rightarrow> string \<Rightarrow> trusted_device pm" where
  "trusted E i = seqE (liftE (validateUUID E i)) (p_get E i)"

definition is_trusted :: "('r) host_scheme \<Rightarrow> trusted_device \<Rightarrow> bool" where
  "is_trusted E d \<longleftrightarrow> \<not> tdBlocked d \<and> \<not> tdIdentityKeyChanged d \<and> tdTrustState d = TrustStateTrusted \<and>
     decodeCredential E d = Inr ()"

definition IsTrusted :: "('r) host_scheme \<Rightarrow> string \<Rightarrow> bool pm" where
  "IsTrusted E i =
     bindE (tryE (trusted E i)) (\<lambda>r. case r of
       Inl e \<Rightarrow> if e = ErrTrustedDeviceNotFound then retE False else throwE e
     | Inr d \<Rightarrow> retE (is_trusted E d))"

definition SharedKey :: "('r) host_scheme \<Rightarrow> string \<Rightarrow> string pm" where
  "SharedKey E i =
     bindE (trusted E i) (\<lambda>d.
     seqE (guardE (tdBlocked d \<or> tdIdentityKeyChanged d \<or> tdTrustState d \<noteq> TrustStateTrusted) ErrIdentityChanged)
     (liftE (decodeSharedKey (tdPairingKey d))))"

definition PublicKey :: "('r) host_scheme \<Rightarrow> string \<Rightarrow> string pm" where
  "PublicKey E i =
     bindE (trusted E i) (\<lambda>d.
     seqE (guardE (tdBlocked d \<or> tdIdentityKeyChanged d) ErrIdentityChanged)
     (case b64_decode (tdPublicKey d) of
        None \<Rightarrow> throwE (ErrPairingOther ''trusted device public key is invalid'')
      | Some decoded \<Rightarrow>
          if length decoded \<noteq> 32 then throwE (ErrPairingOther ''trusted device public key is invalid'')
          else retE decoded))"

text \<open>One device of \<open>TrustedDevices\<close>, updated from what discovery sees; the flag tells whether it changed.\<close>

definition refresh_device :: "('r) host_scheme \<Rightarrow> device list \<Rightarrow> trusted_device \<Rightarrow> trusted_device \<times> bool" where
  "refresh_device E peers d =
     (let bad = (tdPublicKey d = [] \<or> tdFingerprint d = [] \<or> decodeCredential E d \<noteq> Inr ());
          d1 = (if bad then d\<lparr>tdIdentityKeyChanged := True\<rparr> else d)
      in case find_first (\<lambda>p. dID p = tdDeviceID d) (rev peers) of
        None \<Rightarrow> (d1, bad)
      | Some p \<Rightarrow>
          let seen = (tdLastSeen d1 < dLastSeen p);
              d2 = (if seen then d1\<lparr>tdLastSeen := dLastSeen p\<rparr> else d1);
              other = (dIdentityHint p \<noteq> [] \<and> tdFingerprint d2 \<noteq> [] \<and>
                shortFingerprint (tdFingerprint d2) \<noteq> dIdentityHint p);
              d3 = (if other then d2\<lparr>tdIdentityKeyChanged := True\<rparr> else d2)
          in (d3, bad \<or> seen \<or> other))"

definition refresh_row :: "('r) host_scheme \<Rightarrow> device list \<Rightarrow> trusted_device \<Rightarrow> trusted_device pm" where
  "refresh_row E peers d =
     (case refresh_device E peers d of (d', changed) \<Rightarrow>
        seqE (if changed then p_upsert E d' else retE ()) (retE d'))"

definition TrustedDevices :: "('r) host_scheme \<Rightarrow> trusted_device list pm" where
  "TrustedDevices E =
     bindE (p_list E) (\<lambda>devices. bindE (p_out (hDevices E)) (\<lambda>peers. mapE (refresh_row E peers) devices))"

definition RemoveTrustedDevice :: "('r) host_scheme \<Rightarrow> string \<Rightarrow> trusted_device pm" where
  "RemoveTrustedDevice E i =
     seqE (liftE (validateUUID E i))
     (bindE (p_delete E i) (\<lambda>d.
      bindE (p_now E) (\<lambda>n. seqE (p_publish EventTrustedDeviceRemoved None (Some d) n) (retE d))))"

definition blocked_device :: "bool \<Rightarrow> trusted_device \<Rightarrow> trusted_device" where
  "blocked_device b d =
     d\<lparr>tdBlocked := b, tdTrustState := (if b then TrustStateBlocked else TrustStateTrusted)\<rparr>"

definition SetBlocked :: "('r) host_scheme \<Rightarrow> string \<Rightarrow> bool \<Rightarrow> trusted_device pm" where
  "SetBlocked E i b =
     seqE (liftE (validateUUID E i))
     (bindE (p_get E i) (\<lambda>d. seqE (p_upsert E (blocked_device b d)) (retE (blocked_device b d))))"

section \<open>Sessions\<close>

definition expired :: "time \<Rightarrow> pairing_session \<Rightarrow> bool" where
  "expired n s \<longleftrightarrow> prExpiresAt (psRequest s) < n"

definition pruneLocked :: "pair_service \<Rightarrow> time \<Rightarrow> unit pm" where
  "pruneLocked E n = modE (\<lambda>w. w\<lparr>
     pPending := (\<lambda>d. if (\<exists>(i, s) \<in> set (pSessions w). expired n s \<and> prDeviceID (psRequest s) = d)
                    then None else pPending w d),
     pSessions := filter (\<lambda>(i, s). \<not> expired n s) (pSessions w),
     pRecent := prune (\<lambda>_ seen. psRequestTTL E < n - seen) (pRecent w)\<rparr>)"

definition Requests :: "pair_service \<Rightarrow> pairing_request list pm" where
  "Requests E =
     bindE (p_now E) (\<lambda>n. seqE (pruneLocked E n)
     (getE (\<lambda>w. map psRequest (filter (\<lambda>s. prState (psRequest s) \<noteq> RequestStatePaired) (map snd (pSessions w))))))"

definition findOnlinePeer :: "('r) host_scheme \<Rightarrow> string \<Rightarrow> device option pm" where
  "findOnlinePeer E i = bindE (p_out (hDevices E)) (\<lambda>ds. retE (find_first (\<lambda>d. dID d = i \<and> dOnline d) ds))"

definition session_trust :: "pairing_session \<Rightarrow> time \<Rightarrow> trusted_device" where
  "session_trust s n = \<lparr>tdDeviceID = prDeviceID (psRequest s), tdDeviceName = prDeviceName (psRequest s),
     tdLocalName = [], tdPlatform = prPlatform (psRequest s), tdPublicKey = psRemotePublicKey s,
     tdFingerprint = prFingerprint (psRequest s), tdPairingKey = b64_encode (psSecret s), tdPairedAt = n,
     tdLastSeen = dLastSeen (psPeer s), tdLastAuthenticated = n, tdTrustState = TrustStateTrusted,
     tdBlocked = False, tdIdentityKeyChanged = False, tdNotes = []\<rparr>"

definition paired_session :: "pairing_session \<Rightarrow> trusted_device \<Rightarrow> pairing_session" where
  "paired_session s d = s\<lparr>psRequest := (psRequest s)\<lparr>prState := RequestStatePaired, prLocalConfirmed := True,
     prRemoteConfirmed := True\<rparr>, psTrusted := Some d\<rparr>"

definition finalizeLocked :: "pair_service \<Rightarrow> string \<Rightarrow> pairing_session \<Rightarrow> decision pm" where
  "finalizeLocked E rid s =
     bindE (p_now E) (\<lambda>n.
     let d = session_trust s n; s' = paired_session s d in
     seqE (liftE (validateTrustedDevice E d))
     (seqE (p_upsert E d)
     (seqE (put_session rid s')
     (seqE (modE (\<lambda>w. w\<lparr>pPending := (pPending w)(tdDeviceID d := None)\<rparr>))
     (seqE (p_publish EventPairingAccepted None (Some d) n)
     (retE \<lparr>dcRequest = psRequest s', dcTrustedDevice = Some d\<rparr>))))))"

definition newProof :: "pair_service \<Rightarrow> string \<Rightarrow> string \<Rightarrow> string \<Rightarrow> proof_message pm" where
  "newProof E rid action secret =
     bindE (getE (\<lambda>w. idID (pIdentity w))) (\<lambda>deviceID.
     bindE (p_now E) (\<lambda>n.
     bindE (p_out (hUuid E)) (\<lambda>nonce.
     let p = \<lparr>pmProtocolVersion = pairingProtocolVersion, pmRequestID = rid, pmDeviceID = deviceID,
       pmAction = action, pmTimestamp = int_dec (unix n), pmNonce = nonce, pmMAC = []\<rparr>
     in retE (p\<lparr>pmMAC := proofMAC E secret p\<rparr>))))"

section \<open>Requesting\<close>

definition newEphemeral :: "pair_service \<Rightarrow> (string \<times> string) pm" where
  "newEphemeral E = bindE (p_outE (pEphemeral E)) (\<lambda>key. retE (key, b64_encode (pX25519 E key)))"

definition validateBeginResponse :: "('r) pair_host_scheme \<Rightarrow> device \<Rightarrow> begin_request \<Rightarrow> begin_response \<Rightarrow> time \<Rightarrow>
    perr + string" where
  "validateBeginResponse E p request response n =
     (if bsProtocolVersion response \<noteq> pairingProtocolVersion \<or> bsRequestID response \<noteq> brRequestID request \<or>
         bsDeviceID response \<noteq> dID p \<or> \<not> validProtocolTimestamp (bsTimestamp response) (unix n) protocolMaxSkew
      then Inl ErrProtocol
      else case verifyResponse E response of
        Inl _ \<Rightarrow> Inl ErrProtocol
      | Inr publicKey \<Rightarrow>
          if shortFingerprint (IdentityFingerprint E publicKey) \<noteq> dIdentityHint p then Inl ErrProtocol
          else Inr publicKey)"

text \<open>
  The first locked part: a request that is already pending is returned. Its session is read
  through the pointer the map returns, which is nil if the session is gone.
\<close>

definition request_admit :: "pair_service \<Rightarrow> string \<Rightarrow> device \<Rightarrow> time \<Rightarrow> pairing_request option pm" where
  "request_admit E i p n =
     seqE (pruneLocked E n)
     (bindE (tryE (p_get E i)) (\<lambda>r. case r of
        Inr existing \<Rightarrow>
          if tdIdentityKeyChanged existing \<or> shortFingerprint (tdFingerprint existing) \<noteq> dIdentityHint p
          then throwE ErrIdentityChanged else throwE ErrAlreadyTrusted
      | Inl e \<Rightarrow>
          if e \<noteq> ErrTrustedDeviceNotFound then throwE e
          else bindE (getE (\<lambda>w. pPending w i)) (\<lambda>pending. case pending of
              Some rid \<Rightarrow> bindE (find_session rid) (\<lambda>s. case s of
                  None \<Rightarrow> throwE ErrPairingPanic
                | Some s \<Rightarrow> retE (Some (psRequest s)))
            | None \<Rightarrow> bindE (getE (\<lambda>w. length (pSessions w))) (\<lambda>k.
                seqE (guardE (maxPending \<le> k) ErrPairingRateLimit) (retE None)))))"

definition request_begin :: "pair_service \<Rightarrow> time \<Rightarrow> (string \<times> begin_request) pm" where
  "request_begin E n =
     bindE (newEphemeral E) (\<lambda>(key, public).
     bindE (getE pIdentity) (\<lambda>i.
     bindE (p_out (hUuid E)) (\<lambda>rid.
     bindE (p_out (hUuid E)) (\<lambda>nonce.
     retE (key, signRequest E \<lparr>brProtocolVersion = pairingProtocolVersion, brRequestID = rid,
       brDeviceID = idID i, brDeviceName = idName i, brPlatform = idPlatform i, brPublicKey = idPublicKey i,
       brEphemeralKey = public, brTimestamp = int_dec (unix n), brNonce = nonce, brSignature = []\<rparr>
       (idPrivateKey i))))))"

definition outgoing_request :: "pair_service \<Rightarrow> device \<Rightarrow> begin_request \<Rightarrow> begin_response \<Rightarrow> string \<Rightarrow> string \<Rightarrow> time \<Rightarrow>
    pairing_request" where
  "outgoing_request E p begun response publicKey code n = \<lparr>prRequestID = brRequestID begun, prDeviceID = dID p,
     prDeviceName = bsDeviceName response, prPlatform = bsPlatform response, prDirection = DirectionOutgoing,
     prFingerprint = IdentityFingerprint E publicKey, prVerificationCode = code, prRequestedAt = n,
     prExpiresAt = n + psRequestTTL E, prState = RequestStatePending, prLocalConfirmed = False,
     prRemoteConfirmed = False\<rparr>"

definition new_session :: "pairing_request \<Rightarrow> string \<Rightarrow> string \<Rightarrow> device \<Rightarrow> begin_response \<Rightarrow> pairing_session" where
  "new_session rq secret publicKey p response = \<lparr>psRequest = rq, psSecret = secret,
     psRemotePublicKey = publicKey, psPeer = p, psResponse = response, psProofNonces = Map.empty, psTrusted = None\<rparr>"

definition request_finish :: "pair_service \<Rightarrow> device \<Rightarrow> string \<Rightarrow> begin_request \<Rightarrow> begin_response \<Rightarrow> time \<Rightarrow>
    pairing_request pm" where
  "request_finish E p key begun response n =
     bindE (liftE (validateBeginResponse E p begun response n)) (\<lambda>publicKey.
     bindE (liftE (derivePairing E key (bsEphemeralKey response) begun response)) (\<lambda>(secret, code).
     let rq = outgoing_request E p begun response publicKey code n in
     seqE (put_session (prRequestID rq) (new_session rq secret (bsPublicKey response) p response))
     (seqE (modE (\<lambda>w. w\<lparr>pPending := (pPending w)(dID p \<mapsto> prRequestID rq)\<rparr>))
     (seqE (p_publish EventPairingRequested (Some rq) None n)
     (retE rq)))))"

definition RequestPairing :: "pair_service \<Rightarrow> string \<Rightarrow> pairing_request pm" where
  "RequestPairing E i =
     seqE (liftE (validateUUID E i))
     (bindE (findOnlinePeer E i) (\<lambda>found. case found of
        None \<Rightarrow> throwE ErrPeerNotDiscovered
      | Some p \<Rightarrow>
          seqE (guardE (\<not> dPairingAvailable p \<or> dIdentityHint p = []) ErrPeerNotDiscovered)
          (bindE (p_now E) (\<lambda>n.
           bindE (request_admit E i p n) (\<lambda>pending. case pending of
             Some rq \<Rightarrow> retE rq
           | None \<Rightarrow>
               bindE (request_begin E n) (\<lambda>(key, begun).
               bindE (p_outE (\<lambda>k. pBegin E k p begun)) (\<lambda>response.
               request_finish E p key begun response n)))))))"

section \<open>Answering\<close>

definition begin_check :: "pair_service \<Rightarrow> begin_request \<Rightarrow> time \<Rightarrow> (device \<times> string) pm" where
  "begin_check E b n =
     seqE (guardE (brProtocolVersion b \<noteq> pairingProtocolVersion \<or> \<not> hUuidOk E (brRequestID b) \<or>
        \<not> hUuidOk E (brDeviceID b) \<or> \<not> validProtocolTimestamp (brTimestamp b) (unix n) protocolMaxSkew) ErrProtocol)
     (bindE (findOnlinePeer E (brDeviceID b)) (\<lambda>found. case found of
        None \<Rightarrow> throwE ErrPeerNotDiscovered
      | Some p \<Rightarrow>
          seqE (guardE (dIdentityHint p = []) ErrPeerNotDiscovered)
          (case verifyRequest E b of
             Inl _ \<Rightarrow> throwE ErrProtocol
           | Inr publicKey \<Rightarrow>
               if shortFingerprint (IdentityFingerprint E publicKey) \<noteq> dIdentityHint p then throwE ErrProtocol
               else retE (p, publicKey))))"

definition begin_untrusted :: "pair_service \<Rightarrow> begin_request \<Rightarrow> unit pm" where
  "begin_untrusted E b =
     bindE (tryE (p_get E (brDeviceID b))) (\<lambda>r. case r of
       Inr d \<Rightarrow>
         if tdPublicKey d \<noteq> brPublicKey b
         then bindE (tryE (p_upsert E (d\<lparr>tdIdentityKeyChanged := True\<rparr>))) (\<lambda>_ :: perr + unit. throwE ErrIdentityChanged)
         else throwE ErrAlreadyTrusted
     | Inl e \<Rightarrow> if e \<noteq> ErrTrustedDeviceNotFound then throwE e else retE ())"

text \<open>The first locked part of \<open>ReceiveBegin\<close>: \<open>Some\<close> response of a begin that was already answered.\<close>

definition answered_already :: "pairing_session option \<Rightarrow> begin_response option" where
  "answered_already found = (case found of
     None \<Rightarrow> None
   | Some s \<Rightarrow> if bsRequestID (psResponse s) \<noteq> [] then Some (psResponse s) else None)"

definition begin_fresh :: "pair_service \<Rightarrow> begin_request \<Rightarrow> string \<Rightarrow> time \<Rightarrow> unit pm" where
  "begin_fresh E b remoteHost n =
     bindE (getE (\<lambda>w. (pRecent w (brRequestID b), pLastHost w remoteHost, length (pSessions w)))) (\<lambda>(recent, last, k).
     seqE (guardE (case recent of None \<Rightarrow> False | Some seen \<Rightarrow> n - seen < psRequestTTL E) ErrProtocol)
     (seqE (guardE (case last of None \<Rightarrow> False
         | Some l \<Rightarrow> l \<noteq> time_zero \<and> n - l < pairingCooldown) ErrPairingRateLimit)
     (seqE (guardE (maxPending \<le> k) ErrPairingRateLimit)
     (seqE (begin_untrusted E b)
     (modE (\<lambda>w. w\<lparr>pLastHost := (pLastHost w)(remoteHost \<mapsto> n),
                  pRecent := (pRecent w)(brRequestID b \<mapsto> n)\<rparr>))))))"

definition begin_admit :: "pair_service \<Rightarrow> begin_request \<Rightarrow> string \<Rightarrow> time \<Rightarrow> begin_response option pm" where
  "begin_admit E b remoteHost n =
     seqE (pruneLocked E n)
     (bindE (find_session (brRequestID b)) (\<lambda>found. case answered_already found of
        Some response \<Rightarrow> retE (Some response)
      | None \<Rightarrow> seqE (begin_fresh E b remoteHost n) (retE None)))"

definition incoming_request :: "pair_service \<Rightarrow> begin_request \<Rightarrow> string \<Rightarrow> string \<Rightarrow> time \<Rightarrow> pairing_request" where
  "incoming_request E b publicKey code n = \<lparr>prRequestID = brRequestID b, prDeviceID = brDeviceID b,
     prDeviceName = brDeviceName b, prPlatform = brPlatform b, prDirection = DirectionIncoming,
     prFingerprint = IdentityFingerprint E publicKey, prVerificationCode = code, prRequestedAt = n,
     prExpiresAt = n + psRequestTTL E, prState = RequestStatePending, prLocalConfirmed = False,
     prRemoteConfirmed = False\<rparr>"

definition begin_response_to :: "pair_service \<Rightarrow> begin_request \<Rightarrow> time \<Rightarrow> (string \<times> begin_response) pm" where
  "begin_response_to E b n =
     bindE (newEphemeral E) (\<lambda>(key, public).
     bindE (getE pIdentity) (\<lambda>i.
     bindE (p_out (hUuid E)) (\<lambda>nonce.
     retE (key, signResponse E \<lparr>bsProtocolVersion = pairingProtocolVersion, bsRequestID = brRequestID b,
       bsDeviceID = idID i, bsDeviceName = idName i, bsPlatform = idPlatform i, bsPublicKey = idPublicKey i,
       bsEphemeralKey = public, bsTimestamp = int_dec (unix n), bsNonce = nonce, bsSignature = []\<rparr>
       (idPrivateKey i)))))"

definition begin_install :: "begin_request \<Rightarrow> pairing_request \<Rightarrow> pairing_session \<Rightarrow> unit pm" where
  "begin_install b rq s =
     bindE (getE (\<lambda>w. pPending w (brDeviceID b))) (\<lambda>existing.
     seqE (case existing of
         None \<Rightarrow> retE ()
       | Some old \<Rightarrow> if old \<noteq> [] \<and> old \<noteq> brRequestID b
           then modE (\<lambda>w. w\<lparr>pSessions := AList.delete old (pSessions w)\<rparr>) else retE ())
     (seqE (put_session (brRequestID b) s)
     (modE (\<lambda>w. w\<lparr>pPending := (pPending w)(brDeviceID b \<mapsto> brRequestID b)\<rparr>))))"

definition begin_respond :: "pair_service \<Rightarrow> begin_request \<Rightarrow> device \<Rightarrow> string \<Rightarrow> time \<Rightarrow> begin_response pm" where
  "begin_respond E b p publicKey n =
     bindE (begin_response_to E b n) (\<lambda>(key, response).
     bindE (liftE (derivePairing E key (brEphemeralKey b) b response)) (\<lambda>(secret, code).
     let rq = incoming_request E b publicKey code n in
     seqE (begin_install b rq (new_session rq secret (brPublicKey b) p response))
     (seqE (p_publish EventPairingRequested (Some rq) None n)
     (retE response))))"

definition ReceiveBegin :: "pair_service \<Rightarrow> begin_request \<Rightarrow> string \<Rightarrow> begin_response pm" where
  "ReceiveBegin E b remoteHost =
     bindE (p_now E) (\<lambda>n.
     bindE (begin_check E b n) (\<lambda>(p, publicKey).
     bindE (begin_admit E b remoteHost n) (\<lambda>answered. case answered of
       Some response \<Rightarrow> retE response
     | None \<Rightarrow> begin_respond E b p publicKey n)))"

section \<open>Confirming\<close>

definition with_request :: "(pairing_request \<Rightarrow> pairing_request) \<Rightarrow> pairing_session \<Rightarrow> pairing_session" where
  "with_request f s = s\<lparr>psRequest := f (psRequest s)\<rparr>"

definition applyPeerDecision :: "pair_service \<Rightarrow> string \<Rightarrow> peer_decision \<Rightarrow> decision pm" where
  "applyPeerDecision E rid pd =
     bindE (find_session rid) (\<lambda>found. case found of
       None \<Rightarrow> throwE ErrProtocol
     | Some s \<Rightarrow>
         seqE (guardE (pdRequestID pd \<noteq> rid \<or> \<not> verifyDecision E (psSecret s) pd) ErrProtocol)
         (let s1 = with_request (\<lambda>r. r\<lparr>prRemoteConfirmed := pdLocalConfirmed pd\<rparr>) s in
          if pdState pd = RequestStateRejected then
            let s2 = with_request (\<lambda>r. r\<lparr>prState := RequestStateRejected\<rparr>) s1 in
            seqE (put_session rid s2) (retE \<lparr>dcRequest = psRequest s2, dcTrustedDevice = None\<rparr>)
          else if prLocalConfirmed (psRequest s1) \<and> prRemoteConfirmed (psRequest s1)
          then seqE (put_session rid s1) (finalizeLocked E rid s1)
          else
            let s2 = with_request (\<lambda>r. r\<lparr>prState := RequestStateConfirming\<rparr>) s1 in
            seqE (put_session rid s2) (retE \<lparr>dcRequest = psRequest s2, dcTrustedDevice = None\<rparr>)))"

text \<open>The exchange with the peer of an outgoing session.\<close>

definition ask_peer :: "pair_service \<Rightarrow> string \<Rightarrow> pairing_session \<Rightarrow> string \<Rightarrow> decision pm" where
  "ask_peer E rid s action =
     bindE (newProof E rid action (psSecret s)) (\<lambda>p.
     bindE (p_outE (\<lambda>k. pProof E k (psPeer s) p)) (applyPeerDecision E rid))"

definition confirmed_locally :: "pairing_session \<Rightarrow> pairing_session" where
  "confirmed_locally = with_request (\<lambda>r. r\<lparr>prState := RequestStateConfirming, prLocalConfirmed := True\<rparr>)"

definition AcceptPairing :: "pair_service \<Rightarrow> string \<Rightarrow> decision pm" where
  "AcceptPairing E rid =
     seqE (liftE (validateUUID E rid))
     (bindE (p_now E) (\<lambda>n.
      seqE (pruneLocked E n)
      (bindE (find_session rid) (\<lambda>found. case found of
         None \<Rightarrow> throwE ErrRequestNotFound
       | Some s \<Rightarrow>
           if prState (psRequest s) = RequestStateRejected
           then retE \<lparr>dcRequest = psRequest s, dcTrustedDevice = None\<rparr>
           else
             let s' = confirmed_locally s in
             seqE (put_session rid s')
             (if prDirection (psRequest s') = DirectionIncoming \<and> prRemoteConfirmed (psRequest s')
              then finalizeLocked E rid s'
              else if prDirection (psRequest s') = DirectionIncoming
              then bindE (p_now E) (\<lambda>m. seqE (p_publish EventPairingRequested (Some (psRequest s')) None m)
                (retE \<lparr>dcRequest = psRequest s', dcTrustedDevice = None\<rparr>))
              else ask_peer E rid s' ''confirm'')))))"

definition RefreshPairing :: "pair_service \<Rightarrow> string \<Rightarrow> decision pm" where
  "RefreshPairing E rid =
     seqE (liftE (validateUUID E rid))
     (bindE (p_now E) (\<lambda>n.
      seqE (pruneLocked E n)
      (bindE (find_session rid) (\<lambda>found. case found of
         None \<Rightarrow> throwE ErrRequestNotFound
       | Some s \<Rightarrow>
           (case psTrusted s of
              Some d \<Rightarrow> retE \<lparr>dcRequest = psRequest s, dcTrustedDevice = Some d\<rparr>
            | None \<Rightarrow>
                if prDirection (psRequest s) \<noteq> DirectionOutgoing \<or> \<not> prLocalConfirmed (psRequest s)
                then retE \<lparr>dcRequest = psRequest s, dcTrustedDevice = None\<rparr>
                else ask_peer E rid s ''status'')))))"

definition RejectPairing :: "pair_service \<Rightarrow> string \<Rightarrow> pairing_request pm" where
  "RejectPairing E rid =
     seqE (liftE (validateUUID E rid))
     (bindE (p_now E) (\<lambda>n.
      seqE (pruneLocked E n)
      (bindE (find_session rid) (\<lambda>found. case found of
         None \<Rightarrow> throwE ErrRequestNotFound
       | Some s \<Rightarrow>
           let s' = with_request (\<lambda>r. r\<lparr>prState := RequestStateRejected\<rparr>) s; rq = psRequest s' in
           seqE (put_session rid s')
           (seqE (if prDirection rq = DirectionOutgoing
              then bindE (newProof E rid ''reject'' (psSecret s)) (\<lambda>p.
                bindE (tryE (p_outE (\<lambda>k. pProof E k (psPeer s) p))) (\<lambda>_ :: perr + peer_decision. retE ()))
              else retE ())
           (bindE (p_now E) (\<lambda>m. seqE (p_publish EventPairingRejected (Some rq) None m) (retE rq))))))))"

text \<open>What a proof asks for; \<open>None\<close> is an unknown action.\<close>

definition proof_action :: "string \<Rightarrow> pairing_request \<Rightarrow> pairing_request option" where
  "proof_action action r =
     (if action = ''confirm''
      then Some (if prState r = RequestStatePending
                 then r\<lparr>prRemoteConfirmed := True, prState := RequestStateConfirming\<rparr>
                 else r\<lparr>prRemoteConfirmed := True\<rparr>)
      else if action = ''reject'' then Some (r\<lparr>prState := RequestStateRejected\<rparr>)
      else if action = ''status'' then Some r
      else None)"

definition own_decision :: "pair_service \<Rightarrow> string \<Rightarrow> pairing_session \<Rightarrow> time \<Rightarrow> peer_decision" where
  "own_decision E rid s n =
     (let d = \<lparr>pdRequestID = rid, pdState = prState (psRequest s), pdLocalConfirmed = prLocalConfirmed (psRequest s),
        pdRemoteConfirmed = prRemoteConfirmed (psRequest s), pdTimestamp = int_dec (unix n), pdMAC = []\<rparr>
      in d\<lparr>pdMAC := decisionMAC E (psSecret s) d\<rparr>)"

definition ReceiveProof :: "pair_service \<Rightarrow> proof_message \<Rightarrow> peer_decision pm" where
  "ReceiveProof E p =
     bindE (p_now E) (\<lambda>n.
     seqE (guardE (pmProtocolVersion p \<noteq> pairingProtocolVersion \<or> \<not> hUuidOk E (pmRequestID p) \<or>
        \<not> hUuidOk E (pmDeviceID p) \<or> \<not> validProtocolTimestamp (pmTimestamp p) (unix n) protocolMaxSkew) ErrProtocol)
     (seqE (pruneLocked E n)
     (bindE (find_session (pmRequestID p)) (\<lambda>found. case found of
        None \<Rightarrow> throwE ErrProtocol
      | Some s \<Rightarrow>
          seqE (guardE (prDeviceID (psRequest s) \<noteq> pmDeviceID p \<or> \<not> verifyProof E (psSecret s) p) ErrProtocol)
          (seqE (guardE (psProofNonces s (pmNonce p) \<noteq> None) ErrProtocol)
          (let s1 = s\<lparr>psProofNonces := (psProofNonces s)(pmNonce p \<mapsto> n)\<rparr> in
           seqE (put_session (pmRequestID p) s1)
           (case proof_action (pmAction p) (psRequest s1) of
              None \<Rightarrow> throwE ErrProtocol
            | Some r \<Rightarrow>
                let s2 = s1\<lparr>psRequest := r\<rparr> in
                seqE (put_session (pmRequestID p) s2)
                (seqE (if prLocalConfirmed r \<and> prRemoteConfirmed r \<and> prState r \<noteq> RequestStateRejected \<and> psTrusted s2 = None
                   then bindE (finalizeLocked E (pmRequestID p) s2) (\<lambda>_. retE ()) else retE ())
                (bindE (find_session (pmRequestID p)) (\<lambda>cur.
                 retE (own_decision E (pmRequestID p) (case cur of None \<Rightarrow> s2 | Some s3 \<Rightarrow> s3) n))))))))))) "

section \<open>The transport\<close>

text \<open>
  \<open>HTTPTransport\<close>: the request goes to the address discovery gave, over a connection whose one
  certificate carries the key of which discovery announced the hint.
\<close>

definition pairing_verify :: "('r) host_scheme \<Rightarrow> device \<Rightarrow> string option list \<Rightarrow> perr + unit" where
  "pairing_verify E p certs =
     (case certs of
        [presented] \<Rightarrow>
          (case presented of
             None \<Rightarrow> Inl (ErrPairingOther ''pairing TLS identity does not match discovery'')
           | Some key \<Rightarrow>
               if shortFingerprint (IdentityFingerprint E key) \<noteq> dIdentityHint p
               then Inl (ErrPairingOther ''pairing TLS identity does not match discovery'') else Inr ())
      | _ \<Rightarrow> Inl (ErrPairingOther ''pairing peer did not present exactly one certificate''))"

definition transport_request :: "('r) pair_host_scheme \<Rightarrow> nat \<Rightarrow> device \<Rightarrow> string \<Rightarrow> string \<Rightarrow> (string \<Rightarrow> perr + 'a) \<Rightarrow> perr + 'a" where
  "transport_request E k p path input decode =
     (let endpoint = ''https://'' @ join_host_port (dLocalIP p) (int_dec (dPort p)) @ path in
      case pPost E k endpoint input of
        Inl e \<Rightarrow> Inl e
      | Inr rs \<Rightarrow>
          (case pairing_verify E p (hsCerts rs) of
             Inl e \<Rightarrow> Inl e
           | Inr _ \<Rightarrow>
               if hsCode rs < 200 \<or> 300 \<le> hsCode rs
               then Inl (ErrPairingOther (''peer returned '' @ hsStatus rs @ '': '' @ take 4096 (hsBody rs)))
               else decode (take (2 ^ 20) (hsBody rs))))"

definition TransportBegin :: "('r) pair_host_scheme \<Rightarrow> nat \<Rightarrow> device \<Rightarrow> begin_request \<Rightarrow> perr + begin_response" where
  "TransportBegin E k p b = transport_request E k p ''/v1/pairing/requests'' (pBeginJson E b) (pResponseDecode E)"

definition TransportProof :: "('r) pair_host_scheme \<Rightarrow> nat \<Rightarrow> device \<Rightarrow> proof_message \<Rightarrow> perr + peer_decision" where
  "TransportProof E k p m = transport_request E k p ''/v1/pairing/proof'' (pProofJson E m) (pDecisionDecode E)"

end
