(* ===== verification/PairingTrust.thy ===== *)
theory PairingTrust
  imports PairingService
begin

text \<open>
  Properties of the pairing service: who can come to be trusted, what a stored credential is
  good for, that both ends of a ceremony hold the same key and show the same code, and where
  the service does not keep a decision of its user.
\<close>

section \<open>What successful calls did\<close>

lemma ptick_simps [simp]:
  "pSessions (ptick w) = pSessions w" "pPending (ptick w) = pPending w" "pRecent (ptick w) = pRecent w"
  "pLastHost (ptick w) = pLastHost w" "pTrustedRows (ptick w) = pTrustedRows w" "pIdentity (ptick w) = pIdentity w"
  "pEvents (ptick w) = pEvents w" "pTick (ptick w) = Suc (pTick w)"
  by (simp_all add: ptick_def)

lemma p_out_run: "p_out f w = (Inr (f (pTick w)), ptick w)"
  and p_outE_run: "p_outE g w = (g (pTick w), ptick w)"
  and p_now_run: "p_now E w = (Inr (hNow E (pTick w)), ptick w)"
  and find_session_run: "find_session rid w = (Inr (map_of (pSessions w) rid), w)"
  and put_session_run: "put_session rid s w = (Inr (), w\<lparr>pSessions := AList.update rid s (pSessions w)\<rparr>)"
  by (simp_all add: p_out_def p_outE_def p_now_def find_session_def put_session_def)

lemmas pairing_runs = p_out_run p_outE_run p_now_run find_session_run put_session_run

lemma p_get_InrE:
  assumes "p_get E i w = (Inr d, w')"
  obtains "TrustedGet (pTrustedRows w) i = Inr d" "w' = ptick w"
  using assms
  by (cases "TrustedGet (pTrustedRows w) i")
    (auto simp: p_get_def p_store_def ptick_def split: option.splits)

lemma p_get_Inl: "p_get E i w = (Inl e, w') \<Longrightarrow> w' = ptick w"
  by (auto simp: p_get_def p_store_def split: option.splits sum.splits prod.splits)

lemma TrustedGet_id: "TrustedGet rows i = Inr d \<Longrightarrow> tdDeviceID d = i"
  by (auto simp: TrustedGet_def scanTrustedDevice_def dest: select_SomeD split: option.splits)

lemma quiet_pairing:
  assumes "quiet E"
  shows "p_get E i w = (TrustedGet (pTrustedRows w) i, ptick w)"
    and "p_upsert E d w = (Inr (), (ptick w)\<lparr>pTrustedRows := TrustedUpsert d (pTrustedRows w)\<rparr>)"
    and "p_delete E i w = (case TrustedDelete i (pTrustedRows w) of
        Inl e \<Rightarrow> (Inl e, ptick w) | Inr (d, rows) \<Rightarrow> (Inr d, (ptick w)\<lparr>pTrustedRows := rows\<rparr>))"
  using assms
  by (cases "TrustedGet (pTrustedRows w) i";
      auto simp: quiet_def p_get_def p_upsert_def p_delete_def p_store_def ptick_def split: sum.splits)+

section \<open>Where trust comes from\<close>

text \<open>
  \<open>C\<close> collects what the user consented to: request, device, secret and public key of the sessions
  that were accepted. The invariant: a session confirmed on this side is one of them, and
  every row of the trust table was there at the start or goes back to one of them.
\<close>

type_synonym consent = "string \<times> string \<times> string \<times> string"

definition facts_of :: "string \<Rightarrow> pairing_session \<Rightarrow> consent" where
  "facts_of rid s = (rid, prDeviceID (psRequest s), psSecret s, psRemotePublicKey s)"

definition accounted :: "consent set \<Rightarrow> trusted_row list \<Rightarrow> trusted_device \<Rightarrow> bool" where
  "accounted C rows d \<longleftrightarrow>
     (\<exists>r \<in> set rows. trDeviceID r = tdDeviceID d \<and> trPublicKey r = tdPublicKey d \<and> trPairingKey r = tdPairingKey d) \<or>
     (\<exists>rid secret. (rid, tdDeviceID d, secret, tdPublicKey d) \<in> C \<and> tdPairingKey d = b64_encode secret)"

definition trust_inv :: "consent set \<Rightarrow> trusted_row list \<Rightarrow> pworld \<Rightarrow> bool" where
  "trust_inv C rows w \<longleftrightarrow>
     (\<forall>(rid, s) \<in> set (pSessions w). prLocalConfirmed (psRequest s) \<longrightarrow> facts_of rid s \<in> C) \<and>
     (\<forall>r \<in> set (pTrustedRows w). accounted C rows (scanTrustedDevice r))"

lemma trust_inv_frame:
  "trust_inv C rows w \<Longrightarrow> pSessions w' = pSessions w \<Longrightarrow> pTrustedRows w' = pTrustedRows w \<Longrightarrow> trust_inv C rows w'"
  by (simp add: trust_inv_def)

lemma trust_inv_session: "trust_inv C rows w \<Longrightarrow> map_of (pSessions w) rid = Some s \<Longrightarrow>
    prLocalConfirmed (psRequest s) \<Longrightarrow> facts_of rid s \<in> C"
  by (force simp: trust_inv_def dest: map_of_SomeD)

lemma scan_id: "tdDeviceID (scanTrustedDevice r) = trDeviceID r"
  by (simp add: scanTrustedDevice_def)

lemma TrustedGet_row: "TrustedGet rows i = Inr d \<Longrightarrow> \<exists>r \<in> set rows. d = scanTrustedDevice r \<and> trDeviceID r = i"
  by (auto simp: TrustedGet_def dest: select_SomeD split: option.splits)

lemma trust_inv_get: "trust_inv C rows w \<Longrightarrow> TrustedGet (pTrustedRows w) i = Inr d \<Longrightarrow> accounted C rows d"
  by (auto simp: trust_inv_def dest: TrustedGet_row)

lemma trust_inv_mono: "trust_inv C rows w \<Longrightarrow> C \<subseteq> C' \<Longrightarrow> trust_inv C' rows w"
  unfolding trust_inv_def accounted_def by blast

lemma accounted_stored: "accounted C rows (scanTrustedDevice (trusted_row_of d)) = accounted C rows d"
  and accounted_update: "accounted C rows (scanTrustedDevice (update_trusted r (trusted_row_of d))) = accounted C rows d"
  by (simp_all add: accounted_def scanTrustedDevice_def trusted_row_of_def update_trusted_def)

lemma accounted_upsert:
  "accounted C rows d \<Longrightarrow> \<forall>r \<in> set rs. accounted C rows (scanTrustedDevice r) \<Longrightarrow>
   \<forall>r \<in> set (TrustedUpsert d rs). accounted C rows (scanTrustedDevice r)"
  unfolding TrustedUpsert_def by (induction rs) (auto simp: accounted_stored accounted_update)

named_theorems trust_rules

lemma keeps_p_store:
  assumes "\<And>rs a rs'. \<forall>r \<in> set rs. accounted C rows (scanTrustedDevice r) \<Longrightarrow> f rs = Inr (a, rs') \<Longrightarrow>
    \<forall>r \<in> set rs'. accounted C rows (scanTrustedDevice r)"
  shows "keeps (trust_inv C rows) (p_store E f)"
  using assms by (auto simp: keeps_def p_store_def trust_inv_def split: option.splits sum.splits)

lemma trust_calls [trust_rules]:
  "keeps (trust_inv C rows) (p_out g)"
  "keeps (trust_inv C rows) (p_outE h)"
  "keeps (trust_inv C rows) (p_now E)"
  "keeps (trust_inv C rows) (p_publish k rq d n)"
  "keeps (trust_inv C rows) (p_list E)"
  "keeps (trust_inv C rows) (p_get E i)"
  "keeps (trust_inv C rows) (p_delete E i)"
  "keeps (trust_inv C rows) (find_session rid)"
  "keeps (trust_inv C rows) (pruneLocked Z n)"
proof -
  show "keeps (trust_inv C rows) (p_list E)" "keeps (trust_inv C rows) (p_get E i)"
    unfolding p_list_def p_get_def by (rule keeps_p_store; auto simp: map_sum_def split: sum.splits)+
  show "keeps (trust_inv C rows) (p_delete E i)"
    unfolding p_delete_def
    by (rule keeps_p_store) (auto simp: TrustedDelete_def delete_rows_def split: sum.splits)
  show "keeps (trust_inv C rows) (pruneLocked Z n)"
    by (auto simp: pruneLocked_def keeps_def trust_inv_def)
qed (auto simp: p_out_def p_outE_def p_now_def p_publish_def find_session_def keeps_def elim: trust_inv_frame)

lemma trust_upsert [trust_rules]: "accounted C rows d \<Longrightarrow> keeps (trust_inv C rows) (p_upsert E d)"
  unfolding p_upsert_def by (rule keeps_p_store) (auto dest: accounted_upsert)

lemma set_update: "set (AList.update k v xs) \<subseteq> insert (k, v) (set xs)"
  by (induction xs) auto

lemma set_delete: "set (AList.delete k xs) \<subseteq> set xs"
  by (induction xs) auto

lemma trust_put: "prLocalConfirmed (psRequest s) \<longrightarrow> facts_of rid s \<in> C \<Longrightarrow>
    keeps (trust_inv C rows) (put_session rid s)"
  unfolding put_session_def
  by (rule keeps_mod) (use set_update in \<open>fastforce simp: trust_inv_def\<close>)

text \<open>What was just read is known to come from a state with the invariant.\<close>

lemma trust_found:
  assumes "\<And>s. prLocalConfirmed (psRequest s) \<longrightarrow> facts_of rid s \<in> C \<Longrightarrow>
      keeps (trust_inv C rows) (f (Some s))"
    and "keeps (trust_inv C rows) (f None)"
  shows "keeps (trust_inv C rows) (bindE (find_session rid) f)"
proof (rule keepsI)
  fix w r w' assume i: "trust_inv C rows w" and r: "bindE (find_session rid) f w = (r, w')"
  then have f: "f (map_of (pSessions w) rid) w = (r, w')" by (simp add: bindE_def find_session_run)
  show "trust_inv C rows w'"
  proof (cases "map_of (pSessions w) rid")
    case None
    then show ?thesis using keepsD [OF assms(2) i] f by simp
  next
    case (Some s)
    then have "prLocalConfirmed (psRequest s) \<longrightarrow> facts_of rid s \<in> C" using trust_inv_session [OF i] by blast
    then show ?thesis using keepsD [OF assms(1) i] f Some by simp
  qed
qed

lemma trust_got:
  assumes "\<And>d. accounted C rows d \<Longrightarrow> keeps (trust_inv C rows) (f d)"
  shows "keeps (trust_inv C rows) (bindE (p_get E i) f)"
proof (rule keepsI)
  fix w r w' assume i: "trust_inv C rows w" and r: "bindE (p_get E i) f w = (r, w')"
  show "trust_inv C rows w'"
  proof (cases "p_get E i w")
    case (Pair x w1)
    have i1: "trust_inv C rows w1" using keepsD [OF trust_calls(6) i Pair] .
    show ?thesis
    proof (cases x)
      case (Inl e)
      then show ?thesis using r Pair i1 by (simp add: bindE_def)
    next
      case (Inr d)
      then have "accounted C rows d" using Pair trust_inv_get [OF i] by (auto elim: p_get_InrE)
      then show ?thesis using r Pair Inr keepsD [OF assms i1] by (simp add: bindE_def)
    qed
  qed
qed

lemma trust_tried:
  assumes "\<And>d. accounted C rows d \<Longrightarrow> keeps (trust_inv C rows) (f (Inr d))"
    and "\<And>e. keeps (trust_inv C rows) (f (Inl e))"
  shows "keeps (trust_inv C rows) (bindE (tryE (p_get E i)) f)"
proof (rule keepsI)
  fix w r w' assume i: "trust_inv C rows w" and r: "bindE (tryE (p_get E i)) f w = (r, w')"
  obtain x w1 where g: "p_get E i w = (x, w1)" by force
  have i1: "trust_inv C rows w1" using keepsD [OF trust_calls(6) i g] .
  have f: "f x w1 = (r, w')" using r g by (simp add: bindE_def tryE_def)
  show "trust_inv C rows w'"
  proof (cases x)
    case (Inl e)
    then show ?thesis using keepsD [OF assms(2) i1] f by simp
  next
    case (Inr d)
    then have "accounted C rows d" using g trust_inv_get [OF i] by (auto elim: p_get_InrE)
    then show ?thesis using keepsD [OF assms(1) i1] f Inr by simp
  qed
qed

lemma keeps_option_eq:
  "(v = None \<Longrightarrow> keeps I m) \<Longrightarrow> (\<And>x. v = Some x \<Longrightarrow> keeps I (f x)) \<Longrightarrow>
   keeps I (case v of None \<Rightarrow> m | Some x \<Rightarrow> f x)"
  by (cases v) simp_all

lemma keeps_sum_eq:
  "(\<And>e. v = Inl e \<Longrightarrow> keeps I (g e)) \<Longrightarrow> (\<And>x. v = Inr x \<Longrightarrow> keeps I (f x)) \<Longrightarrow>
   keeps I (case v of Inl e \<Rightarrow> g e | Inr x \<Rightarrow> f x)"
  by (cases v) simp_all

lemma facts_simps [simp]:
  "facts_of rid (with_request f s) = (rid, prDeviceID (f (psRequest s)), psSecret s, psRemotePublicKey s)"
  "facts_of rid (paired_session s d) = facts_of rid s"
  "facts_of rid (s\<lparr>psProofNonces := m\<rparr>) = facts_of rid s"
  "facts_of rid (confirmed_locally s) = facts_of rid s"
  "psRequest (with_request f s) = f (psRequest s)"
  "psRequest (confirmed_locally s) = (psRequest s)\<lparr>prState := RequestStateConfirming, prLocalConfirmed := True\<rparr>"
  by (simp_all add: facts_of_def with_request_def paired_session_def confirmed_locally_def)

lemma accounted_session: "facts_of rid s \<in> C \<Longrightarrow> accounted C rows (session_trust s n)"
  by (auto simp: accounted_def facts_of_def session_trust_def)

lemma trust_finalize: "facts_of rid s \<in> C \<Longrightarrow> keeps (trust_inv C rows) (finalizeLocked E rid s)"
  unfolding finalizeLocked_def Let_def
  by (intro keeps_rules trust_rules trust_put accounted_session keeps_mod) (simp_all add: trust_inv_frame)

lemma trust_apply: "keeps (trust_inv C rows) (applyPeerDecision E rid pd)"
  unfolding applyPeerDecision_def Let_def
  by (rule trust_found) (auto intro!: keeps_rules trust_put trust_finalize simp: facts_of_def with_request_def)

lemma trust_newProof: "keeps (trust_inv C rows) (newProof E rid action secret)"
  unfolding newProof_def Let_def by (intro keeps_rules trust_rules)

lemma trust_ask: "keeps (trust_inv C rows) (ask_peer E rid s action)"
  unfolding ask_peer_def by (intro keeps_rules trust_rules trust_newProof trust_apply)

lemma trust_Refresh: "keeps (trust_inv C rows) (RefreshPairing E rid)"
  unfolding RefreshPairing_def
  by (intro keeps_rules trust_rules trust_found trust_ask)

lemma trust_Reject: "keeps (trust_inv C rows) (RejectPairing E rid)"
  unfolding RejectPairing_def Let_def
  by (intro trust_found keeps_option_eq keeps_rules trust_rules trust_newProof trust_put) (simp_all add: facts_of_def with_request_def)

lemma proof_action_fields: "proof_action a r = Some r' \<Longrightarrow>
    prDeviceID r' = prDeviceID r \<and> prLocalConfirmed r' = prLocalConfirmed r"
  by (auto simp: proof_action_def split: if_splits)

lemma trust_ReceiveProof: "keeps (trust_inv C rows) (ReceiveProof E p)"
proof -
  have f: "facts_of (pmRequestID p) (s\<lparr>psProofNonces := m, psRequest := r\<rparr>) \<in> C"
    if "prLocalConfirmed (psRequest s) \<longrightarrow> facts_of (pmRequestID p) s \<in> C" "prLocalConfirmed r"
      "proof_action (pmAction p) (psRequest s) = Some r" for s r m
    using that proof_action_fields [OF that(3)] by (simp add: facts_of_def)
  have g: "facts_of (pmRequestID p) (s\<lparr>psProofNonces := m\<rparr>) \<in> C"
    if "prLocalConfirmed (psRequest s) \<longrightarrow> facts_of (pmRequestID p) s \<in> C" "prLocalConfirmed (psRequest s)" for s m
    using that by (simp add: facts_of_def)
  show ?thesis
    unfolding ReceiveProof_def Let_def
    by (intro trust_found keeps_option_eq keeps_rules trust_rules trust_put trust_finalize) (auto intro: f g)
qed

lemma trust_SetBlocked: "keeps (trust_inv C rows) (SetBlocked E i b)"
  unfolding SetBlocked_def
  by (intro keeps_rules trust_got trust_upsert) (simp add: accounted_def blocked_device_def)

lemma trust_Remove: "keeps (trust_inv C rows) (RemoveTrustedDevice E i)"
  unfolding RemoveTrustedDevice_def by (intro keeps_rules trust_rules)

lemma trust_begin: "keeps (trust_inv C rows) (ReceiveBegin E b host)"
proof -
  have install: "keeps (trust_inv C rows) (begin_install b rq s)" if "\<not> prLocalConfirmed (psRequest s)" for rq s
    unfolding begin_install_def
    by (intro keeps_rules trust_put keeps_mod)
      (use that set_delete in \<open>fastforce simp: trust_inv_def\<close>)+
  have respond: "keeps (trust_inv C rows) (begin_respond E b p k n)" for p k n
    unfolding begin_respond_def begin_response_to_def newEphemeral_def Let_def
    by (intro keeps_rules trust_rules install) (simp add: new_session_def incoming_request_def)
  have untrusted: "keeps (trust_inv C rows) (begin_untrusted E b)"
    unfolding begin_untrusted_def
    by (intro trust_tried keeps_sum_eq keeps_rules trust_rules) (simp_all add: accounted_def)
  show ?thesis
    unfolding ReceiveBegin_def begin_check_def begin_admit_def begin_fresh_def findOnlinePeer_def
    by (intro keeps_rules trust_rules untrusted respond keeps_mod) (simp_all add: trust_inv_frame)
qed

lemma trust_request: "keeps (trust_inv C rows) (RequestPairing E i)"
proof -
  have finish: "keeps (trust_inv C rows) (request_finish E p key b r n)" for p key b r n
    unfolding request_finish_def Let_def
    by (intro keeps_rules trust_rules trust_put keeps_mod)
      (simp_all add: new_session_def outgoing_request_def trust_inv_frame)
  show ?thesis
    unfolding RequestPairing_def request_admit_def request_begin_def newEphemeral_def findOnlinePeer_def
    by (intro keeps_rules trust_rules finish)
qed

lemma refresh_device_fields: "tdDeviceID (fst (refresh_device E ps d)) = tdDeviceID d \<and>
    tdPublicKey (fst (refresh_device E ps d)) = tdPublicKey d \<and>
    tdPairingKey (fst (refresh_device E ps d)) = tdPairingKey d"
  by (simp add: refresh_device_def Let_def split: option.split)

lemma trust_devices: "keeps (trust_inv C rows) (TrustedDevices E)"
proof (rule keepsI)
  fix w r w' assume i: "trust_inv C rows w" and r: "TrustedDevices E w = (r, w')"
  have row: "keeps (trust_inv C rows) (refresh_row E ps d)" if "accounted C rows d" for ps d
  proof (cases "refresh_device E ps d")
    case (Pair d' ch)
    then have "accounted C rows d'" using that refresh_device_fields [of E ps d] by (simp add: accounted_def)
    then show ?thesis using Pair by (auto simp: refresh_row_def intro!: keeps_rules trust_rules)
  qed
  have each: "keeps (trust_inv C rows) (mapE (refresh_row E ps) ds)" if "\<forall>d \<in> set ds. accounted C rows d" for ps ds
    using that by (induction ds) (auto intro!: keeps_rules row)
  show "trust_inv C rows w'"
  proof (cases "p_list E w")
    case (Pair x w1)
    have i1: "trust_inv C rows w1" using keepsD [OF trust_calls(5) i Pair] .
    show ?thesis
    proof (cases x)
      case (Inr ds)
      then have "ds = TrustedList (pTrustedRows w)"
        using Pair by (auto simp: p_list_def p_store_def split: option.splits)
      then have "\<forall>d \<in> set ds. accounted C rows d" using i by (auto simp: TrustedList_def trust_inv_def)
      then have "keeps (trust_inv C rows) (bindE (p_out (hDevices E)) (\<lambda>ps. mapE (refresh_row E ps) ds))"
        by (intro keeps_rules trust_rules each)
      note k = keepsD [where I = "trust_inv C rows" and w = w1, OF this i1]
      show ?thesis using r Pair Inr by (intro k) (simp add: TrustedDevices_def bindE_def)
    qed (use r Pair i1 in \<open>simp add: TrustedDevices_def bindE_def\<close>)
  qed
qed

text \<open>Accepting is where consent is given: the session must be one the user may accept.\<close>

lemma trust_Accept:
  assumes i: "trust_inv C rows w" and c: "\<And>s. (rid, s) \<in> set (pSessions w) \<Longrightarrow> facts_of rid s \<in> C"
  shows "trust_inv C rows (snd (AcceptPairing E rid w))"
proof -
  have step: "keeps (trust_inv C rows) (case found of
       None \<Rightarrow> throwE ErrRequestNotFound
     | Some s \<Rightarrow>
         if prState (psRequest s) = RequestStateRejected
         then retE \<lparr>dcRequest = psRequest s, dcTrustedDevice = None\<rparr>
         else
           let s' = confirmed_locally s in
           seqE (put_session rid s')
           (if prDirection (psRequest s') = DirectionIncoming \<and> prRemoteConfirmed (psRequest s')
            then finalizeLocked E rid s'
            else if prDirection (psRequest s') = DirectionIncoming
            then bindE (p_now E) (\<lambda>m. seqE (p_publish EventPairingRequested (Some (psRequest s')) None m)
              (retE \<lparr>dcRequest = psRequest s', dcTrustedDevice = None\<rparr>))
            else ask_peer E rid s' ''confirm''))"
    if "\<And>s. found = Some s \<Longrightarrow> facts_of rid s \<in> C" for found
    unfolding Let_def
    by (intro keeps_option_eq keeps_rules trust_rules trust_put trust_finalize trust_ask) (simp_all add: that)
  show ?thesis
  proof (cases "hUuidOk E rid")
    case False
    then show ?thesis using i by (simp add: AcceptPairing_def validateUUID_def seqE_def bindE_def)
  next
    case True
    obtain w2 where w2: "seqE (p_now E) (pruneLocked E (hNow E (pTick w))) w = (Inr (), w2)"
      and s2: "set (pSessions w2) \<subseteq> set (pSessions w)"
      by (auto simp: seqE_def bindE_def p_now_run pruneLocked_def)
    have i2: "trust_inv C rows w2" 
      using keepsD [where I = "trust_inv C rows" and w = w and
          m = "seqE (p_now E) (pruneLocked E (hNow E (pTick w)))", OF _ i w2]
      by (blast intro: keeps_rules trust_rules)
    have "facts_of rid s \<in> C" if "map_of (pSessions w2) rid = Some s" for s
      using c s2 map_of_SomeD [OF that] by auto
    note keeps_snd [OF step [OF this] i2]
    then show ?thesis
      using True w2 by (simp add: AcceptPairing_def validateUUID_def seqE_def bindE_def p_now_run find_session_run
          split: prod.splits sum.splits)
  qed
qed

section \<open>Runs of the service\<close>

datatype pairing_call =
    PRequest string | PBegin begin_request string | PAccept string | PRefresh string
  | PProof proof_message | PReject string | PRemove string | PBlock string bool
  | PDevices | PRequests | PName string | PAsk string

text \<open>\<open>PAsk\<close> stands for the three questions \<open>IsTrusted\<close>, \<open>SharedKey\<close> and \<open>PublicKey\<close>.\<close>

fun serve_pairing :: "pair_service \<Rightarrow> pairing_call \<Rightarrow> pworld \<Rightarrow> pworld" where
  "serve_pairing E (PRequest i) w = snd (RequestPairing E i w)"
| "serve_pairing E (PBegin b h) w = snd (ReceiveBegin E b h w)"
| "serve_pairing E (PAccept i) w = snd (AcceptPairing E i w)"
| "serve_pairing E (PRefresh i) w = snd (RefreshPairing E i w)"
| "serve_pairing E (PProof p) w = snd (ReceiveProof E p w)"
| "serve_pairing E (PReject i) w = snd (RejectPairing E i w)"
| "serve_pairing E (PRemove i) w = snd (RemoveTrustedDevice E i w)"
| "serve_pairing E (PBlock i b) w = snd (SetBlocked E i b w)"
| "serve_pairing E PDevices w = snd (TrustedDevices E w)"
| "serve_pairing E PRequests w = snd (Requests E w)"
| "serve_pairing E (PName n) w = snd ((SetPairingName n :: unit pm) w)"
| "serve_pairing E (PAsk i) w = snd (PublicKey E i (snd (SharedKey E i (snd (IsTrusted E i w)))))"

lemma trust_asks:
  "keeps (trust_inv C rows) (IsTrusted E i)" "keeps (trust_inv C rows) (SharedKey E i)"
  "keeps (trust_inv C rows) (PublicKey E i)"
  unfolding IsTrusted_def SharedKey_def PublicKey_def trusted_def
  by (intro keeps_rules trust_rules)+

lemma trust_serve:
  assumes "trust_inv C rows w"
    and "\<And>rid s. c = PAccept rid \<Longrightarrow> (rid, s) \<in> set (pSessions w) \<Longrightarrow> facts_of rid s \<in> C"
  shows "trust_inv C rows (serve_pairing E c w)"
proof (cases c)
  case (PAccept rid)
  then show ?thesis using trust_Accept [OF assms(1)] assms(2) by simp
next
  case PRequests
  have "keeps (trust_inv C rows) (Requests E)" unfolding Requests_def by (intro keeps_rules trust_rules)
  then show ?thesis using PRequests assms(1) by (simp add: keeps_snd)
next
  case (PName n)
  then show ?thesis using assms(1) by (auto simp: SetPairingName_def Let_def elim: trust_inv_frame)
qed (use assms(1) in \<open>auto intro: keeps_snd trust_request trust_begin trust_Refresh trust_ReceiveProof trust_Reject
      trust_Remove trust_SetBlocked trust_devices trust_asks\<close>)

lemma trust_run:
  assumes "trust_inv C rows w"
    and "\<And>pre rid post s. cs = pre @ PAccept rid # post \<Longrightarrow>
      (rid, s) \<in> set (pSessions (fold (serve_pairing E) pre w)) \<Longrightarrow> facts_of rid s \<in> C"
  shows "trust_inv C rows (fold (serve_pairing E) cs w)"
  using assms(2)
proof (induction cs rule: rev_induct)
  case (snoc c cs)
  have "trust_inv C rows (fold (serve_pairing E) cs w)"
    using snoc.prems by (intro snoc.IH) force
  then show ?case
    using trust_serve [of C rows "fold (serve_pairing E) cs w" c E] snoc.prems by simp
qed (use assms(1) in simp)

end
