(* ===== verification/PairingCeremony.thy ===== *)
theory PairingCeremony
  imports PairingTrust
begin

text \<open>
  The ceremony from end to end: what a completed pairing is good for, that both devices hold
  the same key and show the same code, the contract the transfer engine relies on, and two
  places where the service does not keep what its user decided.
\<close>

section \<open>Consent\<close>

text \<open>C22: trust needs consent. Whatever calls the service receives, from its user and from the
  network, in whatever order: a device that was not in the trust table at the start and is in
  it at the end is there because the user accepted a request of that device, and its pinned
  key and its pairing key are those of the session the user accepted.\<close>

theorem trust_needs_consent:
  assumes start: "\<forall>(rid, s) \<in> set (pSessions w). \<not> prLocalConfirmed (psRequest s)"
    and unknown: "TrustedGet (pTrustedRows w) i = Inl e"
    and known: "TrustedGet (pTrustedRows (fold (serve_pairing E) cs w)) i = Inr d"
  shows "\<exists>pre rid post s. cs = pre @ PAccept rid # post \<and>
    (rid, s) \<in> set (pSessions (fold (serve_pairing E) pre w)) \<and> prDeviceID (psRequest s) = i \<and>
    tdPublicKey d = psRemotePublicKey s \<and> tdPairingKey d = b64_encode (psSecret s)"
proof -
  let ?C = "{facts_of rid s | pre rid post s. cs = pre @ PAccept rid # post \<and>
    (rid, s) \<in> set (pSessions (fold (serve_pairing E) pre w))}"
  have "trust_inv ?C (pTrustedRows w) w"
    using start by (force simp: trust_inv_def accounted_def scanTrustedDevice_def)
  then have "trust_inv ?C (pTrustedRows w) (fold (serve_pairing E) cs w)" by (rule trust_run) blast
  then have "accounted ?C (pTrustedRows w) d" using known by (rule trust_inv_get)
  moreover have "trDeviceID r \<noteq> i" if "r \<in> set (pTrustedRows w)" for r
    using unknown that by (auto simp: TrustedGet_def select_None split: option.splits)
  ultimately show ?thesis
    using TrustedGet_id [OF known] by (clarsimp simp: accounted_def facts_of_def) blast
qed

section \<open>Completed pairings\<close>

lemma p_upsert_InrE:
  assumes "p_upsert E d w = (Inr u, w')"
  obtains "w' = (ptick w)\<lparr>pTrustedRows := TrustedUpsert d (pTrustedRows w)\<rparr>"
  using assms by (auto simp: p_upsert_def p_store_def split: option.splits)

lemma finalize_Inr:
  assumes "finalizeLocked E rid s w = (Inr dc, w')"
  shows "validateTrustedDevice E (session_trust s (hNow E (pTick w))) = Inr () \<and>
    pTrustedRows w' = TrustedUpsert (session_trust s (hNow E (pTick w))) (pTrustedRows w) \<and>
    dcTrustedDevice dc = Some (session_trust s (hNow E (pTick w))) \<and>
    prState (dcRequest dc) = RequestStatePaired"
proof -
  let ?d = "session_trust s (hNow E (pTick w))"
  have v: "validateTrustedDevice E ?d = Inr ()"
    using assms by (cases "validateTrustedDevice E ?d") (simp_all add: finalizeLocked_def bindE_def seqE_def p_now_run)
  show ?thesis
    using assms v
    by (auto simp: finalizeLocked_def bindE_def seqE_def p_now_run Let_def put_session_run p_publish_def paired_session_def
        split: prod.splits sum.splits elim!: p_upsert_InrE)
qed

lemma validate_Inr:
  assumes "validateTrustedDevice E d = Inr ()"
  obtains pk k where "hUuidOk E (tdDeviceID d)" "b64_decode (tdPublicKey d) = Some pk" "length pk = 32"
    "decodeSharedKey (tdPairingKey d) = Inr k"
  using assms by (auto simp: validateTrustedDevice_def validateUUID_def split: option.splits sum.splits if_splits)

lemma quiet_trusted: "quiet E \<Longrightarrow> trusted E i w =
    (if hUuidOk E i then (TrustedGet (pTrustedRows w) i, ptick w) else (Inl ErrInvalidIdentifier, w))"
  by (simp add: trusted_def validateUUID_def seqE_def bindE_def quiet_pairing split: sum.splits)

lemma quiet_answers:
  assumes "quiet E" "hUuidOk E i" "TrustedGet (pTrustedRows w) i = Inr d"
  shows "fst (IsTrusted E i w) = Inr (is_trusted E d)"
    and "fst (SharedKey E i w) =
      (if tdBlocked d \<or> tdIdentityKeyChanged d \<or> tdTrustState d \<noteq> TrustStateTrusted then Inl ErrIdentityChanged
       else decodeSharedKey (tdPairingKey d))"
    and "fst (PublicKey E i w) =
      (if tdBlocked d \<or> tdIdentityKeyChanged d then Inl ErrIdentityChanged
       else case b64_decode (tdPublicKey d) of
          None \<Rightarrow> Inl (ErrPairingOther ''trusted device public key is invalid'')
        | Some k \<Rightarrow> if length k \<noteq> 32 then Inl (ErrPairingOther ''trusted device public key is invalid'') else Inr k)"
  using assms
  by (auto simp: IsTrusted_def SharedKey_def PublicKey_def bindE_def seqE_def tryE_def guardE_def quiet_trusted
      split: option.splits)

text \<open>
  \<open>transfer.DeviceAuthorizer\<close> as the transfer engine relies on it: a device that is trusted has
  a key to sign offers with and a public key to pin connections to.
\<close>

locale authorizer =
  fixes is_trusted_device :: "'w \<Rightarrow> string \<Rightarrow> 'e + bool"
    and shared_key :: "'w \<Rightarrow> string \<Rightarrow> 'e + string"
    and public_key :: "'w \<Rightarrow> string \<Rightarrow> 'e + string"
    and reachable :: "'w \<Rightarrow> bool"
  assumes trusted_shared: "reachable w \<Longrightarrow> is_trusted_device w i = Inr True \<Longrightarrow>
        \<exists>k. shared_key w i = Inr k \<and> length k = 32"
    and trusted_public: "reachable w \<Longrightarrow> is_trusted_device w i = Inr True \<Longrightarrow>
        \<exists>k. public_key w i = Inr k \<and> length k = 32"
    and key_trusted: "reachable w \<Longrightarrow> public_key w i = Inl e \<Longrightarrow> is_trusted_device w i \<noteq> Inr True"
begin

lemma trusted_usable:
  assumes "reachable w" "is_trusted_device w i = Inr True"
  obtains k pk where "shared_key w i = Inr k" "public_key w i = Inr pk" "length k = 32" "length pk = 32"
  using trusted_shared [OF assms] trusted_public [OF assms] by blast

end

interpretation trust_store: authorizer
  "\<lambda>(E, w) i. fst (IsTrusted (E :: pair_service) i w)" "\<lambda>(E, w) i. fst (SharedKey E i w)"
  "\<lambda>(E, w) i. fst (PublicKey E i w)" "\<lambda>(E, w). quiet E"
proof
  have answer: "\<exists>d. hUuidOk E i \<and> TrustedGet (pTrustedRows w) i = Inr d \<and> is_trusted E d"
    if "quiet E" "fst (IsTrusted E i w) = Inr True" for E :: pair_service and i w
    using that
    by (cases "TrustedGet (pTrustedRows w) i")
      (auto simp: IsTrusted_def bindE_def tryE_def quiet_trusted split: if_splits)
  fix x :: "pair_service \<times> pworld" and i e
  obtain E w where x: "x = (E, w)" by (cases x)
  assume q: "case x of (E, w) \<Rightarrow> quiet E"
  have ok: "(\<exists>k. fst (SharedKey E i w) = Inr k \<and> length k = 32) \<and> (\<exists>k. fst (PublicKey E i w) = Inr k \<and> length k = 32)"
    if t: "fst (IsTrusted E i w) = Inr True"
  proof -
    obtain d where d: "hUuidOk E i" "TrustedGet (pTrustedRows w) i = Inr d" "is_trusted E d"
      using answer [OF _ t] q x by auto
    obtain pk k where "b64_decode (tdPublicKey d) = Some pk" "length pk = 32" "decodeSharedKey (tdPairingKey d) = Inr k"
      "length k = 32"
      using d(3) by (auto simp: is_trusted_def decodeCredential_iff decodeSharedKey_iff)
    then show ?thesis using quiet_answers [OF _ d(1,2)] d(3) q x by (simp add: is_trusted_def)
  qed
  show "(case x of (E, w) \<Rightarrow> \<lambda>i. fst (IsTrusted E i w)) i = Inr True \<Longrightarrow>
      \<exists>k. (case x of (E, w) \<Rightarrow> \<lambda>i. fst (SharedKey E i w)) i = Inr k \<and> length k = 32"
    using ok x by simp
  show "(case x of (E, w) \<Rightarrow> \<lambda>i. fst (IsTrusted E i w)) i = Inr True \<Longrightarrow>
      \<exists>k. (case x of (E, w) \<Rightarrow> \<lambda>i. fst (PublicKey E i w)) i = Inr k \<and> length k = 32"
    using ok x by simp
  show "(case x of (E, w) \<Rightarrow> \<lambda>i. fst (PublicKey E i w)) i = Inl e \<Longrightarrow>
      (case x of (E, w) \<Rightarrow> \<lambda>i. fst (IsTrusted E i w)) i \<noteq> Inr True"
    using ok x by auto
qed

lemma paired_facts:
  assumes "finalizeLocked E rid s w = (Inr dc, w')" and "quiet E"
  shows "fst (IsTrusted E (prDeviceID (psRequest s)) w') = Inr True \<and>
    fst (SharedKey E (prDeviceID (psRequest s)) w') = Inr (psSecret s) \<and>
    (\<exists>pk. b64_decode (psRemotePublicKey s) = Some pk \<and> fst (PublicKey E (prDeviceID (psRequest s)) w') = Inr pk)"
proof -
  let ?i = "prDeviceID (psRequest s)"
  define d where "d = session_trust s (hNow E (pTick w))"
  have v: "validateTrustedDevice E d = Inr ()" and r: "pTrustedRows w' = TrustedUpsert d (pTrustedRows w)"
    using finalize_Inr [OF assms(1)] by (simp_all add: d_def)
  have d: "tdDeviceID d = ?i" "tdPairingKey d = b64_encode (psSecret s)" "tdPublicKey d = psRemotePublicKey s"
    "\<not> tdBlocked d" "\<not> tdIdentityKeyChanged d" "tdTrustState d = TrustStateTrusted"
    by (simp_all add: d_def session_trust_def)
  obtain l where g: "TrustedGet (pTrustedRows w') ?i = Inr (stored_device l d)"
    using r d(1) by (simp add: trusted_upsert)
  have c: "decodeCredential E (stored_device l d) = Inr ()"
    using validate_credential [OF v] by (simp add: decodeCredential_iff)
  obtain pk k where k: "hUuidOk E ?i" "b64_decode (psRemotePublicKey s) = Some pk" "length pk = 32"
    "decodeSharedKey (b64_encode (psSecret s)) = Inr k"
    by (rule validate_Inr [OF v]) (simp add: d)
  have "k = psSecret s" using k(4) by (simp add: decodeSharedKey_iff b64_roundtrip)
  then show ?thesis
    using quiet_answers [OF assms(2) k(1) g] c d k by (simp add: is_trusted_def)
qed

text \<open>what a completed pairing is good for. Once a session is finalized the device is
  trusted, the key it shares with this device is the secret of the session, and the key
  connections to it are pinned to is the one it presented in the ceremony.\<close>

theorem paired_is_trusted:
  assumes "finalizeLocked E rid s w = (Inr dc, w')" and "quiet E"
  shows "fst (IsTrusted E (prDeviceID (psRequest s)) w') = Inr True \<and>
    fst (SharedKey E (prDeviceID (psRequest s)) w') = Inr (psSecret s) \<and>
    (\<exists>pk. b64_decode (psRemotePublicKey s) = Some pk \<and> fst (PublicKey E (prDeviceID (psRequest s)) w') = Inr pk)"
  by (rule paired_facts [OF assms])

section \<open>Both ends agree\<close>

lemma request_finish_Inr:
  assumes "request_finish E p key begun response n w = (Inr rq, w')"
  shows "\<exists>publicKey secret code. validateBeginResponse E p begun response n = Inr publicKey \<and>
    derivePairing E key (bsEphemeralKey response) begun response = Inr (secret, code) \<and>
    rq = outgoing_request E p begun response publicKey code n \<and>
    pSessions w' = AList.update (brRequestID begun) (new_session rq secret (bsPublicKey response) p response) (pSessions w) \<and>
    pPending w' = (pPending w)(dID p \<mapsto> brRequestID begun) \<and> pTrustedRows w' = pTrustedRows w \<and> pTick w' = pTick w"
  using assms
  by (auto simp: request_finish_def bindE_def seqE_def put_session_run p_publish_def Let_def outgoing_request_def
      split: sum.splits prod.splits)

lemma begin_install_run: "\<exists>w'. begin_install b rq s w = (Inr (), w') \<and> map_of (pSessions w') (brRequestID b) = Some s \<and>
    pPending w' = (pPending w)(brDeviceID b \<mapsto> brRequestID b) \<and> pTrustedRows w' = pTrustedRows w"
  by (auto simp: begin_install_def bindE_def seqE_def put_session_run update_conv' split: option.split)

lemma begin_response_to_Inr:
  assumes "begin_response_to E b n w = (Inr (key, response), w')"
  shows "bsEphemeralKey response = b64_encode (pX25519 E key) \<and> bsPublicKey response = idPublicKey (pIdentity w) \<and>
    pSessions w' = pSessions w \<and> pPending w' = pPending w \<and> pTrustedRows w' = pTrustedRows w"
  using assms
  by (auto simp: begin_response_to_def newEphemeral_def bindE_def p_outE_run p_out_run signResponse_def
      split: sum.splits)

lemma begin_respond_Inr:
  assumes "begin_respond E b p publicKey n w = (Inr response, w')"
  shows "\<exists>key secret code rq. bsEphemeralKey response = b64_encode (pX25519 E key) \<and>
    bsPublicKey response = idPublicKey (pIdentity w) \<and>
    derivePairing E key (brEphemeralKey b) b response = Inr (secret, code) \<and>
    rq = incoming_request E b publicKey code n \<and>
    map_of (pSessions w') (brRequestID b) = Some (new_session rq secret (brPublicKey b) p response) \<and>
    pPending w' = (pPending w)(brDeviceID b \<mapsto> brRequestID b) \<and> pTrustedRows w' = pTrustedRows w"
proof -
  obtain key w1 where 1: "begin_response_to E b n w = (Inr (key, response), w1)"
    and r: "bindE (liftE (derivePairing E key (brEphemeralKey b) b response)) (\<lambda>(secret, code).
     let rq = incoming_request E b publicKey code n in
     seqE (begin_install b rq (new_session rq secret (brPublicKey b) p response))
     (seqE (p_publish EventPairingRequested (Some rq) None n)
     (retE response))) w1 = (Inr response, w')"
    using assms
    by (auto simp: begin_respond_def bindE_def seqE_def Let_def split: sum.splits prod.splits)
  obtain secret code where d: "derivePairing E key (brEphemeralKey b) b response = Inr (secret, code)"
    using r by (cases "derivePairing E key (brEphemeralKey b) b response") (auto simp: bindE_def)
  let ?rq = "incoming_request E b publicKey code n"
  obtain w2 where w2: "begin_install b ?rq (new_session ?rq secret (brPublicKey b) p response) w1 = (Inr (), w2)"
    "map_of (pSessions w2) (brRequestID b) = Some (new_session ?rq secret (brPublicKey b) p response)"
    "pPending w2 = (pPending w1)(brDeviceID b \<mapsto> brRequestID b)" "pTrustedRows w2 = pTrustedRows w1"
    using begin_install_run by blast
  have "pSessions w' = pSessions w2 \<and> pPending w' = pPending w2 \<and> pTrustedRows w' = pTrustedRows w2"
    using r d w2(1) by (auto simp: bindE_def seqE_def Let_def p_publish_def)
  then show ?thesis using begin_response_to_Inr [OF 1] d w2(2-4) by simp blast
qed

text \<open>C23: both ends of a ceremony agree. When one device answers a begin message and the other
  completes its request with that answer, the two sessions hold the same secret and show the
  same code, of three digits, a space and three digits, and each names the other's key. The
  one law of cryptography used is that X25519 commutes.\<close>

theorem exchange_agrees:
  assumes "begin_respond E b p publicKey n w = (Inr response, w')"
    and "request_finish E q key b response m v = (Inr rq, v')"
    and "brEphemeralKey b = b64_encode (pX25519 E key)" and "ecdh_commutes E"
  shows "\<exists>s t. map_of (pSessions w') (brRequestID b) = Some s \<and> map_of (pSessions v') (brRequestID b) = Some t \<and>
    psSecret s = psSecret t \<and> prVerificationCode (psRequest s) = prVerificationCode (psRequest t) \<and>
    length (prVerificationCode (psRequest s)) = 7 \<and>
    psRemotePublicKey s = brPublicKey b \<and> psRemotePublicKey t = idPublicKey (pIdentity w)"
proof -
  obtain k2 secret code rq1 where b: "bsEphemeralKey response = b64_encode (pX25519 E k2)"
    "bsPublicKey response = idPublicKey (pIdentity w)"
    "derivePairing E k2 (brEphemeralKey b) b response = Inr (secret, code)" "rq1 = incoming_request E b publicKey code n"
    "map_of (pSessions w') (brRequestID b) = Some (new_session rq1 secret (brPublicKey b) p response)"
    using begin_respond_Inr [OF assms(1)] by blast
  obtain pk secret' code' where r: "derivePairing E key (bsEphemeralKey response) b response = Inr (secret', code')"
    "rq = outgoing_request E q b response pk code' m"
    "map_of (pSessions v') (brRequestID b) = Some (new_session rq secret' (bsPublicKey response) q response)"
    using request_finish_Inr [OF assms(2)] by (auto simp: update_conv')
  have "secret = secret' \<and> code = code'"
    using b(3) r(1) derive_agrees [OF assms(4), of k2 key b response] by (simp add: assms(3) b(1))
  moreover have "length code = 7" using derive_Inr [OF b(3)] by simp
  ultimately show ?thesis
    using b r by (simp add: new_session_def incoming_request_def outgoing_request_def)
qed

section \<open>Where a decision is lost\<close>

lemma map_of_filter_Some: "map_of xs k = Some v \<Longrightarrow> P (k, v) \<Longrightarrow> map_of (filter P xs) k = Some v"
  by (induction xs) auto

lemma prune_run: "\<exists>w'. pruneLocked E n w = (Inr (), w') \<and> pTrustedRows w' = pTrustedRows w \<and> pTick w' = pTick w \<and>
    (\<forall>rid s. map_of (pSessions w) rid = Some s \<longrightarrow> \<not> expired n s \<longrightarrow> map_of (pSessions w') rid = Some s)"
  by (auto simp: pruneLocked_def intro: map_of_filter_Some)

lemma finalize_total:
  assumes "quiet E" "\<And>k. validateTrustedDevice E (session_trust s (hNow E k)) = Inr ()"
  obtains dc w' where "finalizeLocked E rid s w = (Inr dc, w')"
  using assms by (simp add: finalizeLocked_def bindE_def seqE_def p_now_run quiet_pairing put_session_run p_publish_def Let_def)

lemma Reject_Inr:
  assumes "RejectPairing E rid w = (Inr rq, w')" "map_of (pSessions w) rid = Some s" "\<forall>n. \<not> expired (hNow E n) s"
  shows "hUuidOk E rid \<and> prState rq = RequestStateRejected \<and>
    map_of (pSessions w') rid = Some (with_request (\<lambda>r. r\<lparr>prState := RequestStateRejected\<rparr>) s)"
proof -
  let ?s = "with_request (\<lambda>r. r\<lparr>prState := RequestStateRejected\<rparr>) s"
  have ok: "hUuidOk E rid" using assms(1) by (auto simp: RejectPairing_def validateUUID_def seqE_def bindE_def split: if_splits)
  obtain w1 where w1: "pruneLocked E (hNow E (pTick w)) (ptick w) = (Inr (), w1)" "map_of (pSessions w1) rid = Some s"
    using prune_run [of E "hNow E (pTick w)" "ptick w"] assms(2,3) by auto
  have np: "\<exists>p w3. newProof E rid a k w2 = (Inr p, w3) \<and> pSessions w3 = pSessions w2" for a k w2
    by (simp add: newProof_def bindE_def p_now_run p_out_run Let_def)
  obtain p w3 where p: "newProof E rid ''reject'' (psSecret s) (w1\<lparr>pSessions := AList.update rid ?s (pSessions w1)\<rparr>) = (Inr p, w3)"
    "pSessions w3 = AList.update rid ?s (pSessions w1)"
    using np [of "''reject''" "psSecret s" "w1\<lparr>pSessions := AList.update rid ?s (pSessions w1)\<rparr>"] by auto
  have "rq = psRequest ?s \<and> pSessions w' = AList.update rid ?s (pSessions w1)"
    using assms(1) ok w1 p
    by (auto simp: RejectPairing_def validateUUID_def seqE_def bindE_def p_now_run find_session_run put_session_run
        Let_def p_publish_def tryE_def p_outE_run split: if_splits)
  then show ?thesis using ok by (simp add: update_conv')
qed

text \<open>C24: a rejection the user made can be overridden by the peer. On the device that asked for
  the pairing, a request that its user confirmed and then rejected is still open for
  \<open>Refresh\<close>: if the peer did not get the rejection and has confirmed, the next refresh of the
  rejected request pairs the devices and the peer is trusted. \<open>ReceiveProof\<close> checks for this
  state before it finalizes; \<open>applyPeerDecision\<close> does not.\<close>

theorem refresh_overrides_reject:
  assumes rej: "RejectPairing E rid w = (Inr rq, w1)"
    and s: "map_of (pSessions w) rid = Some s" "prDirection (psRequest s) = DirectionOutgoing"
      "prLocalConfirmed (psRequest s)" "psTrusted s = None" "\<forall>n. \<not> expired (hNow E n) s"
    and peer: "\<forall>k p. pProof E k (psPeer s) p = Inr pd" "pdRequestID pd = rid" "verifyDecision E (psSecret s) pd"
      "pdLocalConfirmed pd" "pdState pd \<noteq> RequestStateRejected"
    and valid: "\<forall>k. validateTrustedDevice E (session_trust s (hNow E k)) = Inr ()" and "quiet E"
  shows "prState rq = RequestStateRejected \<and> (\<exists>dc w2. RefreshPairing E rid w1 = (Inr dc, w2) \<and>
    prState (dcRequest dc) = RequestStatePaired \<and> fst (IsTrusted E (prDeviceID (psRequest s)) w2) = Inr True)"
proof -
  define s1 where "s1 = with_request (\<lambda>r. r\<lparr>prState := RequestStateRejected\<rparr>) s"
  define s2 where "s2 = with_request (\<lambda>r. r\<lparr>prRemoteConfirmed := True\<rparr>) s1"
  have r: "hUuidOk E rid" "prState rq = RequestStateRejected" "map_of (pSessions w1) rid = Some s1"
    using Reject_Inr [OF rej s(1,5)] by (simp_all add: s1_def)
  have f1: "prDirection (psRequest s1) = DirectionOutgoing" "prLocalConfirmed (psRequest s1)" "psTrusted s1 = None"
    "psPeer s1 = psPeer s" "psSecret s1 = psSecret s" "\<not> expired (hNow E n) s1" for n
    using s by (simp_all add: s1_def with_request_def expired_def)
  obtain w2 where w2: "pruneLocked E (hNow E (pTick w1)) (ptick w1) = (Inr (), w2)" "map_of (pSessions w2) rid = Some s1"
    using prune_run [of E "hNow E (pTick w1)" "ptick w1"] r(3) f1(6) by auto
  obtain p w3 where p: "newProof E rid ''status'' (psSecret s) w2 = (Inr p, w3)" "pSessions w3 = pSessions w2"
    by (simp add: newProof_def bindE_def p_now_run p_out_run Let_def)
  let ?w = "(ptick w3)\<lparr>pSessions := AList.update rid s2 (pSessions w3)\<rparr>"
  have t: "session_trust s2 n = session_trust s n" "prDeviceID (psRequest s2) = prDeviceID (psRequest s)" for n
    by (simp_all add: s2_def s1_def with_request_def session_trust_def)
  obtain dc w4 where fin: "finalizeLocked E rid s2 ?w = (Inr dc, w4)"
    by (rule finalize_total [OF assms(13), of s2 rid ?w]) (use valid t in auto)
  have "applyPeerDecision E rid pd (ptick w3) = (Inr dc, w4)"
    using peer p(2) w2(2) f1 fin
    by (simp add: applyPeerDecision_def bindE_def seqE_def find_session_run put_session_run Let_def s2_def)
  then have "ask_peer E rid s1 ''status'' w2 = (Inr dc, w4)"
    using p(1) peer(1) f1 by (simp add: ask_peer_def bindE_def p_outE_run)
  then have "RefreshPairing E rid w1 = (Inr dc, w4)"
    using r(1) w2 f1
    by (simp add: RefreshPairing_def validateUUID_def bindE_def seqE_def p_now_run find_session_run)
  then show ?thesis using r(2) finalize_Inr [OF fin] paired_facts [OF fin assms(13)] t(2) by auto
qed

text \<open>C25: a pending entry without a session. A request identifier is chosen by the side that asks
  and sent to the peer, so while one device waits for the answer of a peer A, a device B that
  knows the identifier can begin a pairing under it. The answer of A then replaces the session
  B was entered for; when that session expires, the entry of B stays, and the next request of
  the user to pair with B dereferences a nil session while it holds the lock of the service.\<close>

theorem pending_panics:
  assumes idle: "pSessions w = []"
    and answer: "begin_respond E b pB keyB n w = (Inr response, w1)"
    and finish: "request_finish E pA key begun rsp m w1 = (Inr rq, w2)"
    and same: "brRequestID begun = brRequestID b" and other: "dID pA \<noteq> brDeviceID b"
    and later: "w3 = w2\<lparr>pTick := t\<rparr>" "\<forall>k \<ge> t. m + psRequestTTL E < hNow E k"
    and online: "\<forall>k \<ge> t. find_first (\<lambda>d. dID d = brDeviceID b \<and> dOnline d) (hDevices E k) = Some pB"
      "dPairingAvailable pB" "dIdentityHint pB \<noteq> []"
    and new: "hUuidOk E (brDeviceID b)" "TrustedGet (pTrustedRows w) (brDeviceID b) = Inl ErrTrustedDeviceNotFound"
    and "quiet E"
  shows "fst (RequestPairing E (brDeviceID b) w3) = Inl ErrPairingPanic"
proof -
  obtain w1s where w1: "pPending w1 = (pPending w)(brDeviceID b \<mapsto> brRequestID b)" "pTrustedRows w1 = pTrustedRows w"
    "set (pSessions w1) = {(brRequestID b, w1s)}" "map_of (pSessions w1) (brRequestID b) = Some w1s"
    "pSessions w1 = [(brRequestID b, w1s)]"
    using answer idle
    by (auto simp: begin_respond_def begin_response_to_def newEphemeral_def bindE_def seqE_def put_session_run p_publish_def
        Let_def begin_install_def p_outE_run p_out_run split: sum.splits prod.splits option.splits if_splits)
  obtain pk secret code where w2: "rq = outgoing_request E pA begun rsp pk code m"
    "pSessions w2 = [(brRequestID b, new_session rq secret (bsPublicKey rsp) pA rsp)]"
    "pPending w2 = (pPending w1)(dID pA \<mapsto> brRequestID b)" "pTrustedRows w2 = pTrustedRows w"
    using request_finish_Inr [OF finish] same w1 by auto
  have e: "expired k (new_session rq secret (bsPublicKey rsp) pA rsp) \<longleftrightarrow> m + psRequestTTL E < k"
    "prDeviceID (psRequest (new_session rq secret (bsPublicKey rsp) pA rsp)) = dID pA" for k
    by (simp_all add: expired_def new_session_def w2(1) outgoing_request_def)
  have "m + psRequestTTL E < hNow E (Suc t)" using later(2) by simp
  then show ?thesis
    using w1(1) w2(2-4) e later(1) online new \<open>quiet E\<close> other
    by (simp add: RequestPairing_def validateUUID_def findOnlinePeer_def bindE_def seqE_def p_out_run p_now_run
        request_admit_def pruneLocked_def tryE_def quiet_pairing find_session_run)
qed

section \<open>An example\<close>

text \<open>A service whose peer confirms, and a session with that peer.\<close>

definition sample_pair_key :: string where
  "sample_pair_key = replicate 32 CHR ''p''"

definition sample_pair_secret :: string where
  "sample_pair_secret = replicate 32 CHR ''k''"

definition sample_pair_decision :: peer_decision where
  "sample_pair_decision = \<lparr>pdRequestID = ''r1'', pdState = RequestStateConfirming, pdLocalConfirmed = True,
     pdRemoteConfirmed = False, pdTimestamp = ''0'', pdMAC = b64_encode (pad32 (sample_pair_secret @ ''d''))\<rparr>"

definition sample_pair :: pair_service where
  "sample_pair = (pair_host.extend (host.extend (host.truncate sample_service)
     (pair_host.fields (\<lambda>_ _. replicate 64 CHR ''s'') (\<lambda>_ _ _. True) (\<lambda>_. ''b'') (\<lambda>_. ''r'') (\<lambda>_. ''p'') (\<lambda>_. ''d'')
       (\<lambda>_. Inl ErrProtocol) (\<lambda>_. Inl ErrProtocol) (\<lambda>_. Inr ''e'') pad32 (\<lambda>_ _. Inr ''shared'')
       (\<lambda>_ _ _. replicate 40 CHR ''k'') (\<lambda>_ _ _. Inl ErrProtocol) (\<lambda>_ _ _. Inr sample_pair_decision)
       (\<lambda>_ _ _. Inl ErrProtocol))) (pair_service.fields (5 * minute)))\<lparr>hDevices := (\<lambda>_. [sample_peer\<lparr>dIdentityHint := ''h''\<rparr>])\<rparr>"

definition sample_pair_peer :: device where
  "sample_pair_peer = sample_peer\<lparr>dIdentityHint := shortFingerprint (IdentityFingerprint sample_pair sample_pair_key)\<rparr>"

definition sample_session :: pairing_session where
  "sample_session = \<lparr>psRequest = \<lparr>prRequestID = ''r1'', prDeviceID = ''peer'', prDeviceName = ''Peer'',
     prPlatform = ''linux'', prDirection = DirectionOutgoing,
     prFingerprint = IdentityFingerprint sample_pair sample_pair_key, prVerificationCode = ''000 000'',
     prRequestedAt = 0, prExpiresAt = 2000 * second, prState = RequestStateConfirming, prLocalConfirmed = True,
     prRemoteConfirmed = False\<rparr>, psSecret = sample_pair_secret, psRemotePublicKey = b64_encode sample_pair_key,
     psPeer = sample_pair_peer, psResponse = \<lparr>bsProtocolVersion = 1, bsRequestID = ''r1'', bsDeviceID = ''peer'',
       bsDeviceName = ''Peer'', bsPlatform = ''linux'', bsPublicKey = b64_encode sample_pair_key,
       bsEphemeralKey = b64_encode (pad32 ''f''), bsTimestamp = int_dec 0, bsNonce = ''n'',
       bsSignature = b64_encode (replicate 64 CHR ''s'')\<rparr>, psProofNonces = Map.empty, psTrusted = None\<rparr>"

definition sample_pworld :: pworld where
  "sample_pworld = (initial_pairing sample_identity [])\<lparr>pSessions := [(''r1'', sample_session)]\<rparr>"

lemma sample_pair_simps [simp]:
  "quiet sample_pair" "hNow sample_pair k = int (min k 1000) * second" "hUuidOk sample_pair i = (i \<noteq> [])"
  "pProof sample_pair k p m = Inr sample_pair_decision" "pHkdf sample_pair a b c = replicate 40 CHR ''k''"
  "pEcdh sample_pair a b = Inr ''shared''" "pX25519 sample_pair = pad32" "pVerify sample_pair a b c = True"
  "hUuid sample_pair k = ''u'' @ nat_dec k" "psRequestTTL sample_pair = 5 * minute" "pEphemeral sample_pair k = Inr ''e''"
  "hHmac sample_pair a b = pad32 (a @ b)" "pDecisionJson sample_pair x = ''d''" "hDevices sample_pair k = [sample_peer\<lparr>dIdentityHint := ''h''\<rparr>]"
  "pSign sample_pair a b = replicate 64 CHR ''s''"
  by (simp_all add: sample_pair_def pair_host.defs pair_service.defs host.defs quiet_def sample_service_def)

lemma sample_names: "trim_space ''Peer'' \<noteq> []" "trim_space ''linux'' \<noteq> []"
  by code_simp+

lemma sample_valid: "validateTrustedDevice sample_pair (session_trust sample_session (int k * second)) = Inr ()"
proof -
  have "int k * second \<noteq> time_zero" by (simp add: second_def time_zero_def)
  then show ?thesis
    by (simp add: validateTrustedDevice_def validateUUID_def session_trust_def sample_session_def b64_roundtrip
        sample_pair_key_def sample_pair_secret_def sample_names sample_pair_peer_def sample_peer_def time_zero_def second_def)
qed

theorem paired_is_trusted_witness:
  "\<exists>dc w. finalizeLocked sample_pair ''r1'' sample_session sample_pworld = (Inr dc, w) \<and>
     fst (IsTrusted sample_pair ''peer'' w) = Inr True \<and> fst (SharedKey sample_pair ''peer'' w) = Inr sample_pair_secret"
proof -
  obtain dc w where f: "finalizeLocked sample_pair ''r1'' sample_session sample_pworld = (Inr dc, w)"
    by (rule finalize_total [of sample_pair sample_session "''r1''" sample_pworld]) (use sample_valid in auto)
  have "prDeviceID (psRequest sample_session) = ''peer''" "psSecret sample_session = sample_pair_secret"
    by (simp_all add: sample_session_def)
  then show ?thesis using f paired_is_trusted [OF f] by simp
qed

lemma sample_session_lives: "\<not> expired (hNow sample_pair n) sample_session"
proof -
  have "int (min n 1000) \<le> 1000" by simp
  then have "int (min n 1000) * second \<le> 1000 * second" by (simp add: second_def)
  then show ?thesis by (simp add: expired_def sample_session_def second_def)
qed

theorem refresh_overrides_reject_witness:
  "\<exists>rq w1 dc w2. RejectPairing sample_pair ''r1'' sample_pworld = (Inr rq, w1) \<and> prState rq = RequestStateRejected \<and>
     RefreshPairing sample_pair ''r1'' w1 = (Inr dc, w2) \<and> fst (IsTrusted sample_pair ''peer'' w2) = Inr True"
proof -
  have s: "map_of (pSessions sample_pworld) ''r1'' = Some sample_session" by (simp add: sample_pworld_def)
  have f: "prDirection (psRequest sample_session) = DirectionOutgoing" "prLocalConfirmed (psRequest sample_session)"
    "psTrusted sample_session = None" "psSecret sample_session = sample_pair_secret"
    "prDeviceID (psRequest sample_session) = ''peer''"
    by (simp_all add: sample_session_def)
  obtain w1 where w1: "pruneLocked sample_pair (hNow sample_pair (pTick sample_pworld)) (ptick sample_pworld) = (Inr (), w1)"
    "map_of (pSessions w1) ''r1'' = Some sample_session"
    using prune_run [of sample_pair "hNow sample_pair (pTick sample_pworld)" "ptick sample_pworld"] s sample_session_lives
    by auto
  have "\<exists>rq w2. RejectPairing sample_pair ''r1'' sample_pworld = (Inr rq, w2)"
    using w1 f
    by (simp add: RejectPairing_def validateUUID_def seqE_def bindE_def p_now_run find_session_run put_session_run
        Let_def p_publish_def tryE_def p_outE_run newProof_def p_out_run with_request_def)
  then obtain rq w2 where r: "RejectPairing sample_pair ''r1'' sample_pworld = (Inr rq, w2)" by blast
  have d: "pdRequestID sample_pair_decision = ''r1''" "verifyDecision sample_pair (psSecret sample_session) sample_pair_decision"
    "pdLocalConfirmed sample_pair_decision" "pdState sample_pair_decision \<noteq> RequestStateRejected"
    by (simp_all add: verifyDecision_iff b64_roundtrip f sample_pair_decision_def)
  show ?thesis
    using r refresh_overrides_reject [OF r s f(1-3) _ _ d(1) d(2-4)] sample_session_lives sample_valid f(5) by auto
qed

definition sample_asked :: pairing_session where
  "sample_asked = with_request (\<lambda>r. r\<lparr>prDirection := DirectionIncoming, prLocalConfirmed := False,
     prRemoteConfirmed := True\<rparr>) sample_session"

definition sample_asked_world :: pworld where
  "sample_asked_world = (initial_pairing sample_identity [])\<lparr>pSessions := [(''r1'', sample_asked)]\<rparr>"

theorem trust_needs_consent_witness:
  "\<exists>d. TrustedGet (pTrustedRows (fold (serve_pairing sample_pair) [PAccept ''r1''] sample_asked_world)) ''peer'' = Inr d \<and>
     tdPairingKey d = b64_encode sample_pair_secret"
proof -
  let ?s = "confirmed_locally sample_asked" and ?w = "fold (serve_pairing sample_pair) [PAccept ''r1''] sample_asked_world"
  have lives: "\<not> expired (hNow sample_pair k) sample_asked" for k
    using sample_session_lives [of k] by (simp add: expired_def sample_asked_def with_request_def)
  obtain w1 where w1: "pruneLocked sample_pair (hNow sample_pair 0) (ptick sample_asked_world) = (Inr (), w1)"
    "map_of (pSessions w1) ''r1'' = Some sample_asked"
    using prune_run [of sample_pair "hNow sample_pair 0" "ptick sample_asked_world"] lives [of 0]
    by (auto simp: sample_asked_world_def)
  have t: "session_trust ?s n = session_trust sample_session n" for n
    by (simp add: session_trust_def confirmed_locally_def with_request_def sample_asked_def)
  obtain dc w2 where f: "finalizeLocked sample_pair ''r1'' ?s (w1\<lparr>pSessions := AList.update ''r1'' ?s (pSessions w1)\<rparr>) = (Inr dc, w2)"
    by (rule finalize_total [of sample_pair ?s "''r1''" "w1\<lparr>pSessions := AList.update ''r1'' ?s (pSessions w1)\<rparr>"])
      (use sample_valid t in auto)
  have "AcceptPairing sample_pair ''r1'' sample_asked_world = (Inr dc, w2)"
    using w1 f
    by (simp add: AcceptPairing_def validateUUID_def seqE_def bindE_def p_now_run find_session_run put_session_run Let_def
        sample_asked_def [THEN arg_cong, of psRequest] sample_asked_world_def initial_pairing_def)
      (simp add: sample_asked_def with_request_def sample_session_def)
  then have w: "?w = w2" by simp
  obtain n where "pTrustedRows w2 = TrustedUpsert (session_trust sample_session n) (pTrustedRows w1)"
    using finalize_Inr [OF f] t by auto
  then obtain d where d: "TrustedGet (pTrustedRows ?w) ''peer'' = Inr d"
    unfolding w by (simp add: trusted_upsert session_trust_def sample_session_def)
  have u: "TrustedGet (pTrustedRows sample_asked_world) ''peer'' = Inl ErrTrustedDeviceNotFound"
    by (simp add: sample_asked_world_def initial_pairing_def TrustedGet_def select_def)
  have s: "\<forall>(rid, s) \<in> set (pSessions sample_asked_world). \<not> prLocalConfirmed (psRequest s)"
    by (simp add: sample_asked_world_def sample_asked_def)
  have "tdPairingKey d = b64_encode sample_pair_secret"
    using trust_needs_consent [OF s u d]
    by (auto simp: Cons_eq_append_conv sample_asked_world_def sample_asked_def with_request_def sample_session_def)
  then show ?thesis using d by blast
qed

definition sample_begin :: begin_request where
  "sample_begin = \<lparr>brProtocolVersion = 1, brRequestID = ''r1'', brDeviceID = ''peer'', brDeviceName = ''Peer'',
     brPlatform = ''linux'', brPublicKey = b64_encode sample_pair_key, brEphemeralKey = b64_encode (pad32 ''e''),
     brTimestamp = int_dec 0, brNonce = ''n'', brSignature = b64_encode (replicate 64 CHR ''s'')\<rparr>"

definition sample_me :: device where
  "sample_me = sample_peer\<lparr>dID := ''me'', dIdentityHint :=
     shortFingerprint (IdentityFingerprint sample_pair (public_half sample_key))\<rparr>"

lemma sample_timestamp: "validProtocolTimestamp (int_dec 0) (unix 0) protocolMaxSkew"
  by (simp add: validProtocolTimestamp_def parse_int_dec in64_def unix_def second_def protocolMaxSkew_def)

lemma sample_answer: "\<exists>response w. begin_respond sample_pair sample_begin p k 0
    (initial_pairing sample_identity []) = (Inr response, w) \<and> bsEphemeralKey response = b64_encode (pad32 ''e'') \<and>
    bsPublicKey response = b64_encode (public_half sample_key) \<and> bsTimestamp response = int_dec 0 \<and>
    bsDeviceID response = ''me'' \<and> bsRequestID response = ''r1'' \<and> bsProtocolVersion response = 1 \<and>
    bsSignature response = b64_encode (replicate 64 CHR ''s'')"
  by (simp add: begin_respond_def begin_response_to_def newEphemeral_def bindE_def seqE_def put_session_run p_publish_def
      Let_def begin_install_def p_outE_run p_out_run derivePairing_def b64_roundtrip sample_begin_def length_pad32
      initial_pairing_def signResponse_def pairingProtocolVersion_def sample_identity_def unix_def)

lemma sample_request_done:
  assumes "bsEphemeralKey response = b64_encode (pad32 ''e'')" "bsPublicKey response = b64_encode (public_half sample_key)"
    "bsTimestamp response = int_dec 0" "bsDeviceID response = ''me''" "bsRequestID response = ''r1''"
    "bsProtocolVersion response = 1" "bsSignature response = b64_encode (replicate 64 CHR ''s'')"
  shows "\<exists>rq v'. request_finish sample_pair sample_me ''e'' sample_begin response 0 v = (Inr rq, v')"
proof -
  have "verifyResponse sample_pair response = Inr (public_half sample_key)"
    by (simp add: verifyResponse_def verifySignature_Inr assms b64_roundtrip sample_key_def public_half_def)
  then have "validateBeginResponse sample_pair sample_me sample_begin response 0 = Inr (public_half sample_key)"
    using assms sample_timestamp
    by (simp add: validateBeginResponse_def pairingProtocolVersion_def sample_begin_def sample_me_def)
  then show ?thesis
    by (simp add: request_finish_def bindE_def seqE_def put_session_run p_publish_def derivePairing_def b64_roundtrip
        assms length_pad32 Let_def)
qed

lemma sample_ecdh: "ecdh_commutes sample_pair"
  by (simp add: ecdh_commutes_def length_pad32)

theorem exchange_agrees_witness:
  "\<exists>response w rq v s t.
     begin_respond sample_pair sample_begin sample_pair_peer sample_pair_key 0 (initial_pairing sample_identity []) = (Inr response, w) \<and>
     request_finish sample_pair sample_me ''e'' sample_begin response 0 (initial_pairing sample_identity []) = (Inr rq, v) \<and>
     map_of (pSessions w) ''r1'' = Some s \<and> map_of (pSessions v) ''r1'' = Some t \<and> psSecret s = psSecret t"
proof -
  obtain response w where a: "begin_respond sample_pair sample_begin sample_pair_peer sample_pair_key 0
      (initial_pairing sample_identity []) = (Inr response, w)"
    and r: "bsEphemeralKey response = b64_encode (pad32 ''e'')" "bsPublicKey response = b64_encode (public_half sample_key)"
    "bsTimestamp response = int_dec 0" "bsDeviceID response = ''me''" "bsRequestID response = ''r1''"
    "bsProtocolVersion response = 1" "bsSignature response = b64_encode (replicate 64 CHR ''s'')"
    using sample_answer [of sample_pair_peer sample_pair_key] by blast
  obtain rq v where b: "request_finish sample_pair sample_me ''e'' sample_begin response 0
      (initial_pairing sample_identity []) = (Inr rq, v)"
    using sample_request_done [OF r] by blast
  have e: "brEphemeralKey sample_begin = b64_encode (pX25519 sample_pair ''e'')" "brRequestID sample_begin = ''r1''"
    by (simp_all add: sample_begin_def)
  show ?thesis using a b exchange_agrees [OF a b e(1) sample_ecdh] e(2) by auto
qed

theorem pending_panics_witness:
  "\<exists>w t. fst (RequestPairing sample_pair ''peer'' (w\<lparr>pTick := t\<rparr>)) = Inl ErrPairingPanic"
proof -
  let ?B = "sample_peer\<lparr>dIdentityHint := ''h''\<rparr>" and ?w = "initial_pairing sample_identity []"
  obtain response w1 where a: "begin_respond sample_pair sample_begin ?B sample_pair_key 0 ?w = (Inr response, w1)"
    and r: "bsEphemeralKey response = b64_encode (pad32 ''e'')" "bsPublicKey response = b64_encode (public_half sample_key)"
    "bsTimestamp response = int_dec 0" "bsDeviceID response = ''me''" "bsRequestID response = ''r1''"
    "bsProtocolVersion response = 1" "bsSignature response = b64_encode (replicate 64 CHR ''s'')"
    using sample_answer [of ?B sample_pair_key] by blast
  obtain rq w2 where b: "request_finish sample_pair sample_me ''e'' sample_begin response 0 w1 = (Inr rq, w2)"
    using sample_request_done [OF r] by blast
  have i: "pSessions ?w = []" "TrustedGet (pTrustedRows ?w) ''peer'' = Inl ErrTrustedDeviceNotFound"
    by (simp_all add: initial_pairing_def TrustedGet_def select_def)
  have d: "brDeviceID sample_begin = ''peer''" "dID sample_me \<noteq> brDeviceID sample_begin"
    by (simp_all add: sample_begin_def sample_me_def)
  have t: "\<forall>k \<ge> 400. 0 + psRequestTTL sample_pair < hNow sample_pair k"
  proof (intro allI impI)
    fix k :: nat assume "400 \<le> k"
    then have "400 * second \<le> int (min k 1000) * second" by (simp add: second_def)
    then show "0 + psRequestTTL sample_pair < hNow sample_pair k" by (simp add: minute_def second_def)
  qed
  have "fst (RequestPairing sample_pair (brDeviceID sample_begin) (w2\<lparr>pTick := 400\<rparr>)) = Inl ErrPairingPanic"
    by (rule pending_panics [OF i(1) a b refl d(2) refl t])
      (simp_all add: d(1) i(2) sample_peer_def)
  then show ?thesis unfolding d(1) by blast
qed

end
