(* ===== verification/GoValues.thy ===== *)
theory GoValues
  imports GoNet "HOL-Library.Product_Lexorder" "HOL-Library.Word"
begin

text \<open>
  More of Go's standard library: \<open>net.IP\<close> values as byte slices, their classes and their
  text, \<open>ParseCIDR\<close>, and the values \<open>strconv\<close> returns together with an error the caller ignores.
\<close>

section \<open>IP addresses as bytes\<close>

text \<open>A nil slice is the empty list. Every byte is between 0 and 255.\<close>

type_synonym ip = "int list"

definition to4 :: "ip \<Rightarrow> int list option" where
  "to4 i = (if length i = 4 then Some i
     else if length i = 16 \<and> take 12 i = replicate 10 0 @ [255, 255] then Some (drop 12 i)
     else None)"

definition to16 :: "ip \<Rightarrow> ip" where
  "to16 i = (if length i = 4 then v4_mapped i else i)"

definition is_unspecified :: "ip \<Rightarrow> bool" where
  "is_unspecified i \<longleftrightarrow> to16 i = v4_mapped [0, 0, 0, 0] \<or> to16 i = replicate 16 0"

definition is_loopback :: "ip \<Rightarrow> bool" where
  "is_loopback i = (case to4 i of
       Some b \<Rightarrow> b ! 0 = 127
     | None \<Rightarrow> to16 i = replicate 15 0 @ [1])"

definition is_multicast :: "ip \<Rightarrow> bool" where
  "is_multicast i = (case to4 i of
       Some b \<Rightarrow> b ! 0 div 16 = 14
     | None \<Rightarrow> length i = 16 \<and> i ! 0 = 255)"

definition is_link_local :: "ip \<Rightarrow> bool" where
  "is_link_local i = (case to4 i of
       Some b \<Rightarrow> b ! 0 = 169 \<and> b ! 1 = 254
     | None \<Rightarrow> length i = 16 \<and> i ! 0 = 254 \<and> i ! 1 div 64 = 2)"

definition is_private :: "ip \<Rightarrow> bool" where
  "is_private i = (case to4 i of
       Some b \<Rightarrow> b ! 0 = 10 \<or> (b ! 0 = 172 \<and> b ! 1 div 16 = 1) \<or> (b ! 0 = 192 \<and> b ! 1 = 168)
     | None \<Rightarrow> length i = 16 \<and> i ! 0 div 2 = 126)"

subsection \<open>Text\<close>

fun nat_hex :: "nat \<Rightarrow> string" where
  "nat_hex n = (if n < 16 then [hex_digit n] else nat_hex (n div 16) @ [hex_digit (n mod 16)])"

declare nat_hex.simps [simp del]

fun fields16 :: "int list \<Rightarrow> int list" where
  "fields16 (a # b # r) = (256 * a + b) # fields16 r"
| "fields16 _ = []"

text \<open>The first longest run of at least two zero fields, as its place and length.\<close>

definition zero_run :: "int list \<Rightarrow> nat \<times> nat" where
  "zero_run fs = foldl (\<lambda>b i. let l = length (takeWhile (\<lambda>f. f = 0) (drop i fs)) in
     if 2 \<le> l \<and> snd b < l then (i, l) else b) (0, 0) [0..<length fs]"

definition v6_string :: "int list \<Rightarrow> string" where
  "v6_string fs =
     (let show_fields = (\<lambda>gs. join_with '':'' (map (\<lambda>f. nat_hex (nat f)) gs)); (i, l) = zero_run fs in
      if l = 0 then show_fields fs
      else show_fields (take i fs) @ ''::'' @ show_fields (drop (i + l) fs))"

definition ip_string :: "ip \<Rightarrow> string" where
  "ip_string i =
     (if i = [] then ''<nil>''
      else case to4 i of
        Some b \<Rightarrow> join_with ''.'' (map int_dec b)
      | None \<Rightarrow> if length i = 16 then v6_string (fields16 i)
                else CHR ''?'' # hex_encode (map (\<lambda>b. char_of (nat b)) i))"

text \<open>\<open>net.ParseCIDR\<close>, of which the callers use the address only.\<close>

definition is_dotted :: "string \<Rightarrow> bool" where
  "is_dotted s = (case dropWhile (\<lambda>c. c \<noteq> CHR ''.'' \<and> c \<noteq> CHR '':'') s of
       c # _ \<Rightarrow> c = CHR ''.''
     | [] \<Rightarrow> False)"

definition parse_cidr :: "string \<Rightarrow> ip option" where
  "parse_cidr s =
     (case cut (CHR ''/'') s of
        None \<Rightarrow> None
      | Some (addr, bits) \<Rightarrow>
          if bits \<noteq> [] \<and> list_all is_digit bits \<and>
             digits_val bits \<le> (if is_dotted addr then 32 else 128)
          then parse_ip addr else None)"

text \<open>
  \<open>net.SplitHostPort\<close>: the last colon separates the port; a host with colons stands in brackets,
  and no other bracket may occur.
\<close>

definition last_colon :: "string \<Rightarrow> nat option" where
  "last_colon s = (let r = dropWhile (\<lambda>c. c \<noteq> CHR '':'') (rev s) in if r = [] then None else Some (length r - 1))"

definition split_host_port :: "string \<Rightarrow> (string \<times> string) option" where
  "split_host_port s =
     (case last_colon s of
        None \<Rightarrow> None
      | Some i \<Rightarrow>
          if hd s = CHR ''['' then
            (let e = length (takeWhile (\<lambda>c. c \<noteq> CHR '']'') s) in
             if e = length s \<or> e + 1 \<noteq> i \<or> CHR ''['' \<in> set (drop 1 s) \<or> CHR '']'' \<in> set (drop (e + 1) s)
             then None else Some (take (e - 1) (drop 1 s), drop (i + 1) s))
          else if CHR '':'' \<in> set (take i s) \<or> CHR ''['' \<in> set s \<or> CHR '']'' \<in> set s then None
          else Some (take i s, drop (i + 1) s))"

text \<open>\<open>strings.Trim\<close> with a set of one-byte characters, and \<open>strings.EqualFold\<close>.\<close>

definition trim_set :: "string \<Rightarrow> string \<Rightarrow> string" where
  "trim_set s cs = rev (dropWhile (\<lambda>c. c \<in> set cs) (rev (dropWhile (\<lambda>c. c \<in> set cs) s)))"

definition equal_fold :: "(string \<Rightarrow> string \<Rightarrow> bool) \<Rightarrow> string \<Rightarrow> string \<Rightarrow> bool" where
  "equal_fold unicode_fold a b =
     (if is_ascii a \<and> is_ascii b then map lower_ascii a = map lower_ascii b else unicode_fold a b)"

section \<open>Values beside an ignored error\<close>

text \<open>
  \<open>x, _ := strconv.ParseInt(s, 10, 64)\<close>: zero for a syntax error, the nearest 64-bit number for
  one out of range. Digits are read from the left, so digits beyond the unsigned 64-bit range
  are out of range even before a wrong character. \<open>strconv.Atoi\<close> is the same for a 64-bit \<open>int\<close>.
\<close>

definition parse_int_value :: "string \<Rightarrow> int" where
  "parse_int_value s =
     (let (neg, ds) = (case s of [] \<Rightarrow> (False, [])
                       | c # cs \<Rightarrow> if c = CHR ''+'' then (False, cs)
                                   else if c = CHR ''-'' then (True, cs) else (False, s));
          v = digits_val (takeWhile is_digit ds)
      in if ds = [] \<or> (\<not> list_all is_digit ds \<and> v < 2 ^ 64) then 0
         else if neg then max (- (2 ^ 63)) (- v) else min (2 ^ 63 - 1) v)"

definition parse_bool_value :: "string \<Rightarrow> bool" where
  "parse_bool_value s \<longleftrightarrow> s \<in> {''1'', ''t'', ''T'', ''true'', ''TRUE'', ''True''}"

definition format_bool :: "bool \<Rightarrow> string" where
  "format_bool b = (if b then ''true'' else ''false'')"

section \<open>Laws\<close>

lemma parse_bool_format [simp]: "parse_bool_value (format_bool b) = b"
  by (simp add: parse_bool_value_def format_bool_def)

lemma digits_all: "list_all is_digit ds \<Longrightarrow> takeWhile is_digit ds = ds"
  by (simp add: takeWhile_eq_all_conv list_all_iff)

lemma parse_int_value_some: "parse_int s = Some i \<Longrightarrow> parse_int_value s = i"
  by (auto simp: digits_all parse_int_def parse_int_value_def in64_def Let_def split: list.splits if_splits)

lemma parse_int_value_dec: "in64 i \<Longrightarrow> parse_int_value (int_dec i) = i"
  by (rule parse_int_value_some [OF parse_int_dec])

lemma digits_val_nonneg: "list_all is_digit ds \<Longrightarrow> 0 \<le> digits_val ds"
proof -
  assume d: "list_all is_digit ds"
  have "0 \<le> foldl (\<lambda>n d. 10 * n + digit_val d) k ds" if "0 \<le> k" for k
    using d that by (induction ds arbitrary: k) (auto simp: digit_val_def is_digit_def Let_def)
  then show ?thesis by (simp add: digits_val_def)
qed

lemma parse_int_value_range: "in64 (parse_int_value s)"
proof -
  have v: "0 \<le> digits_val (takeWhile is_digit ds)" for ds
    by (rule digits_val_nonneg) (auto simp: list_all_iff dest: set_takeWhileD)
  have "in64 (max (- (2 ^ 63)) (- digits_val (takeWhile is_digit ds)))"
    "in64 (min (2 ^ 63 - 1) (digits_val (takeWhile is_digit ds)))" for ds
    using v [of ds] by (simp_all add: in64_def min_def max_def)
  moreover have "in64 0" by (simp add: in64_def)
  ultimately show ?thesis
    unfolding parse_int_value_def Let_def by (simp only: split: prod.splits if_splits) simp
qed

lemma nat_dec_leading: "hd (nat_dec n) = CHR ''0'' \<Longrightarrow> n = 0"
proof (induction n rule: nat_dec.induct)
  case (1 n)
  have char: "char_of (48 + m :: nat) = CHR ''0'' \<Longrightarrow> m < 10 \<Longrightarrow> m = 0" for m
    by (drule arg_cong [where f = "of_char :: char \<Rightarrow> nat"]) simp
  show ?case
  proof (cases "n < 10")
    case True
    then show ?thesis using 1(2) char [of n] by (subst (asm) nat_dec.simps) simp
  next
    case False
    then have "hd (nat_dec (n div 10)) = CHR ''0''"
      using 1(2) by (subst (asm) nat_dec.simps) (simp add: nat_dec_nonempty)
    then show ?thesis using 1(1) False by simp
  qed
qed

lemma octet_dec: "0 \<le> x \<Longrightarrow> x \<le> 255 \<Longrightarrow> octet (int_dec x) = Some x"
proof -
  assume x: "0 \<le> x" "x \<le> 255"
  let ?s = "nat_dec (nat x)"
  have "length ?s = 1" if "hd ?s = CHR ''0''" using nat_dec_leading [OF that] by (simp add: nat_dec.simps)
  then show ?thesis
    using x by (auto simp: octet_def int_dec_def nat_dec_nonempty nat_dec_digits nat_dec_val)
qed

text \<open>A dotted address reads back as its four bytes.\<close>

lemma parse_ip_dotted:
  assumes "to4 i = Some [a, b, c, d]" "\<forall>x \<in> {a, b, c, d}. 0 \<le> x \<and> x \<le> 255"
  shows "parse_ip (ip_string i) = Some (v4_mapped [a, b, c, d])"
proof -
  have digits: "list_all is_digit (int_dec x)" if "0 \<le> x" for x
    using that by (simp add: int_dec_def nat_dec_digits)
  have sep: "q \<notin> set (int_dec x)" if "0 \<le> x" "\<not> is_digit q" for x q
    using digits [OF that(1)] that(2) by (auto simp: list_all_iff)
  have nd: "\<not> is_digit CHR ''.''" "\<not> is_digit CHR '':''" "\<not> is_digit CHR ''%''" by code_simp+
  let ?parts = "map int_dec [a, b, c, d]"
  have s: "ip_string i = join_with ''.'' ?parts"
    using assms(1) by (auto simp: ip_string_def to4_def)
  have "split_on CHR ''.'' (join_with ''.'' ?parts) = ?parts"
    by (rule split_join) (use assms(2) sep nd in auto)
  then have v: "parse_v4 (ip_string i) = Some [a, b, c, d]"
    using assms(2) by (simp add: s parse_v4_def octet_dec)
  have "dropWhile (\<lambda>q. q \<noteq> CHR ''.'' \<and> q \<noteq> CHR '':'' \<and> q \<noteq> CHR ''%'') (int_dec a @ CHR ''.'' # r) = CHR ''.'' # r" for r
  proof (subst dropWhile_append2)
    show "q \<noteq> CHR ''.'' \<and> q \<noteq> CHR '':'' \<and> q \<noteq> CHR ''%''" if "q \<in> set (int_dec a)" for q
      using sep [of a q] nd that assms(2) by auto
  qed simp
  then show ?thesis using v by (simp add: parse_ip_def s)
qed

lemma length_join_le: "list_all (\<lambda>p. length p \<le> m) ps \<Longrightarrow> length (join_with [c] ps) \<le> (m + 1) * length ps"
  by (induction "[c]" ps rule: join_with.induct) auto

end
