(* ===== verification/DiscoveryNet.thy ===== *)
theory DiscoveryNet
  imports GoValues
begin

text \<open>
  \<open>discovery/network.go\<close>: which network interface and address this device announces, and the
  fingerprint by which the discovery session notices that the network changed.

  The interfaces of the machine, their addresses and the descriptions Windows keeps of them
  (\<open>network_metadata_windows.go\<close>; the map is empty elsewhere) are arguments. \<open>sort.Slice\<close> is
  the stable sort it is for up to twelve elements; candidates that compare equal have the same
  score, address and name but for its case.
\<close>

section \<open>Interfaces\<close>

definition FlagUp :: "64 word" where
  "FlagUp = 1"

definition FlagLoopback :: "64 word" where
  "FlagLoopback = 4"

definition FlagMulticast :: "64 word" where
  "FlagMulticast = 16"

record interface_address =
  iaIndex :: int
  iaName :: string
  iaDescription :: string
  iaFlags :: "64 word"
  iaIP :: ip

record selected_interface = interface_address +
  siScore :: int
  siReason :: string

record network_snapshot =
  nsFingerprint :: string
  nsPrimaryIP :: string
  nsInterfaceName :: string
  nsInterfaceDescription :: string
  nsSelectionReason :: string

definition no_network :: network_snapshot where
  "no_network = \<lparr>nsFingerprint = [], nsPrimaryIP = [], nsInterfaceName = [],
     nsInterfaceDescription = [], nsSelectionReason = []\<rparr>"

text \<open>A \<open>net.Interface\<close>, with what its method \<open>Addrs\<close> returns as text.\<close>

record net_interface =
  niIndex :: int
  niName :: string
  niFlags :: "64 word"
  niAddrs :: "string list option"

section \<open>Classification\<close>

definition interfaceIdentity :: "('r) interface_address_scheme \<Rightarrow> string" where
  "interfaceIdentity c = trim_space (iaName c @ '' '' @ iaDescription c)"

definition privateIPv4Range :: "ip \<Rightarrow> string" where
  "privateIPv4Range i = (case to4 i of
       None \<Rightarrow> []
     | Some b \<Rightarrow>
         if b ! 0 = 192 \<and> b ! 1 = 168 then ''192.168/16''
         else if b ! 0 = 10 then ''10/8''
         else if b ! 0 = 172 \<and> 16 \<le> b ! 1 \<and> b ! 1 \<le> 31 then ''172.16/12''
         else [])"

definition isPhysicalLANInterface :: "(string \<Rightarrow> string) \<Rightarrow> string \<Rightarrow> bool" where
  "isPhysicalLANInterface lower name =
     (let normalized = to_lower lower (trim_space name) in
      list_ex (str_contains normalized)
        [''wi-fi'', ''wifi'', ''wireless'', ''wlan'', ''ethernet'', ''local area connection''] \<or>
      list_ex (has_prefix normalized) [''eth'', ''en'', ''wl''])"

definition isObviousVirtualInterface :: "(string \<Rightarrow> string) \<Rightarrow> string \<Rightarrow> bool" where
  "isObviousVirtualInterface lower name =
     (let normalized = to_lower lower (trim_space name) in
      list_ex (str_contains normalized)
        [''wsl'', ''hyper-v'', ''vethernet'', ''veth'', ''docker'', ''container'',
         ''vmware'', ''virtualbox'', ''vbox'', ''tailscale'', ''loopback'',
         ''bluetooth'', ''teredo'', ''wireguard'', ''openvpn'', ''tap-windows'',
         ''utun'', ''virbr'', ''vpn''] \<or>
      has_prefix normalized ''wg'' \<or> has_prefix normalized ''tun'' \<or>
      has_prefix normalized ''tap'' \<or> has_prefix normalized ''br-'')"

definition usableLocalIP :: "ip \<Rightarrow> bool" where
  "usableLocalIP i \<longleftrightarrow>
     i \<noteq> [] \<and> \<not> is_unspecified i \<and> \<not> is_loopback i \<and> \<not> is_multicast i \<and> \<not> is_link_local i"

section \<open>Selection\<close>

definition flag_set :: "64 word \<Rightarrow> 64 word \<Rightarrow> bool" where
  "flag_set flags f \<longleftrightarrow> and flags f \<noteq> 0"

definition scoreInterface :: "(string \<Rightarrow> string) \<Rightarrow> ('r) interface_address_scheme \<Rightarrow> int \<times> string" where
  "scoreInterface lower c =
     (let (s1, r1) = (if isPhysicalLANInterface lower (interfaceIdentity c)
            then (1000, ''active Wi-Fi/Ethernet interface'') else (0, ''active non-virtual interface''));
          range = privateIPv4Range (iaIP c);
          (s2, r2) =
            (if range = ''192.168/16'' then (300, ''preferred 192.168/16 private IPv4'')
             else if range = ''10/8'' then (250, ''preferred 10/8 private IPv4'')
             else if range = ''172.16/12'' then (200, ''non-virtual 172.16/12 private IPv4'')
             else if to4 (iaIP c) \<noteq> None then (100, ''usable IPv4 fallback'')
             else (20, ''usable IPv6 fallback''));
          s3 = (if flag_set (iaFlags c) FlagMulticast then 5 else 0)
      in (s1 + s2 + s3, join_with ''; '' [r1, r2]))"

definition eligible_interface :: "(string \<Rightarrow> string) \<Rightarrow> ('r) interface_address_scheme \<Rightarrow> bool" where
  "eligible_interface lower c \<longleftrightarrow>
     flag_set (iaFlags c) FlagUp \<and> \<not> flag_set (iaFlags c) FlagLoopback \<and>
     \<not> isObviousVirtualInterface lower (interfaceIdentity c) \<and> usableLocalIP (iaIP c)"

definition selected :: "(string \<Rightarrow> string) \<Rightarrow> interface_address \<Rightarrow> selected_interface" where
  "selected lower c = (let (score, reason) = scoreInterface lower c in
     interface_address.extend c \<lparr>siScore = score, siReason = reason\<rparr>)"

definition rank_key :: "(string \<Rightarrow> string) \<Rightarrow> selected_interface \<Rightarrow> int \<times> string \<times> string" where
  "rank_key lower r = (- siScore r, to_lower lower (iaName r), ip_string (iaIP r))"

definition selectPreferredInterface ::
  "(string \<Rightarrow> string) \<Rightarrow> interface_address list \<Rightarrow> selected_interface option \<times> interface_address list" where
  "selectPreferredInterface lower candidates =
     (let eligible = filter (eligible_interface lower) candidates;
          ranked = sort_key (rank_key lower) (map (selected lower) eligible)
      in (case ranked of [] \<Rightarrow> (None, eligible) | best # _ \<Rightarrow> (Some best, eligible)))"

definition interface_candidates ::
  "(int \<rightharpoonup> string) \<Rightarrow> net_interface \<Rightarrow> interface_address list" where
  "interface_candidates descriptions n =
     (case niAddrs n of
        None \<Rightarrow> []
      | Some addrs \<Rightarrow>
          map (\<lambda>i. \<lparr>iaIndex = niIndex n, iaName = niName n,
                 iaDescription = (case descriptions (niIndex n) of None \<Rightarrow> [] | Some d \<Rightarrow> d),
                 iaFlags = niFlags n, iaIP = i\<rparr>)
            (List.map_filter parse_cidr addrs))"

definition interface_label :: "interface_address \<Rightarrow> string" where
  "interface_label c = int_dec (iaIndex c) @ '':'' @ iaName c @ '':'' @ ip_string (iaIP c)"

definition inspectNetwork ::
  "(string \<Rightarrow> string) \<Rightarrow> (int \<rightharpoonup> string) \<Rightarrow> string + net_interface list \<Rightarrow> string + network_snapshot" where
  "inspectNetwork lower descriptions interfaces =
     (case interfaces of
        Inl e \<Rightarrow> Inl (''list network interfaces: '' @ e)
      | Inr ns \<Rightarrow>
          let candidates = concat (map (interface_candidates descriptions) ns);
              (selection, eligible) = selectPreferredInterface lower candidates
          in case selection of
               None \<Rightarrow> Inr no_network
             | Some s \<Rightarrow>
                 Inr \<lparr>nsFingerprint = join_with ''|'' (sort (map interface_label eligible)),
                      nsPrimaryIP = ip_string (iaIP s), nsInterfaceName = iaName s,
                      nsInterfaceDescription = iaDescription s, nsSelectionReason = siReason s\<rparr>)"

text \<open>\<open>bestAddress\<close> of \<open>service.go\<close>: the address of a peer among those it announced.\<close>

definition bestAddress :: "ip list \<Rightarrow> ip list \<Rightarrow> ip option" where
  "bestAddress ipv4 ipv6 =
     (case List.map_filter (\<lambda>(ok, ips). find_first (\<lambda>i. usableLocalIP i \<and> ok i) ips)
         [(\<lambda>i. privateIPv4Range i = ''192.168/16'', ipv4),
          (\<lambda>i. privateIPv4Range i = ''10/8'', ipv4),
          (\<lambda>i. privateIPv4Range i = ''172.16/12'', ipv4),
          (\<lambda>_. True, ipv4), (is_private, ipv6), (\<lambda>_. True, ipv6)]
      of [] \<Rightarrow> None | i # _ \<Rightarrow> Some i)"

section \<open>What is selected\<close>

text \<open>
  The order of preference the scores encode: a physical interface before any other, then the
  kind of address, then whether the interface does multicast.
\<close>

definition range_rank :: "ip \<Rightarrow> nat" where
  "range_rank i = (let r = privateIPv4Range i in
     if r = ''192.168/16'' then 4 else if r = ''10/8'' then 3 else if r = ''172.16/12'' then 2
     else if to4 i \<noteq> None then 1 else 0)"

definition preference :: "(string \<Rightarrow> string) \<Rightarrow> interface_address \<Rightarrow> bool \<times> nat \<times> bool" where
  "preference lower c = (isPhysicalLANInterface lower (interfaceIdentity c), range_rank (iaIP c),
     flag_set (iaFlags c) FlagMulticast)"

lemma siScore_selected [simp]: "siScore (selected lower c) = fst (scoreInterface lower c)"
  by (simp add: selected_def interface_address.defs split: prod.splits)

lemma score_preference:
  "fst (scoreInterface lower d) \<le> fst (scoreInterface lower c) \<longleftrightarrow> preference lower d \<le> preference lower c"
  by (simp add: scoreInterface_def preference_def range_rank_def Let_def less_eq_prod_def)

lemma sort_key_hd: "sort_key f xs = y # ys \<Longrightarrow> x \<in> set xs \<Longrightarrow> f y \<le> f x"
  using sorted_sort_key [of f xs] set_sort [of f xs] by auto

lemma bestAddress_Some:
  assumes "bestAddress v4 v6 = Some i"
  shows "usableLocalIP i \<and> i \<in> set v4 \<union> set v6 \<and> (i \<notin> set v4 \<longrightarrow> (\<forall>j \<in> set v4. \<not> usableLocalIP j))"
proof -
  have n: "(find_first P xs = None) = (\<forall>x \<in> set xs. \<not> P x)" for P and xs :: "ip list"
    by (rule find_first_None)
  show ?thesis
    using assms
    by (auto simp: bestAddress_def List.map_filter_simps n dest!: find_first_SomeD split: option.splits)
qed

text \<open>The interface a device announces itself on is up, no loopback and not virtual, its address is usable, and
  no other such interface is preferable: a physical one comes before the others, then an address of 192.168/16,
  of 10/8, of 172.16/12, another IPv4 address, then multicast. There is none only if none is eligible.\<close>

theorem selectPreferredInterface_best:
  "case selectPreferredInterface lower cs of
     (None, _) \<Rightarrow> \<forall>c \<in> set cs. \<not> eligible_interface lower c
   | (Some s, _) \<Rightarrow> \<exists>c \<in> set cs. eligible_interface lower c \<and> s = selected lower c \<and>
       (\<forall>d \<in> set cs. eligible_interface lower d \<longrightarrow> preference lower d \<le> preference lower c)"
proof -
  let ?el = "filter (eligible_interface lower) cs"
  show ?thesis
  proof (cases "sort_key (rank_key lower) (map (selected lower) ?el)")
    case Nil
    then have "?el = []" by (metis length_sort list.size(3) length_0_conv map_is_Nil_conv)
    then show ?thesis using Nil by (simp add: selectPreferredInterface_def filter_empty_conv)
  next
    case (Cons s rest)
    have "s \<in> set (map (selected lower) ?el)" by (metis Cons list.set_intros(1) set_sort)
    then obtain c where c: "c \<in> set cs" "eligible_interface lower c" "s = selected lower c" by auto
    have "preference lower d \<le> preference lower c" if "d \<in> set cs" "eligible_interface lower d" for d
    proof -
      have "rank_key lower s \<le> rank_key lower (selected lower d)"
        by (rule sort_key_hd [OF Cons]) (use that in auto)
      then have "fst (scoreInterface lower d) \<le> fst (scoreInterface lower c)"
        by (auto simp: c(3) rank_key_def less_eq_prod_def)
      then show ?thesis by (simp only: score_preference)
    qed
    then show ?thesis using c Cons by (auto simp: selectPreferredInterface_def)
  qed
qed

section \<open>An example machine\<close>

definition sample_interfaces :: "interface_address list" where
  "sample_interfaces =
     [\<lparr>iaIndex = 1, iaName = ''lo'', iaDescription = [], iaFlags = 5, iaIP = v4_mapped [127, 0, 0, 1]\<rparr>,
      \<lparr>iaIndex = 2, iaName = ''docker0'', iaDescription = [], iaFlags = 17, iaIP = v4_mapped [192, 168, 9, 1]\<rparr>,
      \<lparr>iaIndex = 3, iaName = ''eth0'', iaDescription = [], iaFlags = 17, iaIP = v4_mapped [10, 0, 0, 7]\<rparr>,
      \<lparr>iaIndex = 4, iaName = ''wlan0'', iaDescription = [], iaFlags = 17, iaIP = v4_mapped [192, 168, 1, 7]\<rparr>]"

lemma sample_selection:
  "map_option iaName (fst (selectPreferredInterface id sample_interfaces)) = Some ''wlan0''"
  by code_simp

theorem selectPreferredInterface_best_witness:
  "\<exists>c \<in> set sample_interfaces. eligible_interface id c \<and> iaName (selected id c) = ''wlan0'' \<and>
     (\<forall>d \<in> set sample_interfaces. eligible_interface id d \<longrightarrow> preference id d \<le> preference id c)"
  using selectPreferredInterface_best [where lower = id and cs = sample_interfaces] sample_selection
  by (auto split: prod.splits option.splits)

end
