(* ===== verification/DiscoveryRegistry.thy ===== *)
theory DiscoveryRegistry
  imports TransferWorld DiscoveryNet
begin

text \<open>
  \<open>discovery/registry.go\<close>: the store of the peers seen on the network. \<open>Upsert\<close> records a sighting,
  \<open>Sweep\<close> marks peers offline and forgets them, and every meaningful change is published.

  The map of devices is an association list in the order in which Go happens to iterate over it,
  so a theorem for all lists is one for every order. \<open>rgPublished\<close> is what the publisher received,
  the newest first; log lines are left out.
\<close>

section \<open>The registry\<close>

datatype discovery_error = ErrInvalidDevice | ErrDuplicateIdentity | DiscoveryError string

record registry =
  rgDevices :: "(string \<times> device) list"
  rgSelfID :: string
  rgOfflineAfter :: int
  rgRemoveAfter :: int
  rgPublisher :: bool
  rgPublished :: "discovery_event list"

definition NewRegistry :: "string \<Rightarrow> int \<Rightarrow> int \<Rightarrow> bool \<Rightarrow> discovery_error + registry" where
  "NewRegistry selfID offlineAfter removeAfter publisher =
     (if offlineAfter \<le> 0 \<or> removeAfter \<le> offlineAfter
      then Inl (DiscoveryError ''remove timeout must be greater than a positive offline timeout'')
      else Inr \<lparr>rgDevices = [], rgSelfID = selfID, rgOfflineAfter = offlineAfter,
        rgRemoveAfter = removeAfter, rgPublisher = publisher, rgPublished = []\<rparr>)"

definition validateDiscoveredDevice :: "('r) host_scheme \<Rightarrow> device \<Rightarrow> discovery_error + unit" where
  "validateDiscoveredDevice E d =
     (if \<not> hUuidOk E (dID d) then Inl ErrInvalidDevice
      else if trim_space (dName d) = [] \<or> 128 < length (dName d) \<or>
        255 < length (dHostname d) \<or>
        trim_space (dType d) = [] \<or> 32 < length (dType d) \<or>
        trim_space (dPlatform d) = [] \<or> 32 < length (dPlatform d) \<or>
        trim_space (dAppVersion d) = [] \<or> 64 < length (dAppVersion d) \<or>
        32 < length (dIdentityHint d) \<or>
        parse_ip (dLocalIP d) = None \<or> dPort d < 1 \<or> 65535 < dPort d
      then Inl ErrInvalidDevice
      else Inr ())"

definition identityConflicts :: "device \<Rightarrow> device \<Rightarrow> bool" where
  "identityConflicts existing incoming =
     (if dIdentityHint existing = [] then False
      else dIdentityHint incoming = [] \<or> dIdentityHint existing \<noteq> dIdentityHint incoming)"

definition metadataChanged :: "device \<Rightarrow> device \<Rightarrow> bool" where
  "metadataChanged existing incoming \<longleftrightarrow>
     dName existing \<noteq> dName incoming \<or>
     dHostname existing \<noteq> dHostname incoming \<or>
     dType existing \<noteq> dType incoming \<or>
     dPlatform existing \<noteq> dPlatform incoming \<or>
     dLocalIP existing \<noteq> dLocalIP incoming \<or>
     dPort existing \<noteq> dPort incoming \<or>
     dAppVersion existing \<noteq> dAppVersion incoming \<or>
     dAvailableStorage existing \<noteq> dAvailableStorage incoming \<or>
     dTransferCapability existing \<noteq> dTransferCapability incoming \<or>
     dSupportedProtocolVersion existing \<noteq> dSupportedProtocolVersion incoming \<or>
     dMaximumChunkSize existing \<noteq> dMaximumChunkSize incoming \<or>
     dCompressionSupport existing \<noteq> dCompressionSupport incoming \<or>
     dIdentityHint existing \<noteq> dIdentityHint incoming \<or>
     dPairingAvailable existing \<noteq> dPairingAvailable incoming"

definition newEvent :: "discovery_event_type \<Rightarrow> device \<Rightarrow> time \<Rightarrow> discovery_event" where
  "newEvent eventType d timestamp = \<lparr>deType = eventType, deDevice = d, deTimestamp = timestamp\<rparr>"

definition publishEvent :: "discovery_event \<Rightarrow> registry \<Rightarrow> registry" where
  "publishEvent e r = (if rgPublisher r then r\<lparr>rgPublished := e # rgPublished r\<rparr> else r)"

definition Upsert :: "('r) host_scheme \<Rightarrow> device \<Rightarrow> time \<Rightarrow> registry \<Rightarrow> (discovery_error + unit) \<times> registry" where
  "Upsert E incoming observedAt r =
     (case validateDiscoveredDevice E incoming of
        Inl e \<Rightarrow> (Inl e, r)
      | Inr _ \<Rightarrow>
          if dID incoming = rgSelfID r then (Inr (), r)
          else
            let d = incoming\<lparr>dLastSeen := observedAt, dOnline := True, dConnectionState := ConnectionOnline\<rparr>;
                r' = r\<lparr>rgDevices := AList.update (dID d) d (rgDevices r)\<rparr>
            in case map_of (rgDevices r) (dID d) of
                 None \<Rightarrow> (Inr (), publishEvent (newEvent EventDeviceDiscovered d observedAt) r')
               | Some existing \<Rightarrow>
                   if identityConflicts existing d then (Inl ErrDuplicateIdentity, r)
                   else if \<not> dOnline existing \<or> metadataChanged existing d
                   then (Inr (), publishEvent (newEvent EventDeviceUpdated d observedAt) r')
                   else (Inr (), r'))"

definition ListDevices :: "('r) host_scheme \<Rightarrow> registry \<Rightarrow> device list" where
  "ListDevices E r = sort_key (\<lambda>d. (to_lower (hLower E) (dName d), dID d)) (map snd (rgDevices r))"

text \<open>One round of the loop of \<open>Sweep\<close>: what becomes of the entry, and the event it causes.\<close>

definition went_offline :: "device \<Rightarrow> device" where
  "went_offline d = d\<lparr>dOnline := False, dConnectionState := ConnectionOffline\<rparr>"

definition sweep_entry :: "registry \<Rightarrow> time \<Rightarrow> string \<times> device \<Rightarrow>
    (string \<times> device) option \<times> discovery_event option" where
  "sweep_entry r n entry = (let (i, d) = entry; age = n - dLastSeen d in
     if rgRemoveAfter r \<le> age then (None, Some (newEvent EventDeviceRemoved (went_offline d) n))
     else if dOnline d \<and> rgOfflineAfter r \<le> age
     then (Some (i, went_offline d), Some (newEvent EventDeviceOffline (went_offline d) n))
     else (Some (i, d), None))"

definition sweep_kept :: "registry \<Rightarrow> time \<Rightarrow> (string \<times> device) list \<Rightarrow> (string \<times> device) list" where
  "sweep_kept r n es = List.map_filter (\<lambda>e. fst (sweep_entry r n e)) es"

definition sweep_events :: "registry \<Rightarrow> time \<Rightarrow> (string \<times> device) list \<Rightarrow> discovery_event list" where
  "sweep_events r n es = List.map_filter (\<lambda>e. snd (sweep_entry r n e)) es"

definition Sweep :: "time \<Rightarrow> registry \<Rightarrow> registry" where
  "Sweep n r =
     fold publishEvent (sweep_events r n (rgDevices r)) (r\<lparr>rgDevices := sweep_kept r n (rgDevices r)\<rparr>)"

section \<open>The registry under every sequence of calls\<close>

datatype registry_call = RUpsert device time | RSweep time

fun registry_step :: "('r) host_scheme \<Rightarrow> registry_call \<Rightarrow> registry \<Rightarrow> registry" where
  "registry_step E (RUpsert d n) r = snd (Upsert E d n r)"
| "registry_step E (RSweep n) r = Sweep n r"

definition registry_run :: "('r) host_scheme \<Rightarrow> registry_call list \<Rightarrow> registry \<Rightarrow> registry" where
  "registry_run E cs r = fold (registry_step E) cs r"

section \<open>The invariant\<close>

definition entry_ok :: "('r) host_scheme \<Rightarrow> registry \<Rightarrow> string \<times> device \<Rightarrow> bool" where
  "entry_ok E r entry \<longleftrightarrow> (let (i, d) = entry in
     dID d = i \<and> i \<noteq> rgSelfID r \<and> validateDiscoveredDevice E d = Inr () \<and>
     dConnectionState d = (if dOnline d then ConnectionOnline else ConnectionOffline))"

definition registry_ok :: "('r) host_scheme \<Rightarrow> registry \<Rightarrow> bool" where
  "registry_ok E r \<longleftrightarrow> distinct (map fst (rgDevices r)) \<and> list_all (entry_ok E r) (rgDevices r) \<and>
     0 < rgOfflineAfter r \<and> rgOfflineAfter r < rgRemoveAfter r"

lemma publishEvent_simps [simp]:
  "rgDevices (publishEvent e r) = rgDevices r" "rgSelfID (publishEvent e r) = rgSelfID r"
  "rgOfflineAfter (publishEvent e r) = rgOfflineAfter r" "rgRemoveAfter (publishEvent e r) = rgRemoveAfter r"
  "rgPublisher (publishEvent e r) = rgPublisher r"
  "rgPublished (publishEvent e r) = (if rgPublisher r then e # rgPublished r else rgPublished r)"
  by (simp_all add: publishEvent_def)

lemma publish_all_simps [simp]:
  "rgDevices (fold publishEvent es r) = rgDevices r" "rgSelfID (fold publishEvent es r) = rgSelfID r"
  "rgOfflineAfter (fold publishEvent es r) = rgOfflineAfter r"
  "rgRemoveAfter (fold publishEvent es r) = rgRemoveAfter r"
  "rgPublisher (fold publishEvent es r) = rgPublisher r"
  by (induction es arbitrary: r) simp_all

lemma published_all: "rgPublisher r \<Longrightarrow> rgPublished (fold publishEvent es r) = rev es @ rgPublished r"
  by (induction es arbitrary: r) simp_all

lemma validate_times [simp]:
  "validateDiscoveredDevice E (d\<lparr>dLastSeen := a, dOnline := b, dConnectionState := c\<rparr>) = validateDiscoveredDevice E d"
  "validateDiscoveredDevice E (went_offline d) = validateDiscoveredDevice E d"
  by (simp_all add: validateDiscoveredDevice_def went_offline_def)

lemma went_offline_simps [simp]:
  "dID (went_offline d) = dID d" "dIdentityHint (went_offline d) = dIdentityHint d"
  "dLastSeen (went_offline d) = dLastSeen d" "\<not> dOnline (went_offline d)"
  "dConnectionState (went_offline d) = ConnectionOffline"
  by (simp_all add: went_offline_def)

text \<open>What a call can do to the entries: an upsert replaces one, a sweep keeps or switches off.\<close>

lemma Upsert_cases:
  obtains (refused) e where "Upsert E x n r = (Inl e, r)"
  | (own) "Upsert E x n r = (Inr (), r)" "dID x = rgSelfID r"
  | (recorded) d where "d = x\<lparr>dLastSeen := n, dOnline := True, dConnectionState := ConnectionOnline\<rparr>"
      "validateDiscoveredDevice E x = Inr ()" "dID x \<noteq> rgSelfID r" "fst (Upsert E x n r) = Inr ()"
      "rgDevices (snd (Upsert E x n r)) = AList.update (dID x) d (rgDevices r)"
      "rgSelfID (snd (Upsert E x n r)) = rgSelfID r" "rgOfflineAfter (snd (Upsert E x n r)) = rgOfflineAfter r"
      "rgRemoveAfter (snd (Upsert E x n r)) = rgRemoveAfter r" "rgPublisher (snd (Upsert E x n r)) = rgPublisher r"
      "\<forall>c. map_of (rgDevices r) (dID x) = Some c \<longrightarrow> \<not> identityConflicts c d"
      "rgPublished (snd (Upsert E x n r)) = rgPublished r \<and>
         (\<exists>c. map_of (rgDevices r) (dID x) = Some c \<and> dOnline c \<and> \<not> metadataChanged c d) \<or>
       rgPublished (snd (Upsert E x n r)) = (if rgPublisher r then
         newEvent (if map_of (rgDevices r) (dID x) = None then EventDeviceDiscovered else EventDeviceUpdated) d n
           # rgPublished r else rgPublished r)"
proof -
  let ?d = "x\<lparr>dLastSeen := n, dOnline := True, dConnectionState := ConnectionOnline\<rparr>"
  consider e where "validateDiscoveredDevice E x = Inl e"
    | "validateDiscoveredDevice E x = Inr ()" "dID x = rgSelfID r"
    | "validateDiscoveredDevice E x = Inr ()" "dID x \<noteq> rgSelfID r"
    by (metis old.unit.exhaust sum.exhaust)
  then show thesis
  proof cases
    case 1
    then show ?thesis using refused [of e] by (simp add: Upsert_def)
  next
    case 2
    then show ?thesis using own by (simp add: Upsert_def)
  next
    case 3
    note v = this
    show ?thesis
    proof (cases "map_of (rgDevices r) (dID x)")
      case None
      then show ?thesis using recorded [OF refl v] v by (simp add: Upsert_def Let_def)
    next
      case (Some c)
      show ?thesis
      proof (cases "identityConflicts c ?d")
        case True
        then show ?thesis using refused [of ErrDuplicateIdentity] v Some by (simp add: Upsert_def Let_def)
      next
        case False
        then show ?thesis using recorded [OF refl v] v Some
          by (cases "\<not> dOnline c \<or> metadataChanged c ?d") (simp_all add: Upsert_def Let_def)
      qed
    qed
  qed
qed

lemma sweep_kept_Cons [simp]:
  "sweep_kept r n [] = []"
  "sweep_kept r n (e # es) = (case fst (sweep_entry r n e) of None \<Rightarrow> sweep_kept r n es | Some x \<Rightarrow> x # sweep_kept r n es)"
  "sweep_events r n [] = []"
  "sweep_events r n (e # es) = (case snd (sweep_entry r n e) of None \<Rightarrow> sweep_events r n es | Some x \<Rightarrow> x # sweep_events r n es)"
  by (simp_all add: sweep_kept_def sweep_events_def List.map_filter_simps split: option.splits)

lemma sweep_entry_key: "fst (sweep_entry r n e) = Some x \<Longrightarrow> fst x = fst e"
  by (auto simp: sweep_entry_def Let_def split: prod.splits if_splits)

lemma set_sweep_kept: "x \<in> set (sweep_kept r n es) \<longleftrightarrow> (\<exists>e \<in> set es. fst (sweep_entry r n e) = Some x)"
  by (induction es) (auto split: option.splits)

lemma sweep_kept_keys: "fst ` set (sweep_kept r n es) \<subseteq> fst ` set es"
proof
  fix i
  assume "i \<in> fst ` set (sweep_kept r n es)"
  then obtain x e where "i = fst x" "e \<in> set es" "fst (sweep_entry r n e) = Some x"
    by (auto simp only: image_iff set_sweep_kept)
  then show "i \<in> fst ` set es" using sweep_entry_key [of r n e x] by simp
qed

lemma distinct_sweep_kept: "distinct (map fst es) \<Longrightarrow> distinct (map fst (sweep_kept r n es))"
proof (induction es)
  case (Cons e es)
  have "fst e \<notin> fst ` set (sweep_kept r n es)" using Cons.prems sweep_kept_keys [of r n es] by auto
  then show ?case using Cons sweep_entry_key [of r n e] by (cases "fst (sweep_entry r n e)") simp_all
qed simp

lemma entry_ok_kept: "entry_ok E r e \<Longrightarrow> fst (sweep_entry r n e) = Some x \<Longrightarrow> entry_ok E r x"
  by (auto simp: entry_ok_def sweep_entry_def Let_def split: prod.splits if_splits)

lemma entries_ok_kept: "list_all (entry_ok E r) es \<Longrightarrow> list_all (entry_ok E r) (sweep_kept r n es)"
  by (induction es) (auto split: option.splits intro: entry_ok_kept)

lemma entry_ok_self: "rgSelfID r' = rgSelfID r \<Longrightarrow> entry_ok E r' = entry_ok E r"
  by (simp add: entry_ok_def fun_eq_iff)

lemma Sweep_simps [simp]:
  "rgDevices (Sweep n r) = sweep_kept r n (rgDevices r)" "rgSelfID (Sweep n r) = rgSelfID r"
  "rgOfflineAfter (Sweep n r) = rgOfflineAfter r" "rgRemoveAfter (Sweep n r) = rgRemoveAfter r"
  "rgPublisher (Sweep n r) = rgPublisher r"
  by (simp_all add: Sweep_def)

lemma set_update_entry: "x \<in> set (AList.update k v es) \<Longrightarrow> x = (k, v) \<or> x \<in> set es"
  by (induction es) (auto split: if_splits)

lemma registry_ok_step: "registry_ok E r \<Longrightarrow> registry_ok E (registry_step E c r)"
proof (cases c)
  case (RUpsert x n)
  assume ok: "registry_ok E r"
  show ?thesis
  proof (cases rule: Upsert_cases [of E x n r])
    case (recorded d)
    have "entry_ok E r (dID x, d)" using recorded(1-3) by (simp add: entry_ok_def)
    then have "list_all (entry_ok E r) (AList.update (dID x) d (rgDevices r))"
      using ok by (auto simp: registry_ok_def list_all_iff dest!: set_update_entry)
    then show ?thesis using ok recorded(5-8) RUpsert
      by (simp add: registry_ok_def distinct_update entry_ok_self [OF recorded(6)])
  qed (use ok RUpsert in simp_all)
next
  case (RSweep n)
  assume "registry_ok E r"
  then show ?thesis using RSweep
    by (simp add: registry_ok_def distinct_sweep_kept entries_ok_kept entry_ok_self [of "Sweep n r" r])
qed

lemma registry_ok_run: "registry_ok E r \<Longrightarrow> registry_ok E (registry_run E cs r)"
  unfolding registry_run_def by (induction cs arbitrary: r) (simp_all add: registry_ok_step)

lemma registry_ok_new: "NewRegistry s a b p = Inr r \<Longrightarrow> registry_ok E r"
  by (auto simp: NewRegistry_def registry_ok_def split: if_splits)

lemma registry_run_limits:
  "rgSelfID (registry_run E cs r) = rgSelfID r \<and> rgOfflineAfter (registry_run E cs r) = rgOfflineAfter r \<and>
   rgRemoveAfter (registry_run E cs r) = rgRemoveAfter r"
  unfolding registry_run_def
proof (induction cs arbitrary: r)
  case (Cons c cs)
  have "rgSelfID (registry_step E c r) = rgSelfID r \<and> rgOfflineAfter (registry_step E c r) = rgOfflineAfter r \<and>
      rgRemoveAfter (registry_step E c r) = rgRemoveAfter r"
  proof (cases c)
    case (RUpsert x n)
    then show ?thesis by (cases rule: Upsert_cases [of E x n r]) simp_all
  qed simp
  then show ?case using Cons by simp
qed simp

section \<open>Subscribers\<close>

text \<open>
  What a subscriber knows that replays the events: the devices without their last sighting,
  which plain refreshes do not publish.
\<close>

definition unseen :: "device \<Rightarrow> device" where
  "unseen d = d\<lparr>dLastSeen := time_zero\<rparr>"

definition subscriber :: "discovery_event \<Rightarrow> (string \<rightharpoonup> device) \<Rightarrow> string \<rightharpoonup> device" where
  "subscriber e m = (case deType e of
       EventDeviceRemoved \<Rightarrow> m(dID (deDevice e) := None)
     | _ \<Rightarrow> m(dID (deDevice e) \<mapsto> unseen (deDevice e)))"

definition replayed :: "registry \<Rightarrow> string \<rightharpoonup> device" where
  "replayed r = foldr subscriber (rgPublished r) Map.empty"

definition view_of :: "(string \<times> device) list \<Rightarrow> string \<rightharpoonup> device" where
  "view_of es = map_option unseen \<circ> map_of es"

lemma unseen_unchanged:
  "\<not> metadataChanged c d \<Longrightarrow> dID c = dID d \<Longrightarrow> dOnline c = dOnline d \<Longrightarrow>
   dConnectionState c = dConnectionState d \<Longrightarrow> unseen c = unseen d"
  by (simp add: metadataChanged_def unseen_def)

lemma subscriber_newEvent [simp]:
  "subscriber (newEvent EventDeviceDiscovered d n) m = m(dID d \<mapsto> unseen d)"
  "subscriber (newEvent EventDeviceUpdated d n) m = m(dID d \<mapsto> unseen d)"
  "subscriber (newEvent EventDeviceOffline d n) m = m(dID d \<mapsto> unseen d)"
  "subscriber (newEvent EventDeviceRemoved d n) m = m(dID d := None)"
  by (simp_all add: subscriber_def newEvent_def)

lemma view_of_update: "view_of (AList.update i d es) = (view_of es)(i \<mapsto> unseen d)"
  by (auto simp: view_of_def update_conv' fun_eq_iff)

lemma replay_sweep:
  assumes "distinct (map fst es)" "list_all (entry_ok E r) es" "\<forall>i \<in> fst ` set es. m i = view_of es i"
  shows "fold subscriber (sweep_events r n es) m =
    (\<lambda>i. if i \<in> fst ` set es then view_of (sweep_kept r n es) i else m i)"
  using assms
proof (induction es arbitrary: m)
  case (Cons e es)
  obtain j d where e: "e = (j, d)" by (cases e)
  have j: "j \<notin> fst ` set es" "dID d = j" using Cons.prems e by (auto simp: entry_ok_def)
  have k: "j \<notin> fst ` set (sweep_kept r n es)" using j sweep_kept_keys by blast
  then have vk: "view_of (sweep_kept r n es) j = None" by (simp add: view_of_def map_of_eq_None_iff)
  have "m i = view_of es i" if "i \<in> fst ` set es" for i
    using bspec [OF Cons.prems(3), of i] that j(1) by (auto simp: e view_of_def)
  then have m: "\<forall>i \<in> fst ` set es. m i = view_of es i" by blast
  have mj: "m j = Some (unseen d)" using bspec [OF Cons.prems(3), of j] by (simp add: e view_of_def)
  have IH: "fold subscriber (sweep_events r n es) (m(j := v)) =
      (\<lambda>i. if i \<in> fst ` set es then view_of (sweep_kept r n es) i else (m(j := v)) i)" for v
  proof (rule Cons.IH)
    show "\<forall>i \<in> fst ` set es. (m(j := v)) i = view_of es i" using m j(1) by (metis fun_upd_other)
  qed (use Cons.prems in simp_all)
  have IH0: "fold subscriber (sweep_events r n es) m =
      (\<lambda>i. if i \<in> fst ` set es then view_of (sweep_kept r n es) i else m i)"
    using IH [of "m j"] unfolding fun_upd_triv .
  show ?case
    using j k vk mj
    by (auto simp: e sweep_entry_def Let_def IH IH0 fun_eq_iff view_of_def)
qed (simp add: fun_eq_iff)

lemma replay_step:
  assumes "registry_ok E r" "rgPublisher r" "replayed r = view_of (rgDevices r)"
  shows "replayed (registry_step E c r) = view_of (rgDevices (registry_step E c r))"
proof (cases c)
  case (RUpsert x n)
  show ?thesis
  proof (cases rule: Upsert_cases [of E x n r])
    case (recorded d)
    have d: "dID d = dID x" "dOnline d" "dConnectionState d = ConnectionOnline" using recorded(1) by simp_all
    from recorded(11) show ?thesis
    proof
      assume "rgPublished (snd (Upsert E x n r)) = rgPublished r \<and>
         (\<exists>c. map_of (rgDevices r) (dID x) = Some c \<and> dOnline c \<and> \<not> metadataChanged c d)"
      then obtain c0 where q: "rgPublished (snd (Upsert E x n r)) = rgPublished r"
        "map_of (rgDevices r) (dID x) = Some c0" "dOnline c0" "\<not> metadataChanged c0 d" by blast
      have "entry_ok E r (dID x, c0)" using assms(1) map_of_SomeD [OF q(2)] by (auto simp: registry_ok_def list_all_iff)
      then have "unseen c0 = unseen d"
        using q(3,4) d by (intro unseen_unchanged) (auto simp: entry_ok_def)
      then have "(view_of (rgDevices r))(dID x \<mapsto> unseen d) = view_of (rgDevices r)"
        using q(2) by (auto simp: view_of_def fun_eq_iff)
      then show ?thesis using assms(3) q(1) RUpsert recorded(5) by (simp add: replayed_def view_of_update)
    next
      assume "rgPublished (snd (Upsert E x n r)) = (if rgPublisher r then
         newEvent (if map_of (rgDevices r) (dID x) = None then EventDeviceDiscovered else EventDeviceUpdated) d n
           # rgPublished r else rgPublished r)"
      then show ?thesis using assms(2,3) RUpsert recorded(5) d(1) by (simp add: replayed_def view_of_update)
    qed
  qed (use assms RUpsert in simp_all)
next
  case (RSweep n)
  have "fold subscriber (sweep_events r n (rgDevices r)) (replayed r) = view_of (sweep_kept r n (rgDevices r))"
  proof -
    have "view_of (rgDevices r) i = None \<and> view_of (sweep_kept r n (rgDevices r)) i = None"
      if "i \<notin> fst ` set (rgDevices r)" for i
      using that sweep_kept_keys [of r n "rgDevices r"] by (auto simp: view_of_def map_of_eq_None_iff)
    moreover have "fold subscriber (sweep_events r n (rgDevices r)) (view_of (rgDevices r)) =
        (\<lambda>i. if i \<in> fst ` set (rgDevices r) then view_of (sweep_kept r n (rgDevices r)) i else view_of (rgDevices r) i)"
      by (rule replay_sweep) (use assms(1) in \<open>auto simp: registry_ok_def\<close>)
    ultimately show ?thesis unfolding assms(3) by (simp add: fun_eq_iff)
  qed
  then show ?thesis using RSweep assms(2)
    by (simp add: replayed_def Sweep_def published_all foldr_append foldr_conv_fold)
qed

lemma replay_run:
  "registry_ok E r \<Longrightarrow> rgPublisher r \<Longrightarrow> replayed r = view_of (rgDevices r) \<Longrightarrow>
   replayed (registry_run E cs r) = view_of (rgDevices (registry_run E cs r))"
proof (induction cs arbitrary: r)
  case (Cons c cs)
  have "rgPublisher (registry_step E c r)"
  proof (cases c)
    case (RUpsert x n)
    then show ?thesis using Cons.prems(2) by (cases rule: Upsert_cases [of E x n r]) simp_all
  qed (use Cons.prems in simp)
  then show ?case
    using Cons.IH [OF registry_ok_step [OF Cons.prems(1)] _ replay_step [OF Cons.prems], of c]
    by (simp add: registry_run_def)
qed (simp add: registry_run_def)

lemma Upsert_pins:
  assumes "map_of (rgDevices r) i = Some d" "dIdentityHint d \<noteq> []"
  shows "\<exists>d'. map_of (rgDevices (snd (Upsert E x n r))) i = Some d' \<and> dIdentityHint d' = dIdentityHint d"
proof (cases rule: Upsert_cases [of E x n r])
  case (recorded y)
  show ?thesis
  proof (cases "dID x = i")
    case True
    then have "\<not> identityConflicts d y" using recorded(10) assms(1) by simp
    then show ?thesis using recorded(5) True assms(2) by (auto simp: update_conv' identityConflicts_def)
  next
    case False
    then show ?thesis using recorded(5) assms(1) by (simp add: update_conv')
  qed
qed (use assms in simp_all)

lemma Sweep_fresh:
  assumes "distinct (map fst (rgDevices r))" "map_of (rgDevices r) i = Some d"
    and "map_of (rgDevices (Sweep n r)) i = Some d'"
  shows "n - dLastSeen d < rgRemoveAfter r \<and> (dOnline d' \<longrightarrow> n - dLastSeen d < rgOfflineAfter r) \<and>
    (d' = d \<or> d' = went_offline d)"
proof -
  obtain e where e: "e \<in> set (rgDevices r)" "fst (sweep_entry r n e) = Some (i, d')"
    using map_of_SomeD [OF assms(3)] by (auto simp: set_sweep_kept)
  then have "fst e = i" by (auto dest: sweep_entry_key)
  then have "e = (i, d)" using e(1) assms(1,2) by (cases e) (simp add: map_of_eq_Some_iff)
  then show ?thesis using e(2) by (auto simp: sweep_entry_def Let_def split: if_splits)
qed

section \<open>Properties\<close>

text \<open>Replaying the published events reproduces the registry: whatever sightings and sweeps happen, a subscriber
  that follows the events knows the devices of the registry, up to the time of the last sighting.\<close>

theorem registry_replay:
  assumes "NewRegistry self offlineAfter removeAfter True = Inr r"
  shows "replayed (registry_run E cs r) = view_of (rgDevices (registry_run E cs r))"
proof (rule replay_run [OF registry_ok_new [OF assms]])
  show "rgPublisher r" "replayed r = view_of (rgDevices r)"
    using assms by (auto simp: NewRegistry_def replayed_def view_of_def split: if_splits)
qed

text \<open>C28: The registry holds valid foreign devices only, never changes the identity hint under which a device was
  recorded, however many advertisements claim its identifier, and after a sweep keeps no device that was not seen
  within the removal timeout and none online that was not seen within the offline timeout.\<close>

theorem registry_safe:
  assumes "NewRegistry self offlineAfter removeAfter p = Inr r0" and r: "r = registry_run E cs r0"
    and d: "map_of (rgDevices r) i = Some d"
  shows "dID d = i \<and> i \<noteq> self \<and> validateDiscoveredDevice E d = Inr () \<and>
    (dConnectionState d = ConnectionOnline \<longleftrightarrow> dOnline d) \<and>
    (dIdentityHint d \<noteq> [] \<longrightarrow> (\<forall>x n. \<exists>d'. map_of (rgDevices (snd (Upsert E x n r))) i = Some d' \<and>
       dIdentityHint d' = dIdentityHint d)) \<and>
    (\<forall>n d'. map_of (rgDevices (Sweep n r)) i = Some d' \<longrightarrow>
       n - dLastSeen d < removeAfter \<and> (dOnline d' \<longrightarrow> n - dLastSeen d < offlineAfter))"
proof -
  have ok: "registry_ok E r" unfolding r by (rule registry_ok_run [OF registry_ok_new [OF assms(1)]])
  have c: "rgSelfID r = self \<and> rgOfflineAfter r = offlineAfter \<and> rgRemoveAfter r = removeAfter"
    unfolding r using registry_run_limits [of E cs r0] assms(1) by (auto simp: NewRegistry_def split: if_splits)
  have "entry_ok E r (i, d)" using ok map_of_SomeD [OF d] by (auto simp: registry_ok_def list_all_iff)
  then have e: "dID d = i \<and> i \<noteq> self \<and> validateDiscoveredDevice E d = Inr () \<and>
      (dConnectionState d = ConnectionOnline \<longleftrightarrow> dOnline d)"
    using c by (simp add: entry_ok_def)
  have f: "distinct (map fst (rgDevices r))" using ok by (simp add: registry_ok_def)
  show ?thesis using e Upsert_pins [OF d, of E] Sweep_fresh [OF f d] c by simp
qed

section \<open>Examples\<close>

definition sample_registry :: registry where
  "sample_registry = \<lparr>rgDevices = [], rgSelfID = ''me'', rgOfflineAfter = 15 * second,
     rgRemoveAfter = 60 * second, rgPublisher = True, rgPublished = []\<rparr>"

definition sample_hinted :: device where
  "sample_hinted = sample_peer\<lparr>dIdentityHint := ''AB12''\<rparr>"

definition sample_sightings :: "registry_call list" where
  "sample_sightings = [RUpsert sample_hinted 0, RUpsert sample_peer second, RSweep (20 * second)]"

lemma sample_registry_new: "NewRegistry ''me'' (15 * second) (60 * second) True = Inr sample_registry"
  by (simp add: NewRegistry_def sample_registry_def second_def)

lemma sample_hinted_valid: "validateDiscoveredDevice sample_service sample_hinted = Inr ()"
  by code_simp

text \<open>A hinted peer is seen, an advertisement without the hint is refused, and a sweep finds the peer silent.\<close>

lemma sample_registry_run:
  "rgDevices (registry_run sample_service sample_sightings sample_registry) =
     [(''peer'', went_offline (sample_hinted\<lparr>dLastSeen := 0, dOnline := True, dConnectionState := ConnectionOnline\<rparr>))]"
  by code_simp

theorem registry_replay_witness:
  "replayed (registry_run sample_service sample_sightings sample_registry) =
     view_of (rgDevices (registry_run sample_service sample_sightings sample_registry)) \<and>
   rgDevices (registry_run sample_service sample_sightings sample_registry) \<noteq> []"
  using registry_replay [OF sample_registry_new, of sample_service sample_sightings] by (simp add: sample_registry_run)

theorem registry_safe_witness:
  "\<exists>d. map_of (rgDevices (registry_run sample_service sample_sightings sample_registry)) ''peer'' = Some d \<and>
     dIdentityHint d = ''AB12'' \<and> ''peer'' \<noteq> ''me'' \<and>
     (\<forall>x n. \<exists>d'. map_of (rgDevices (snd (Upsert sample_service x n
        (registry_run sample_service sample_sightings sample_registry)))) ''peer'' = Some d' \<and> dIdentityHint d' = ''AB12'')"
  using registry_safe [OF sample_registry_new refl, of sample_service sample_sightings "''peer''"]
  by (simp add: sample_registry_run sample_hinted_def)

end
