(* ===== verification/Discovery.thy ===== *)
theory Discovery
  imports DiscoveryRegistry Identity
begin

text \<open>
  \<open>discovery/service.go\<close> and the data of \<open>discovery/mdns.go\<close>: what the device announces, how it reads
  the announcements of others into the registry, the session loop and its supervision.

  The goroutines meet in the registry and in \<open>self\<close>, each under its mutex, so a run is a sequence of
  events: the session loop takes the cases of its \<open>select\<close> in any order. Multicast DNS itself is
  the third-party zeroconf library behind the interface \<open>MDNS\<close>; an advertisement is what it delivers.
\<close>

section \<open>Data\<close>

record advertisement =
  adPort :: int
  adText :: "string list"
  adIPv4 :: "ip list"
  adIPv6 :: "ip list"
  adHostname :: string

record local_advertisement =
  laInstance :: string
  laInterfaceName :: string
  laPort :: int
  laText :: "string list"

text \<open>The configuration; a missing registry or mDNS adapter is \<open>None\<close> and \<open>False\<close>.\<close>

record discovery_config =
  dcIdentity :: identity
  dcPort :: int
  dcAppVersion :: string
  dcRegistry :: "registry option"
  dcMDNS :: bool
  dcNetworkInterval :: int
  dcRestartInterval :: int
  dcSweepInterval :: int
  dcTransferCapabilities :: capabilities

text \<open>The service: \<open>dsRefresh\<close> is the refresh channel of capacity one.\<close>

record discovery_service =
  dsIdentity :: identity
  dsNetworkInterval :: int
  dsRestartInterval :: int
  dsSweepInterval :: int
  dsRegistry :: registry
  dsRefresh :: bool
  dsSelf :: device

section \<open>Construction\<close>

definition self_device :: "discovery_config \<Rightarrow> time \<Rightarrow> device" where
  "self_device c n = (let i = dcIdentity c; t = dcTransferCapabilities c in
     \<lparr>dID = idID i, dName = idName i, dHostname = idHostname i, dType = idType i, dPlatform = idPlatform i,
      dLocalIP = [], dPort = dcPort c, dAppVersion = dcAppVersion c, dLastSeen = n, dOnline = True,
      dConnectionState = ConnectionOnline, dAvailableStorage = capAvailableStorage t,
      dTransferCapability = capTransferSupport t, dSupportedProtocolVersion = capProtocolVersion t,
      dMaximumChunkSize = capMaxChunkSize t, dCompressionSupport = capCompressionSupport t,
      dIdentityHint = ShortFingerprint i, dPairingAvailable = True\<rparr>)"

definition NewDiscoveryService ::
  "('r) host_scheme \<Rightarrow> discovery_config \<Rightarrow> time \<Rightarrow> string + discovery_service" where
  "NewDiscoveryService E c n =
     (case dcRegistry c of
        None \<Rightarrow> Inl ''registry and mDNS adapter are required''
      | Some r \<Rightarrow>
          if \<not> dcMDNS c then Inl ''registry and mDNS adapter are required''
          else if dcPort c < 1 \<or> 65535 < dcPort c then Inl ''discovery port must be between 1 and 65535''
          else if trim_space (dcAppVersion c) = [] then Inl ''app version is required''
          else (case Validate E (dcIdentity c) of
             Inl _ \<Rightarrow> Inl ''invalid local identity''
           | Inr _ \<Rightarrow> Inr \<lparr>dsIdentity = dcIdentity c,
               dsNetworkInterval = (if dcNetworkInterval c \<le> 0 then 5 * second else dcNetworkInterval c),
               dsRestartInterval = (if dcRestartInterval c \<le> 0 then 60 * second else dcRestartInterval c),
               dsSweepInterval = (if dcSweepInterval c \<le> 0 then 5 * second else dcSweepInterval c),
               dsRegistry = r, dsRefresh = False, dsSelf = self_device c n\<rparr>))"

section \<open>Methods\<close>

definition Devices :: "('r) host_scheme \<Rightarrow> discovery_service \<Rightarrow> device list" where
  "Devices E s = ListDevices E (dsRegistry s)"

definition Self :: "discovery_service \<Rightarrow> device" where
  "Self s = dsSelf s"

definition Refresh :: "discovery_service \<Rightarrow> discovery_service" where
  "Refresh s = s\<lparr>dsRefresh := True\<rparr>"

definition SetDiscoveryName :: "string \<Rightarrow> time \<Rightarrow> discovery_service \<Rightarrow> (string + unit) \<times> discovery_service" where
  "SetDiscoveryName name0 n s = (let name = trim_space name0 in
     if name = [] \<or> 128 < length name then (Inl ''device name must contain 1 to 128 characters'', s)
     else (Inr (), Refresh (s\<lparr>dsSelf := (dsSelf s)\<lparr>dName := name, dLastSeen := n\<rparr>\<rparr>)))"

definition updateSelf :: "string \<Rightarrow> time \<Rightarrow> discovery_service \<Rightarrow> discovery_service" where
  "updateSelf localIP n s = s\<lparr>dsSelf := (dsSelf s)\<lparr>dLocalIP := localIP, dLastSeen := n, dOnline := True,
     dConnectionState := ConnectionOnline\<rparr>\<rparr>"

section \<open>Announcing\<close>

definition safeInstanceName :: "string \<Rightarrow> string \<Rightarrow> string" where
  "safeInstanceName name0 i =
     (let name1 = trim_space name0;
          name2 = (if name1 = [] then ''SyncSpace'' else name1);
          name3 = (if 48 < length name2 then take 48 name2 else name2);
          shortID = (if 8 < length i then take 8 i else i)
      in name3 @ ''-'' @ shortID)"

definition announced_text :: "device \<Rightarrow> string list" where
  "announced_text d =
     [''id='' @ dID d, ''name='' @ dName d, ''hostname='' @ dHostname d, ''type='' @ dType d,
      ''platform='' @ dPlatform d, ''version='' @ dAppVersion d, ''protocol=1'',
      ''transfer='' @ format_bool (dTransferCapability d),
      ''transfer_protocol='' @ int_dec (dSupportedProtocolVersion d),
      ''max_chunk='' @ int_dec (dMaximumChunkSize d),
      ''compression='' @ format_bool (dCompressionSupport d),
      ''available_storage='' @ int_dec (dAvailableStorage d),
      ''identity_hint='' @ dIdentityHint d,
      ''pairing='' @ format_bool (dPairingAvailable d)]"

definition announcement :: "network_snapshot \<Rightarrow> device \<Rightarrow> local_advertisement" where
  "announcement snapshot d =
     \<lparr>laInstance = safeInstanceName (dName d) (dID d), laInterfaceName = nsInterfaceName snapshot,
      laPort = dPort d, laText = announced_text d\<rparr>"

section \<open>Reading announcements\<close>

text \<open>The values of the text records: the first of a key counts, and none is the empty string.\<close>

definition text_item :: "string \<Rightarrow> (string \<rightharpoonup> string) \<Rightarrow> (string \<rightharpoonup> string)" where
  "text_item item m = (case cut (CHR ''='') item of
       None \<Rightarrow> m
     | Some (key, v) \<Rightarrow> if key = [] then m else (case m key of None \<Rightarrow> m(key \<mapsto> v) | Some _ \<Rightarrow> m))"

definition text_values :: "string list \<Rightarrow> string \<Rightarrow> string" where
  "text_values items key = (case fold text_item items Map.empty key of None \<Rightarrow> [] | Some v \<Rightarrow> v)"

definition announced_device :: "(string \<Rightarrow> string) \<Rightarrow> advertisement \<Rightarrow> ip \<Rightarrow> device" where
  "announced_device values ad i =
     (let hostname = trim_suffix (values ''hostname'') ''.'' in
      \<lparr>dID = values ''id'', dName = values ''name'',
       dHostname = (if hostname = [] then trim_suffix (adHostname ad) ''.'' else hostname),
       dType = values ''type'', dPlatform = values ''platform'', dLocalIP = ip_string i, dPort = adPort ad,
       dAppVersion = values ''version'', dLastSeen = time_zero, dOnline = False,
       dConnectionState = ConnectionUnset,
       dAvailableStorage = parse_int_value (values ''available_storage''),
       dTransferCapability = parse_bool_value (values ''transfer''),
       dSupportedProtocolVersion = parse_int_value (values ''transfer_protocol''),
       dMaximumChunkSize = parse_int_value (values ''max_chunk''),
       dCompressionSupport = parse_bool_value (values ''compression''),
       dIdentityHint = values ''identity_hint'',
       dPairingAvailable = parse_bool_value (values ''pairing'')\<rparr>)"

definition incompatible :: "device \<Rightarrow> device" where
  "incompatible d = d\<lparr>dTransferCapability := False, dSupportedProtocolVersion := 0, dMaximumChunkSize := 0,
     dCompressionSupport := False, dPairingAvailable := False\<rparr>"

definition parseAdvertisement :: "('r) host_scheme \<Rightarrow> advertisement \<Rightarrow> discovery_error + device" where
  "parseAdvertisement E ad =
     (let values = text_values (adText ad) in
      case bestAddress (adIPv4 ad) (adIPv6 ad) of
        None \<Rightarrow> Inl (DiscoveryError ''advertisement has no usable local address'')
      | Some i \<Rightarrow>
          let d0 = announced_device values ad i;
              d = (if values ''protocol'' = ''1'' then d0 else incompatible d0)
          in case validateDiscoveredDevice E d of Inl e \<Rightarrow> Inl e | Inr _ \<Rightarrow> Inr d)"

definition handleAdvertisement ::
  "('r) host_scheme \<Rightarrow> advertisement \<Rightarrow> time \<Rightarrow> discovery_service \<Rightarrow> discovery_service" where
  "handleAdvertisement E ad n s =
     (case parseAdvertisement E ad of
        Inl _ \<Rightarrow> s
      | Inr d \<Rightarrow> s\<lparr>dsRegistry := snd (Upsert E d n (dsRegistry s))\<rparr>)"

section \<open>The session\<close>

text \<open>The cases of the \<open>select\<close>; a refresh can be taken only when one is pending.\<close>

datatype session_event =
  SessionDone
| SessionRefresh
| SessionBrowse "string option"
| SessionEntry advertisement time
| SessionNetwork "string + network_snapshot"
| SessionRestart

datatype session_end = EndDone | EndRestart | EndError string

definition session_step :: "('r) host_scheme \<Rightarrow> network_snapshot \<Rightarrow> session_event \<Rightarrow> discovery_service \<Rightarrow>
    session_end option \<times> discovery_service" where
  "session_step E snapshot ev s =
     (case ev of
        SessionDone \<Rightarrow> (Some EndDone, s)
      | SessionRefresh \<Rightarrow> if dsRefresh s then (Some EndRestart, s\<lparr>dsRefresh := False\<rparr>) else (None, s)
      | SessionBrowse None \<Rightarrow> (Some (EndError ''mDNS browser exited unexpectedly''), s)
      | SessionBrowse (Some e) \<Rightarrow> (Some (EndError e), s)
      | SessionEntry ad n \<Rightarrow> (None, handleAdvertisement E ad n s)
      | SessionNetwork (Inl _) \<Rightarrow> (None, s)
      | SessionNetwork (Inr current) \<Rightarrow>
          if nsFingerprint current \<noteq> nsFingerprint snapshot then (Some EndRestart, s) else (None, s)
      | SessionRestart \<Rightarrow> (Some EndRestart, s))"

fun session_loop :: "('r) host_scheme \<Rightarrow> network_snapshot \<Rightarrow> session_event list \<Rightarrow> discovery_service \<Rightarrow>
    session_end option \<times> discovery_service" where
  "session_loop E snapshot [] s = (None, s)"
| "session_loop E snapshot (ev # evs) s =
     (case session_step E snapshot ev s of
        (None, s') \<Rightarrow> session_loop E snapshot evs s'
      | (Some r, s') \<Rightarrow> (Some r, s'))"

text \<open>
  \<open>advertise\<close> is the error of the adapter, if any. The result is \<open>None\<close> while the session is
  still running after the given events.
\<close>

definition runSession :: "('r) host_scheme \<Rightarrow> string + network_snapshot \<Rightarrow> time \<Rightarrow>
    (local_advertisement \<Rightarrow> string option) \<Rightarrow> session_event list \<Rightarrow> discovery_service \<Rightarrow>
    session_end option \<times> discovery_service" where
  "runSession E network n advertise evs s =
     (case network of
        Inl e \<Rightarrow> (Some (EndError e), s)
      | Inr snapshot \<Rightarrow>
          let s1 = updateSelf (nsPrimaryIP snapshot) n s in
          case advertise (announcement snapshot (Self s1)) of
            Some e \<Rightarrow> (Some (EndError e), s1)
          | None \<Rightarrow> session_loop E snapshot evs s1)"

text \<open>
  \<open>Run\<close>: how long it waits after each session, given how the sessions end; a recovered panic is an
  \<open>EndError\<close>. The list of waits ends where the context is cancelled.
\<close>

definition next_backoff :: "int \<Rightarrow> int" where
  "next_backoff b = (if b < 30 * second then (if 30 * second < b * 2 then 30 * second else b * 2) else b)"

fun run_waits :: "int \<Rightarrow> session_end list \<Rightarrow> int list" where
  "run_waits b [] = []"
| "run_waits b (EndDone # es) = []"
| "run_waits b (EndRestart # es) = run_waits second es"
| "run_waits b (EndError e # es) = b # run_waits (next_backoff b) es"

definition RunSweeper :: "time list \<Rightarrow> discovery_service \<Rightarrow> discovery_service" where
  "RunSweeper ticks s = fold (\<lambda>n s. s\<lparr>dsRegistry := Sweep n (dsRegistry s)\<rparr>) ticks s"

section \<open>What a peer reads\<close>

lemma announced_values [simp]:
  "text_values (announced_text d) ''id'' = dID d" "text_values (announced_text d) ''name'' = dName d"
  "text_values (announced_text d) ''hostname'' = dHostname d" "text_values (announced_text d) ''type'' = dType d"
  "text_values (announced_text d) ''platform'' = dPlatform d" "text_values (announced_text d) ''version'' = dAppVersion d"
  "text_values (announced_text d) ''protocol'' = ''1''"
  "text_values (announced_text d) ''transfer'' = format_bool (dTransferCapability d)"
  "text_values (announced_text d) ''transfer_protocol'' = int_dec (dSupportedProtocolVersion d)"
  "text_values (announced_text d) ''max_chunk'' = int_dec (dMaximumChunkSize d)"
  "text_values (announced_text d) ''compression'' = format_bool (dCompressionSupport d)"
  "text_values (announced_text d) ''available_storage'' = int_dec (dAvailableStorage d)"
  "text_values (announced_text d) ''identity_hint'' = dIdentityHint d"
  "text_values (announced_text d) ''pairing'' = format_bool (dPairingAvailable d)"
  by (simp_all add: text_values_def announced_text_def text_item_def)

definition fits64 :: "device \<Rightarrow> bool" where
  "fits64 d \<longleftrightarrow> in64 (dAvailableStorage d) \<and> in64 (dSupportedProtocolVersion d) \<and> in64 (dMaximumChunkSize d)"

definition read_back :: "string \<Rightarrow> ip \<Rightarrow> device \<Rightarrow> device" where
  "read_back host i d = d\<lparr>dHostname := (let h = trim_suffix (dHostname d) ''.'' in
       if h = [] then trim_suffix host ''.'' else h), dLocalIP := ip_string i,
     dLastSeen := time_zero, dOnline := False, dConnectionState := ConnectionUnset\<rparr>"

lemma announced_reads:
  assumes "adText ad = announced_text d" "adPort ad = dPort d" "fits64 d"
  shows "announced_device (text_values (adText ad)) ad i = read_back (adHostname ad) i d"
  using assms by (simp add: announced_device_def read_back_def fits64_def parse_int_value_dec Let_def)

text \<open>A device of another protocol version is shown, but never as a destination.\<close>

lemma incompatible_not_offered:
  assumes "parseAdvertisement E ad = Inr d" "text_values (adText ad) ''protocol'' \<noteq> ''1''"
  shows "\<not> dTransferCapability d \<and> \<not> dPairingAvailable d \<and> dSupportedProtocolVersion d = 0"
  using assms by (auto simp: parseAdvertisement_def Let_def incompatible_def split: option.splits sum.splits)

lemma short_fingerprint:
  assumes "Validate E x = Inr ()"
  shows "length (ShortFingerprint x) \<le> 20"
proof -
  obtain pk where f: "idFingerprint x = join_with '':'' (groups_of_4 (map upper_ascii (hex_encode (hSha256 E pk))))"
    using assms by (auto simp: Validate_def IdentityFingerprint_def split: if_splits option.splits)
  define gs where "gs = groups_of_4 (map upper_ascii (hex_encode (hSha256 E pk)))"
  have len: "list_all (\<lambda>p. length p \<le> 4) (groups_of_4 q)" for q
    by (induction q rule: groups_of_4.induct) auto
  have sub: "set (concat (groups_of_4 q)) = set q" for q
    by (induction q rule: groups_of_4.induct) auto
  have digit: "CHR '':'' \<noteq> upper_ascii (hex_digit n)" if "n < 16" for n
  proof -
    have "of_char (upper_ascii (hex_digit n)) \<noteq> (58 :: nat)"
      using that by (auto simp: hex_digit_def upper_ascii_def Let_def)
    moreover have "of_char CHR '':'' = (58 :: nat)" by simp
    ultimately show ?thesis by metis
  qed
  have "CHR '':'' \<notin> set (map upper_ascii (hex_encode q))" for q
  proof -
    have "(of_char b :: nat) div 16 < 16" for b :: char using of_char_lt [of b] by linarith
    then show ?thesis by (induction q) (simp_all add: hex_encode_def digit)
  qed
  then have nc: "CHR '':'' \<notin> set p" if "p \<in> set gs" for p
    using sub that unfolding gs_def by (metis UN_I set_concat)
  have l4: "length (join_with '':'' ps) \<le> 20" if "length ps \<le> 4" "list_all (\<lambda>p. length p \<le> 4) ps" for ps
    using length_join_le [OF that(2), of "CHR '':''"] that(1) by simp
  show ?thesis
  proof (cases "gs = []")
    case True
    then show ?thesis by (simp add: ShortFingerprint_def f gs_def [symmetric])
  next
    case False
    have p: "split_on CHR '':'' (idFingerprint x) = gs"
      unfolding f gs_def [symmetric] by (rule split_join [OF False nc])
    have "list_all (\<lambda>p. length p \<le> 4) gs" using len gs_def by simp
    then have "list_all (\<lambda>p. length p \<le> 4) (take 4 gs)" by (auto simp: list_all_iff dest: in_set_takeD)
    then show ?thesis using l4 \<open>list_all (\<lambda>p. length p \<le> 4) gs\<close> unfolding ShortFingerprint_def p Let_def by simp
  qed
qed

lemma length_trim_suffix: "length (trim_suffix q p) \<le> length q"
  by (simp add: trim_suffix_def)

lemma new_service_facts:
  assumes "NewDiscoveryService E c n = Inr s"
  shows "Validate E (dcIdentity c) = Inr () \<and> Self s = self_device c n \<and> 1 \<le> dcPort c \<and> dcPort c \<le> 65535 \<and>
    trim_space (dcAppVersion c) \<noteq> []"
  using assms by (auto simp: NewDiscoveryService_def Self_def split: option.splits if_splits sum.splits)

lemma self_is_valid:
  assumes "NewDiscoveryService E c n = Inr s" "length (dcAppVersion c) \<le> 64" "length host \<le> 255"
    and "parse_ip (ip_string i) \<noteq> None"
  shows "validateDiscoveredDevice E (read_back host i (self_device c n)) = Inr ()"
proof -
  note f = new_service_facts [OF assms(1)]
  let ?h = "trim_suffix (idHostname (dcIdentity c)) ''.''"
  have "length (if ?h = [] then trim_suffix host ''.'' else ?h) \<le> 255"
    using f assms(3) length_trim_suffix [of "idHostname (dcIdentity c)" "''.''"] length_trim_suffix [of host "''.''"]
    by (auto simp: Validate_def split: if_splits)
  then show ?thesis
    using f assms short_fingerprint [of E "dcIdentity c"]
    by (auto simp: validateDiscoveredDevice_def read_back_def self_device_def Let_def Validate_def split: if_splits)
qed

lemma Upsert_records:
  assumes "validateDiscoveredDevice E x = Inr ()" "dID x \<noteq> rgSelfID r"
    and "\<forall>c. map_of (rgDevices r) (dID x) = Some c \<longrightarrow> \<not> identityConflicts c x"
  shows "map_of (rgDevices (snd (Upsert E x n r))) (dID x) =
    Some (x\<lparr>dLastSeen := n, dOnline := True, dConnectionState := ConnectionOnline\<rparr>)"
proof (cases rule: Upsert_cases [of E x n r])
  case (recorded d)
  then show ?thesis by (simp add: update_conv')
next
  case (refused e)
  then show ?thesis using assms
    by (auto simp: Upsert_def Let_def identityConflicts_def split: option.splits if_splits)
qed (use assms in simp)

section \<open>Properties\<close>

text \<open>C29: Two devices find each other: what a service with a valid identity announces, delivered by multicast DNS with
  an IPv4 address, makes the registry of a peer hold that device under its identifier, online, with the name,
  port, identity hint and transfer capabilities it announced, unless the peer knows the identifier under another hint.\<close>

theorem peer_discovers:
  assumes new: "NewDiscoveryService E c n = Inr s" and fit: "fits64 (Self s)" "length (dcAppVersion c) \<le> 64"
    and ad: "adText ad = laText (announcement net (Self (updateSelf own t s)))"
      "adPort ad = laPort (announcement net (Self (updateSelf own t s)))" "length (adHostname ad) \<le> 255"
    and ip: "bestAddress (adIPv4 ad) (adIPv6 ad) = Some i" "to4 i = Some [b1, b2, b3, b4]"
      "\<forall>b \<in> {b1, b2, b3, b4}. 0 \<le> b \<and> b \<le> 255"
    and peer: "rgSelfID (dsRegistry p) \<noteq> idID (dcIdentity c)"
      "\<forall>d. map_of (rgDevices (dsRegistry p)) (idID (dcIdentity c)) = Some d \<longrightarrow>
         dIdentityHint d \<in> {[], ShortFingerprint (dcIdentity c)}"
  shows "\<exists>d. map_of (rgDevices (dsRegistry (handleAdvertisement E ad m p))) (idID (dcIdentity c)) = Some d \<and>
    dOnline d \<and> dLastSeen d = m \<and> dName d = idName (dcIdentity c) \<and> dLocalIP d = ip_string i \<and> dPort d = dcPort c \<and>
    dIdentityHint d = ShortFingerprint (dcIdentity c) \<and> dPairingAvailable d \<and>
    dTransferCapability d = capTransferSupport (dcTransferCapabilities c) \<and>
    dSupportedProtocolVersion d = capProtocolVersion (dcTransferCapabilities c) \<and>
    dMaximumChunkSize d = capMaxChunkSize (dcTransferCapabilities c)"
proof -
  note f = new_service_facts [OF new]
  let ?d = "read_back (adHostname ad) i (self_device c n)"
  have self: "dID ?d = idID (dcIdentity c)" "dIdentityHint ?d = ShortFingerprint (dcIdentity c)"
    by (simp_all add: read_back_def self_device_def Let_def)
  have sent: "adText ad = announced_text (self_device c n)" "adPort ad = dPort (self_device c n)"
    using ad(1,2) f by (simp_all add: announcement_def announced_text_def Self_def updateSelf_def)
  have "announced_device (text_values (adText ad)) ad i = ?d"
    by (rule announced_reads [OF sent]) (use fit f in simp)
  moreover have v: "validateDiscoveredDevice E ?d = Inr ()"
    by (rule self_is_valid [OF new fit(2) ad(3)]) (simp add: parse_ip_dotted [OF ip(2,3)])
  ultimately have "parseAdvertisement E ad = Inr ?d"
    using ip(1) sent(1) by (simp add: parseAdvertisement_def Let_def)
  moreover have "map_of (rgDevices (snd (Upsert E ?d m (dsRegistry p)))) (dID ?d) =
      Some (?d\<lparr>dLastSeen := m, dOnline := True, dConnectionState := ConnectionOnline\<rparr>)"
    by (rule Upsert_records [OF v]) (use peer in \<open>auto simp: self identityConflicts_def\<close>)
  ultimately show ?thesis
    by (simp add: handleAdvertisement_def self) (simp add: read_back_def self_device_def Let_def)
qed

section \<open>Supervision\<close>

text \<open>\<open>n\<close> failures in a row are answered by waits of 1, 2, 4, ... seconds, at most 30.\<close>

lemma next_backoff_min: "next_backoff (min b (30 * second)) = min (2 * b) (30 * second)" if "0 \<le> b"
  using that by (auto simp: next_backoff_def second_def)

lemma run_waits_failures:
  "0 \<le> b \<Longrightarrow> run_waits (min b (30 * second)) (map EndError ms) =
     map (\<lambda>k. min (2 ^ k * b) (30 * second)) [0..<length ms]"
proof (induction ms arbitrary: b)
  case (Cons m ms)
  have "run_waits (min (2 * b) (30 * second)) (map EndError ms) =
      map (\<lambda>k. min (2 ^ k * (2 * b)) (30 * second)) [0..<length ms]"
    using Cons by simp
  then have "run_waits (next_backoff (min b (30 * second))) (map EndError ms) =
      map (\<lambda>k. min (2 ^ Suc k * b) (30 * second)) [0..<length ms]"
    unfolding next_backoff_min [OF Cons.prems] by (simp add: ac_simps)
  then show ?case by (simp add: map_upt_Suc del: upt_Suc)
qed simp

lemma run_waits_bounds: "second \<le> b \<Longrightarrow> b \<le> 30 * second \<Longrightarrow> x \<in> set (run_waits b es) \<Longrightarrow>
    second \<le> x \<and> x \<le> 30 * second"
  by (induction b es rule: run_waits.induct) (auto simp: next_backoff_def second_def split: if_splits)

section \<open>Examples\<close>

definition sample_discovery :: discovery_config where
  "sample_discovery = \<lparr>dcIdentity = sample_identity, dcPort = 8443, dcAppVersion = ''1.0'',
     dcRegistry = Some sample_registry, dcMDNS = True, dcNetworkInterval = 0, dcRestartInterval = 0,
     dcSweepInterval = 0, dcTransferCapabilities = \<lparr>capAvailableStorage = 1000, capProtocolVersion = 1,
       capMaxChunkSize = 4194304, capCompressionSupport = True, capTransferSupport = True\<rparr>\<rparr>"

definition sample_discoverer :: "registry \<Rightarrow> discovery_service" where
  "sample_discoverer r = \<lparr>dsIdentity = sample_identity, dsNetworkInterval = 5 * second,
     dsRestartInterval = 60 * second, dsSweepInterval = 5 * second, dsRegistry = r, dsRefresh = False,
     dsSelf = self_device sample_discovery 7\<rparr>"

lemma sample_discovery_new:
  "NewDiscoveryService sample_id_host sample_discovery 7 = Inr (sample_discoverer sample_registry)"
proof -
  have "trim_space ''1.0'' = ''1.0''" by code_simp
  then show ?thesis
    by (simp add: NewDiscoveryService_def sample_discoverer_def sample_identity_valid)
      (simp add: sample_discovery_def sample_identity_valid)
qed

definition sample_advertisement :: advertisement where
  "sample_advertisement = \<lparr>adPort = 8443, adText = announced_text (self_device sample_discovery 7),
     adIPv4 = [[127, 0, 0, 1], [10, 0, 0, 7]], adIPv6 = [], adHostname = ''laptop.local.''\<rparr>"

theorem peer_discovers_witness:
  "\<exists>d. map_of (rgDevices (dsRegistry (handleAdvertisement sample_id_host sample_advertisement 9
        (sample_discoverer (sample_registry\<lparr>rgSelfID := ''peer''\<rparr>))))) ''me'' = Some d \<and>
     dOnline d \<and> dName d = ''Me'' \<and> dLocalIP d = ''10.0.0.7'' \<and> dTransferCapability d"
proof -
  have ip: "bestAddress (adIPv4 sample_advertisement) (adIPv6 sample_advertisement) = Some [10, 0, 0, 7]"
    unfolding sample_advertisement_def advertisement.simps by code_simp
  have four: "to4 [10, 0, 0, 7] = Some [10, 0, 0, 7]" by (simp add: to4_def)
  have shown: "ip_string [10, 0, 0, 7] = ''10.0.0.7''" by code_simp
  have "\<exists>d. map_of (rgDevices (dsRegistry (handleAdvertisement sample_id_host sample_advertisement 9
        (sample_discoverer (sample_registry\<lparr>rgSelfID := ''peer''\<rparr>))))) (idID (dcIdentity sample_discovery)) = Some d \<and>
     dOnline d \<and> dLastSeen d = 9 \<and> dName d = idName (dcIdentity sample_discovery) \<and>
     dLocalIP d = ip_string [10, 0, 0, 7] \<and> dPort d = dcPort sample_discovery \<and>
     dIdentityHint d = ShortFingerprint (dcIdentity sample_discovery) \<and> dPairingAvailable d \<and>
     dTransferCapability d = capTransferSupport (dcTransferCapabilities sample_discovery) \<and>
     dSupportedProtocolVersion d = capProtocolVersion (dcTransferCapabilities sample_discovery) \<and>
     dMaximumChunkSize d = capMaxChunkSize (dcTransferCapabilities sample_discovery)"
  proof (rule peer_discovers [OF sample_discovery_new _ _ _ _ _ ip four])
    show "adText sample_advertisement = laText (announcement no_network (Self (updateSelf [] 8 (sample_discoverer sample_registry))))"
      "adPort sample_advertisement = laPort (announcement no_network (Self (updateSelf [] 8 (sample_discoverer sample_registry))))"
      by (simp_all add: sample_advertisement_def announcement_def Self_def updateSelf_def sample_discoverer_def
          announced_text_def) (simp add: self_device_def Let_def sample_discovery_def)
    show "fits64 (Self (sample_discoverer sample_registry))"
      by (simp add: fits64_def Self_def sample_discoverer_def self_device_def Let_def sample_discovery_def in64_def)
  qed (simp_all add: sample_discovery_def sample_advertisement_def sample_discoverer_def sample_registry_def
      sample_identity_def)
  then show ?thesis by (simp add: shown) (auto simp: sample_discovery_def sample_identity_def)
qed

end
