(* ===== verification/DiscoveryBrowse.thy ===== *)
theory DiscoveryBrowse
  imports Discovery
begin

text \<open>
  The adapter of \<open>discovery/mdns.go\<close> to the mDNS library: publishing the local record, and browsing in
  windows of ten seconds, each of which forwards the entries the library delivers.

  The library is a parameter: the errors of its calls, and the events a window sees in order.
\<close>

definition browseWindow :: int where
  "browseWindow = 10 * second"

text \<open>The network interface of a name, and the registration of the record on it.\<close>

record 's zeroconf =
  zcInterface :: "string \<Rightarrow> string option"
  zcRegister :: "local_advertisement \<Rightarrow> string + 's"

definition Advertise :: "'s zeroconf \<Rightarrow> local_advertisement \<Rightarrow> string + 's" where
  "Advertise Z a =
     (case zcInterface Z (laInterfaceName a) of
        Some e \<Rightarrow> Inl (''resolve selected mDNS interface: '' @ e)
      | None \<Rightarrow> (case zcRegister Z a of Inl e \<Rightarrow> Inl (''register mDNS service: '' @ e) | Inr s \<Rightarrow> Inr s))"

text \<open>
  An entry of the library; a nil entry is \<open>None\<close>. \<open>EntriesClosed\<close> says whether a context had ended when
  the channel closed, \<open>Refused\<close> that the context ended while the reader did not take the entry.
\<close>

datatype browse_event =
  BrowseCancelled | WindowEnds | EntriesClosed bool | BrowseEntry "advertisement option" | Refused advertisement

definition cloneIPs :: "ip list \<Rightarrow> ip list" where
  "cloneIPs input = map (\<lambda>i. i) input"

definition translated :: "advertisement \<Rightarrow> advertisement" where
  "translated a = a\<lparr>adIPv4 := cloneIPs (adIPv4 a), adIPv6 := cloneIPs (adIPv6 a)\<rparr>"

text \<open>The select loop: how it ended, if it did, and what it sent to the reader.\<close>

fun browse_loop :: "browse_event list \<Rightarrow> (string + unit) option \<times> advertisement list" where
  "browse_loop [] = (None, [])"
| "browse_loop (BrowseCancelled # es) = (Some (Inr ()), [])"
| "browse_loop (WindowEnds # es) = (Some (Inr ()), [])"
| "browse_loop (EntriesClosed ended # es) =
     (Some (if ended then Inr () else Inl ''mDNS browse stopped unexpectedly''), [])"
| "browse_loop (BrowseEntry None # es) = browse_loop es"
| "browse_loop (BrowseEntry (Some a) # es) = (case browse_loop es of (r, sent) \<Rightarrow> (r, translated a # sent))"
| "browse_loop (Refused a # es) = (Some (Inr ()), [])"

text \<open>A window: the errors of creating the resolver and of starting it, then its events.\<close>

record browse_window =
  bwResolver :: "string option"
  bwStart :: "string option"
  bwEvents :: "browse_event list"

definition browseOnce :: "browse_window \<Rightarrow> (string + unit) option \<times> advertisement list" where
  "browseOnce b =
     (case bwResolver b of
        Some e \<Rightarrow> (Some (Inl (''create mDNS resolver: '' @ e)), [])
      | None \<Rightarrow>
          (case bwStart b of
             Some e \<Rightarrow> (Some (Inl (''start mDNS browse: '' @ e)), [])
           | None \<Rightarrow> browse_loop (bwEvents b)))"

text \<open>The windows one after the other; before each the context is looked at, which the flag beside it answers.\<close>

fun Browse :: "(bool \<times> browse_window) list \<Rightarrow> (string + unit) option \<times> advertisement list" where
  "Browse [] = (None, [])"
| "Browse ((ended, b) # bs) =
     (if ended then (Some (Inr ()), [])
      else case browseOnce b of
        (None, sent) \<Rightarrow> (None, sent)
      | (Some (Inl e), sent) \<Rightarrow> (Some (Inl e), sent)
      | (Some (Inr _), sent) \<Rightarrow> (case Browse bs of (r, later) \<Rightarrow> (r, sent @ later)))"

text \<open>Every entry before the end of a window reaches the reader unchanged and in order.\<close>

definition entry_of_event :: "browse_event \<Rightarrow> advertisement list" where
  "entry_of_event e = (case e of BrowseEntry (Some a) \<Rightarrow> [a] | _ \<Rightarrow> [])"

lemma translated_same [simp]: "translated a = a"
  by (simp add: translated_def cloneIPs_def)

lemma browse_loop_forwards:
  "(\<forall>e \<in> set es. \<exists>a. e = BrowseEntry a) \<Longrightarrow>
   browse_loop (es @ e1 # rest) = (fst (browse_loop (e1 # rest)), concat (map entry_of_event es) @ snd (browse_loop (e1 # rest)))"
proof (induction es)
  case (Cons e es)
  then obtain a where "e = BrowseEntry a" by auto
  then show ?case using Cons by (cases a) (auto simp: entry_of_event_def split: prod.split)
qed simp

end
