(* ===== verification/Settings.thy ===== *)
theory Settings
  imports Identity
begin

text \<open>
  \<open>settings/store.go\<close> and \<open>settings/privacy.go\<close>: the user's preferences, kept in one file that is
  replaced atomically, and the acceptance of the privacy policy.

  The store runs over the file tree of the process. The home directory, the JSON codec of the
  values and the names of temporary files are parameters. Every method runs under the mutex of the
  store, so a run of the program is a sequence of calls.
\<close>

section \<open>Data\<close>

definition SchemaVersion :: int where
  "SchemaVersion = 2"

definition CurrentPrivacyPolicyVersion :: string where
  "CurrentPrivacyPolicyVersion = ''2026-07-1''"

definition AppearanceSystem :: string where "AppearanceSystem = ''system''"
definition AppearanceLight :: string where "AppearanceLight = ''light''"
definition AppearanceDark :: string where "AppearanceDark = ''dark''"

record settings_values =
  svSchemaVersion :: int
  svAppearance :: string
  svReducedMotion :: bool
  svDefaultDownloadDirectory :: string
  svConflictPolicy :: string
  svNotificationsEnabled :: bool
  svDeviceName :: string
  svDiscoverable :: bool
  svIncomingTransfersEnabled :: bool
  svPrivacyPolicyVersion :: string
  svPrivacyAcceptedAt :: "time option"

record settings_host = host +
  hHomeDir :: "string option"
  hSettingsTemp :: "nat \<Rightarrow> string"
  hSettingsDecode :: "string \<Rightarrow> os_error + settings_values"
  hSettingsEncode :: "settings_values \<Rightarrow> string"

text \<open>\<open>ssChanged\<close> is the one-slot channel of change signals.\<close>

record settings_store =
  ssPath :: string
  ssValues :: settings_values
  ssChanged :: bool

section \<open>Values\<close>

definition ValidateSettings :: "settings_values \<Rightarrow> os_error + unit" where
  "ValidateSettings v =
     (if svSchemaVersion v \<noteq> 0 \<and> svSchemaVersion v \<noteq> 1 \<and> svSchemaVersion v \<noteq> SchemaVersion
      then Inl (OsOther ''unsupported settings schema version'')
      else if svAppearance v \<noteq> AppearanceSystem \<and> svAppearance v \<noteq> AppearanceLight \<and> svAppearance v \<noteq> AppearanceDark
      then Inl (OsOther ''appearance must be system, light, or dark'')
      else if svConflictPolicy v \<noteq> ''prompt'' \<and> svConflictPolicy v \<noteq> ''rename'' \<and> svConflictPolicy v \<noteq> ''overwrite''
      then Inl (OsOther ''conflict policy must be prompt, rename, or overwrite'')
      else if svDefaultDownloadDirectory v \<noteq> [] \<and> \<not> is_abs (svDefaultDownloadDirectory v)
      then Inl (OsOther ''default download directory must be an absolute path'')
      else if 4096 < length (svDefaultDownloadDirectory v)
      then Inl (OsOther ''default download directory is too long'')
      else if 128 < length (svDeviceName v) \<or> (svDeviceName v \<noteq> [] \<and> trim_space (svDeviceName v) = [])
      then Inl (OsOther ''device name must contain 1 to 128 characters'')
      else if svPrivacyPolicyVersion v \<noteq> [] \<and> svPrivacyPolicyVersion v \<noteq> CurrentPrivacyPolicyVersion \<and>
         svPrivacyAcceptedAt v = None
      then Inl (OsOther ''privacy policy version requires an acceptance timestamp'')
      else Inr ())"

definition Defaults :: "('r) settings_host_scheme \<Rightarrow> settings_values" where
  "Defaults E =
     (let destination = (case hHomeDir E of
            None \<Rightarrow> []
          | Some home \<Rightarrow> let candidate = path_join [home, ''Downloads'', ''SyncSpace''] in
              if is_abs candidate then candidate else [])
      in \<lparr>svSchemaVersion = SchemaVersion, svAppearance = AppearanceSystem, svReducedMotion = False,
          svDefaultDownloadDirectory = destination, svConflictPolicy = ''rename'',
          svNotificationsEnabled = False, svDeviceName = [], svDiscoverable = True,
          svIncomingTransfersEnabled = True, svPrivacyPolicyVersion = [], svPrivacyAcceptedAt = None\<rparr>)"

definition migrate :: "settings_values \<Rightarrow> settings_values" where
  "migrate v =
     (let v1 = (if svSchemaVersion v < 2
            then v\<lparr>svDiscoverable := True, svIncomingTransfersEnabled := True, svNotificationsEnabled := False\<rparr>
            else v)
      in v1\<lparr>svDeviceName := trim_space (svDeviceName v1), svSchemaVersion := SchemaVersion\<rparr>)"

definition policy_accepted :: "settings_values \<Rightarrow> bool" where
  "policy_accepted v \<longleftrightarrow> svPrivacyAcceptedAt v \<noteq> None \<and> svPrivacyPolicyVersion v = CurrentPrivacyPolicyVersion"

section \<open>The file\<close>

definition save_values :: "('r) settings_host_scheme \<Rightarrow> string \<Rightarrow> settings_values \<Rightarrow> (tworld, os_error, unit) gom" where
  "save_values E path v =
     seqE (fs_call E (os_mkdir_all (path_dir path)))
       (write_through E (hSettingsTemp E) path (hSettingsEncode E v @ [CHR 0x0A]))"

definition load_values :: "('r) settings_host_scheme \<Rightarrow> string \<Rightarrow> (tworld, os_error, settings_values) gom" where
  "load_values E path =
     bindE (fs_read E (\<lambda>fs. os_read_file fs path)) (\<lambda>contents.
     bindE (liftE (hSettingsDecode E contents)) (\<lambda>v.
     seqE (liftE (ValidateSettings v)) (retE v)))"

section \<open>The store\<close>

type_synonym 'a sm = "(settings_store \<times> tworld, os_error, 'a) gom"

definition in_world :: "(tworld, os_error, 'a) gom \<Rightarrow> 'a sm" where
  "in_world m = (\<lambda>(s, w). case m w of (r, w') \<Rightarrow> (r, (s, w')))"

definition NewSettingsStore ::
  "('r) settings_host_scheme \<Rightarrow> string \<Rightarrow> (tworld, os_error, settings_store) gom" where
  "NewSettingsStore E path =
     bindE (tryE (load_values E path)) (\<lambda>r.
     bindE (case r of
         Inr v \<Rightarrow> retE v
       | Inl OsNotExist \<Rightarrow> retE (Defaults E)
       | Inl e \<Rightarrow> throwE e) (\<lambda>v.
     seqE (save_values E path (migrate v))
       (retE \<lparr>ssPath = path, ssValues = migrate v, ssChanged = False\<rparr>)))"

definition GetSettings :: "settings_store \<Rightarrow> settings_values" where
  "GetSettings s = ssValues s"

definition PrivacyAccepted :: "settings_store \<Rightarrow> bool" where
  "PrivacyAccepted s = policy_accepted (GetSettings s)"

definition notify :: "settings_store \<Rightarrow> settings_store" where
  "notify s = s\<lparr>ssChanged := True\<rparr>"

text \<open>Saving the values and, only then, taking them over: the tail of both writing methods.\<close>

definition store_values :: "('r) settings_host_scheme \<Rightarrow> settings_values \<Rightarrow> settings_values sm" where
  "store_values E v =
     bindE (getE (\<lambda>(s, w). ssPath s)) (\<lambda>path.
     seqE (in_world (save_values E path v))
     (seqE (modE (\<lambda>(s, w). (notify (s\<lparr>ssValues := v\<rparr>), w)))
     (retE v)))"

definition UpdateSettings :: "('r) settings_host_scheme \<Rightarrow> settings_values \<Rightarrow> settings_values sm" where
  "UpdateSettings E v0 =
     (let v = v0\<lparr>svDeviceName := trim_space (svDeviceName v0)\<rparr> in
      seqE (liftE (ValidateSettings v))
      (bindE (getE (\<lambda>(s, w). ssValues s)) (\<lambda>current.
       store_values E (v\<lparr>svPrivacyPolicyVersion := svPrivacyPolicyVersion current,
         svPrivacyAcceptedAt := svPrivacyAcceptedAt current, svSchemaVersion := SchemaVersion\<rparr>))))"

definition AcceptPrivacy :: "('r) settings_host_scheme \<Rightarrow> string \<Rightarrow> time \<Rightarrow> settings_values sm" where
  "AcceptPrivacy E version acceptedAt =
     seqE (guardE (version \<noteq> CurrentPrivacyPolicyVersion) (OsOther ''privacy policy version is no longer current''))
     (bindE (if acceptedAt = time_zero then in_world (now E) else retE acceptedAt) (\<lambda>t.
      bindE (getE (\<lambda>(s, w). ssValues s)) (\<lambda>current.
      store_values E (current\<lparr>svSchemaVersion := SchemaVersion, svPrivacyPolicyVersion := version,
        svPrivacyAcceptedAt := Some t\<rparr>))))"

text \<open>\<open>Policy\<close>, without its fixed text.\<close>

record privacy_policy =
  ppVersion :: string
  ppAccepted :: bool
  ppAcceptedAt :: "time option"

definition Policy :: "settings_values \<Rightarrow> privacy_policy" where
  "Policy v = \<lparr>ppVersion = CurrentPrivacyPolicyVersion, ppAccepted = policy_accepted v,
     ppAcceptedAt = (if policy_accepted v then svPrivacyAcceptedAt v else None)\<rparr>"

section \<open>Runs\<close>

datatype settings_call = CallUpdate settings_values | CallAcceptPrivacy string time

fun settings_call_run :: "('r) settings_host_scheme \<Rightarrow> settings_call \<Rightarrow> settings_values sm" where
  "settings_call_run E (CallUpdate v) = UpdateSettings E v"
| "settings_call_run E (CallAcceptPrivacy version t) = AcceptPrivacy E version t"

definition settings_step :: "('r) settings_host_scheme \<Rightarrow> settings_call \<Rightarrow> settings_store \<times> tworld \<Rightarrow> settings_store \<times> tworld" where
  "settings_step E c x = snd (settings_call_run E c x)"

definition consent_of :: "settings_values \<Rightarrow> string \<times> time option" where
  "consent_of v = (svPrivacyPolicyVersion v, svPrivacyAcceptedAt v)"

definition settings_ok :: "settings_values \<Rightarrow> bool" where
  "settings_ok v \<longleftrightarrow> ValidateSettings v = Inr () \<and> svSchemaVersion v = SchemaVersion \<and>
     trim_space (svDeviceName v) = svDeviceName v"

lemma accepted_consent: "policy_accepted v \<longleftrightarrow> (\<exists>t. consent_of v = (CurrentPrivacyPolicyVersion, Some t))"
  by (auto simp: policy_accepted_def consent_of_def)

lemma in_world_InrE:
  assumes "in_world m x = (Inr a, y)"
  obtains w' where "m (snd x) = (Inr a, w')" "y = (fst x, w')"
  using assms by (auto simp: in_world_def split: prod.splits)

lemma store_values_Inl: "store_values E v x = (Inl e, y) \<Longrightarrow> fst y = fst x"
  by (auto simp: store_values_def in_world_def bindE_def seqE_def split: prod.splits sum.splits)

lemma store_values_InrE:
  assumes "store_values E v x = (Inr u, y)"
  obtains w where "u = v" "y = (notify ((fst x)\<lparr>ssValues := v\<rparr>), w)"
    "save_values E (ssPath (fst x)) v (snd x) = (Inr (), w)"
  using assms
  by (auto simp: store_values_def in_world_def bindE_def seqE_def split: prod.splits sum.splits)

text \<open>A failing call leaves the store as it was; a successful one ends by storing its values.\<close>

lemma call_Inl: "settings_call_run E c x = (Inl e, y) \<Longrightarrow> fst y = fst x"
proof (cases c)
  case (CallUpdate v)
  assume "settings_call_run E c x = (Inl e, y)"
  then show ?thesis
    by (auto simp: CallUpdate UpdateSettings_def Let_def bindE_def seqE_def split: sum.splits prod.splits
        dest: store_values_Inl)
next
  case (CallAcceptPrivacy version t)
  assume "settings_call_run E c x = (Inl e, y)"
  then show ?thesis
    by (auto simp: CallAcceptPrivacy AcceptPrivacy_def guardE_def in_world_def bindE_def seqE_def
        split: sum.splits prod.splits if_splits dest!: store_values_Inl)
qed

lemma call_InrE:
  assumes "settings_call_run E c x = (Inr v, y)"
  obtains (update) v0 where "c = CallUpdate v0" "store_values E v x = (Inr v, y)"
      "v = v0\<lparr>svDeviceName := trim_space (svDeviceName v0), svPrivacyPolicyVersion := svPrivacyPolicyVersion (ssValues (fst x)),
        svPrivacyAcceptedAt := svPrivacyAcceptedAt (ssValues (fst x)), svSchemaVersion := SchemaVersion\<rparr>"
      "ValidateSettings (v0\<lparr>svDeviceName := trim_space (svDeviceName v0)\<rparr>) = Inr ()"
  | (accept) t u z where "c = CallAcceptPrivacy CurrentPrivacyPolicyVersion t" "store_values E v z = (Inr v, y)"
      "fst z = fst x" "wFs (snd z) = wFs (snd x)"
      "v = (ssValues (fst x))\<lparr>svSchemaVersion := SchemaVersion, svPrivacyPolicyVersion := CurrentPrivacyPolicyVersion,
        svPrivacyAcceptedAt := Some u\<rparr>"
proof (cases c)
  case (CallUpdate v0)
  let ?v = "v0\<lparr>svDeviceName := trim_space (svDeviceName v0)\<rparr>"
  let ?w = "?v\<lparr>svPrivacyPolicyVersion := svPrivacyPolicyVersion (ssValues (fst x)),
      svPrivacyAcceptedAt := svPrivacyAcceptedAt (ssValues (fst x)), svSchemaVersion := SchemaVersion\<rparr>"
  have ok: "ValidateSettings ?v = Inr ()"
    using assms by (cases "ValidateSettings ?v") (simp_all add: CallUpdate UpdateSettings_def Let_def seqE_def bindE_def)
  then have "store_values E ?w x = (Inr v, y)"
    using assms by (simp add: CallUpdate UpdateSettings_def Let_def seqE_def bindE_def split_def)
  moreover from this have "v = ?w" by (rule store_values_InrE)
  ultimately show ?thesis using update [of v0] CallUpdate ok by simp
next
  case (CallAcceptPrivacy version t)
  from assms obtain a z1 u z where g: "guardE (version \<noteq> CurrentPrivacyPolicyVersion)
      (OsOther ''privacy policy version is no longer current'') x = (Inr a, z1)" and
    n: "(if t = time_zero then in_world (now E) else retE t) z1 = (Inr u, z)" and
    st: "store_values E ((ssValues (fst z))\<lparr>svSchemaVersion := SchemaVersion, svPrivacyPolicyVersion := version,
        svPrivacyAcceptedAt := Some u\<rparr>) z = (Inr v, y)"
    by (auto simp: CallAcceptPrivacy AcceptPrivacy_def split_def elim!: seqE_InrE bindE_InrE)
  from g have v: "version = CurrentPrivacyPolicyVersion" "z1 = x" by (auto elim: guardE_InrE)
  from n v have z: "fst z = fst x" "wFs (snd z) = wFs (snd x)"
    by (auto simp: in_world_def split: if_splits prod.splits elim: now_InrE)
  show ?thesis
    using accept [of t z u] st v z CallAcceptPrivacy by (auto elim: store_values_InrE)
qed

lemma accepted_by_call:
  assumes "settings_call_run E c x = (r, y)"
  shows "PrivacyAccepted (fst y) \<longleftrightarrow> PrivacyAccepted (fst x) \<or> (\<exists>v version t. r = Inr v \<and> c = CallAcceptPrivacy version t)"
proof (cases r)
  case (Inl e)
  then show ?thesis using assms call_Inl [of E c x e y] by simp
next
  case (Inr v)
  from assms [unfolded Inr] show ?thesis
  proof (cases rule: call_InrE)
    case (update v0)
    then show ?thesis using Inr
      by (auto simp: PrivacyAccepted_def GetSettings_def policy_accepted_def notify_def elim!: store_values_InrE)
  next
    case (accept t u z)
    then show ?thesis using Inr
      by (auto simp: PrivacyAccepted_def GetSettings_def policy_accepted_def notify_def elim!: store_values_InrE)
  qed
qed

lemma ValidateSettings_iff: "ValidateSettings v = Inr () \<longleftrightarrow>
    svSchemaVersion v \<in> {0, 1, SchemaVersion} \<and> svAppearance v \<in> {AppearanceSystem, AppearanceLight, AppearanceDark} \<and>
    svConflictPolicy v \<in> {''prompt'', ''rename'', ''overwrite''} \<and>
    (svDefaultDownloadDirectory v = [] \<or> is_abs (svDefaultDownloadDirectory v)) \<and>
    length (svDefaultDownloadDirectory v) \<le> 4096 \<and> length (svDeviceName v) \<le> 128 \<and>
    (svDeviceName v = [] \<or> trim_space (svDeviceName v) \<noteq> []) \<and>
    (svPrivacyPolicyVersion v \<in> {[], CurrentPrivacyPolicyVersion} \<or> svPrivacyAcceptedAt v \<noteq> None)"
  by (simp add: ValidateSettings_def not_less)

lemma settings_ok_call:
  assumes "settings_ok (ssValues (fst x))" "settings_call_run E c x = (r, y)"
  shows "settings_ok (ssValues (fst y))"
proof (cases r)
  case (Inl e)
  then show ?thesis using assms call_Inl [of E c x e y] by simp
next
  case (Inr v)
  have e: "ssValues (fst y) = v" if "store_values E v z = (Inr v, y)" for z
    using that by (auto simp: notify_def elim!: store_values_InrE)
  from assms(2) [unfolded Inr] show ?thesis
  proof (cases rule: call_InrE)
    case (update v0)
    then show ?thesis using assms(1) e [OF update(2)]
      by (simp add: settings_ok_def ValidateSettings_iff)
  next
    case (accept t u z)
    then show ?thesis using assms(1) e [OF accept(2)]
      by (simp add: settings_ok_def ValidateSettings_iff)
  qed
qed

lemma migrate_ok: "settings_ok v \<Longrightarrow> migrate v = v"
  by (simp add: settings_ok_def migrate_def SchemaVersion_def Let_def)

lemma save_values_Inr:
  assumes "save_values E path v w = (Inr u, w')" "\<And>n. path_join [path_dir path, hSettingsTemp E n] \<noteq> path"
  shows "wFs w' path = Some (NFile (hSettingsEncode E v @ [CHR 0x0A]))"
  using assms unfolding save_values_def by (elim seqE_InrE) (erule write_through_Inr, blast, blast)

section \<open>Properties\<close>

text \<open>C30: The privacy policy counts as accepted exactly when it was accepted at the start or a call to accept the current
  version succeeded since; no update of the preferences, whatever document it sends, grants or revokes it.\<close>

theorem consent_is_explicit:
  "PrivacyAccepted (fst (fold (settings_step E) cs x)) \<longleftrightarrow> PrivacyAccepted (fst x) \<or>
     (\<exists>pre version t post v. cs = pre @ CallAcceptPrivacy version t # post \<and>
        fst (AcceptPrivacy E version t (fold (settings_step E) pre x)) = Inr v)"
proof (induction cs rule: rev_induct)
  case (snoc c cs)
  let ?x = "fold (settings_step E) cs x"
  obtain r y where r: "settings_call_run E c ?x = (r, y)" by (cases "settings_call_run E c ?x")
  have f: "fold (settings_step E) (cs @ [c]) x = y" by (simp add: settings_step_def r)
  show ?case
    unfolding f accepted_by_call [OF r] snoc
  proof (intro iffI; elim disjE exE conjE)
    fix v version t
    assume "r = Inr v" "c = CallAcceptPrivacy version t"
    then show "PrivacyAccepted (fst x) \<or> (\<exists>pre version t post v. cs @ [c] = pre @ CallAcceptPrivacy version t # post \<and>
        fst (AcceptPrivacy E version t (fold (settings_step E) pre x)) = Inr v)"
      using r by (intro disjI2 exI [of _ cs] exI [of _ version] exI [of _ t] exI [of _ "[]"] exI [of _ v]) simp
  next
    fix pre version t post v
    assume a: "cs @ [c] = pre @ CallAcceptPrivacy version t # post"
      "fst (AcceptPrivacy E version t (fold (settings_step E) pre x)) = Inr v"
    then show "(PrivacyAccepted (fst x) \<or> (\<exists>pre version t post v. cs = pre @ CallAcceptPrivacy version t # post \<and>
        fst (AcceptPrivacy E version t (fold (settings_step E) pre x)) = Inr v)) \<or>
        (\<exists>v version t. r = Inr v \<and> c = CallAcceptPrivacy version t)"
    proof (cases post rule: rev_cases)
      case Nil
      then show ?thesis using a r by simp
    next
      case (snoc ys z)
      then have "cs = pre @ CallAcceptPrivacy version t # ys" using a(1) by simp
      then show ?thesis using a(2) by blast
    qed
  qed auto
qed simp

text \<open>C31: Settings survive a restart: what a successful call stored is what the store loads when the program starts again.\<close>

theorem settings_survive_restart:
  assumes "settings_call_run E c x = (Inr v, y)" and "settings_ok (ssValues (fst x))"
    and "hSettingsDecode E (hSettingsEncode E v @ [CHR 0x0A]) = Inr v"
    and "\<And>n. path_join [path_dir (ssPath (fst x)), hSettingsTemp E n] \<noteq> ssPath (fst x)"
    and "wFs w (ssPath (fst x)) = wFs (snd y) (ssPath (fst x))"
    and "NewSettingsStore E (ssPath (fst x)) w = (Inr s, w')"
  shows "ssValues s = v \<and> ssValues (fst y) = v"
proof -
  let ?p = "ssPath (fst x)"
  obtain z where z: "store_values E v z = (Inr v, y)" "fst z = fst x"
    using assms(1) by (cases rule: call_InrE) auto
  then have y: "ssValues (fst y) = v" by (auto simp: notify_def elim!: store_values_InrE)
  have ok: "settings_ok v" using settings_ok_call [OF assms(2,1)] y by simp
  from z obtain w1 where "save_values E ?p v (snd z) = (Inr (), w1)" "snd y = w1" by (auto elim!: store_values_InrE)
  then have "wFs w ?p = Some (NFile (hSettingsEncode E v @ [CHR 0x0A]))"
    using save_values_Inr [OF _ assms(4)] assms(5) by simp
  then have "r = Inr v \<or> (\<exists>m. r = Inl (OsOther m))" if "load_values E ?p w = (r, w2)" for r w2
    using that assms(3) ok
    by (auto simp: load_values_def fs_read_def os_read_file_def bindE_def seqE_def settings_ok_def
        split: option.splits) (metis fault_os.elims)
  moreover obtain r w2 where "load_values E ?p w = (r, w2)" by (cases "load_values E ?p w")
  ultimately show ?thesis
    using assms(6) ok y
    by (auto simp: NewSettingsStore_def bindE_def seqE_def tryE_def migrate_ok split: prod.splits sum.splits)
qed

section \<open>Examples\<close>

definition sample_preferences :: settings_values where
  "sample_preferences = \<lparr>svSchemaVersion = 2, svAppearance = ''dark'', svReducedMotion = False,
     svDefaultDownloadDirectory = ''/home/me/Downloads/SyncSpace'', svConflictPolicy = ''rename'',
     svNotificationsEnabled = False, svDeviceName = ''Me'', svDiscoverable = True,
     svIncomingTransfersEnabled = True, svPrivacyPolicyVersion = [], svPrivacyAcceptedAt = None\<rparr>"

definition sample_settings_host :: settings_host where
  "sample_settings_host = host.extend (host.truncate sample_service)
     (settings_host.fields (Some ''/home/me'') (\<lambda>_. ''.syncspace-settings-1'') (\<lambda>_. Inr sample_preferences) (\<lambda>_. ''{}''))"

definition sample_settings :: "settings_store \<times> tworld" where
  "sample_settings = (\<lparr>ssPath = ''/data/settings.json'', ssValues = Defaults sample_settings_host, ssChanged = False\<rparr>,
     sample_world)"

lemma sample_update: "fst (UpdateSettings sample_settings_host
    (sample_preferences\<lparr>svDeviceName := '' Me '', svPrivacyPolicyVersion := ''2026-07-1'', svPrivacyAcceptedAt := Some 5\<rparr>)
    sample_settings) = Inr sample_preferences"
  by code_simp

lemma sample_reload: "map_sum id ssValues (fst (NewSettingsStore sample_settings_host ''/data/settings.json''
    (snd (snd (UpdateSettings sample_settings_host
      (sample_preferences\<lparr>svDeviceName := '' Me '', svPrivacyPolicyVersion := ''2026-07-1'', svPrivacyAcceptedAt := Some 5\<rparr>)
    sample_settings))))) = Inr sample_preferences"
  by code_simp

text \<open>A document that claims an acceptance is stored without it, and is read back so.\<close>

theorem settings_survive_restart_witness:
  "\<exists>y s w'. UpdateSettings sample_settings_host (sample_preferences\<lparr>svDeviceName := '' Me '',
      svPrivacyPolicyVersion := ''2026-07-1'', svPrivacyAcceptedAt := Some 5\<rparr>) sample_settings = (Inr sample_preferences, y) \<and>
    NewSettingsStore sample_settings_host ''/data/settings.json'' (snd y) = (Inr s, w') \<and> ssValues s = sample_preferences"
proof -
  let ?v0 = "sample_preferences\<lparr>svDeviceName := '' Me '', svPrivacyPolicyVersion := ''2026-07-1'', svPrivacyAcceptedAt := Some 5\<rparr>"
  obtain y where y: "UpdateSettings sample_settings_host ?v0 sample_settings = (Inr sample_preferences, y)"
    using sample_update by (rule run_fstE)
  obtain s w' where s: "NewSettingsStore sample_settings_host ''/data/settings.json'' (snd y) = (Inr s, w')"
    using sample_reload y
    by (cases "NewSettingsStore sample_settings_host ''/data/settings.json'' (snd y)"; cases "fst (NewSettingsStore sample_settings_host ''/data/settings.json'' (snd y))") auto
  have p: "ssPath (fst sample_settings) = ''/data/settings.json''" by (simp add: sample_settings_def)
  have temp: "path_join [path_dir ''/data/settings.json'', hSettingsTemp sample_settings_host n] \<noteq> ''/data/settings.json''" for n
  proof -
    have "path_join [path_dir ''/data/settings.json'', ''.syncspace-settings-1''] \<noteq> ''/data/settings.json''" by code_simp
    then show ?thesis
      by (simp add: sample_settings_host_def host.extend_def host.truncate_def settings_host.fields_def)
  qed
  have "ssValues s = sample_preferences \<and> ssValues (fst y) = sample_preferences"
  proof (rule settings_survive_restart)
    show "settings_call_run sample_settings_host (CallUpdate ?v0) sample_settings = (Inr sample_preferences, y)" using y by simp
    show "settings_ok (ssValues (fst sample_settings))" by code_simp
    show "hSettingsDecode sample_settings_host (hSettingsEncode sample_settings_host sample_preferences @ [CHR 0x0A]) = Inr sample_preferences"
      by (simp add: sample_settings_host_def host.extend_def host.truncate_def settings_host.fields_def)
    show "path_join [path_dir (ssPath (fst sample_settings)), hSettingsTemp sample_settings_host n] \<noteq> ssPath (fst sample_settings)" for n
      unfolding p by (rule temp)
    show "wFs (snd y) (ssPath (fst sample_settings)) = wFs (snd y) (ssPath (fst sample_settings))" ..
    show "NewSettingsStore sample_settings_host (ssPath (fst sample_settings)) (snd y) = (Inr s, w')" unfolding p by (rule s)
  qed
  then show ?thesis using y s by blast
qed

end
