(* ===== verification/Api.thy ===== *)
theory Api
  imports Settings GoValues
begin

text \<open>
  \<open>api/router.go\<close> with the guards of \<open>api/pairing.go\<close> and the routes of every file of the package:
  which handler a request reaches on the management and the peer listener, both of which serve the
  same router.

  The gin library chooses among the registered routes: \<open>find_route\<close> is a parameter, with
  \<open>gin_contract\<close> saying of it what its documentation does. \<open>ginKeeps\<close> tells whether
  \<open>HandleContext\<close> keeps the keys of the context, on which the model makes no assumption. \<open>url.Parse\<close>
  is a parameter as well (scheme and host), since only the equality with the host of the request counts.
\<close>

section \<open>Requests\<close>

record request =
  rqMethod :: string
  rqPath :: string
  rqRemote :: string
  rqHost :: string
  rqOrigin :: string
  rqFetchSite :: string

record api_host =
  aParseURL :: "string \<Rightarrow> (string \<times> string) option"
  aFold :: "string \<Rightarrow> string \<Rightarrow> bool"

section \<open>Guards\<close>

definition isDesktopOrigin :: "string \<Rightarrow> bool" where
  "isDesktopOrigin origin \<longleftrightarrow> origin = ''wails://wails'' \<or> origin = ''http://wails.localhost''"

definition remoteHost :: "string \<Rightarrow> string" where
  "remoteHost address = (case split_host_port address of
       Some (host, _) \<Rightarrow> host
     | None \<Rightarrow> trim_set address ''[]'')"

definition isLoopbackRequest :: "string \<Rightarrow> bool" where
  "isLoopbackRequest address =
     (let host = (case split_host_port address of None \<Rightarrow> address | Some (h, _) \<Rightarrow> h) in
      case parse_ip (trim_set host ''[]'') of None \<Rightarrow> False | Some i \<Rightarrow> is_loopback i)"

definition sameLocalOrigin :: "api_host \<Rightarrow> string \<Rightarrow> string \<Rightarrow> bool" where
  "sameLocalOrigin A origin requestHost =
     (if isDesktopOrigin origin then True
      else case aParseURL A origin of
        None \<Rightarrow> False
      | Some (scheme, host) \<Rightarrow>
          if scheme \<noteq> ''http'' \<and> scheme \<noteq> ''https'' then False
          else equal_fold (aFold A) host requestHost)"

text \<open>A guard returns the status it aborts with, or \<open>None\<close> to let the request pass.\<close>

definition localOnly :: "api_host \<Rightarrow> request \<Rightarrow> int option" where
  "localOnly A rq =
     (if \<not> isLoopbackRequest (rqRemote rq) then Some 403
      else if rqOrigin rq \<noteq> [] \<and> \<not> sameLocalOrigin A (rqOrigin rq) (rqHost rq) then Some 403
      else if rqFetchSite rq = ''cross-site'' \<and> \<not> isDesktopOrigin (rqOrigin rq) \<and>
         rqMethod rq \<noteq> ''GET'' \<and> rqMethod rq \<noteq> ''HEAD'' then Some 403
      else None)"

definition desktopOrigin :: "request \<Rightarrow> int option" where
  "desktopOrigin rq =
     (if isDesktopOrigin (rqOrigin rq) \<and> rqMethod rq = ''OPTIONS'' then Some 204 else None)"

definition api_request :: "string \<Rightarrow> bool" where
  "api_request full =
     (let path = trim_prefix full ''/api/v1'' in
      has_prefix full ''/api/v1/'' \<or> has_prefix path ''/v1/'' \<or>
      path = ''/devices'' \<or> has_prefix path ''/discovery/'' \<or> has_prefix path ''/pairing/'' \<or>
      path = ''/transfers'' \<or> has_prefix path ''/transfers/'' \<or> has_prefix path ''/ws/'' \<or>
      path = ''/settings'' \<or> has_prefix path ''/settings/'' \<or> path = ''/privacy-policy'' \<or>
      has_prefix path ''/privacy-policy/'' \<or> has_prefix path ''/diagnostics'' \<or> has_prefix path ''/dev/'')"

definition always_allowed :: "string \<Rightarrow> string \<Rightarrow> bool" where
  "always_allowed method path \<longleftrightarrow>
     (method = ''GET'' \<and> (path = ''/privacy-policy'' \<or> path = ''/settings'' \<or> path = ''/device/self'' \<or> path = ''/health'')) \<or>
     (method = ''POST'' \<and> path = ''/privacy-policy/accept'')"

definition privacyGate :: "settings_store option \<Rightarrow> request \<Rightarrow> int option" where
  "privacyGate store rq =
     (case store of
        None \<Rightarrow> None
      | Some s \<Rightarrow>
          if \<not> PrivacyAccepted s \<and> api_request (rqPath rq) \<and>
             \<not> always_allowed (rqMethod rq) (trim_prefix (rqPath rq) ''/api/v1'')
          then Some 403 else None)"

section \<open>Routes\<close>

datatype handler =
  HDevices | HSelf | HRefresh | HDiscoverySocket
| HTrustedDevices | HPairingRequests | HPairingRefresh | HPairingRequest | HPairingAccept | HPairingReject
| HBlock | HUnblock | HRemoveTrusted | HPairingSocket | HPeerBegin | HPeerProof
| HCreateStage | HUploadStage | HQueueStage | HDeleteStage | HQueue | HListTransfers | HDeleteHistory
| HGetTransfer | HTransferStatus | HAccept | HReject | HPause | HResume | HCancel | HRetry | HTransferSocket
| HPeerOffer | HPeerStatus | HPeerChunk | HPeerComplete | HPeerCancel
| HHealth | HDiagnostics | HExport | HTestTransfer | HClearTestData | HSimulated | HSimulate | HSimulateRemove
| HSimulateFailure
| HGetSettings | HPutSettings | HResetSettings | HPolicy | HAcceptPolicy

record route =
  rtMethod :: string
  rtPattern :: string
  rtLocal :: bool
  rtHandler :: handler

definition local_route :: "string \<Rightarrow> string \<Rightarrow> handler \<Rightarrow> route" where
  "local_route m p h = \<lparr>rtMethod = m, rtPattern = p, rtLocal = True, rtHandler = h\<rparr>"

definition peer_route :: "string \<Rightarrow> string \<Rightarrow> handler \<Rightarrow> route" where
  "peer_route m p h = \<lparr>rtMethod = m, rtPattern = p, rtLocal = False, rtHandler = h\<rparr>"

definition discovery_routes :: "route list" where
  "discovery_routes =
     [local_route ''GET'' ''/devices'' HDevices, local_route ''GET'' ''/device/self'' HSelf,
      local_route ''POST'' ''/discovery/refresh'' HRefresh, local_route ''GET'' ''/ws/discovery'' HDiscoverySocket]"

definition registerPairingRoutes :: "route list" where
  "registerPairingRoutes =
     [local_route ''GET'' ''/pairing/trusted-devices'' HTrustedDevices,
      local_route ''GET'' ''/pairing/requests'' HPairingRequests,
      local_route ''GET'' ''/pairing/requests/:id'' HPairingRefresh,
      local_route ''POST'' ''/pairing/request'' HPairingRequest,
      local_route ''POST'' ''/pairing/accept'' HPairingAccept,
      local_route ''POST'' ''/pairing/reject'' HPairingReject,
      local_route ''POST'' ''/pairing/trusted-devices/:deviceId/block'' HBlock,
      local_route ''POST'' ''/pairing/trusted-devices/:deviceId/unblock'' HUnblock,
      local_route ''DELETE'' ''/pairing/trusted-devices/:deviceId'' HRemoveTrusted,
      local_route ''GET'' ''/ws/pairing'' HPairingSocket,
      peer_route ''POST'' ''/v1/pairing/requests'' HPeerBegin,
      peer_route ''POST'' ''/v1/pairing/proof'' HPeerProof]"

definition registerTransferRoutes :: "route list" where
  "registerTransferRoutes =
     [local_route ''POST'' ''/transfers/staging'' HCreateStage,
      local_route ''PUT'' ''/transfers/staging/:id/files'' HUploadStage,
      local_route ''POST'' ''/transfers/staging/:id/queue'' HQueueStage,
      local_route ''DELETE'' ''/transfers/staging/:id'' HDeleteStage,
      local_route ''POST'' ''/transfers'' HQueue,
      local_route ''GET'' ''/transfers'' HListTransfers,
      local_route ''DELETE'' ''/transfers/history'' HDeleteHistory,
      local_route ''GET'' ''/transfers/:id'' HGetTransfer,
      local_route ''GET'' ''/transfers/:id/status'' HTransferStatus,
      local_route ''POST'' ''/transfers/:id/accept'' HAccept,
      local_route ''POST'' ''/transfers/:id/reject'' HReject,
      local_route ''POST'' ''/transfers/:id/pause'' HPause,
      local_route ''POST'' ''/transfers/:id/resume'' HResume,
      local_route ''POST'' ''/transfers/:id/cancel'' HCancel,
      local_route ''POST'' ''/transfers/:id/retry'' HRetry,
      local_route ''GET'' ''/ws/transfers'' HTransferSocket,
      peer_route ''POST'' ''/v1/transfers/offers'' HPeerOffer,
      peer_route ''GET'' ''/v1/transfers/:id/status'' HPeerStatus,
      peer_route ''PUT'' ''/v1/transfers/:id/files/:fileId/chunks/:index'' HPeerChunk,
      peer_route ''POST'' ''/v1/transfers/:id/complete'' HPeerComplete,
      peer_route ''DELETE'' ''/v1/transfers/:id'' HPeerCancel]"

definition registerDiagnosticsRoutes :: "bool \<Rightarrow> route list" where
  "registerDiagnosticsRoutes simulator =
     [local_route ''GET'' ''/health'' HHealth, local_route ''GET'' ''/diagnostics'' HDiagnostics,
      local_route ''GET'' ''/diagnostics/export'' HExport,
      local_route ''POST'' ''/diagnostics/test-transfer'' HTestTransfer,
      local_route ''POST'' ''/diagnostics/clear'' HClearTestData] @
     (if \<not> simulator then []
      else [local_route ''GET'' ''/dev/simulated-devices'' HSimulated,
        local_route ''POST'' ''/dev/simulated-devices'' HSimulate,
        local_route ''DELETE'' ''/dev/simulated-devices/:id'' HSimulateRemove,
        local_route ''POST'' ''/diagnostics/simulate-failure'' HSimulateFailure])"

definition registerSettingsRoutes :: "route list" where
  "registerSettingsRoutes =
     [local_route ''GET'' ''/settings'' HGetSettings, local_route ''PUT'' ''/settings'' HPutSettings,
      local_route ''POST'' ''/settings/reset'' HResetSettings,
      local_route ''GET'' ''/privacy-policy'' HPolicy,
      local_route ''POST'' ''/privacy-policy/accept'' HAcceptPolicy]"

record router_config =
  rcTransfer :: bool
  rcDiagnostics :: bool
  rcSimulator :: bool
  rcSettings :: "settings_store option"
  rcFrontend :: bool

definition routes :: "router_config \<Rightarrow> route list" where
  "routes c = discovery_routes @ registerPairingRoutes @
     (if rcTransfer c then registerTransferRoutes else []) @
     (if rcDiagnostics c then registerDiagnosticsRoutes (rcSimulator c) else []) @
     (if rcSettings c = None then [] else registerSettingsRoutes)"

section \<open>Serving\<close>

text \<open>Gin finds a route, redirects to the path with or without its last slash, or finds none.\<close>

datatype lookup_result = Found route | Redirected int | NoRoute

record gin = api_host +
  ginFind :: "route list \<Rightarrow> string \<Rightarrow> string \<Rightarrow> lookup_result"
  ginKeeps :: bool

definition pattern_allows :: "string \<Rightarrow> string \<Rightarrow> bool" where
  "pattern_allows pattern path \<longleftrightarrow>
     (if CHR '':'' \<in> set pattern then has_prefix path (takeWhile (\<lambda>c. c \<noteq> CHR '':'') pattern) else path = pattern)"

definition gin_contract :: "gin \<Rightarrow> bool" where
  "gin_contract G \<longleftrightarrow> (\<forall>rs m p r. ginFind G rs m p = Found r \<longrightarrow>
     r \<in> set rs \<and> rtMethod r = m \<and> pattern_allows (rtPattern r) p)"

datatype answer = Status int | Handled handler | Frontend

definition guarded :: "int option \<Rightarrow> answer \<Rightarrow> answer" where
  "guarded g a = (case g of Some s \<Rightarrow> Status s | None \<Rightarrow> a)"

function serve :: "gin \<Rightarrow> router_config \<Rightarrow> bool \<Rightarrow> request \<Rightarrow> answer" where
  "serve G c rerouted rq =
     guarded (desktopOrigin rq) (guarded (privacyGate (rcSettings c) rq)
       (case ginFind G (routes c) (rqMethod rq) (rqPath rq) of
          Redirected s \<Rightarrow> Status s
        | Found r \<Rightarrow> guarded (if rtLocal r then localOnly (api_host.truncate G) rq else None) (Handled (rtHandler r))
        | NoRoute \<Rightarrow>
            if has_prefix (rqPath rq) ''/api/v1/'' \<and> \<not> rerouted then
              (if \<not> isLoopbackRequest (rqRemote rq) then Status 403
               else serve G c (ginKeeps G) (rq\<lparr>rqPath := drop 7 (rqPath rq)\<rparr>))
            else if rerouted then Status 404
            else if \<not> rcFrontend c then Status 404
            else guarded (localOnly (api_host.truncate G) rq) Frontend))"
  by pat_completeness auto

termination
  by (relation "measure (\<lambda>(G, c, rerouted, rq). length (rqPath rq))") (auto simp: has_prefix_def prefix_def)

declare serve.simps [simp del]

section \<open>What a request can reach\<close>

definition open_handlers :: "handler set" where
  "open_handlers = {HPolicy, HGetSettings, HSelf, HHealth, HAcceptPolicy}"

definition peer_handlers :: "handler set" where
  "peer_handlers = {HPeerBegin, HPeerProof, HPeerOffer, HPeerStatus, HPeerChunk, HPeerComplete, HPeerCancel}"

lemmas route_defs = routes_def discovery_routes_def registerPairingRoutes_def registerTransferRoutes_def
  registerDiagnosticsRoutes_def registerSettingsRoutes_def local_route_def peer_route_def

lemma guarded_Handled: "guarded g a = Handled h \<longleftrightarrow> g = None \<and> a = Handled h"
  and guarded_Frontend: "guarded g a = Frontend \<longleftrightarrow> g = None \<and> a = Frontend"
  by (auto simp: guarded_def split: option.splits)

text \<open>The last step of a handled request: a registered route that matches, after every guard.\<close>

lemma serve_Handled:
  "gin_contract G \<Longrightarrow> serve G c rerouted rq = Handled h \<Longrightarrow>
   \<exists>path r. privacyGate (rcSettings c) (rq\<lparr>rqPath := path\<rparr>) = None \<and> r \<in> set (routes c) \<and> rtHandler r = h \<and>
     rtMethod r = rqMethod rq \<and> pattern_allows (rtPattern r) path \<and>
     (rtLocal r \<longrightarrow> localOnly (api_host.truncate G) (rq\<lparr>rqPath := path\<rparr>) = None)"
proof (induction G c rerouted rq rule: serve.induct)
  case (1 G c rerouted rq)
  note h = 1(3) [unfolded serve.simps [of G c rerouted rq] guarded_Handled]
  show ?case
  proof (cases "ginFind G (routes c) (rqMethod rq) (rqPath rq)")
    case (Found r)
    then have "r \<in> set (routes c) \<and> rtMethod r = rqMethod rq \<and> pattern_allows (rtPattern r) (rqPath rq)"
      using 1(2) by (auto simp: gin_contract_def)
    then show ?thesis using h Found
      by (intro exI [of _ "rqPath rq"] exI [of _ r]) (auto simp: guarded_Handled split: if_splits)
  next
    case (Redirected s)
    then show ?thesis using h by simp
  next
    case NoRoute
    then have "has_prefix (rqPath rq) ''/api/v1/'' \<and> \<not> rerouted"
      and l: "isLoopbackRequest (rqRemote rq)"
      and s: "serve G c (ginKeeps G) (rq\<lparr>rqPath := drop 7 (rqPath rq)\<rparr>) = Handled h"
      using h by (auto simp: guarded_Handled split: if_splits)
    then show ?thesis using 1(1) [OF NoRoute _ _ 1(2) s] by auto
  qed
qed

lemma serve_Frontend:
  "serve G c rerouted rq = Frontend \<Longrightarrow> isLoopbackRequest (rqRemote rq)"
proof (induction G c rerouted rq rule: serve.induct)
  case (1 G c rerouted rq)
  note h = 1(2) [unfolded serve.simps [of G c rerouted rq] guarded_Frontend]
  then show ?case
    by (auto simp: guarded_Frontend localOnly_def split: lookup_result.splits if_splits)
qed

lemma gated_path:
  assumes "privacyGate (Some s) rq = None" "\<not> PrivacyAccepted s"
  shows "api_request (rqPath rq) \<longrightarrow> always_allowed (rqMethod rq) (trim_prefix (rqPath rq) ''/api/v1'')"
  using assms by (auto simp: privacyGate_def split: if_splits)

definition closed_path :: "string \<Rightarrow> string \<Rightarrow> bool" where
  "closed_path m path \<longleftrightarrow> api_request path \<and> \<not> always_allowed m (trim_prefix path ''/api/v1'')"

lemma closed_path_prefix:
  "pattern_allows p path \<Longrightarrow> CHR '':'' \<in> set p \<Longrightarrow>
   (\<And>rest. closed_path m (takeWhile (\<lambda>c. c \<noteq> CHR '':'') p @ rest)) \<Longrightarrow> closed_path m path"
  by (auto simp: pattern_allows_def has_prefix_def prefix_def)

lemma closed_path_exact:
  "pattern_allows p path \<Longrightarrow> CHR '':'' \<notin> set p \<Longrightarrow> closed_path m p \<Longrightarrow> closed_path m path"
  by (simp add: pattern_allows_def)

definition route_closed :: "route \<Rightarrow> bool" where
  "route_closed r \<longleftrightarrow> rtHandler r \<in> open_handlers \<or>
     (if CHR '':'' \<in> set (rtPattern r)
      then \<forall>rest. closed_path (rtMethod r) (takeWhile (\<lambda>c. c \<noteq> CHR '':'') (rtPattern r) @ rest)
      else closed_path (rtMethod r) (rtPattern r))"

lemma routes_closed:
  "list_all route_closed discovery_routes" "list_all route_closed registerPairingRoutes"
  "list_all route_closed registerTransferRoutes" "list_all route_closed (registerDiagnosticsRoutes b)"
  "list_all route_closed registerSettingsRoutes"
  by (simp_all add: route_defs route_closed_def open_handlers_def closed_path_def api_request_def always_allowed_def
      has_prefix_def trim_prefix_def)

lemma route_closedD:
  assumes "r \<in> set (routes c)" "pattern_allows (rtPattern r) path" "rtHandler r \<notin> open_handlers"
  shows "closed_path (rtMethod r) path"
proof -
  have "list_all route_closed (routes c)" using routes_closed by (simp add: routes_def)
  then have r: "route_closed r" using assms(1) by (simp add: list_all_iff)
  show ?thesis
  proof (cases "CHR '':'' \<in> set (rtPattern r)")
    case True
    then show ?thesis using r assms(3) by (intro closed_path_prefix [OF assms(2)]) (auto simp: route_closed_def)
  next
    case False
    then show ?thesis using r assms(3) by (intro closed_path_exact [OF assms(2)]) (auto simp: route_closed_def)
  qed
qed

lemma local_routes: "r \<in> set (routes c) \<Longrightarrow> rtHandler r \<notin> peer_handlers \<Longrightarrow> rtLocal r"
proof -
  have "list_all (\<lambda>r. rtHandler r \<in> peer_handlers \<or> rtLocal r) (routes c)"
    by (simp add: route_defs peer_handlers_def)
  then show "r \<in> set (routes c) \<Longrightarrow> rtHandler r \<notin> peer_handlers \<Longrightarrow> rtLocal r" by (auto simp: list_all_iff)
qed

section \<open>Properties\<close>

text \<open>C32: Before the user accepts the current privacy policy no request, local or remote, whatever its path, method and
  headers, reaches a handler of discovery, pairing, transfers, diagnostics or the writable settings.\<close>

theorem privacy_gate_closes:
  assumes "gin_contract G" and "rcSettings c = Some s" and "\<not> PrivacyAccepted s"
    and "serve G c rerouted rq = Handled h"
  shows "h \<in> {HPolicy, HGetSettings, HSelf, HHealth, HAcceptPolicy}"
proof (rule ccontr)
  assume n: "h \<notin> {HPolicy, HGetSettings, HSelf, HHealth, HAcceptPolicy}"
  obtain path r where p: "privacyGate (Some s) (rq\<lparr>rqPath := path\<rparr>) = None" "r \<in> set (routes c)" "rtHandler r = h"
    "rtMethod r = rqMethod rq" "pattern_allows (rtPattern r) path"
    using serve_Handled [OF assms(1,4)] assms(2) by auto
  have "closed_path (rtMethod r) path" by (rule route_closedD [OF p(2,5)]) (use n p(3) in \<open>simp add: open_handlers_def\<close>)
  then show False using gated_path [OF p(1) assms(3)] p(4) by (simp add: closed_path_def)
qed

text \<open>C33: From another machine only the peer protocol can be reached: a request whose address is not a loopback address
  is answered with an error or reaches one of the seven peer handlers, never the management API or the user interface.\<close>

theorem remote_reaches_protocol_only:
  assumes "gin_contract G" and "\<not> isLoopbackRequest (rqRemote rq)"
  shows "serve G c rerouted rq \<noteq> Frontend \<and>
    (\<forall>h. serve G c rerouted rq = Handled h \<longrightarrow>
       h \<in> {HPeerBegin, HPeerProof, HPeerOffer, HPeerStatus, HPeerChunk, HPeerComplete, HPeerCancel})"
proof (intro conjI allI impI)
  show "serve G c rerouted rq \<noteq> Frontend" using serve_Frontend assms(2) by blast
  fix h
  assume "serve G c rerouted rq = Handled h"
  then obtain path r where p: "r \<in> set (routes c)" "rtHandler r = h"
    "rtLocal r \<longrightarrow> localOnly (api_host.truncate G) (rq\<lparr>rqPath := path\<rparr>) = None"
    using serve_Handled [OF assms(1)] by blast
  then have "\<not> rtLocal r" using assms(2) by (auto simp: localOnly_def)
  then show "h \<in> {HPeerBegin, HPeerProof, HPeerOffer, HPeerStatus, HPeerChunk, HPeerComplete, HPeerCancel}"
    using local_routes [OF p(1)] p(2) by (auto simp: peer_handlers_def)
qed

text \<open>C34: The management API trusts the Host header: a page of any web site whose name resolves to this machine passes
  the origin check, because the origin is compared with the host of the request and not with a loopback name, and
  so reaches every management handler.\<close>

theorem rebinding_reaches_management:
  assumes "aParseURL G (rqOrigin rq) = Some (''http'', rqHost rq)" and "isLoopbackRequest (rqRemote rq)"
    and "rqFetchSite rq \<noteq> ''cross-site''" and "is_ascii (rqHost rq)"
    and "rcSettings c = Some s" and "PrivacyAccepted s" and "rqMethod rq \<noteq> ''OPTIONS''"
    and "ginFind G (routes c) (rqMethod rq) (rqPath rq) = Found r"
  shows "serve G c rerouted rq = Handled (rtHandler r)"
proof -
  have "localOnly (api_host.truncate G) rq = None"
    using assms(1-4)
    by (simp add: localOnly_def sameLocalOrigin_def equal_fold_def api_host.truncate_def)
  then show ?thesis
    using assms(5-8) by (subst serve.simps) (simp add: guarded_def desktopOrigin_def privacyGate_def)
qed

section \<open>Examples\<close>

definition find_exact :: "route list \<Rightarrow> string \<Rightarrow> string \<Rightarrow> lookup_result" where
  "find_exact rs m p = (case find_first (\<lambda>r. rtMethod r = m \<and> rtPattern r = p \<and> CHR '':'' \<notin> set p) rs of
       None \<Rightarrow> NoRoute | Some r \<Rightarrow> Found r)"

definition parse_http :: "string \<Rightarrow> (string \<times> string) option" where
  "parse_http origin = (if has_prefix origin ''http://'' then Some (''http'', drop 7 origin) else None)"

definition sample_gin :: gin where
  "sample_gin = \<lparr>aParseURL = parse_http, aFold = (=), ginFind = find_exact, ginKeeps = False\<rparr>"

definition sample_router :: "bool \<Rightarrow> router_config" where
  "sample_router accepted = \<lparr>rcTransfer = True, rcDiagnostics = True, rcSimulator = False,
     rcSettings = Some \<lparr>ssPath = [], ssValues = sample_preferences\<lparr>svPrivacyPolicyVersion := ''2026-07-1'',
       svPrivacyAcceptedAt := (if accepted then Some 5 else None)\<rparr>, ssChanged = False\<rparr>, rcFrontend = True\<rparr>"

definition sample_request :: "string \<Rightarrow> string \<Rightarrow> string \<Rightarrow> request" where
  "sample_request m p remote = \<lparr>rqMethod = m, rqPath = p, rqRemote = remote, rqHost = ''evil.example'',
     rqOrigin = [], rqFetchSite = []\<rparr>"

lemma sample_contract: "gin_contract sample_gin"
  by (auto simp: gin_contract_def sample_gin_def find_exact_def pattern_allows_def split: option.splits
      dest!: find_first_SomeD)

lemma find_exact_sample:
  "ginFind sample_gin rs m p = find_exact rs m p" "aParseURL sample_gin = parse_http"
  by (simp_all add: sample_gin_def)

theorem privacy_gate_closes_witness:
  "serve sample_gin (sample_router False) False (sample_request ''GET'' ''/settings'' ''127.0.0.1:5000'') = Handled HGetSettings \<and>
   HGetSettings \<in> {HPolicy, HGetSettings, HSelf, HHealth, HAcceptPolicy}"
proof -
  have "find_exact (routes (sample_router False)) ''GET'' ''/settings'' = Found (local_route ''GET'' ''/settings'' HGetSettings)"
    "localOnly (api_host.truncate sample_gin) (sample_request ''GET'' ''/settings'' ''127.0.0.1:5000'') = None"
    "privacyGate (rcSettings (sample_router False)) (sample_request ''GET'' ''/settings'' ''127.0.0.1:5000'') = None"
    by code_simp+
  then have s: "serve sample_gin (sample_router False) False (sample_request ''GET'' ''/settings'' ''127.0.0.1:5000'') = Handled HGetSettings"
    by (subst serve.simps)
      (simp add: guarded_def desktopOrigin_def isDesktopOrigin_def find_exact_sample sample_request_def local_route_def)
  obtain st where "rcSettings (sample_router False) = Some st" "\<not> PrivacyAccepted st"
    by (simp add: sample_router_def PrivacyAccepted_def GetSettings_def policy_accepted_def)
  then show ?thesis using privacy_gate_closes [OF sample_contract _ _ s] s by blast
qed

theorem remote_reaches_protocol_only_witness:
  "\<not> isLoopbackRequest ''192.168.1.9:5000'' \<and>
   serve sample_gin (sample_router True) False (sample_request ''GET'' ''/transfers'' ''192.168.1.9:5000'') \<noteq> Frontend"
proof -
  have l: "\<not> isLoopbackRequest ''192.168.1.9:5000''" by code_simp
  show ?thesis
    using remote_reaches_protocol_only [OF sample_contract, of "sample_request ''GET'' ''/transfers'' ''192.168.1.9:5000''"] l
    by (simp add: sample_request_def)
qed

theorem rebinding_reaches_management_witness:
  "serve sample_gin (sample_router True) False
     ((sample_request ''GET'' ''/transfers'' ''127.0.0.1:5000'')\<lparr>rqOrigin := ''http://evil.example''\<rparr>) = Handled HListTransfers"
proof -
  let ?rq = "(sample_request ''GET'' ''/transfers'' ''127.0.0.1:5000'')\<lparr>rqOrigin := ''http://evil.example''\<rparr>"
  have f: "find_exact (routes (sample_router True)) ''GET'' ''/transfers'' = Found (local_route ''GET'' ''/transfers'' HListTransfers)"
    "isLoopbackRequest ''127.0.0.1:5000''" "parse_http ''http://evil.example'' = Some (''http'', ''evil.example'')"
    "is_ascii ''evil.example''" by code_simp+
  obtain st where "rcSettings (sample_router True) = Some st" "PrivacyAccepted st"
    by (simp add: sample_router_def PrivacyAccepted_def GetSettings_def policy_accepted_def CurrentPrivacyPolicyVersion_def)
  then have "serve sample_gin (sample_router True) False ?rq = Handled (rtHandler (local_route ''GET'' ''/transfers'' HListTransfers))"
    by (intro rebinding_reaches_management) (simp_all add: f find_exact_sample sample_request_def)
  then show ?thesis by (simp add: local_route_def)
qed

end
