(* ===== verification/WebSocket.thy ===== *)
theory WebSocket
  imports Api DiscoveryRegistry PairingService
begin

text \<open>
  Package \<open>websocket\<close>: the brokers that fan events out to the clients, and the handlers that replay
  the present state to a new client before the live events.

  The three brokers are the same code over three types of events, so they are one polymorphic
  definition here and one instance each. A broker method runs under the mutex of the broker. A
  queue is a buffered channel: the oldest event first, closed or open.
\<close>

section \<open>Brokers\<close>

definition subscriberBuffer :: nat where
  "subscriberBuffer = 64"

text \<open>
  \<open>brQueues\<close> are the channels handed out, with whether each is closed; \<open>brSubscribers\<close> the map of the
  broker, in the order Go happens to iterate over it.
\<close>

record 'e queue =
  quEvents :: "'e list"
  quClosed :: bool

record 'e broker =
  brSubscribers :: "nat list"
  brQueues :: "nat \<Rightarrow> 'e queue"
  brNextID :: nat

definition empty_queue :: "'e queue" where
  "empty_queue = \<lparr>quEvents = [], quClosed = False\<rparr>"

definition new_broker :: "'e broker" where
  "new_broker = \<lparr>brSubscribers = [], brQueues = (\<lambda>_. empty_queue), brNextID = 0\<rparr>"

definition close_queue :: "nat \<Rightarrow> 'e broker \<Rightarrow> 'e broker" where
  "close_queue i b = b\<lparr>brQueues := (brQueues b)(i := (brQueues b i)\<lparr>quClosed := True\<rparr>),
     brSubscribers := removeAll i (brSubscribers b)\<rparr>"

text \<open>One round of \<open>Publish\<close>: the event enters the buffer, or a full subscriber is cut off.\<close>

definition publish_one :: "'e \<Rightarrow> nat \<Rightarrow> 'e broker \<Rightarrow> 'e broker" where
  "publish_one e i b =
     (if length (quEvents (brQueues b i)) < subscriberBuffer
      then b\<lparr>brQueues := (brQueues b)(i := (brQueues b i)\<lparr>quEvents := quEvents (brQueues b i) @ [e]\<rparr>)\<rparr>
      else close_queue i b)"

definition broker_publish :: "'e \<Rightarrow> 'e broker \<Rightarrow> 'e broker" where
  "broker_publish e b = fold (publish_one e) (brSubscribers b) b"

definition broker_subscribe :: "'e broker \<Rightarrow> nat \<times> 'e broker" where
  "broker_subscribe b = (let i = brNextID b + 1 in
     (i, b\<lparr>brNextID := i, brQueues := (brQueues b)(i := empty_queue), brSubscribers := brSubscribers b @ [i]\<rparr>))"

text \<open>The cancel function; \<open>sync.Once\<close> and the lookup make a second call do nothing.\<close>

definition broker_cancel :: "nat \<Rightarrow> 'e broker \<Rightarrow> 'e broker" where
  "broker_cancel i b = (if i \<in> set (brSubscribers b) then close_queue i b else b)"

definition subscriber_count :: "'e broker \<Rightarrow> nat" where
  "subscriber_count b = length (brSubscribers b)"

text \<open>The handler's receive from its channel: \<open>None\<close> while it would block.\<close>

datatype 'e received = Event 'e | Closed

definition broker_receive :: "nat \<Rightarrow> 'e broker \<Rightarrow> 'e received option \<times> 'e broker" where
  "broker_receive i b = (case quEvents (brQueues b i) of
       e # es \<Rightarrow> (Some (Event e), b\<lparr>brQueues := (brQueues b)(i := (brQueues b i)\<lparr>quEvents := es\<rparr>)\<rparr>)
     | [] \<Rightarrow> (if quClosed (brQueues b i) then Some Closed else None, b))"

section \<open>The instances\<close>

definition NewBroker :: "discovery_event broker" where "NewBroker = new_broker"
definition BrokerPublish :: "discovery_event \<Rightarrow> discovery_event broker \<Rightarrow> discovery_event broker" where
  "BrokerPublish = broker_publish"
definition BrokerSubscribe :: "discovery_event broker \<Rightarrow> nat \<times> discovery_event broker" where
  "BrokerSubscribe = broker_subscribe"

definition NewPairingBroker :: "pairing_event broker" where "NewPairingBroker = new_broker"
definition PairingPublish :: "pairing_event \<Rightarrow> pairing_event broker \<Rightarrow> pairing_event broker" where
  "PairingPublish = broker_publish"
definition PairingSubscribe :: "pairing_event broker \<Rightarrow> nat \<times> pairing_event broker" where
  "PairingSubscribe = broker_subscribe"
definition PairingSubscriberCount :: "pairing_event broker \<Rightarrow> nat" where
  "PairingSubscriberCount = subscriber_count"

definition NewTransferBroker :: "event broker" where "NewTransferBroker = new_broker"
definition TransferPublish :: "event \<Rightarrow> event broker \<Rightarrow> event broker" where
  "TransferPublish = broker_publish"
definition TransferSubscribe :: "event broker \<Rightarrow> nat \<times> event broker" where
  "TransferSubscribe = broker_subscribe"
definition TransferSubscriberCount :: "event broker \<Rightarrow> nat" where
  "TransferSubscriberCount = subscriber_count"

section \<open>Handlers\<close>

definition sameHostOrigin :: "api_host \<Rightarrow> request \<Rightarrow> bool" where
  "sameHostOrigin A rq =
     (if rqOrigin rq = [] then True
      else if rqOrigin rq = ''wails://wails'' \<or> rqOrigin rq = ''http://wails.localhost'' then True
      else case aParseURL A (rqOrigin rq) of
        None \<Rightarrow> False
      | Some (_, host) \<Rightarrow> equal_fold (aFold A) host (rqHost rq))"

text \<open>The snapshots a new client gets.\<close>

definition discovery_snapshot :: "device list \<Rightarrow> time \<Rightarrow> discovery_event list" where
  "discovery_snapshot ds n = map (\<lambda>d. newEvent EventDeviceDiscovered d n) ds"

definition pairing_snapshot :: "trusted_device list \<Rightarrow> pairing_request list \<Rightarrow> time \<Rightarrow> pairing_event list" where
  "pairing_snapshot ds rs n =
     map (\<lambda>d. \<lparr>pvType = EventPairingAccepted, pvRequest = None, pvTrustedDevice = Some d, pvTimestamp = n\<rparr>) ds @
     map (\<lambda>r. \<lparr>pvType = EventPairingRequested, pvRequest = Some r, pvTrustedDevice = None, pvTimestamp = n\<rparr>) rs"

definition transfer_snapshot :: "transfer list \<Rightarrow> time \<Rightarrow> event list" where
  "transfer_snapshot ts n = map (\<lambda>t. \<lparr>evType = EventQueueUpdated, evTransfer = t, evTimestamp = n\<rparr>) ts"

text \<open>
  The live loop of the three handlers. A connection takes the events in order; \<open>swFails\<close> are the
  writes it fails, counted from its first. The loop leaves the client disconnected at a failed write
  or ping, when the client went away, and when its channel is closed and drained.
\<close>

datatype socket_event = SocketGone | SocketReceive | SocketPing "string option"

record 'e socket =
  skID :: nat
  skSent :: "'e list"
  skOpen :: bool

definition write_json :: "(nat \<Rightarrow> bool) \<Rightarrow> 'e \<Rightarrow> 'e socket \<Rightarrow> 'e socket" where
  "write_json fails e s =
     (if \<not> skOpen s then s
      else if fails (length (skSent s)) then s\<lparr>skOpen := False\<rparr>
      else s\<lparr>skSent := skSent s @ [e]\<rparr>)"

definition socket_step :: "(nat \<Rightarrow> bool) \<Rightarrow> socket_event \<Rightarrow> 'e broker \<times> 'e socket \<Rightarrow> 'e broker \<times> 'e socket" where
  "socket_step fails ev bs = (let (b, s) = bs in
     if \<not> skOpen s then bs
     else case ev of
       SocketGone \<Rightarrow> (broker_cancel (skID s) b, s\<lparr>skOpen := False\<rparr>)
     | SocketPing None \<Rightarrow> bs
     | SocketPing (Some _) \<Rightarrow> (broker_cancel (skID s) b, s\<lparr>skOpen := False\<rparr>)
     | SocketReceive \<Rightarrow>
         (case broker_receive (skID s) b of
            (None, b') \<Rightarrow> (b', s)
          | (Some Closed, b') \<Rightarrow> (broker_cancel (skID s) b', s\<lparr>skOpen := False\<rparr>)
          | (Some (Event e), b') \<Rightarrow>
              let s' = write_json fails e s in
              (if skOpen s' then b' else broker_cancel (skID s) b', s')))"

text \<open>After the subscription \<open>Serve\<close> writes the snapshot; a failed write ends it, and the subscription with it.\<close>

definition write_snapshot :: "(nat \<Rightarrow> bool) \<Rightarrow> 'e list \<Rightarrow> nat \<Rightarrow> 'e broker \<Rightarrow> 'e broker \<times> 'e socket" where
  "write_snapshot fails snapshot i b =
     (let s = fold (write_json fails) snapshot \<lparr>skID = i, skSent = [], skOpen = True\<rparr> in
      (if skOpen s then b else broker_cancel i b, s))"

section \<open>What the brokers guarantee\<close>

definition broker_ok :: "'e broker \<Rightarrow> bool" where
  "broker_ok b \<longleftrightarrow> distinct (brSubscribers b) \<and> (\<forall>i \<in> set (brSubscribers b). i \<le> brNextID b)"

lemma close_queue_simps [simp]:
  "brSubscribers (close_queue i b) = removeAll i (brSubscribers b)" "brNextID (close_queue i b) = brNextID b"
  "quEvents (brQueues (close_queue i b) j) = quEvents (brQueues b j)"
  by (simp_all add: close_queue_def)

lemma publish_one_other [simp]:
  "j \<noteq> i \<Longrightarrow> quEvents (brQueues (publish_one e i b) j) = quEvents (brQueues b j)"
  "brNextID (publish_one e i b) = brNextID b"
  "set (brSubscribers (publish_one e i b)) \<subseteq> set (brSubscribers b)"
  "j \<noteq> i \<Longrightarrow> j \<in> set (brSubscribers (publish_one e i b)) \<longleftrightarrow> j \<in> set (brSubscribers b)"
  "distinct (brSubscribers b) \<Longrightarrow> distinct (brSubscribers (publish_one e i b))"
  by (auto simp: publish_one_def distinct_removeAll)

lemma publish_rounds_other:
  "j \<notin> set is \<Longrightarrow> quEvents (brQueues (fold (publish_one e) is b) j) = quEvents (brQueues b j) \<and>
    (j \<in> set (brSubscribers (fold (publish_one e) is b)) \<longleftrightarrow> j \<in> set (brSubscribers b))"
  by (induction "is" arbitrary: b) auto

lemma publish_rounds_ok: "broker_ok b \<Longrightarrow> broker_ok (fold (publish_one e) is b)"
proof (induction "is" arbitrary: b)
  case (Cons i js)
  have "broker_ok (publish_one e i b)"
    using Cons.prems publish_one_other(3) [of e i b] unfolding broker_ok_def by (simp add: subset_iff)
  then show ?case using Cons.IH by simp
qed simp

text \<open>An event reaches a subscriber at the end of its queue, or the subscriber is cut off.\<close>

lemma publish_delivers:
  assumes "broker_ok b" "j \<in> set (brSubscribers b)"
  shows "j \<in> set (brSubscribers (broker_publish e b)) \<longrightarrow>
    quEvents (brQueues (broker_publish e b) j) = quEvents (brQueues b j) @ [e]"
proof -
  have "distinct is \<Longrightarrow> j \<in> set is \<Longrightarrow> j \<in> set (brSubscribers (fold (publish_one e) is c)) \<Longrightarrow>
      quEvents (brQueues (fold (publish_one e) is c) j) = quEvents (brQueues c j) @ [e]" for "is" and c :: "'a broker"
  proof (induction "is" arbitrary: c)
    case (Cons i js)
    show ?case
    proof (cases "i = j")
      case True
      have "j \<in> set (brSubscribers (publish_one e j c))"
        using Cons.prems True publish_rounds_other [of j js e "publish_one e j c"] by simp
      then have "quEvents (brQueues (publish_one e j c) j) = quEvents (brQueues c j) @ [e]"
        by (auto simp: publish_one_def split: if_splits)
      then show ?thesis using Cons.prems True publish_rounds_other [of j js e "publish_one e j c"] by simp
    qed (use Cons in auto)
  qed simp
  then show ?thesis using assms unfolding broker_publish_def broker_ok_def by blast
qed

lemma publish_not_subscribed:
  assumes "j \<notin> set (brSubscribers b)"
  shows "j \<notin> set (brSubscribers (broker_publish e b))"
  using publish_rounds_other [OF assms, of e b] assms by (simp add: broker_publish_def)

lemma publish_ok: "broker_ok b \<Longrightarrow> broker_ok (broker_publish e b)"
  by (simp add: broker_publish_def publish_rounds_ok)

lemma publish_list:
  "broker_ok b \<Longrightarrow> j \<in> set (brSubscribers (fold broker_publish es b)) \<Longrightarrow>
   j \<in> set (brSubscribers b) \<and> quEvents (brQueues (fold broker_publish es b) j) = quEvents (brQueues b j) @ es"
proof (induction es arbitrary: b)
  case (Cons e es)
  have IH: "j \<in> set (brSubscribers (broker_publish e b)) \<and>
      quEvents (brQueues (fold broker_publish es (broker_publish e b)) j) = quEvents (brQueues (broker_publish e b) j) @ es"
    using Cons.IH [OF publish_ok [OF Cons.prems(1)]] Cons.prems(2) by simp
  then have "j \<in> set (brSubscribers b)" using publish_not_subscribed [of j b e] by argo
  then show ?case using IH publish_delivers [OF Cons.prems(1), of j e] by simp
qed simp

lemma publish_list_ok: "broker_ok b \<Longrightarrow> broker_ok (fold broker_publish es b)"
  by (induction es arbitrary: b) (simp_all add: publish_ok)

lemma subscribe_ok: "broker_ok b \<Longrightarrow> broker_subscribe b = (i, b') \<Longrightarrow>
    broker_ok b' \<and> i \<in> set (brSubscribers b') \<and> quEvents (brQueues b' i) = [] \<and>
    (\<forall>j. j \<noteq> i \<longrightarrow> quEvents (brQueues b' j) = quEvents (brQueues b j) \<and>
       (j \<in> set (brSubscribers b') \<longleftrightarrow> j \<in> set (brSubscribers b))) \<and> i \<notin> set (brSubscribers b)"
proof -
  assume ok: "broker_ok b" and "broker_subscribe b = (i, b')"
  then have b': "i = brNextID b + 1" "brNextID b' = i" "brSubscribers b' = brSubscribers b @ [i]"
    "brQueues b' = (brQueues b)(i := empty_queue)"
    by (auto simp: broker_subscribe_def Let_def)
  have "\<forall>j \<in> set (brSubscribers b). j < i" using ok b'(1) by (auto simp: broker_ok_def)
  moreover from this have "i \<notin> set (brSubscribers b)" by blast
  ultimately show ?thesis using ok b' by (auto simp: broker_ok_def empty_queue_def less_imp_le)
qed

section \<open>A client of the discovery socket\<close>

text \<open>
  What happens around one client with the queue \<open>own\<close>: calls of the registry, whose events the broker
  publishes, and the other clients. A call and its publications are one step here; that they are two
  in the code is the subject of \<open>registry_publish_race\<close>.
\<close>

datatype world_event = Call registry_call | OtherSubscribes | OtherReceives nat | OtherCancels nat

definition published_since :: "registry \<Rightarrow> registry \<Rightarrow> discovery_event list" where
  "published_since r r' = rev (take (length (rgPublished r') - length (rgPublished r)) (rgPublished r'))"

definition world_step :: "('r) host_scheme \<Rightarrow> nat \<Rightarrow> world_event \<Rightarrow>
    registry \<times> discovery_event broker \<Rightarrow> registry \<times> discovery_event broker" where
  "world_step E own w rb = (let (r, b) = rb in
     case w of
       Call c \<Rightarrow> let r' = registry_step E c r in (r', fold BrokerPublish (published_since r r') b)
     | OtherSubscribes \<Rightarrow> (r, snd (BrokerSubscribe b))
     | OtherReceives j \<Rightarrow> (r, if j = own then b else snd (broker_receive j b))
     | OtherCancels j \<Rightarrow> (r, if j = own then b else broker_cancel j b))"

datatype live_event = World world_event | Client socket_event

definition live_step :: "('r) host_scheme \<Rightarrow> (nat \<Rightarrow> bool) \<Rightarrow> live_event \<Rightarrow>
    registry \<times> discovery_event broker \<times> discovery_event socket \<Rightarrow>
    registry \<times> discovery_event broker \<times> discovery_event socket" where
  "live_step E fails l rbs = (let (r, b, s) = rbs in
     case l of
       World w \<Rightarrow> let (r', b') = world_step E (skID s) w (r, b) in (r', b', s)
     | Client ev \<Rightarrow> (r, socket_step fails ev (b, s)))"

lemma registry_appends: "\<exists>new. rgPublished (registry_step E c r) = rev new @ rgPublished r"
proof (cases c)
  case (RUpsert x n)
  show ?thesis
  proof (cases rule: Upsert_cases [of E x n r])
    case (recorded d)
    then show ?thesis using RUpsert by (auto intro: exI [of _ "[e]" for e] exI [of _ "[]"])
  qed (use RUpsert in simp_all)
next
  case (RSweep n)
  have "\<exists>new. rgPublished (fold publishEvent es q) = rev new @ rgPublished q" for es q
  proof (cases "rgPublisher q")
    case False
    then have "fold publishEvent es q = q" by (induction es) (simp_all add: publishEvent_def)
    then show ?thesis by simp
  qed (auto simp: published_all)
  from this [of "sweep_events r n (rgDevices r)" "r\<lparr>rgDevices := sweep_kept r n (rgDevices r)\<rparr>"]
  show ?thesis using RSweep by (simp add: Sweep_def)
qed

lemma published_since_append: "rgPublished r' = rev new @ rgPublished r \<Longrightarrow> published_since r r' = new"
  by (simp add: published_since_def)

definition registry_live :: "('r) host_scheme \<Rightarrow> registry \<Rightarrow> bool" where
  "registry_live E r \<longleftrightarrow> registry_ok E r \<and> rgPublisher r \<and> replayed r = view_of (rgDevices r)"

lemma registry_live_step:
  assumes "registry_live E r"
  shows "registry_live E (registry_step E c r)"
    and "fold subscriber (published_since r (registry_step E c r)) (view_of (rgDevices r)) =
      view_of (rgDevices (registry_step E c r))"
proof -
  have p: "rgPublisher (registry_step E c r)"
  proof (cases c)
    case (RUpsert x n)
    then show ?thesis using assms by (cases rule: Upsert_cases [of E x n r]) (simp_all add: registry_live_def)
  qed (use assms in \<open>simp add: registry_live_def\<close>)
  have v: "replayed (registry_step E c r) = view_of (rgDevices (registry_step E c r))"
    by (rule replay_step) (use assms in \<open>simp_all add: registry_live_def\<close>)
  show "registry_live E (registry_step E c r)"
    using p v assms registry_ok_step [of E r c] by (simp add: registry_live_def)
  obtain new where new: "rgPublished (registry_step E c r) = rev new @ rgPublished r" using registry_appends by blast
  have "replayed (registry_step E c r) = fold subscriber new (replayed r)"
    by (simp add: replayed_def new foldr_append foldr_conv_fold)
  then show "fold subscriber (published_since r (registry_step E c r)) (view_of (rgDevices r)) =
      view_of (rgDevices (registry_step E c r))"
    using v assms by (simp add: published_since_append [OF new] registry_live_def)
qed

text \<open>A list of events overwrites some identifiers and leaves the others: playing it twice is playing it once.\<close>

lemma fold_subscriber_point:
  "(\<forall>m. fold subscriber q m i = m i) \<or> (\<exists>v. \<forall>m. fold subscriber q m i = v)"
proof (induction q)
  case (Cons e q)
  consider "\<forall>m. fold subscriber q m i = m i" | v where "\<forall>m. fold subscriber q m i = v" using Cons by blast
  then show ?case
  proof cases
    case 1
    have "(\<forall>m. subscriber e m i = m i) \<or> (\<exists>v. \<forall>m. subscriber e m i = v)"
      by (cases "dID (deDevice e) = i"; cases "deType e") (auto simp: subscriber_def)
    then show ?thesis using 1 by simp
  next
    case 2
    then show ?thesis by simp
  qed
qed simp

lemma fold_subscriber_twice: "fold subscriber q (fold subscriber q m) = fold subscriber q m"
proof
  fix i
  show "fold subscriber q (fold subscriber q m) i = fold subscriber q m i"
    using fold_subscriber_point [of q i] by metis
qed

text \<open>The snapshot alone tells a new client the devices of the registry.\<close>

lemma fold_snapshot:
  "fold subscriber (discovery_snapshot ds n) m = m ++ map_of (rev (map (\<lambda>d. (dID d, unseen d)) ds))"
  by (induction ds arbitrary: m) (simp_all add: discovery_snapshot_def)

lemma snapshot_view:
  assumes "registry_ok E r"
  shows "fold subscriber (discovery_snapshot (ListDevices E r) n) Map.empty = view_of (rgDevices r)"
proof -
  let ?f = "\<lambda>d. (dID d, unseen d)"
  have ids: "map dID (map snd (rgDevices r)) = map fst (rgDevices r)"
    using assms by (auto simp: registry_ok_def list_all_iff entry_ok_def)
  have d: "distinct (map dID (map snd (rgDevices r)))" unfolding ids using assms by (simp add: registry_ok_def)
  have s: "set (ListDevices E r) = set (map snd (rgDevices r))" by (simp add: ListDevices_def)
  have "distinct (map snd (rgDevices r))" using d unfolding distinct_map [of dID] by blast
  then have "distinct (ListDevices E r)" by (simp add: ListDevices_def)
  then have dl: "distinct (map dID (ListDevices E r))" using d unfolding distinct_map s by simp
  have p: "map (\<lambda>(i, d). (i, unseen d)) (rgDevices r) = map ?f (map snd (rgDevices r))"
    using assms by (auto simp: registry_ok_def list_all_iff entry_ok_def)
  have "map_of (rev (map ?f (ListDevices E r))) = map_of (map ?f (map snd (rgDevices r)))"
  proof (subst map_of_inject_set)
    show "distinct (map fst (rev (map ?f (ListDevices E r))))" using dl by (simp add: rev_map [symmetric] comp_def)
    show "distinct (map fst (map ?f (map snd (rgDevices r))))" using d by (simp add: comp_def)
    show "set (rev (map ?f (ListDevices E r))) = set (map ?f (map snd (rgDevices r)))"
      using s by (simp only: set_rev set_map)
  qed
  also have "\<dots> = view_of (rgDevices r)"
    unfolding p [symmetric] view_of_def by (simp add: map_of_map [symmetric])
  finally show ?thesis by (simp add: fold_snapshot)
qed

text \<open>A queue that was handed out is in the map of the broker until it is closed.\<close>

definition following :: "nat \<Rightarrow> 'e broker \<Rightarrow> bool" where
  "following i b \<longleftrightarrow> broker_ok b \<and> i \<le> brNextID b \<and> (i \<in> set (brSubscribers b) \<or> quClosed (brQueues b i))"

lemma following_close: "following i b \<Longrightarrow> following i (close_queue j b)"
  by (auto simp: following_def broker_ok_def distinct_removeAll close_queue_def)

lemma following_publish_one: "following i b \<Longrightarrow> following i (publish_one e j b)"
  by (auto simp: publish_one_def following_close) (auto simp: following_def broker_ok_def)

lemma following_publish: "following i b \<Longrightarrow> following i (fold broker_publish es b)"
proof (induction es arbitrary: b)
  case (Cons e es)
  have "following i (fold (publish_one e) js b)" for js
    using Cons.prems by (induction js arbitrary: b) (simp_all add: following_publish_one)
  then show ?case using Cons.IH by (simp add: broker_publish_def)
qed simp

lemma following_receive: "following i b \<Longrightarrow> following i (snd (broker_receive j b))"
  by (auto simp: broker_receive_def following_def broker_ok_def split: list.splits)

lemma following_cancel: "following i b \<Longrightarrow> following i (broker_cancel j b)"
  by (simp add: broker_cancel_def following_close)

lemma following_subscribe:
  assumes "following i b"
  shows "following i (snd (broker_subscribe b)) \<and>
    quEvents (brQueues (snd (broker_subscribe b)) i) = quEvents (brQueues b i) \<and>
    (i \<in> set (brSubscribers (snd (broker_subscribe b))) \<longleftrightarrow> i \<in> set (brSubscribers b))"
proof -
  have "broker_ok (snd (broker_subscribe b))"
    using subscribe_ok [of b "fst (broker_subscribe b)" "snd (broker_subscribe b)"] assms by (simp add: following_def)
  then show ?thesis using assms by (auto simp: following_def broker_subscribe_def Let_def)
qed

lemma receive_other [simp]:
  "j \<noteq> i \<Longrightarrow> quEvents (brQueues (snd (broker_receive j b)) i) = quEvents (brQueues b i)"
  "brSubscribers (snd (broker_receive j b)) = brSubscribers b"
  by (simp_all add: broker_receive_def split: list.splits)

lemma cancel_other [simp]:
  "quEvents (brQueues (broker_cancel j b) i) = quEvents (brQueues b i)"
  "j \<noteq> i \<Longrightarrow> i \<in> set (brSubscribers (broker_cancel j b)) \<longleftrightarrow> i \<in> set (brSubscribers b)"
  by (auto simp: broker_cancel_def)

text \<open>While the client stays subscribed, its queue grows by events that lead from the old devices to the new ones.\<close>

lemma world_step_queue:
  assumes "following i b" "registry_live E r" "world_step E i w (r, b) = (r', b')"
  shows "following i b' \<and> registry_live E r' \<and>
    (i \<in> set (brSubscribers b') \<longrightarrow> i \<in> set (brSubscribers b) \<and>
      (\<exists>new. quEvents (brQueues b' i) = quEvents (brQueues b i) @ new \<and>
         fold subscriber new (view_of (rgDevices r)) = view_of (rgDevices r')))"
proof (cases w)
  case (Call c)
  let ?new = "published_since r r'"
  have r': "r' = registry_step E c r" and b': "b' = fold broker_publish ?new b"
    using assms(3) Call by (auto simp: world_step_def BrokerPublish_def Let_def)
  have "following i b'" unfolding b' by (rule following_publish [OF assms(1)])
  moreover have "i \<in> set (brSubscribers b') \<Longrightarrow>
      i \<in> set (brSubscribers b) \<and> quEvents (brQueues b' i) = quEvents (brQueues b i) @ ?new"
    unfolding b' using publish_list [of b i ?new] assms(1) by (simp add: following_def)
  ultimately show ?thesis using registry_live_step [OF assms(2), of c] unfolding r' by blast
next
  case OtherSubscribes
  then have "r' = r" "b' = snd (broker_subscribe b)" using assms(3) by (auto simp: world_step_def BrokerSubscribe_def)
  then show ?thesis using following_subscribe [OF assms(1)] assms(2) by simp
next
  case (OtherReceives j)
  then have "r' = r" "b' = (if j = i then b else snd (broker_receive j b))" using assms(3) by (auto simp: world_step_def)
  then show ?thesis using assms following_receive [OF assms(1), of j] by simp
next
  case (OtherCancels j)
  then have "r' = r" "b' = (if j = i then b else broker_cancel j b)" using assms(3) by (auto simp: world_step_def)
  then show ?thesis using assms following_cancel [OF assms(1), of j] by simp
qed

lemma world_run_queue:
  assumes "following i b" "registry_live E r" "fold (world_step E i) ws (r, b) = (r', b')"
  shows "following i b' \<and> registry_live E r' \<and>
    (i \<in> set (brSubscribers b') \<longrightarrow> i \<in> set (brSubscribers b) \<and>
      (\<exists>new. quEvents (brQueues b' i) = quEvents (brQueues b i) @ new \<and>
         fold subscriber new (view_of (rgDevices r)) = view_of (rgDevices r')))"
  using assms
proof (induction ws arbitrary: r b)
  case (Cons w ws)
  obtain r1 b1 where s: "world_step E i w (r, b) = (r1, b1)" by fastforce
  have 1: "following i b1" "registry_live E r1"
    and 2: "i \<in> set (brSubscribers b1) \<Longrightarrow> i \<in> set (brSubscribers b) \<and>
      (\<exists>new. quEvents (brQueues b1 i) = quEvents (brQueues b i) @ new \<and>
         fold subscriber new (view_of (rgDevices r)) = view_of (rgDevices r1))"
    using world_step_queue [OF Cons.prems(1,2) s] by blast+
  have 3: "following i b' \<and> registry_live E r' \<and>
    (i \<in> set (brSubscribers b') \<longrightarrow> i \<in> set (brSubscribers b1) \<and>
      (\<exists>new. quEvents (brQueues b' i) = quEvents (brQueues b1 i) @ new \<and>
         fold subscriber new (view_of (rgDevices r1)) = view_of (rgDevices r')))"
    using Cons.IH [OF 1] Cons.prems(3) s by simp
  show ?case
  proof (intro conjI impI)
    assume "i \<in> set (brSubscribers b')"
    then obtain new2 where n2: "i \<in> set (brSubscribers b1)" "quEvents (brQueues b' i) = quEvents (brQueues b1 i) @ new2"
      "fold subscriber new2 (view_of (rgDevices r1)) = view_of (rgDevices r')" using 3 by blast
    obtain new1 where n1: "i \<in> set (brSubscribers b)" "quEvents (brQueues b1 i) = quEvents (brQueues b i) @ new1"
      "fold subscriber new1 (view_of (rgDevices r)) = view_of (rgDevices r1)" using 2 [OF n2(1)] by blast
    show "i \<in> set (brSubscribers b)" by (rule n1)
    have "quEvents (brQueues b' i) = quEvents (brQueues b i) @ (new1 @ new2) \<and>
        fold subscriber (new1 @ new2) (view_of (rgDevices r)) = view_of (rgDevices r')"
      using n1 n2 by simp
    then show "\<exists>new. quEvents (brQueues b' i) = quEvents (brQueues b i) @ new \<and>
        fold subscriber new (view_of (rgDevices r)) = view_of (rgDevices r')" by blast
  qed (use 3 in blast)+
qed auto

text \<open>What holds between the live steps: what was sent and what is queued add up to the registry.\<close>

definition live_ok :: "('r) host_scheme \<Rightarrow> registry \<times> discovery_event broker \<times> discovery_event socket \<Rightarrow> bool" where
  "live_ok E rbs \<longleftrightarrow> (let (r, b, s) = rbs in following (skID s) b \<and> registry_live E r \<and>
     (skOpen s \<and> skID s \<in> set (brSubscribers b) \<longrightarrow>
        fold subscriber (skSent s @ quEvents (brQueues b (skID s))) Map.empty = view_of (rgDevices r)))"

lemma live_ok_world:
  assumes "live_ok E (r, b, s)"
  shows "live_ok E (live_step E fails (World w) (r, b, s))"
proof -
  have ok: "following (skID s) b" "registry_live E r"
    and v: "skOpen s \<Longrightarrow> skID s \<in> set (brSubscribers b) \<Longrightarrow>
      fold subscriber (skSent s @ quEvents (brQueues b (skID s))) Map.empty = view_of (rgDevices r)"
    using assms by (simp_all add: live_ok_def)
  obtain r' b' where w: "world_step E (skID s) w (r, b) = (r', b')" by fastforce
  note q = world_step_queue [OF ok w]
  have "fold subscriber (skSent s @ quEvents (brQueues b' (skID s))) Map.empty = view_of (rgDevices r')"
    if "skOpen s" "skID s \<in> set (brSubscribers b')"
  proof -
    obtain new where "skID s \<in> set (brSubscribers b)" "quEvents (brQueues b' (skID s)) = quEvents (brQueues b (skID s)) @ new"
      "fold subscriber new (view_of (rgDevices r)) = view_of (rgDevices r')" using q \<open>skID s \<in> set (brSubscribers b')\<close> by blast
    then show ?thesis using v \<open>skOpen s\<close> by simp
  qed
  then show ?thesis using q by (simp add: live_ok_def live_step_def w)
qed

lemma live_ok_client:
  assumes "live_ok E (r, b, s)"
  shows "live_ok E (live_step E fails (Client ev) (r, b, s))"
proof (cases "skOpen s")
  case True
  have ok: "following (skID s) b" "registry_live E r"
    and v: "skOpen s \<Longrightarrow> skID s \<in> set (brSubscribers b) \<Longrightarrow>
      fold subscriber (skSent s @ quEvents (brQueues b (skID s))) Map.empty = view_of (rgDevices r)"
    using assms by (simp_all add: live_ok_def)
  have cl: "following (skID s) (broker_cancel (skID s) c)" if "following (skID s) c" for c :: "discovery_event broker"
    by (rule following_cancel [OF that])
  have f: "following (skID s) (snd (broker_receive (skID s) b))" by (rule following_receive [OF ok(1)])
  show ?thesis
  proof (cases ev)
    case SocketGone
    then show ?thesis using ok True cl by (simp add: live_ok_def live_step_def socket_step_def)
  next
    case (SocketPing x)
    then show ?thesis using ok v True cl by (cases x) (simp_all add: live_ok_def live_step_def socket_step_def)
  next
    case SocketReceive
    then show ?thesis using ok v True f cl cl [OF f]
      by (cases "quEvents (brQueues b (skID s))")
        (simp_all add: live_ok_def live_step_def socket_step_def broker_receive_def write_json_def)
  qed
qed (use assms in \<open>simp add: live_ok_def live_step_def socket_step_def\<close>)

lemma live_ok_step: "live_ok E rbs \<Longrightarrow> live_ok E (live_step E fails l rbs)"
  by (cases rbs; cases l) (simp_all only: live_ok_world live_ok_client)

lemma live_ok_run: "live_ok E rbs \<Longrightarrow> live_ok E (fold (live_step E fails) ls rbs)"
  by (induction ls arbitrary: rbs) (simp_all add: live_ok_step)

lemma snapshot_sent:
  "skOpen (fold (write_json fails) es s) \<Longrightarrow> skSent (fold (write_json fails) es s) = skSent s @ es \<and> skOpen s"
proof (induction es arbitrary: s)
  case (Cons e es)
  then have "skSent (fold (write_json fails) es (write_json fails e s)) = skSent (write_json fails e s) @ es \<and>
      skOpen (write_json fails e s)" by simp
  then show ?case by (auto simp: write_json_def [of fails e s] split: if_splits)
qed simp

lemma socket_same [simp]: "skID (write_json fails e s) = skID s" "skID (fold (write_json fails) es s) = skID s"
proof -
  show w: "skID (write_json fails e s) = skID s" for e :: 'a and s by (simp add: write_json_def)
  show "skID (fold (write_json fails) es s) = skID s" by (induction es arbitrary: s) (simp_all add: w)
qed

section \<open>Calls that overlap\<close>

text \<open>
  \<open>Upsert\<close> and \<open>Sweep\<close> release the mutex of the registry before they publish. The browser and the
  sweeper are two goroutines: each changes the registry in one step and publishes what it has to in
  later ones, one event at a time.
\<close>

definition upsert_locked :: "('r) host_scheme \<Rightarrow> device \<Rightarrow> time \<Rightarrow> registry \<Rightarrow> discovery_event list \<times> registry" where
  "upsert_locked E incoming observedAt r =
     (case validateDiscoveredDevice E incoming of
        Inl e \<Rightarrow> ([], r)
      | Inr _ \<Rightarrow>
          if dID incoming = rgSelfID r then ([], r)
          else
            let d = incoming\<lparr>dLastSeen := observedAt, dOnline := True, dConnectionState := ConnectionOnline\<rparr>;
                r' = r\<lparr>rgDevices := AList.update (dID d) d (rgDevices r)\<rparr>
            in case map_of (rgDevices r) (dID d) of
                 None \<Rightarrow> ([newEvent EventDeviceDiscovered d observedAt], r')
               | Some existing \<Rightarrow>
                   if identityConflicts existing d then ([], r)
                   else if \<not> dOnline existing \<or> metadataChanged existing d
                   then ([newEvent EventDeviceUpdated d observedAt], r')
                   else ([], r'))"

definition sweep_locked :: "time \<Rightarrow> registry \<Rightarrow> discovery_event list \<times> registry" where
  "sweep_locked n r = (sweep_events r n (rgDevices r), r\<lparr>rgDevices := sweep_kept r n (rgDevices r)\<rparr>)"

text \<open>Run without an interruption the two halves are the operations of the registry.\<close>

lemma Upsert_halves: "snd (Upsert E d n r) = (let (es, r') = upsert_locked E d n r in fold publishEvent es r')"
  by (simp add: Upsert_def upsert_locked_def Let_def split: sum.split option.split)

lemma Sweep_halves: "Sweep n r = (let (es, r') = sweep_locked n r in fold publishEvent es r')"
  by (simp add: Sweep_def sweep_locked_def)

datatype race_step = BrowserLocks device time | BrowserPublishes | SweeperLocks time | SweeperPublishes

fun race :: "('r) host_scheme \<Rightarrow> race_step \<Rightarrow> registry \<times> discovery_event list \<times> discovery_event list \<Rightarrow>
    registry \<times> discovery_event list \<times> discovery_event list" where
  "race E (BrowserLocks d n) (r, [], q) = (let (es, r') = upsert_locked E d n r in (r', es, q))"
| "race E BrowserPublishes (r, e # p, q) = (publishEvent e r, p, q)"
| "race E (SweeperLocks n) (r, p, []) = (let (es, r') = sweep_locked n r in (r', p, es))"
| "race E SweeperPublishes (r, p, e # q) = (publishEvent e r, p, q)"
| "race E _ rpq = rpq"

text \<open>A sighting that tells nothing new publishes nothing.\<close>

lemma same_sightings:
  assumes "validateDiscoveredDevice E x = Inr ()" "dID x \<noteq> rgSelfID r"
    "map_of (rgDevices r) (dID x) = Some c" "dOnline c" "\<not> metadataChanged c x" "\<not> identityConflicts c x"
  shows "rgPublished (registry_run E (map (RUpsert x) ns) r) = rgPublished r"
  using assms(2-6)
proof (induction ns arbitrary: r c)
  case (Cons n ns)
  let ?d = "x\<lparr>dLastSeen := n, dOnline := True, dConnectionState := ConnectionOnline\<rparr>"
  have c: "\<not> metadataChanged c ?d" "\<not> identityConflicts c ?d"
    using Cons.prems(4,5) by (simp_all add: metadataChanged_def identityConflicts_def)
  have u: "snd (Upsert E x n r) = r\<lparr>rgDevices := AList.update (dID x) ?d (rgDevices r)\<rparr>"
    using assms(1) Cons.prems c by (simp add: Upsert_def Let_def)
  have "rgPublished (registry_run E (map (RUpsert x) ns) (snd (Upsert E x n r))) = rgPublished (snd (Upsert E x n r))"
    unfolding u by (rule Cons.IH [of _ ?d])
      (use Cons.prems in \<open>simp_all add: update_conv' metadataChanged_def identityConflicts_def\<close>)
  then show ?case by (simp add: registry_run_def u)
qed (simp add: registry_run_def)

lemma world_ok:
  "broker_ok b \<Longrightarrow> registry_live E r \<Longrightarrow> fold (world_step E i) ws (r, b) = (r', b') \<Longrightarrow>
   broker_ok b' \<and> registry_live E r'"
proof (induction ws arbitrary: r b)
  case (Cons w ws)
  obtain r1 b1 where s: "world_step E i w (r, b) = (r1, b1)" by fastforce
  have "broker_ok (snd (broker_subscribe b))"
    using subscribe_ok [of b "fst (broker_subscribe b)" "snd (broker_subscribe b)"] Cons.prems(1) by simp
  moreover have "broker_ok (snd (broker_receive j b))" "broker_ok (broker_cancel j b)" for j
    using Cons.prems(1)
    by (auto simp: broker_receive_def broker_cancel_def broker_ok_def distinct_removeAll split: list.splits)
  ultimately have "broker_ok b1 \<and> registry_live E r1"
    using s Cons.prems(1,2) registry_live_step(1) publish_list_ok
    by (cases w) (auto simp: world_step_def Let_def BrokerPublish_def BrokerSubscribe_def split: if_splits)
  then show ?case using Cons.IH [of b1 r1] Cons.prems(3) s by simp
qed auto

section \<open>Properties\<close>


definition race_start :: registry where
  "race_start = \<lparr>rgDevices = [], rgSelfID = ''me'', rgOfflineAfter = 30 * second, rgRemoveAfter = 120 * second,
    rgPublisher = True, rgPublished = []\<rparr>"

definition race_schedule :: "race_step list" where
  "race_schedule = [BrowserLocks sample_hinted 0, BrowserPublishes, SweeperLocks (200 * second),
    BrowserLocks sample_hinted (200 * second), BrowserPublishes, SweeperPublishes]"

definition race_sighting :: "time \<Rightarrow> device" where
  "race_sighting n = sample_hinted\<lparr>dLastSeen := n, dOnline := True, dConnectionState := ConnectionOnline\<rparr>"

definition race_end :: registry where
  "race_end = race_start\<lparr>rgDevices := [(''peer'', race_sighting (200 * second))],
    rgPublished := [newEvent EventDeviceRemoved (went_offline (race_sighting 0)) (200 * second),
      newEvent EventDeviceDiscovered (race_sighting (200 * second)) (200 * second),
      newEvent EventDeviceDiscovered (race_sighting 0) 0]\<rparr>"

lemma race_run: "fold (race sample_service) race_schedule (race_start, [], []) = (race_end, [], [])"
  by code_simp

text \<open>C36: Overlapping calls can part the clients from the registry for good: the sweeper removes a silent peer, the
  browser records and announces it again, and only then the sweeper publishes the removal. Nothing is left to
  publish, the registry has the peer online, the events end with its removal, and no number of further sightings of
  the same advertisement publishes anything.\<close>

theorem registry_publish_race:
  "\<exists>r0 r steps d. NewRegistry ''me'' (30 * second) (120 * second) True = Inr r0 \<and>
     fold (race sample_service) steps (r0, [], []) = (r, [], []) \<and>
     map_of (rgDevices r) ''peer'' = Some d \<and> dOnline d \<and>
     (\<forall>ns. replayed (registry_run sample_service (map (RUpsert sample_hinted) ns) r) ''peer'' = None)"
proof -
  let ?d = "race_sighting (200 * second)"
  have d: "rgDevices race_end = [(''peer'', ?d)]" "rgSelfID race_end = ''me''" "dID sample_hinted = ''peer''" "dOnline ?d"
    by (simp_all add: race_end_def race_start_def race_sighting_def sample_hinted_def sample_peer_def)
  have "replayed (registry_run sample_service (map (RUpsert sample_hinted) ns) race_end) ''peer'' = None" for ns
  proof -
    have "rgPublished (registry_run sample_service (map (RUpsert sample_hinted) ns) race_end) = rgPublished race_end"
    proof (rule same_sightings [OF sample_hinted_valid])
      show "map_of (rgDevices race_end) (dID sample_hinted) = Some ?d" using d by simp
      show "\<not> metadataChanged ?d sample_hinted" "\<not> identityConflicts ?d sample_hinted"
        by (simp_all add: metadataChanged_def identityConflicts_def race_sighting_def)
    qed (use d in simp_all)
    moreover have "replayed race_end ''peer'' = None"
      by (simp add: replayed_def race_end_def race_sighting_def sample_hinted_def sample_peer_def)
    ultimately show ?thesis by (simp add: replayed_def)
  qed
  moreover have "NewRegistry ''me'' (30 * second) (120 * second) True = Inr race_start"
    by (simp add: NewRegistry_def race_start_def second_def)
  ultimately show ?thesis using race_run d by (intro exI [of _ race_start] exI [of _ race_end] exI [of _ race_schedule]) auto
qed

section \<open>Examples\<close>

text \<open>A peer is known, a client subscribes, the peer falls silent before the snapshot, and returns afterwards.\<close>

definition sample_subscribed :: "nat \<times> registry \<times> discovery_event broker" where
  "sample_subscribed = (let (r, b) = fold (world_step sample_service 0) [Call (RUpsert sample_hinted 0)] (sample_registry, NewBroker);
     (i, b') = BrokerSubscribe b in (i, r, b'))"

definition sample_snapshot :: "registry \<times> discovery_event broker \<times> discovery_event socket" where
  "sample_snapshot = (let (i, r, b) = sample_subscribed;
     (r', b') = fold (world_step sample_service i) [Call (RSweep (20 * second)), OtherSubscribes] (r, b)
   in (r', write_snapshot (\<lambda>_. False) (discovery_snapshot (ListDevices sample_service r') 0) i b'))"

definition sample_live :: "registry \<times> discovery_event broker \<times> discovery_event socket" where
  "sample_live = fold (live_step sample_service (\<lambda>_. False))
     [World (Call (RUpsert sample_hinted (21 * second))), Client SocketReceive, Client SocketReceive] sample_snapshot"


end
