(* ===== verification/ApiHandlers.thy ===== *)
theory ApiHandlers
  imports Api TransferControl TransferStaging PairingService
begin

text \<open>
  The handlers of \<open>api/transfer.go\<close>, \<open>api/pairing.go\<close> and \<open>api/settings.go\<close>: what each route reads from
  the request, which operation of the services it runs, and the status and body it answers with.

  The body of a request is the value \<open>ShouldBindJSON\<close> decoded, or \<open>None\<close> when it failed, which covers
  the limits of \<open>http.MaxBytesReader\<close>. A handler runs against the state of its service and answers
  with a status and a value, or with a status and an error message.
\<close>

section \<open>Answers\<close>

datatype 'a reply = Reply (reply_status: int) 'a | Refuse (reply_status: int) string

definition writeTransferError :: "terr \<Rightarrow> 'a reply" where
  "writeTransferError e = (case terr_kind e of
       ErrInvalidRequest \<Rightarrow> Refuse 400 (terr_text e)
     | ErrPathTraversal \<Rightarrow> Refuse 400 (terr_text e)
     | ErrUnauthorized \<Rightarrow> Refuse 401 ''invalid transfer authorization''
     | ErrUntrustedDevice \<Rightarrow> Refuse 403 (terr_text e)
     | ErrApprovalRequired \<Rightarrow> Refuse 409 (terr_text e)
     | ErrConflictResolution \<Rightarrow> Refuse 409 (terr_text e)
     | ErrInvalidState \<Rightarrow> Refuse 409 (terr_text e)
     | ErrNotFound \<Rightarrow> Refuse 404 (terr_text e)
     | ErrChecksumMismatch \<Rightarrow> Refuse 422 (terr_text e)
     | ErrInsufficientStorage \<Rightarrow> Refuse 507 (terr_text e)
     | ErrCanceled \<Rightarrow> Refuse 500 ''internal server error''
     | ErrOther \<Rightarrow> Refuse 500 ''internal server error'')"

text \<open>A panic of the pairing service is answered by the middleware \<open>recovery\<close>.\<close>

fun perr_text :: "perr \<Rightarrow> string" where
  "perr_text ErrPeerNotDiscovered = ''device is not currently discovered''"
| "perr_text ErrAlreadyTrusted = ''device is already trusted''"
| "perr_text ErrRequestNotFound = ''pairing request not found''"
| "perr_text ErrInvalidIdentifier = ''identifier must be a UUID''"
| "perr_text ErrProtocol = ''invalid pairing protocol message''"
| "perr_text ErrIdentityChanged =
     ''trusted device identity key changed; forget and re-pair only after verifying the device''"
| "perr_text ErrPairingRateLimit = ''pairing requests are arriving too quickly''"
| "perr_text ErrTrustedDeviceNotFound = ''trusted device not found''"
| "perr_text (ErrPairingOther t) = t"
| "perr_text ErrPairingPanic = []"

definition writePairingError :: "perr \<Rightarrow> 'a reply" where
  "writePairingError e = (case e of
       ErrInvalidIdentifier \<Rightarrow> Refuse 400 ''invalid pairing message''
     | ErrProtocol \<Rightarrow> Refuse 400 ''invalid pairing message''
     | ErrPeerNotDiscovered \<Rightarrow> Refuse 404 (perr_text e)
     | ErrRequestNotFound \<Rightarrow> Refuse 404 (perr_text e)
     | ErrTrustedDeviceNotFound \<Rightarrow> Refuse 404 (perr_text e)
     | ErrAlreadyTrusted \<Rightarrow> Refuse 409 (perr_text e)
     | ErrIdentityChanged \<Rightarrow> Refuse 409 (perr_text e)
     | ErrPairingRateLimit \<Rightarrow> Refuse 429 (perr_text e)
     | ErrPairingOther _ \<Rightarrow> Refuse 500 ''internal server error''
     | ErrPairingPanic \<Rightarrow> Refuse 500 ''internal server error'')"

type_synonym ('w, 'a) endpoint = "'w \<Rightarrow> 'a reply \<times> 'w"

definition answer_with :: "('e \<Rightarrow> 'a reply) \<Rightarrow> int \<Rightarrow> ('w, 'e, 'a) gom \<Rightarrow> ('w, 'a) endpoint" where
  "answer_with err ok m = (\<lambda>w. case m w of
       (Inl e, w') \<Rightarrow> (err e, w')
     | (Inr a, w') \<Rightarrow> (Reply ok a, w'))"

definition transfer_answer :: "int \<Rightarrow> 'a tm \<Rightarrow> (tworld, 'a) endpoint" where
  "transfer_answer = answer_with writeTransferError"

definition pairing_answer :: "int \<Rightarrow> 'a pm \<Rightarrow> (pworld, 'a) endpoint" where
  "pairing_answer = answer_with writePairingError"

definition with_body :: "string \<Rightarrow> 'b option \<Rightarrow> ('b \<Rightarrow> ('w, 'a) endpoint) \<Rightarrow> ('w, 'a) endpoint" where
  "with_body message body f = (\<lambda>w. case body of None \<Rightarrow> (Refuse 400 message, w) | Some b \<Rightarrow> f b w)"

section \<open>Transfers: the local routes\<close>

definition handleCreateStage :: "service \<Rightarrow> (tworld, staging_session) endpoint" where
  "handleCreateStage E = transfer_answer 201 (CreateStage E)"

definition handleUploadStage :: "service \<Rightarrow> string \<Rightarrow> string \<Rightarrow> int \<Rightarrow> body \<Rightarrow> (tworld, unit) endpoint" where
  "handleUploadStage E i path contentLength contents = (\<lambda>w.
     if contentLength < 0 then (Refuse 411 ''content length is required'', w)
     else transfer_answer 204 (UploadStagedFile E i path contentLength contents) w)"

definition handleQueueStage :: "service \<Rightarrow> string \<Rightarrow> stage_queue_request option \<Rightarrow> (tworld, transfer) endpoint" where
  "handleQueueStage E i rq =
     with_body ''deviceId and roots are required'' rq (\<lambda>b. transfer_answer 202 (QueueStage E i b))"

definition handleDeleteStage :: "service \<Rightarrow> string \<Rightarrow> (tworld, unit) endpoint" where
  "handleDeleteStage E i = transfer_answer 204 (DeleteStage E i)"

definition handleQueue :: "service \<Rightarrow> queue_request option \<Rightarrow> (tworld, transfer) endpoint" where
  "handleQueue E rq = with_body ''deviceId and paths are required'' rq (\<lambda>b. transfer_answer 202 (Queue E b))"

definition handleListTransfers :: "service \<Rightarrow> (tworld, transfer list) endpoint" where
  "handleListTransfers E = transfer_answer 200 (listTransfers E)"

definition handleDeleteHistory :: "service \<Rightarrow> (tworld, unit) endpoint" where
  "handleDeleteHistory E = transfer_answer 204 (deleteHistory E)"

definition handleGetTransfer :: "service \<Rightarrow> string \<Rightarrow> (tworld, transfer) endpoint" where
  "handleGetTransfer E i = transfer_answer 200 (Get E i)"

definition handleTransferStatus :: "service \<Rightarrow> string \<Rightarrow> (tworld, transfer) endpoint" where
  "handleTransferStatus E i = transfer_answer 200 (Get E i)"

definition handleAccept :: "service \<Rightarrow> string \<Rightarrow> accept_request option \<Rightarrow> (tworld, transfer) endpoint" where
  "handleAccept E i rq = with_body ''destinationPath is required'' rq (\<lambda>b. transfer_answer 200 (Accept E i b))"

definition handleReject :: "service \<Rightarrow> string \<Rightarrow> (tworld, transfer) endpoint" where
  "handleReject E i = transfer_answer 200 (Reject E i)"

definition handlePause :: "service \<Rightarrow> string \<Rightarrow> (tworld, transfer) endpoint" where
  "handlePause E i = transfer_answer 200 (Pause E i)"

definition handleResume :: "service \<Rightarrow> string \<Rightarrow> (tworld, transfer) endpoint" where
  "handleResume E i = transfer_answer 200 (Resume E i)"

definition handleCancel :: "service \<Rightarrow> string \<Rightarrow> (tworld, transfer) endpoint" where
  "handleCancel E i = transfer_answer 200 (Cancel E i)"

definition handleRetry :: "service \<Rightarrow> string \<Rightarrow> (tworld, transfer) endpoint" where
  "handleRetry E i = transfer_answer 200 (Retry E i)"

section \<open>Transfers: the peer protocol\<close>

definition bearerToken :: "(string \<Rightarrow> string \<Rightarrow> bool) \<Rightarrow> string \<Rightarrow> string" where
  "bearerToken unicode_fold header = (case cut (CHR '' '') header of
       None \<Rightarrow> []
     | Some (scheme, v) \<Rightarrow> if \<not> equal_fold unicode_fold scheme ''Bearer'' then [] else trim_space v)"

definition offer_answer :: "transfer \<Rightarrow> offer_response" where
  "offer_answer t = \<lparr>orTransferID = tID t, orStatus = tStatus t, orApproved = tApproved t\<rparr>"

definition handlePeerOffer :: "service \<Rightarrow> settings_store option \<Rightarrow> offer option \<Rightarrow> string \<Rightarrow> peer_authentication \<Rightarrow>
    (tworld, offer_response) endpoint" where
  "handlePeerOffer E preferences body remoteAddr authentication = (\<lambda>w.
     if \<exists>s. preferences = Some s \<and> \<not> svIncomingTransfersEnabled (GetSettings s)
     then (Refuse 403 ''this device is not accepting new transfer offers'', w)
     else with_body ''invalid transfer offer'' body
       (\<lambda>oo. transfer_answer 202 (bindE (ReceiveOffer E oo (remoteHost remoteAddr) authentication) (\<lambda>t. retE (offer_answer t)))) w)"

definition handlePeerStatus :: "service \<Rightarrow> (string \<Rightarrow> string \<Rightarrow> bool) \<Rightarrow> string \<Rightarrow> string \<Rightarrow> (tworld, resume_map) endpoint" where
  "handlePeerStatus E fold_case i auth = transfer_answer 200 (ProtocolStatus E i (bearerToken fold_case auth))"

text \<open>The identifier, the progress and the status of the transfer are what the sender gets back.\<close>

definition handlePeerChunk :: "service \<Rightarrow> (string \<Rightarrow> string \<Rightarrow> bool) \<Rightarrow> string \<Rightarrow> string \<Rightarrow> string \<Rightarrow> string \<Rightarrow> string \<Rightarrow>
    string \<Rightarrow> body \<Rightarrow> (tworld, string \<times> int \<times> status) endpoint" where
  "handlePeerChunk E fold_case i fileID index auth checksum encoding contents = (\<lambda>w.
     case parse_int index of
       None \<Rightarrow> (Refuse 400 ''invalid chunk index'', w)
     | Some k \<Rightarrow> transfer_answer 200 (bindE
         (ReceiveChunk E i fileID (bearerToken fold_case auth) k checksum encoding contents)
         (\<lambda>t. retE (tID t, tProgress t, tStatus t))) w)"

definition handlePeerComplete :: "service \<Rightarrow> (string \<Rightarrow> string \<Rightarrow> bool) \<Rightarrow> string \<Rightarrow> string \<Rightarrow> (tworld, transfer) endpoint" where
  "handlePeerComplete E fold_case i auth = transfer_answer 200 (Finalize E i (bearerToken fold_case auth))"

definition handlePeerCancel :: "service \<Rightarrow> (string \<Rightarrow> string \<Rightarrow> bool) \<Rightarrow> string \<Rightarrow> string \<Rightarrow> (tworld, transfer) endpoint" where
  "handlePeerCancel E fold_case i auth = transfer_answer 200 (ProtocolCancel E i (bearerToken fold_case auth))"

section \<open>Pairing\<close>

definition handleTrustedDevices :: "pair_service \<Rightarrow> (pworld, trusted_device list) endpoint" where
  "handleTrustedDevices E = pairing_answer 200 (TrustedDevices E)"

definition handlePairingRequests :: "pair_service \<Rightarrow> (pworld, pairing_request list) endpoint" where
  "handlePairingRequests E = pairing_answer 200 (Requests E)"

definition handlePairingRefresh :: "pair_service \<Rightarrow> string \<Rightarrow> (pworld, decision) endpoint" where
  "handlePairingRefresh E i = pairing_answer 200 (RefreshPairing E i)"

definition handlePairingRequest :: "pair_service \<Rightarrow> string option \<Rightarrow> (pworld, pairing_request) endpoint" where
  "handlePairingRequest E deviceID =
     with_body ''deviceId is required'' deviceID (\<lambda>d. pairing_answer 202 (RequestPairing E d))"

definition handlePairingAccept :: "pair_service \<Rightarrow> string option \<Rightarrow> (pworld, decision) endpoint" where
  "handlePairingAccept E requestID =
     with_body ''requestId is required'' requestID (\<lambda>r. pairing_answer 200 (AcceptPairing E r))"

definition handlePairingReject :: "pair_service \<Rightarrow> string option \<Rightarrow> (pworld, pairing_request) endpoint" where
  "handlePairingReject E requestID =
     with_body ''requestId is required'' requestID (\<lambda>r. pairing_answer 200 (RejectPairing E r))"

definition handleBlock :: "pair_service \<Rightarrow> string \<Rightarrow> (pworld, trusted_device) endpoint" where
  "handleBlock E i = pairing_answer 200 (SetBlocked E i True)"

definition handleUnblock :: "pair_service \<Rightarrow> string \<Rightarrow> (pworld, trusted_device) endpoint" where
  "handleUnblock E i = pairing_answer 200 (SetBlocked E i False)"

definition handleRemoveTrusted :: "pair_service \<Rightarrow> string \<Rightarrow> (pworld, unit) endpoint" where
  "handleRemoveTrusted E i = pairing_answer 204 (bindE (RemoveTrustedDevice E i) (\<lambda>_. retE ()))"

definition handlePeerBegin :: "pair_service \<Rightarrow> begin_request option \<Rightarrow> string \<Rightarrow> (pworld, begin_response) endpoint" where
  "handlePeerBegin E body remoteAddr =
     with_body ''invalid pairing request'' body (\<lambda>b. pairing_answer 202 (ReceiveBegin E b (remoteHost remoteAddr)))"

definition handlePeerProof :: "pair_service \<Rightarrow> proof_message option \<Rightarrow> (pworld, peer_decision) endpoint" where
  "handlePeerProof E body = with_body ''invalid pairing proof'' body (\<lambda>p. pairing_answer 200 (ReceiveProof E p))"

section \<open>Settings\<close>

text \<open>
  A handler that stored new values passes them to \<open>SettingsChanged\<close>: they are the second component of
  its answer.
\<close>

definition settings_answer :: "int \<Rightarrow> string option \<Rightarrow> (settings_values \<Rightarrow> 'a) \<Rightarrow> settings_values sm \<Rightarrow>
    settings_store \<times> tworld \<Rightarrow> ('a reply \<times> settings_values option) \<times> settings_store \<times> tworld" where
  "settings_answer failed message view m = (\<lambda>x. case m x of
       (Inl e, y) \<Rightarrow> ((Refuse failed (case message of Some t \<Rightarrow> t | None \<Rightarrow> os_text e), None), y)
     | (Inr v, y) \<Rightarrow> ((Reply 200 (view v), Some v), y))"

definition handleGetSettings :: "settings_store \<Rightarrow> settings_values reply" where
  "handleGetSettings s = Reply 200 (GetSettings s)"

definition handlePutSettings :: "('r) settings_host_scheme \<Rightarrow> settings_values option \<Rightarrow> settings_store \<times> tworld \<Rightarrow>
    (settings_values reply \<times> settings_values option) \<times> settings_store \<times> tworld" where
  "handlePutSettings E body x = (case body of
       None \<Rightarrow> ((Refuse 400 ''invalid settings document'', None), x)
     | Some v \<Rightarrow> settings_answer 400 None id (UpdateSettings E v) x)"

definition handleResetSettings :: "('r) settings_host_scheme \<Rightarrow> settings_store \<times> tworld \<Rightarrow>
    (settings_values reply \<times> settings_values option) \<times> settings_store \<times> tworld" where
  "handleResetSettings E x =
     settings_answer 500 (Some ''unable to reset settings'') id
       (UpdateSettings E ((Defaults E)\<lparr>svDeviceName := svDeviceName (GetSettings (fst x))\<rparr>)) x"

definition handlePolicy :: "settings_store \<Rightarrow> privacy_policy reply" where
  "handlePolicy s = Reply 200 (Policy (GetSettings s))"

definition handleAcceptPolicy :: "('r) settings_host_scheme \<Rightarrow> string option \<Rightarrow> time \<Rightarrow> settings_store \<times> tworld \<Rightarrow>
    (privacy_policy reply \<times> settings_values option) \<times> settings_store \<times> tworld" where
  "handleAcceptPolicy E version n x =
     (if version = None \<or> version = Some []
      then ((Refuse 400 ''privacy policy version is required'', None), x)
      else settings_answer 409 None Policy (AcceptPrivacy E (the version) n) x)"

section \<open>Who may touch a session\<close>

text \<open>A refusal that left the tables and the files alone.\<close>

definition refused :: "tworld \<Rightarrow> 'a reply \<times> tworld \<Rightarrow> bool" where
  "refused w rw \<longleftrightarrow> (\<exists>s m. fst rw = Refuse s m \<and> s \<in> {400, 401, 500}) \<and>
     wDb (snd rw) = wDb w \<and> wFs (snd rw) = wFs w"

text \<open>A computation that the checks of the session end: an error of the session, or a failing database.\<close>

definition stopped :: "tworld \<Rightarrow> 'a tm \<Rightarrow> bool" where
  "stopped w m \<longleftrightarrow> (\<exists>e. fst (m w) = Inl e \<and> terr_kind e \<in> {ErrInvalidRequest, ErrUnauthorized, ErrCanceled, ErrOther}) \<and>
     wDb (snd (m w)) = wDb w \<and> wFs (snd (m w)) = wFs w"

lemma stopped_bind: "stopped w m \<Longrightarrow> stopped w (bindE m f)"
  by (auto simp: stopped_def bindE_def split: prod.splits sum.splits)

lemma stopped_refused: "stopped w m \<Longrightarrow> refused w (transfer_answer ok m w)"
  by (auto simp: stopped_def refused_def transfer_answer_def answer_with_def writeTransferError_def split: prod.splits)

lemma fault_err_kind: "terr_kind (fault_err f) \<in> {ErrCanceled, ErrOther}"
  by (cases f) simp_all

lemma token_check:
  assumes "GetTransfer (wDb w) i = Inr t" "hashToken E token \<noteq> tSessionTokenHash t"
  shows "stopped w (bindE (Get E i) (\<lambda>u. seqE (guardE (\<not> tokenMatches E (tSessionTokenHash u) token) (plain ErrUnauthorized)) (rest u)))"
  using assms fault_err_kind [of "the (hFault E (wTick w))"]
  by (auto simp: stopped_def Get_def getTransfer_def db_read_def bindE_def seqE_def guardE_def retE_def throwE_def
      tokenMatches_iff split: option.splits)

lemma token_checks:
  assumes "GetTransfer (wDb w) i = Inr t" "hashToken E token \<noteq> tSessionTokenHash t"
  shows "stopped w (receiving_session E i token)" "stopped w (ProtocolStatus E i token)"
    "stopped w (ProtocolCancel E i token)"
  unfolding receiving_session_def ProtocolStatus_def ProtocolCancel_def by (rule token_check [OF assms])+

lemma begin_finalize_stopped:
  assumes "GetTransfer (wDb w) i = Inr t" "hashToken E token \<noteq> tSessionTokenHash t"
  shows "stopped w (begin_finalize E i token)"
  unfolding begin_finalize_def by (rule stopped_bind [OF token_checks(1) [OF assms]])

section \<open>Properties\<close>

text \<open>C37: Only the sender of a transfer touches its session: a peer request for a transfer that does not carry the
  session token as its bearer token is refused, whichever of the four routes it takes and whatever else it sends,
  and changes neither the tables nor the files.\<close>

theorem session_needs_token:
  assumes "GetTransfer (wDb w) i = Inr t"
    and "hashToken E (bearerToken fc auth) \<noteq> tSessionTokenHash t"
  shows "refused w (handlePeerStatus E fc i auth w) \<and>
    refused w (handlePeerChunk E fc i fileID index auth checksum encoding contents w) \<and>
    refused w (handlePeerComplete E fc i auth w) \<and>
    refused w (handlePeerCancel E fc i auth w)"
proof (intro conjI)
  note c = token_checks [OF assms]
  show "refused w (handlePeerStatus E fc i auth w)" "refused w (handlePeerCancel E fc i auth w)"
    unfolding handlePeerStatus_def handlePeerCancel_def by (intro stopped_refused c)+
  show "refused w (handlePeerComplete E fc i auth w)"
    unfolding handlePeerComplete_def Finalize_def by (rule stopped_refused [OF stopped_bind [OF begin_finalize_stopped [OF assms]]])
  have "refused w (transfer_answer 200 (bindE (ReceiveChunk E i fileID (bearerToken fc auth) k checksum encoding contents)
      (\<lambda>t. retE (tID t, tProgress t, tStatus t))) w)" for k
    unfolding ReceiveChunk_def by (intro stopped_refused stopped_bind c)
  then show "refused w (handlePeerChunk E fc i fileID index auth checksum encoding contents w)"
    by (auto simp: handlePeerChunk_def refused_def split: option.split)
qed

section \<open>Examples\<close>

text \<open>A chunk with another token.\<close>

theorem session_needs_token_witness:
  "refused sample_receiving (handlePeerChunk sample_service (\<lambda>_ _. False) ''t1'' ''f1'' ''1'' ''bearer wrong''
     (hex_encode (pad32 ''o'')) [] \<lparr>bBytes = ''o'', bBroken = False\<rparr> sample_receiving)"
proof -
  have b: "bearerToken (\<lambda>_ _. False) ''bearer wrong'' = ''wrong''" by code_simp
  have "hex_encode (pad32 ''token'') \<noteq> hex_encode (pad32 ''wrong'')" by code_simp
  then have "hashToken sample_service ''wrong'' \<noteq> hashToken sample_service ''token''"
    by (simp add: hashToken_def sample_service_def)
  then show ?thesis
    using session_needs_token [OF sample_receiving_db(2), of sample_service "\<lambda>_ _. False" "''bearer wrong''"] by (simp add: b)
qed

end
