(* ===== verification/Sockets.thy ===== *)
theory Sockets
  imports WebSocket ApiHandlers
begin

text \<open>
  The \<open>Serve\<close> methods of the three socket handlers of package \<open>websocket\<close>: subscription, replay of the
  present state, live events. The upgrade of the connection has succeeded; while a handler waits in its
  loop, others publish to its broker.
\<close>

section \<open>Serving a client\<close>

text \<open>The deferred cancel runs whenever a handler returns, which is when its socket is closed.\<close>

definition replay :: "(nat \<Rightarrow> bool) \<Rightarrow> 'e list \<Rightarrow> 'e broker \<times> 'e socket \<Rightarrow> 'e broker \<times> 'e socket" where
  "replay fails es bs = (let (b, s) = bs; s' = fold (write_json fails) es s in
     (if skOpen s' then b else broker_cancel (skID s) b, s'))"

definition hang_up :: "'e broker \<times> 'e socket \<Rightarrow> 'e broker \<times> 'e socket" where
  "hang_up bs = (let (b, s) = bs in (broker_cancel (skID s) b, s\<lparr>skOpen := False\<rparr>))"

definition opened :: "nat \<Rightarrow> 'e socket" where
  "opened i = \<lparr>skID = i, skSent = [], skOpen = True\<rparr>"

text \<open>The discovery handler asks the directory, which does not fail.\<close>

definition discovery_open :: "(nat \<Rightarrow> bool) \<Rightarrow> device list \<Rightarrow> time \<Rightarrow> discovery_event broker \<Rightarrow>
    discovery_event broker \<times> discovery_event socket" where
  "discovery_open fails ds n b =
     (let (i, b1) = BrokerSubscribe b in replay fails (discovery_snapshot ds n) (b1, opened i))"

text \<open>The pairing handler reads the requests after it has written the trusted devices, with the time of those.\<close>

definition pairing_open :: "pair_service \<Rightarrow> (nat \<Rightarrow> bool) \<Rightarrow> pairing_event broker \<Rightarrow> pworld \<Rightarrow>
    (pairing_event broker \<times> pairing_event socket) \<times> pworld" where
  "pairing_open E fails b w =
     (let (i, b1) = PairingSubscribe b in
      case TrustedDevices E w of
        (Inl _, w1) \<Rightarrow> (hang_up (b1, opened i), w1)
      | (Inr ds, w1) \<Rightarrow>
          let n = hNow E (pTick w1); bs = replay fails (pairing_snapshot ds [] n) (b1, opened i) in
          if \<not> skOpen (snd bs) then (bs, ptick w1)
          else case Requests E (ptick w1) of
            (Inl _, w2) \<Rightarrow> (bs, w2)
          | (Inr rs, w2) \<Rightarrow> (replay fails (pairing_snapshot [] rs n) bs, w2))"

definition transfer_open :: "service \<Rightarrow> (nat \<Rightarrow> bool) \<Rightarrow> event broker \<Rightarrow> tworld \<Rightarrow>
    (event broker \<times> event socket) \<times> tworld" where
  "transfer_open E fails b w =
     (let (i, b1) = TransferSubscribe b in
      case listTransfers E w of
        (Inl _, w1) \<Rightarrow> (hang_up (b1, opened i), w1)
      | (Inr ts, w1) \<Rightarrow>
          (replay fails (transfer_snapshot ts (hNow E (wTick w1))) (b1, opened i), bump w1))"

datatype 'e loop_event = Loop socket_event | Published 'e

definition loop_step :: "(nat \<Rightarrow> bool) \<Rightarrow> 'e loop_event \<Rightarrow> 'e broker \<times> 'e socket \<Rightarrow> 'e broker \<times> 'e socket" where
  "loop_step fails ev bs = (case ev of
       Loop x \<Rightarrow> socket_step fails x bs
     | Published e \<Rightarrow> (broker_publish e (fst bs), snd bs))"

definition live_loop :: "(nat \<Rightarrow> bool) \<Rightarrow> 'e loop_event list \<Rightarrow> 'e broker \<times> 'e socket \<Rightarrow> 'e broker \<times> 'e socket" where
  "live_loop fails evs bs = fold (loop_step fails) evs bs"

definition ServeDiscovery :: "(nat \<Rightarrow> bool) \<Rightarrow> device list \<Rightarrow> time \<Rightarrow> discovery_event loop_event list \<Rightarrow>
    discovery_event broker \<Rightarrow> discovery_event broker \<times> discovery_event socket" where
  "ServeDiscovery fails ds n evs b = live_loop fails evs (discovery_open fails ds n b)"

definition ServePairing :: "pair_service \<Rightarrow> (nat \<Rightarrow> bool) \<Rightarrow> pairing_event loop_event list \<Rightarrow>
    pairing_event broker \<Rightarrow> pworld \<Rightarrow> (pairing_event broker \<times> pairing_event socket) \<times> pworld" where
  "ServePairing E fails evs b w = (let (bs, w') = pairing_open E fails b w in (live_loop fails evs bs, w'))"

definition ServeTransfers :: "service \<Rightarrow> (nat \<Rightarrow> bool) \<Rightarrow> event loop_event list \<Rightarrow>
    event broker \<Rightarrow> tworld \<Rightarrow> (event broker \<times> event socket) \<times> tworld" where
  "ServeTransfers E fails evs b w = (let (bs, w') = transfer_open E fails b w in (live_loop fails evs bs, w'))"

section \<open>No subscription outlives its client\<close>

text \<open>A handler that has returned holds no subscription, and one that has not keeps every other subscriber.\<close>

definition released :: "'e broker \<times> 'e socket \<Rightarrow> bool" where
  "released bs \<longleftrightarrow> skOpen (snd bs) \<or> skID (snd bs) \<notin> set (brSubscribers (fst bs))"

lemma cancel_releases [simp]: "i \<notin> set (brSubscribers (broker_cancel i b))"
  by (simp add: broker_cancel_def)

lemma released_hang_up [simp]: "released (hang_up bs)"
  by (simp add: released_def hang_up_def split_def Let_def)

lemma released_replay [simp]: "released (replay fails es bs)"
  by (simp add: released_def replay_def split_def Let_def)

lemma publish_drops_only: "set (brSubscribers (broker_publish e b)) \<subseteq> set (brSubscribers b)"
proof -
  have "set (brSubscribers (fold (publish_one e) is c)) \<subseteq> set (brSubscribers c)" for "is" and c :: "'a broker"
  proof (induction "is" arbitrary: c)
    case (Cons i js)
    show ?case unfolding fold_simps by (rule order_trans [OF Cons.IH publish_one_other(3)])
  qed simp
  then show ?thesis by (simp add: broker_publish_def)
qed

lemma released_step: "released bs \<Longrightarrow> released (loop_step fails ev bs)"
proof (cases ev)
  case (Published e)
  assume "released bs"
  then show ?thesis using publish_drops_only [of e "fst bs"] Published by (auto simp: released_def loop_step_def)
next
  case (Loop x)
  assume "released bs"
  then show ?thesis using Loop
    by (cases x) (auto simp: released_def loop_step_def socket_step_def broker_receive_def Let_def
        split: prod.split option.splits list.split)
qed

lemma released_live_loop: "released bs \<Longrightarrow> released (live_loop fails evs bs)"
  unfolding live_loop_def by (induction evs arbitrary: bs) (simp_all add: released_step)

lemma released_open:
  "released (discovery_open fails ds n b1)"
  "released (fst (pairing_open E fails b2 w))"
  "released (fst (transfer_open F fails b3 v))"
proof -
  show "released (discovery_open fails ds n b1)" by (simp add: discovery_open_def split_def Let_def)
  show "released (fst (pairing_open E fails b2 w))"
    unfolding pairing_open_def Let_def split_def
    by (cases "TrustedDevices E w"; cases "fst (TrustedDevices E w)")
       (simp_all add: split_def split: sum.split)
  show "released (fst (transfer_open F fails b3 v))"
    unfolding transfer_open_def Let_def split_def by (simp split: sum.split)
qed

lemma sockets_released:
  "released (ServeDiscovery fails ds n evs b1)"
  "released (fst (ServePairing E fails evs' b2 w))"
  "released (fst (ServeTransfers F fails evs'' b3 v))"
  by (simp_all add: ServeDiscovery_def ServePairing_def ServeTransfers_def split_def Let_def released_live_loop released_open)

text \<open>A new client of the transfer socket first gets every stored transfer, in the order of the list.\<close>

lemma transfer_open_snapshot:
  assumes "listTransfers E w = (Inr ts, w1)" and "transfer_open E fails b w = ((b', s), w')" and "skOpen s"
  shows "map evTransfer (skSent s) = ts"
proof -
  obtain i b1 where "TransferSubscribe b = (i, b1)" by (cases "TransferSubscribe b")
  then have "s = fold (write_json fails) (transfer_snapshot ts (hNow E (wTick w1))) (opened i)"
    using assms(1,2) by (simp add: transfer_open_def replay_def Let_def split_def)
  then show ?thesis using snapshot_sent [of fails "transfer_snapshot ts (hNow E (wTick w1))" "opened i"] assms(3)
    by (simp add: opened_def transfer_snapshot_def comp_def)
qed

end
