(* ===== verification/Server.thy ===== *)
theory Server
  imports Discovery ApiHandlers
begin

text \<open>
  \<open>serverapp/server.go\<close>: the configuration from the environment, the display name at the start and
  after a change of the settings, and the supervisor that runs discovery and transfers as the
  settings say. The construction of the services and listeners in \<open>Run\<close> is wiring of the
  constructors modelled with their components.
\<close>

section \<open>Configuration\<close>

definition defaultPort :: int where
  "defaultPort = 8384"

definition defaultOfflineAfter :: int where
  "defaultOfflineAfter = 30 * second"

definition defaultRemoveAfter :: int where
  "defaultRemoveAfter = 120 * second"

text \<open>The environment of the process, and the JSON decoder of the static peers.\<close>

record environment =
  envGet :: "string \<Rightarrow> string"
  envConfigDir :: "string + string"
  envDecodePeers :: "string \<Rightarrow> string + device list"
  envFold :: "string \<Rightarrow> string \<Rightarrow> bool"

record server_config =
  scManagementAddress :: string
  scPeerAddress :: string
  scDataDirectory :: string
  scAppVersion :: string
  scDeveloperMode :: bool
  scStaticPeers :: "device list"

definition parse_port :: "string \<Rightarrow> int option" where
  "parse_port v = (case parse_int v of
       None \<Rightarrow> None
     | Some p \<Rightarrow> if p < 1 \<or> 65535 < p then None else Some p)"

text \<open>A port variable: the default when it is empty.\<close>

definition port_setting :: "string \<Rightarrow> int \<Rightarrow> string \<Rightarrow> string + int" where
  "port_setting v unset message =
     (if v = [] then Inr unset
      else case parse_port v of None \<Rightarrow> Inl message | Some p \<Rightarrow> Inr p)"

definition loopback_host :: "string \<Rightarrow> bool" where
  "loopback_host host = (case parse_ip (trim_set host ''[]'') of None \<Rightarrow> False | Some i \<Rightarrow> is_loopback i)"

definition data_directory :: "environment \<Rightarrow> string + string" where
  "data_directory V =
     (if envGet V ''SYNCSPACE_DATA_DIR'' \<noteq> [] then Inr (envGet V ''SYNCSPACE_DATA_DIR'')
      else case envConfigDir V of
        Inl e \<Rightarrow> Inl (''resolve user config directory: '' @ e)
      | Inr d \<Rightarrow> Inr (path_join [d, ''SyncSpace'']))"

definition developer_mode :: "environment \<Rightarrow> bool" where
  "developer_mode V \<longleftrightarrow> equal_fold (envFold V) (envGet V ''SYNCSPACE_DEV_MODE'') ''true'' \<or>
     envGet V ''SYNCSPACE_DEV_MODE'' = ''1''"

definition static_peers :: "environment \<Rightarrow> string + device list" where
  "static_peers V = (let v = trim_space (envGet V ''SYNCSPACE_STATIC_PEERS'') in
     if v = [] then Inr []
     else if \<not> developer_mode V then Inl ''SYNCSPACE_STATIC_PEERS requires SYNCSPACE_DEV_MODE=true''
     else case envDecodePeers V v of
       Inl e \<Rightarrow> Inl (''decode SYNCSPACE_STATIC_PEERS: '' @ e)
     | Inr ps \<Rightarrow> Inr ps)"

definition loadConfig :: "environment \<Rightarrow> string \<Rightarrow> string + server_config" where
  "loadConfig V buildVersion =
     (case port_setting (envGet V ''SYNCSPACE_PORT'') defaultPort ''SYNCSPACE_PORT must be between 1 and 65535'' of
        Inl e \<Rightarrow> Inl e
      | Inr port \<Rightarrow>
          let host = (if envGet V ''SYNCSPACE_HOST'' = [] then ''127.0.0.1'' else envGet V ''SYNCSPACE_HOST'') in
          if \<not> loopback_host host
          then Inl ''SYNCSPACE_HOST must be a loopback address; peer traffic uses SYNCSPACE_PEER_HOST''
          else
            let peerHost = (if envGet V ''SYNCSPACE_PEER_HOST'' = [] then ''0.0.0.0'' else envGet V ''SYNCSPACE_PEER_HOST'') in
            case port_setting (envGet V ''SYNCSPACE_PEER_PORT'') (port + 1)
                ''SYNCSPACE_PEER_PORT must be between 1 and 65535'' of
              Inl e \<Rightarrow> Inl e
            | Inr peerPort \<Rightarrow>
                if 65535 < peerPort
                then Inl ''peer port is outside the valid range; set SYNCSPACE_PEER_PORT''
                else case data_directory V of
                  Inl e \<Rightarrow> Inl e
                | Inr dir \<Rightarrow>
                    (case static_peers V of
                       Inl e \<Rightarrow> Inl e
                     | Inr peers \<Rightarrow>
                         Inr \<lparr>scManagementAddress = join_host_port host (int_dec port),
                           scPeerAddress = join_host_port peerHost (int_dec peerPort),
                           scDataDirectory = dir,
                           scAppVersion = (if envGet V ''SYNCSPACE_APP_VERSION'' = [] then buildVersion
                             else envGet V ''SYNCSPACE_APP_VERSION''),
                           scDeveloperMode = developer_mode V, scStaticPeers = peers\<rparr>))"

section \<open>Display names\<close>

text \<open>At the start an empty name in the settings is replaced by the name of the identity, and the identity takes it over.\<close>

definition start_preferences :: "('r) settings_host_scheme \<Rightarrow> identity \<Rightarrow> identity sm" where
  "start_preferences E i =
     bindE (getE (\<lambda>(s, w). GetSettings s)) (\<lambda>preferences.
     bindE (if trim_space (svDeviceName preferences) = []
       then UpdateSettings E (preferences\<lparr>svDeviceName := idName i\<rparr>)
       else retE preferences) (\<lambda>p. retE (i\<lparr>idName := svDeviceName p\<rparr>)))"

text \<open>\<open>applySettings\<close> renames the three services, discovery first; \<open>n\<close> is the time of the call.\<close>

definition applySettings :: "settings_values \<Rightarrow> time \<Rightarrow> discovery_service \<times> pworld \<times> tworld \<Rightarrow>
    discovery_service \<times> pworld \<times> tworld" where
  "applySettings v n dpt = (let (d, p, t) = dpt; name = trim_space (svDeviceName v) in
     if name = [] then dpt
     else case SetDiscoveryName name n d of
       (Inl e, d') \<Rightarrow> (d', p, t)
     | (Inr _, d') \<Rightarrow> (d', snd ((SetPairingName name :: unit pm) p), snd ((SetDisplayName name :: unit tm) t)))"

section \<open>The supervisor\<close>

text \<open>
  A service the supervisor started runs until it ends by itself or is cancelled; an ended one is
  noticed through its \<open>done\<close> channel. Cancelling waits for the end, so it is one step.
\<close>

datatype runtime = Stopped | Running | Ended

datatype phase = ReadValues | ReadConsent settings_values | Waiting | Returned

record supervisor =
  spPhase :: phase
  spTransfers :: runtime
  spDiscovery :: runtime
  spDiscoveryRunning :: bool

definition stopDiscovery :: "supervisor \<Rightarrow> supervisor" where
  "stopDiscovery s = s\<lparr>spDiscovery := Stopped, spDiscoveryRunning := False\<rparr>"

definition stopTransfers :: "supervisor \<Rightarrow> supervisor" where
  "stopTransfers s = s\<lparr>spTransfers := Stopped\<rparr>"

definition supervise_transfers :: "bool \<Rightarrow> supervisor \<Rightarrow> supervisor" where
  "supervise_transfers consent s =
     (if consent \<and> spTransfers s = Stopped then s\<lparr>spTransfers := Running\<rparr>
      else if \<not> consent then stopTransfers s
      else s)"

definition supervise_discovery :: "settings_values \<Rightarrow> bool \<Rightarrow> supervisor \<Rightarrow> supervisor" where
  "supervise_discovery v consent s =
     (if consent \<and> svDiscoverable v \<and> spDiscovery s = Stopped
      then s\<lparr>spDiscoveryRunning := True, spDiscovery := Running\<rparr>
      else if (\<not> consent \<or> \<not> svDiscoverable v) \<and> spDiscovery s \<noteq> Stopped then stopDiscovery s
      else s)"

text \<open>
  The supervisor beside the calls of the settings: it reads the values and the consent in two steps,
  acts on them, and waits for a change, the end of a service or its own cancellation.
\<close>

inductive supervise :: "('r) settings_host_scheme \<Rightarrow> supervisor \<times> settings_store \<times> tworld \<Rightarrow>
    supervisor \<times> settings_store \<times> tworld \<Rightarrow> bool" for E where
  settings: "supervise E (s, x) (s, settings_step E c x)"
| read_values: "spPhase s = ReadValues \<Longrightarrow>
    supervise E (s, st, w) (s\<lparr>spPhase := ReadConsent (GetSettings st)\<rparr>, st, w)"
| act: "spPhase s = ReadConsent v \<Longrightarrow>
    supervise E (s, st, w) ((supervise_discovery v (PrivacyAccepted st)
      (supervise_transfers (PrivacyAccepted st) s))\<lparr>spPhase := Waiting\<rparr>, st, w)"
| changed: "spPhase s = Waiting \<Longrightarrow> ssChanged st \<Longrightarrow>
    supervise E (s, st, w) (s\<lparr>spPhase := ReadValues\<rparr>, st\<lparr>ssChanged := False\<rparr>, w)"
| discovery_ends: "spDiscovery s = Running \<Longrightarrow> supervise E (s, x) (s\<lparr>spDiscovery := Ended\<rparr>, x)"
| transfers_end: "spTransfers s = Running \<Longrightarrow> supervise E (s, x) (s\<lparr>spTransfers := Ended\<rparr>, x)"
| discovery_done: "spPhase s = Waiting \<Longrightarrow> spDiscovery s = Ended \<Longrightarrow>
    supervise E (s, x) (stopDiscovery s\<lparr>spPhase := ReadValues\<rparr>, x)"
| transfers_done: "spPhase s = Waiting \<Longrightarrow> spTransfers s = Ended \<Longrightarrow>
    supervise E (s, x) (s\<lparr>spTransfers := Stopped, spPhase := ReadValues\<rparr>, x)"
| cancelled: "spPhase s = Waiting \<Longrightarrow>
    supervise E (s, x) ((stopDiscovery (stopTransfers s))\<lparr>spPhase := Returned\<rparr>, x)"

inductive_cases supervise_cases: "supervise E a b"

definition supervisor_start :: supervisor where
  "supervisor_start = \<lparr>spPhase = ReadValues, spTransfers = Stopped, spDiscovery = Stopped, spDiscoveryRunning = False\<rparr>"

text \<open>What holds in every reachable state.\<close>

definition supervised :: "supervisor \<times> settings_store \<times> 'w \<Rightarrow> bool" where
  "supervised x \<longleftrightarrow> (let (s, st, w) = x in
     (spTransfers s \<noteq> Stopped \<or> spDiscovery s \<noteq> Stopped \<longrightarrow> PrivacyAccepted st) \<and>
     (spDiscoveryRunning s \<longleftrightarrow> spDiscovery s \<noteq> Stopped) \<and>
     (case spPhase s of
        ReadConsent v \<Rightarrow> ssChanged st \<or> v = GetSettings st
      | Waiting \<Rightarrow> ssChanged st \<or> (spTransfers s \<noteq> Stopped \<longleftrightarrow> PrivacyAccepted st) \<and>
          (spDiscovery s \<noteq> Stopped \<longleftrightarrow> PrivacyAccepted st \<and> svDiscoverable (GetSettings st))
      | Returned \<Rightarrow> spTransfers s = Stopped \<and> spDiscovery s = Stopped
      | ReadValues \<Rightarrow> True))"

text \<open>A call of the settings keeps what they were, or signals a change; consent once given stays.\<close>

lemma settings_step_cases:
  "fst (settings_step E c x) = fst x \<or> ssChanged (fst (settings_step E c x))"
proof -
  obtain r y where r: "settings_call_run E c x = (r, y)" by (cases "settings_call_run E c x")
  show ?thesis
  proof (cases r)
    case (Inl e)
    then show ?thesis using call_Inl [of E c x e y] r by (simp add: settings_step_def)
  next
    case (Inr v)
    then have "settings_call_run E c x = (Inr v, y)" using r by simp
    then have "ssChanged (fst y)"
      by (cases rule: call_InrE) (auto simp: notify_def elim!: store_values_InrE)
    then show ?thesis using r by (simp add: settings_step_def)
  qed
qed

lemma settings_step_consent: "PrivacyAccepted (fst x) \<Longrightarrow> PrivacyAccepted (fst (settings_step E c x))"
  using accepted_by_call [of E c x "fst (settings_call_run E c x)" "snd (settings_call_run E c x)"]
  by (simp add: settings_step_def)

lemma signal_taken [simp]:
  "PrivacyAccepted (st\<lparr>ssChanged := b\<rparr>) = PrivacyAccepted st" "GetSettings (st\<lparr>ssChanged := b\<rparr>) = GetSettings st"
  by (simp_all add: PrivacyAccepted_def GetSettings_def)

lemma supervised_step: "supervise E a b \<Longrightarrow> supervised a \<Longrightarrow> supervised b"
proof (induction rule: supervise.induct)
  case (settings s x c)
  obtain st w where x: "x = (st, w)" by (cases x)
  obtain st' w' where x': "settings_step E c x = (st', w')" by (cases "settings_step E c x")
  have c: "st' = st \<or> ssChanged st'" "PrivacyAccepted st \<Longrightarrow> PrivacyAccepted st'"
    using settings_step_cases [of E c x] settings_step_consent [of x E c] by (simp_all add: x')  (simp_all add: x)
  show ?case using settings c unfolding x' unfolding x supervised_def by (auto split: phase.splits)
qed (auto simp: supervised_def supervise_discovery_def supervise_transfers_def stopDiscovery_def stopTransfers_def
    split: phase.splits)

lemma supervised_reachable:
  "(supervise E)\<^sup>*\<^sup>* (supervisor_start, st0, w0) x \<Longrightarrow> supervised x"
proof (induction rule: rtranclp_induct)
  case base
  show ?case by (simp add: supervised_def supervisor_start_def)
next
  case (step y z)
  then show ?case using supervised_step by blast
qed

text \<open>Left alone the supervisor reads the settings and acts on them.\<close>

lemma supervise_round:
  assumes "spPhase s = ReadValues"
  shows "\<exists>s'. (supervise E)\<^sup>*\<^sup>* (s, st, w) (s', st, w) \<and> spPhase s' = Waiting"
proof -
  let ?s = "s\<lparr>spPhase := ReadConsent (GetSettings st)\<rparr>"
  let ?t = "(supervise_discovery (GetSettings st) (PrivacyAccepted st)
      (supervise_transfers (PrivacyAccepted st) ?s))\<lparr>spPhase := Waiting\<rparr>"
  have "supervise E (s, st, w) (?s, st, w)" by (rule read_values [OF assms])
  moreover have "supervise E (?s, st, w) (?t, st, w)" by (rule act) simp
  ultimately have "(supervise E)\<^sup>*\<^sup>* (s, st, w) (?t, st, w)" by (meson converse_rtranclp_into_rtranclp r_into_rtranclp)
  then show ?thesis by (intro exI [of _ ?t]) simp
qed

lemma supervise_settles:
  assumes "spPhase s \<noteq> Returned"
  shows "\<exists>s' st'. (supervise E)\<^sup>*\<^sup>* (s, st, w) (s', st', w) \<and> spPhase s' = Waiting \<and> \<not> ssChanged st' \<and> ssValues st' = ssValues st"
proof -
  have quiet: "\<exists>s' st'. (supervise E)\<^sup>*\<^sup>* (s, st, w) (s', st', w) \<and> spPhase s' = Waiting \<and> \<not> ssChanged st' \<and> ssValues st' = ssValues st"
    if "spPhase s = Waiting" for s
  proof (cases "ssChanged st")
    case True
    have "supervise E (s, st, w) (s\<lparr>spPhase := ReadValues\<rparr>, st\<lparr>ssChanged := False\<rparr>, w)"
      by (rule changed [OF that True])
    moreover obtain s' where "(supervise E)\<^sup>*\<^sup>* (s\<lparr>spPhase := ReadValues\<rparr>, st\<lparr>ssChanged := False\<rparr>, w) (s', st\<lparr>ssChanged := False\<rparr>, w)"
      "spPhase s' = Waiting" using supervise_round [of "s\<lparr>spPhase := ReadValues\<rparr>" E "st\<lparr>ssChanged := False\<rparr>" w] by auto
    ultimately show ?thesis
      by (intro exI [of _ s'] exI [of _ "st\<lparr>ssChanged := False\<rparr>"]) (simp add: converse_rtranclp_into_rtranclp)
  qed (use that in blast)
  obtain s1 where s1: "(supervise E)\<^sup>*\<^sup>* (s, st, w) (s1, st, w)" "spPhase s1 = Waiting"
  proof (cases "spPhase s")
    case ReadValues
    then show ?thesis using supervise_round [of s E st w] that by blast
  next
    case (ReadConsent v)
    show ?thesis by (rule that, rule r_into_rtranclp, rule act [OF ReadConsent]) simp
  next
    case Waiting
    then show ?thesis by (intro that [of s]) simp_all
  next
    case Returned
    then show ?thesis using assms by simp
  qed
  from quiet [OF s1(2)] obtain s2 st2 where "(supervise E)\<^sup>*\<^sup>* (s1, st, w) (s2, st2, w)" "spPhase s2 = Waiting"
    "\<not> ssChanged st2" "ssValues st2 = ssValues st" by blast
  then show ?thesis using rtranclp_trans [OF s1(1)] by (intro exI [of _ s2] exI [of _ st2]) simp
qed

lemma port_setting_range:
  "port_setting v unset m = Inr p \<Longrightarrow> 1 \<le> unset \<Longrightarrow> 1 \<le> p \<and> (v \<noteq> [] \<longrightarrow> p \<le> 65535) \<and> (v = [] \<longrightarrow> p = unset)"
  by (auto simp: port_setting_def parse_port_def split: option.splits if_splits)

text \<open>After a stored change all three services announce the name of the settings.\<close>

lemma applySettings_names:
  assumes "settings_ok v" "svDeviceName v \<noteq> []" "applySettings v n (d, p, t) = (d', p', t')"
  shows "dName (Self d') = svDeviceName v \<and> idName (pIdentity p') = svDeviceName v \<and> iName (wIdentity t') = svDeviceName v"
proof -
  have n: "trim_space (svDeviceName v) = svDeviceName v" "length (svDeviceName v) \<le> 128"
    using assms(1) by (simp_all add: settings_ok_def ValidateSettings_iff)
  then show ?thesis using assms(2,3)
    by (auto simp: applySettings_def Let_def SetDiscoveryName_def SetPairingName_def SetDisplayName_def
        Self_def Refresh_def modE_def)
qed

section \<open>Properties\<close>

text \<open>C38: Discovery and transfers follow the settings. In every interleaving of the supervisor with calls of the
  settings and with services that end by themselves, nothing runs before the current privacy policy is accepted;
  while the supervisor waits without a pending change, transfers run exactly when the policy is accepted and
  discovery exactly when the device is discoverable as well; and unless it was cancelled it can reach such a state
  by its own steps.\<close>

theorem supervisor_follows_settings:
  assumes "(supervise E)\<^sup>*\<^sup>* (supervisor_start, st0, w0) (s, st, w)"
  shows "(spTransfers s \<noteq> Stopped \<or> spDiscovery s \<noteq> Stopped \<longrightarrow> PrivacyAccepted st) \<and>
    (spDiscoveryRunning s \<longleftrightarrow> spDiscovery s \<noteq> Stopped) \<and>
    (spPhase s = Waiting \<and> \<not> ssChanged st \<longrightarrow> (spTransfers s \<noteq> Stopped \<longleftrightarrow> PrivacyAccepted st) \<and>
       (spDiscovery s \<noteq> Stopped \<longleftrightarrow> PrivacyAccepted st \<and> svDiscoverable (GetSettings st))) \<and>
    (spPhase s = Returned \<longrightarrow> spTransfers s = Stopped \<and> spDiscovery s = Stopped) \<and>
    (spPhase s \<noteq> Returned \<longrightarrow> (\<exists>s' st'. (supervise E)\<^sup>*\<^sup>* (s, st, w) (s', st', w) \<and>
       GetSettings st' = GetSettings st \<and> spPhase s' = Waiting \<and> \<not> ssChanged st'))"
  using supervised_reachable [OF assms] supervise_settles [of s E st w]
  by (auto simp: supervised_def GetSettings_def)

text \<open>A configuration that loads binds the management API to a loopback address, has both ports between 1 and
  65535, and has static peers in developer mode only.\<close>

theorem loadConfig_bounds:
  assumes "loadConfig V buildVersion = Inr c"
  shows "\<exists>host port peerHost peerPort.
    scManagementAddress c = join_host_port host (int_dec port) \<and> loopback_host host \<and> 1 \<le> port \<and> port \<le> 65535 \<and>
    scPeerAddress c = join_host_port peerHost (int_dec peerPort) \<and> 1 \<le> peerPort \<and> peerPort \<le> 65535 \<and>
    (scStaticPeers c \<noteq> [] \<longrightarrow> scDeveloperMode c)"
proof -
  let ?host = "if envGet V ''SYNCSPACE_HOST'' = [] then ''127.0.0.1'' else envGet V ''SYNCSPACE_HOST''"
  let ?peerHost = "if envGet V ''SYNCSPACE_PEER_HOST'' = [] then ''0.0.0.0'' else envGet V ''SYNCSPACE_PEER_HOST''"
  obtain port peerPort where p: "1 \<le> port" "port \<le> 65535" "loopback_host ?host" "1 \<le> peerPort" "peerPort \<le> 65535"
    "scManagementAddress c = join_host_port ?host (int_dec port)"
    "scPeerAddress c = join_host_port ?peerHost (int_dec peerPort)"
    "static_peers V = Inr (scStaticPeers c)" "scDeveloperMode c = developer_mode V"
  proof -
    from assms obtain port where a: "port_setting (envGet V ''SYNCSPACE_PORT'') defaultPort
        ''SYNCSPACE_PORT must be between 1 and 65535'' = Inr port"
      by (auto simp: loadConfig_def split: sum.splits)
    with assms obtain peerPort where b: "loopback_host ?host" "peerPort \<le> 65535"
      "port_setting (envGet V ''SYNCSPACE_PEER_PORT'') (port + 1) ''SYNCSPACE_PEER_PORT must be between 1 and 65535'' = Inr peerPort"
      unfolding loadConfig_def Let_def by (simp split: sum.splits if_split_asm)
    from assms a b obtain dir peers where d: "data_directory V = Inr dir" "static_peers V = Inr peers"
      unfolding loadConfig_def Let_def by (simp split: sum.splits)
    have r: "1 \<le> port \<and> port \<le> 65535"
      using port_setting_range [OF a] by (cases "envGet V ''SYNCSPACE_PORT'' = []") (simp_all add: defaultPort_def)
    then have "1 \<le> peerPort" using port_setting_range [OF b(3)] by simp
    note r = r this
    show thesis
      by (rule that [of port peerPort])
        (use assms a b d r in \<open>auto simp: loadConfig_def Let_def\<close>)
  qed
  have "developer_mode V" if "scStaticPeers c \<noteq> []"
    using p(8) that by (auto simp: static_peers_def Let_def split: if_splits)
  then show ?thesis using p by blast
qed

text \<open>
  The host may be written in brackets: it is accepted, and the address built from it has two pairs of
  brackets, which no listener takes.
\<close>

definition sample_environment :: "string \<Rightarrow> environment" where
  "sample_environment host = \<lparr>envGet = (\<lambda>v. if v = ''SYNCSPACE_HOST'' then host else []),
     envConfigDir = Inr ''/home/me/.config'', envDecodePeers = (\<lambda>_. Inl []), envFold = (\<lambda>_ _. False)\<rparr>"

lemma sample_loadConfig:
  "loopback_host host \<Longrightarrow> host \<noteq> [] \<Longrightarrow> \<exists>c. loadConfig (sample_environment host) v = Inr c \<and>
     scManagementAddress c = join_host_port host (int_dec 8384)"
proof -
  have "trim_space [] = []" by code_simp
  then show "loopback_host host \<Longrightarrow> host \<noteq> [] \<Longrightarrow> \<exists>c. loadConfig (sample_environment host) v = Inr c \<and>
     scManagementAddress c = join_host_port host (int_dec 8384)"
    by (simp add: loadConfig_def sample_environment_def port_setting_def data_directory_def static_peers_def
        developer_mode_def defaultPort_def Let_def)
qed

lemma bracketed_host_unusable:
  "\<exists>c. loadConfig (sample_environment ''[::1]'') v = Inr c \<and> scManagementAddress c = ''[[::1]]:8384'' \<and>
   split_host_port (scManagementAddress c) = None"
proof -
  have d: "int_dec 8384 = ''8384''" by (simp add: int_dec_def nat_dec.simps, code_simp)
  have "loopback_host ''[::1]''" by code_simp
  moreover have "join_host_port ''[::1]'' (int_dec 8384) = ''[[::1]]:8384''" unfolding d by code_simp
  moreover have "split_host_port ''[[::1]]:8384'' = None" by code_simp
  ultimately show ?thesis using sample_loadConfig [of "''[::1]''" v] by auto
qed

section \<open>Examples\<close>

theorem loadConfig_bounds_witness:
  "\<exists>c. loadConfig (sample_environment ''127.0.0.2'') ''1.0'' = Inr c \<and> (\<exists>host port.
    scManagementAddress c = join_host_port host (int_dec port) \<and> loopback_host host \<and> 1 \<le> port \<and> port \<le> 65535)"
proof -
  have "loopback_host ''127.0.0.2''" by code_simp
  then obtain c where c: "loadConfig (sample_environment ''127.0.0.2'') ''1.0'' = Inr c"
    using sample_loadConfig [of "''127.0.0.2''" "''1.0''"] by auto
  then show ?thesis using loadConfig_bounds [OF c] by blast
qed

text \<open>The user accepts the policy while the supervisor waits; the signal makes it start both services.\<close>

theorem supervisor_follows_settings_witness:
  "\<exists>s st w. (supervise sample_settings_host)\<^sup>*\<^sup>* (supervisor_start, sample_settings) (s, st, w) \<and>
     PrivacyAccepted st \<and> spPhase s = Waiting \<and> \<not> ssChanged st \<and> spTransfers s \<noteq> Stopped \<and> spDiscovery s \<noteq> Stopped"
proof -
  let ?E = sample_settings_host and ?c = "CallAcceptPrivacy ''2026-07-1'' 5"
  obtain st w where x: "settings_step ?E ?c sample_settings = (st, w)" by (cases "settings_step ?E ?c sample_settings")
  have st: "PrivacyAccepted st" "svDiscoverable (GetSettings st)"
  proof -
    have "PrivacyAccepted (fst (settings_step ?E ?c sample_settings))"
      "svDiscoverable (GetSettings (fst (settings_step ?E ?c sample_settings)))" by code_simp+
    then show "PrivacyAccepted st" "svDiscoverable (GetSettings st)" by (simp_all add: x)
  qed
  have 1: "supervise ?E (supervisor_start, sample_settings) (supervisor_start, st, w)"
    unfolding x [symmetric] by (rule settings)
  obtain s' st' where 2: "(supervise ?E)\<^sup>*\<^sup>* (supervisor_start, st, w) (s', st', w)" "spPhase s' = Waiting" "\<not> ssChanged st'"
      "ssValues st' = ssValues st"
    using supervise_settles [of supervisor_start ?E st w] by (auto simp: supervisor_start_def)
  have r: "(supervise ?E)\<^sup>*\<^sup>* (supervisor_start, fst sample_settings, snd sample_settings) (s', st', w)"
    using converse_rtranclp_into_rtranclp [OF 1 2(1)] by simp
  have "PrivacyAccepted st'" "svDiscoverable (GetSettings st')"
    using st 2(4) by (simp_all add: PrivacyAccepted_def GetSettings_def)
  then have "spTransfers s' \<noteq> Stopped \<and> spDiscovery s' \<noteq> Stopped"
    using supervisor_follows_settings [OF r] 2(2,3) by blast
  then show ?thesis using \<open>PrivacyAccepted st'\<close> 2(2,3) r by auto
qed

end
