(* ===== verification/Database.thy ===== *)
theory Database
  imports Prelude "HOL-Library.AList"
begin

text \<open>
  \<open>database/migrations.go\<close>: the schema of the SQLite database and the migrations that bring an
  old one up to date, each in a transaction of its own.

  A statement is modelled by its effect on the schema: the tables with their columns, the indexes,
  and the versions recorded in \<open>schema_migrations\<close>. The rows of the tables are not touched by any of
  them. SQLite is a parameter where it may fail: \<open>mFault n\<close> is the error of the \<open>n\<close>-th call, if any, and
  \<open>mConnection n\<close> the pooled connection on which it runs; a pragma acts on its connection only.
\<close>

section \<open>Schemas\<close>

record schema =
  scTables :: "(string \<times> string list) list"
  scIndexes :: "string list"
  scVersions :: "(int \<times> string) list option"

datatype statement =
  CreateTable string "string list"
| CreateIndex string string "string list"

text \<open>\<open>IF NOT EXISTS\<close>: an existing table or index stays as it is, whatever its columns are.\<close>

fun exec_statement :: "statement \<Rightarrow> schema \<Rightarrow> string + schema" where
  "exec_statement (CreateTable t cols) s =
     (case map_of (scTables s) t of
        Some _ \<Rightarrow> Inr s
      | None \<Rightarrow> Inr (s\<lparr>scTables := scTables s @ [(t, cols)]\<rparr>))"
| "exec_statement (CreateIndex i t cols) s =
     (if i \<in> set (scIndexes s) then Inr s
      else case map_of (scTables s) t of
        None \<Rightarrow> Inl ''no such table''
      | Some have_cols \<Rightarrow>
          if set cols \<subseteq> set have_cols then Inr (s\<lparr>scIndexes := scIndexes s @ [i]\<rparr>)
          else Inl ''no such column'')"

text \<open>\<open>PRAGMA table_info\<close> of a missing table has no rows, and \<open>ALTER TABLE\<close> of one fails.\<close>

definition table_columns :: "string \<Rightarrow> schema \<Rightarrow> string list" where
  "table_columns t s = (case map_of (scTables s) t of None \<Rightarrow> [] | Some cols \<Rightarrow> cols)"

definition add_column :: "string \<Rightarrow> string \<Rightarrow> schema \<Rightarrow> string + schema" where
  "add_column t c s = (case map_of (scTables s) t of
       None \<Rightarrow> Inl ''no such table''
     | Some cols \<Rightarrow> Inr (s\<lparr>scTables := AList.update t (cols @ [c]) (scTables s)\<rparr>))"

section \<open>Connections\<close>

record sqlite =
  mFault :: "nat \<Rightarrow> string option"
  mConnection :: "nat \<Rightarrow> nat"

record database =
  dbSchema :: schema
  dbBusyTimeout :: "nat set"
  dbForeignKeys :: "nat set"
  dbCalls :: nat

type_synonym 'a dm = "(database, string, 'a) gom"

definition db_called :: "database \<Rightarrow> database" where
  "db_called d = d\<lparr>dbCalls := Suc (dbCalls d)\<rparr>"

text \<open>A call of the database: it fails as a whole or has its effect.\<close>

definition db_call :: "sqlite \<Rightarrow> (database \<Rightarrow> string + 'a \<times> database) \<Rightarrow> 'a dm" where
  "db_call Q f = (\<lambda>d. case mFault Q (dbCalls d) of
       Some e \<Rightarrow> (Inl e, db_called d)
     | None \<Rightarrow> (case f d of Inl e \<Rightarrow> (Inl e, db_called d) | Inr (a, d') \<Rightarrow> (Inr a, db_called d')))"

definition on_schema :: "sqlite \<Rightarrow> (schema \<Rightarrow> string + schema) \<Rightarrow> unit dm" where
  "on_schema Q f = db_call Q (\<lambda>d. map_sum id (\<lambda>s. ((), d\<lparr>dbSchema := s\<rparr>)) (f (dbSchema d)))"

text \<open>\<open>PRAGMA journal_mode=WAL\<close> is a property of the file and changes nothing here.\<close>

datatype pragma = BusyTimeout | JournalMode | ForeignKeys

definition exec_pragma :: "sqlite \<Rightarrow> pragma \<Rightarrow> unit dm" where
  "exec_pragma Q p = db_call Q (\<lambda>d. Inr ((), case p of
       BusyTimeout \<Rightarrow> d\<lparr>dbBusyTimeout := insert (mConnection Q (dbCalls d)) (dbBusyTimeout d)\<rparr>
     | JournalMode \<Rightarrow> d
     | ForeignKeys \<Rightarrow> d\<lparr>dbForeignKeys := insert (mConnection Q (dbCalls d)) (dbForeignKeys d)\<rparr>))"

section \<open>Migrations\<close>

definition CurrentSchemaVersion :: int where
  "CurrentSchemaVersion = 4"

text \<open>The function \<open>apply\<close> of a migration is the list of the columns it ensures, in order.\<close>

record migration =
  miVersion :: int
  miName :: string
  miStatements :: "statement list"
  miColumns :: "(string \<times> string) list"

definition migrations :: "migration list" where
  "migrations = [
     \<lparr>miVersion = 1, miName = ''trusted devices'', miStatements = [CreateTable ''trusted_devices''
        [''device_id'', ''device_name'', ''platform'', ''pairing_key'', ''paired_at'', ''last_seen'', ''trust_state'']],
      miColumns = []\<rparr>,
     \<lparr>miVersion = 2, miName = ''durable transfers'', miStatements = [
        CreateTable ''transfers'' [''id'', ''direction'', ''device_id'', ''device_name'', ''remote_address'', ''filename'',
          ''path'', ''source_paths'', ''size'', ''checksum'', ''status'', ''progress'', ''speed'', ''eta_seconds'',
          ''started_at'', ''finished_at'', ''created_at'', ''updated_at'', ''error'', ''attempts'', ''priority'',
          ''approved'', ''approval_required'', ''conflict_policy'', ''chunk_size'', ''compression'',
          ''protocol_version'', ''session_token'', ''session_token_hash''],
        CreateTable ''transfer_files'' [''transfer_id'', ''file_id'', ''relative_path'', ''source_path'',
          ''destination_path'', ''directory'', ''size'', ''checksum'', ''chunk_size'', ''chunk_count''],
        CreateTable ''chunks'' [''transfer_id'', ''file_id'', ''chunk_index'', ''offset_bytes'', ''size'', ''checksum'',
          ''status'', ''attempts'', ''updated_at''],
        CreateTable ''queued_transfers'' [''transfer_id'', ''priority'', ''queued_at''],
        CreateTable ''transfer_history'' [''transfer_id'', ''status'', ''finished_at''],
        CreateTable ''failed_transfers'' [''transfer_id'', ''error'', ''failed_at''],
        CreateTable ''paused_transfers'' [''transfer_id'', ''paused_at''],
        CreateIndex ''idx_transfers_status_priority'' ''transfers'' [''status'', ''priority'', ''created_at''],
        CreateIndex ''idx_chunks_transfer_status'' ''chunks'' [''transfer_id'', ''status'']],
      miColumns = []\<rparr>,
     \<lparr>miVersion = 3, miName = ''cryptographic trust metadata'', miStatements = [],
      miColumns = map (Pair ''trusted_devices'') [''blocked'', ''fingerprint'', ''identity_key_changed'',
        ''last_authenticated'', ''local_name'', ''notes'', ''public_key'']\<rparr>,
     \<lparr>miVersion = 4, miName = ''transfer peer identity details'', miStatements = [],
      miColumns = map (Pair ''transfers'') [''device_hostname'', ''device_platform'']\<rparr>]"

definition ensureColumn :: "sqlite \<Rightarrow> string \<times> string \<Rightarrow> unit dm" where
  "ensureColumn Q tc = (let (t, c) = tc in
     bindE (db_call Q (\<lambda>d. Inr (table_columns t (dbSchema d), d))) (\<lambda>cols.
       if c \<in> set cols then retE () else on_schema Q (add_column t c)))"

definition record_version :: "migration \<Rightarrow> schema \<Rightarrow> string + schema" where
  "record_version m s = (case scVersions s of
       None \<Rightarrow> Inl ''no such table: schema_migrations''
     | Some vs \<Rightarrow> if miVersion m \<in> fst ` set vs then Inl ''UNIQUE constraint failed''
         else Inr (s\<lparr>scVersions := Some (vs @ [(miVersion m, miName m)])\<rparr>))"

text \<open>The body of a transaction; a failure rolls the schema back to where it began.\<close>

definition migration_body :: "sqlite \<Rightarrow> migration \<Rightarrow> unit dm" where
  "migration_body Q m =
     seqE (eachE (\<lambda>st. on_schema Q (exec_statement st)) (miStatements m))
     (seqE (eachE (ensureColumn Q) (miColumns m)) (on_schema Q (record_version m)))"

definition rolled_back :: "schema \<Rightarrow> database \<Rightarrow> database" where
  "rolled_back s d = db_called (d\<lparr>dbSchema := s\<rparr>)"

definition run_migration :: "sqlite \<Rightarrow> migration \<Rightarrow> unit dm" where
  "run_migration Q m =
     bindE (db_call Q (\<lambda>d. Inr (dbSchema d, d))) (\<lambda>before.
     bindE (tryE (migration_body Q m)) (\<lambda>r. case r of
       Inl e \<Rightarrow> seqE (modE (rolled_back before)) (throwE (''apply schema migration: '' @ e))
     | Inr _ \<Rightarrow> bindE (tryE (db_call Q (\<lambda>d. Inr ((), d)))) (\<lambda>c. case c of
           Inl e \<Rightarrow> seqE (modE (\<lambda>d. d\<lparr>dbSchema := before\<rparr>)) (throwE (''commit schema migration: '' @ e))
         | Inr _ \<Rightarrow> retE ())))"

definition applied_version :: "migration \<Rightarrow> schema \<Rightarrow> bool" where
  "applied_version m s \<longleftrightarrow> (case scVersions s of None \<Rightarrow> False | Some vs \<Rightarrow> miVersion m \<in> fst ` set vs)"

definition migrate_one :: "sqlite \<Rightarrow> migration \<Rightarrow> unit dm" where
  "migrate_one Q m =
     bindE (db_call Q (\<lambda>d. if scVersions (dbSchema d) = None then Inl ''no such table: schema_migrations''
        else Inr (applied_version m (dbSchema d), d))) (\<lambda>found.
     if found then retE () else run_migration Q m)"

definition create_versions :: "schema \<Rightarrow> string + schema" where
  "create_versions s = Inr (if scVersions s = None then s\<lparr>scVersions := Some []\<rparr> else s)"

definition prepare :: "sqlite \<Rightarrow> unit dm" where
  "prepare Q = seqE (exec_pragma Q BusyTimeout) (seqE (exec_pragma Q JournalMode)
     (seqE (exec_pragma Q ForeignKeys) (on_schema Q create_versions)))"

definition Migrate :: "sqlite \<Rightarrow> unit dm" where
  "Migrate Q = seqE (prepare Q) (eachE (migrate_one Q) migrations)"

definition Version :: "sqlite \<Rightarrow> int dm" where
  "Version Q = db_call Q (\<lambda>d. case scVersions (dbSchema d) of
       None \<Rightarrow> Inl ''no such table: schema_migrations''
     | Some vs \<Rightarrow> Inr (if vs = [] then 0 else Max (fst ` set vs), d))"

section \<open>The effect on the schema\<close>

text \<open>The migrations as functions of the schema, without connections and failures.\<close>

definition then_do :: "(schema \<Rightarrow> string + schema) \<Rightarrow> (schema \<Rightarrow> string + schema) \<Rightarrow> schema \<Rightarrow> string + schema" where
  "then_do f g s = (case f s of Inl e \<Rightarrow> Inl e | Inr t \<Rightarrow> g t)"

fun all_of :: "('x \<Rightarrow> schema \<Rightarrow> string + schema) \<Rightarrow> 'x list \<Rightarrow> schema \<Rightarrow> string + schema" where
  "all_of f [] s = Inr s"
| "all_of f (x # xs) s = then_do (f x) (all_of f xs) s"

definition ensured :: "string \<times> string \<Rightarrow> schema \<Rightarrow> string + schema" where
  "ensured tc s = (if snd tc \<in> set (table_columns (fst tc) s) then Inr s else add_column (fst tc) (snd tc) s)"

definition migrated :: "migration \<Rightarrow> schema \<Rightarrow> string + schema" where
  "migrated m s =
     (if scVersions s = None then Inl ''no such table: schema_migrations''
      else if applied_version m s then Inr s
      else then_do (all_of exec_statement (miStatements m)) (then_do (all_of ensured (miColumns m)) (record_version m)) s)"

text \<open>A computation has no other effect on the schema than \<open>f\<close>, and without failures it has that effect.\<close>

definition sound :: "unit dm \<Rightarrow> (schema \<Rightarrow> string + schema) \<Rightarrow> bool" where
  "sound m f \<longleftrightarrow> (\<forall>d u d'. m d = (Inr u, d') \<longrightarrow> f (dbSchema d) = Inr (dbSchema d'))"

definition complete :: "unit dm \<Rightarrow> (schema \<Rightarrow> string + schema) \<Rightarrow> bool" where
  "complete m f \<longleftrightarrow> (\<forall>d t. f (dbSchema d) = Inr t \<longrightarrow> (\<exists>d'. m d = (Inr (), d') \<and> dbSchema d' = t))"

definition no_faults :: "sqlite \<Rightarrow> bool" where
  "no_faults Q \<longleftrightarrow> (\<forall>n. mFault Q n = None)"

lemma db_called_schema [simp]: "dbSchema (db_called d) = dbSchema d"
  by (simp add: db_called_def)

lemma db_call_Inr:
  assumes "db_call Q f d = (Inr a, d'')"
  obtains d' where "f d = Inr (a, d')" "d'' = db_called d'"
  using assms by (auto simp: db_call_def split: option.splits sum.splits prod.splits)

lemma db_call_Inl: "db_call Q f d = (Inl e, d') \<Longrightarrow> d' = db_called d"
  by (auto simp: db_call_def split: option.splits sum.splits prod.splits)

lemma sound_seq: "sound m f \<Longrightarrow> sound n g \<Longrightarrow> sound (seqE m n) (then_do f g)"
  by (fastforce simp: sound_def then_do_def elim!: seqE_InrE)

lemma soundD: "sound m f \<Longrightarrow> m d = (Inr u, d') \<Longrightarrow> f (dbSchema d) = Inr (dbSchema d')"
  by (simp add: sound_def)

lemma completeD: "complete m f \<Longrightarrow> f (dbSchema d) = Inr t \<Longrightarrow> \<exists>d'. m d = (Inr (), d') \<and> dbSchema d' = t"
  by (simp add: complete_def)

lemma all_of_Cons: "all_of f (x # xs) = then_do (f x) (all_of f xs)"
  by (simp add: fun_eq_iff)

lemma sound_each: "(\<And>x. sound (m x) (f x)) \<Longrightarrow> sound (eachE m xs) (all_of f xs)"
proof (induction xs)
  case (Cons x xs)
  then show ?case unfolding all_of_Cons eachE.simps by (intro sound_seq) simp_all
qed (simp add: sound_def)

lemma complete_seq: "complete m f \<Longrightarrow> complete n g \<Longrightarrow> complete (seqE m n) (then_do f g)"
  by (fastforce simp: complete_def then_do_def seqE_def bindE_def split: sum.splits)

lemma complete_each: "(\<And>x. complete (m x) (f x)) \<Longrightarrow> complete (eachE m xs) (all_of f xs)"
proof (induction xs)
  case (Cons x xs)
  then show ?case unfolding all_of_Cons eachE.simps by (intro complete_seq) simp_all
qed (simp add: complete_def)

lemma sound_on_schema: "sound (on_schema Q f) f"
  by (auto simp: sound_def on_schema_def map_sum_def elim!: db_call_Inr split: sum.splits)

lemma complete_on_schema: "no_faults Q \<Longrightarrow> complete (on_schema Q f) f"
  by (auto simp: complete_def on_schema_def db_call_def no_faults_def)

lemma sound_ensure: "sound (ensureColumn Q tc) (ensured tc)"
proof -
  obtain t c where tc: "tc = (t, c)" by (cases tc)
  show ?thesis
    by (auto simp: tc sound_def ensureColumn_def ensured_def elim!: bindE_InrE db_call_Inr split: if_splits
        dest!: soundD [OF sound_on_schema])
qed

lemma complete_ensure: "no_faults Q \<Longrightarrow> complete (ensureColumn Q tc) (ensured tc)"
proof -
  assume q: "no_faults Q"
  obtain t c where tc: "tc = (t, c)" by (cases tc)
  show ?thesis
    using complete_on_schema [OF q, of "add_column t c"] q
    by (auto simp: tc complete_def ensureColumn_def ensured_def bindE_def db_call_def no_faults_def)
qed

lemma sound_body: "sound (migration_body Q m)
    (then_do (all_of exec_statement (miStatements m)) (then_do (all_of ensured (miColumns m)) (record_version m)))"
  unfolding migration_body_def by (intro sound_seq sound_each sound_on_schema sound_ensure)

lemma complete_body: "no_faults Q \<Longrightarrow> complete (migration_body Q m)
    (then_do (all_of exec_statement (miStatements m)) (then_do (all_of ensured (miColumns m)) (record_version m)))"
  unfolding migration_body_def by (intro complete_seq complete_each complete_on_schema complete_ensure)

text \<open>A migration happens as a whole or not at all.\<close>

lemma run_migration_atomic:
  assumes "run_migration Q m d = (r, d')"
  shows "case r of Inl _ \<Rightarrow> dbSchema d' = dbSchema d
    | Inr _ \<Rightarrow> then_do (all_of exec_statement (miStatements m)) (then_do (all_of ensured (miColumns m)) (record_version m))
        (dbSchema d) = Inr (dbSchema d')"
proof (cases "db_call Q (\<lambda>d. Inr (dbSchema d, d)) d")
  case (Pair r0 d0)
  show ?thesis
  proof (cases r0)
    case (Inl e)
    then show ?thesis using assms Pair by (auto simp: run_migration_def bindE_def dest: db_call_Inl)
  next
    case (Inr before)
    with Pair have b: "before = dbSchema d" "dbSchema d0 = dbSchema d" by (auto elim: db_call_Inr)
    obtain r1 d1 where body: "migration_body Q m d0 = (r1, d1)" by (cases "migration_body Q m d0")
    show ?thesis
    proof (cases r1)
      case (Inl e)
      then show ?thesis using assms Pair Inr b body
        by (auto simp: run_migration_def bindE_def tryE_def seqE_def rolled_back_def)
    next
      case (Inr u)
      have s: "then_do (all_of exec_statement (miStatements m)) (then_do (all_of ensured (miColumns m)) (record_version m))
          (dbSchema d) = Inr (dbSchema d1)"
        using soundD [OF sound_body, of Q m d0 u d1] body Inr b by simp
      obtain r2 d2 where c: "db_call Q (\<lambda>d. Inr ((), d)) d1 = (r2, d2)" by (cases "db_call Q (\<lambda>d. Inr ((), d)) d1")
      then have "dbSchema d2 = dbSchema d1" by (cases r2) (auto elim: db_call_Inr dest: db_call_Inl)
      then show ?thesis using assms Pair \<open>r0 = Inr before\<close> b body Inr s c
        by (cases r2) (auto simp: run_migration_def bindE_def tryE_def seqE_def)
    qed
  qed
qed

lemma migrate_one_atomic:
  assumes "migrate_one Q m d = (r, d')"
  shows "case r of Inl _ \<Rightarrow> dbSchema d' = dbSchema d | Inr _ \<Rightarrow> migrated m (dbSchema d) = Inr (dbSchema d')"
proof -
  let ?q = "\<lambda>d. if scVersions (dbSchema d) = None then Inl ''no such table: schema_migrations''
        else Inr (applied_version m (dbSchema d), d)"
  obtain r0 d0 where q: "db_call Q ?q d = (r0, d0)" by (cases "db_call Q ?q d")
  show ?thesis
  proof (cases r0)
    case (Inl e)
    then show ?thesis using assms q by (auto simp: migrate_one_def bindE_def dest: db_call_Inl)
  next
    case (Inr found)
    with q have f: "scVersions (dbSchema d) \<noteq> None" "found = applied_version m (dbSchema d)" "dbSchema d0 = dbSchema d"
      by (auto elim!: db_call_Inr split: if_splits)
    show ?thesis
    proof (cases found)
      case True
      then show ?thesis using assms q Inr f by (auto simp: migrate_one_def bindE_def migrated_def)
    next
      case False
      then have "run_migration Q m d0 = (r, d')" using assms q Inr by (simp add: migrate_one_def bindE_def)
      from run_migration_atomic [OF this] show ?thesis using f False by (auto simp: migrated_def split: sum.splits)
    qed
  qed
qed

lemma complete_one: "no_faults Q \<Longrightarrow> complete (migrate_one Q m) (migrated m)"
  unfolding complete_def
proof (intro allI impI)
  fix d :: database and t
  assume q: "no_faults Q" and m: "migrated m (dbSchema d) = Inr t"
  have call: "db_call Q f d = (case f d of Inl e \<Rightarrow> (Inl e, db_called d) | Inr (a, d') \<Rightarrow> (Inr a, db_called d'))"
    for f :: "database \<Rightarrow> string + 'x \<times> database" and d using q by (simp add: db_call_def no_faults_def)
  have v: "scVersions (dbSchema d) \<noteq> None" using m by (auto simp: migrated_def split: if_splits)
  show "\<exists>d'. migrate_one Q m d = (Inr (), d') \<and> dbSchema d' = t"
  proof (cases "applied_version m (dbSchema d)")
    case True
    then show ?thesis using m v by (simp add: migrate_one_def bindE_def call migrated_def)
  next
    case False
    then obtain d1 where "migration_body Q m (db_called (db_called d)) = (Inr (), d1)" "dbSchema d1 = t"
      using completeD [OF complete_body [OF q, of m], of "db_called (db_called d)" t] m v by (auto simp: migrated_def)
    then show ?thesis using False v
      by (simp add: migrate_one_def run_migration_def bindE_def tryE_def call)
  qed
qed

section \<open>Schemas only grow\<close>

text \<open>\<open>t\<close> has every table of \<open>s\<close> with at least its columns, and every version of \<open>s\<close>.\<close>

definition versions :: "schema \<Rightarrow> int set" where
  "versions s = (case scVersions s of None \<Rightarrow> {} | Some vs \<Rightarrow> fst ` set vs)"

definition extends :: "schema \<Rightarrow> schema \<Rightarrow> bool" where
  "extends s t \<longleftrightarrow> (\<forall>tab cols. map_of (scTables s) tab = Some cols \<longrightarrow> (\<exists>more. map_of (scTables t) tab = Some (cols @ more))) \<and>
     versions s \<subseteq> versions t \<and> (scVersions s \<noteq> None \<longrightarrow> scVersions t \<noteq> None)"

lemma applied_versions: "applied_version m s \<longleftrightarrow> miVersion m \<in> versions s"
  by (auto simp: applied_version_def versions_def split: option.splits)

lemma extends_refl [simp]: "extends s s"
  by (simp add: extends_def)

lemma extends_trans: "extends s t \<Longrightarrow> extends t u \<Longrightarrow> extends s u"
  unfolding extends_def by (metis append.assoc subset_trans)

definition growing :: "(schema \<Rightarrow> string + schema) \<Rightarrow> bool" where
  "growing f \<longleftrightarrow> (\<forall>s t. f s = Inr t \<longrightarrow> extends s t)"

lemma growing_then: "growing f \<Longrightarrow> growing g \<Longrightarrow> growing (then_do f g)"
  unfolding growing_def by (fastforce simp: then_do_def intro: extends_trans split: sum.splits)

lemma growing_all: "(\<And>x. growing (f x)) \<Longrightarrow> growing (all_of f xs)"
proof (induction xs)
  case (Cons x xs)
  then show ?case unfolding all_of_Cons by (intro growing_then) simp_all
qed (simp add: growing_def)

lemma growing_steps: "growing (exec_statement st)" "growing (ensured tc)" "growing (record_version m)"
proof -
  show "growing (exec_statement st)"
    by (cases st) (auto simp: growing_def extends_def versions_def split: option.splits if_splits)
  show "growing (ensured tc)"
    by (auto simp: growing_def ensured_def add_column_def extends_def versions_def update_conv' split: option.splits if_splits)
  show "growing (record_version m)"
    by (auto simp: growing_def record_version_def extends_def versions_def split: option.splits if_splits)
qed

lemma growing_migrated: "growing (migrated m)"
proof -
  have "growing (then_do (all_of exec_statement (miStatements m)) (then_do (all_of ensured (miColumns m)) (record_version m)))"
    by (intro growing_then growing_all growing_steps)
  then show ?thesis by (auto simp: growing_def migrated_def split: if_splits)
qed

lemma growing_migrations: "all_of migrated xs s = Inr t \<Longrightarrow> extends s t"
proof -
  have "growing (all_of migrated xs)" by (intro growing_all growing_migrated)
  then show "all_of migrated xs s = Inr t \<Longrightarrow> extends s t" by (simp add: growing_def)
qed

lemma migrated_applies: "migrated m s = Inr t \<Longrightarrow> applied_version m t"
  by (auto simp: migrated_def then_do_def record_version_def applied_version_def split: if_splits sum.splits option.splits)

lemma all_of_versions:
  "(\<And>x s t. f x s = Inr t \<Longrightarrow> versions t = versions s) \<Longrightarrow> all_of f xs s = Inr t \<Longrightarrow> versions t = versions s"
  by (induction xs arbitrary: s) (auto simp: then_do_def split: sum.splits)

lemma migrated_new_version: "migrated m s = Inr t \<Longrightarrow> versions t \<subseteq> insert (miVersion m) (versions s)"
proof -
  have a: "all_of exec_statement xs s = Inr t \<Longrightarrow> versions t = versions s" for xs s t
  proof (rule all_of_versions)
    show "exec_statement x s = Inr t \<Longrightarrow> versions t = versions s" for x s t
      by (cases x) (auto simp: versions_def split: option.splits if_splits)
  qed
  have b: "all_of ensured xs s = Inr t \<Longrightarrow> versions t = versions s" for xs s t
    by (rule all_of_versions) (auto simp: ensured_def add_column_def versions_def split: option.splits if_splits)
  have c: "versions t \<subseteq> insert (miVersion m) (versions s)" if "record_version m s = Inr t" for s
    using that by (force simp: record_version_def versions_def split: option.splits if_splits)
  assume m: "migrated m s = Inr t"
  show ?thesis
  proof (cases "applied_version m s")
    case True
    then show ?thesis using m by (auto simp: migrated_def split: if_splits)
  next
    case False
    then obtain s1 s2 where "all_of exec_statement (miStatements m) s = Inr s1" "all_of ensured (miColumns m) s1 = Inr s2"
      "record_version m s2 = Inr t" using m by (auto simp: migrated_def then_do_def split: if_splits sum.splits)
    then show ?thesis using a b c [of s2] by metis
  qed
qed

lemma migrated_again: "applied_version m s \<Longrightarrow> migrated m s = Inr s"
  by (auto simp: migrated_def applied_version_def split: option.splits)

lemma migrated_after:
  assumes "all_of migrated xs s = Inr t" "extends t u"
  shows "all_of migrated xs u = Inr u"
  using assms
proof (induction xs arbitrary: s)
  case (Cons x xs)
  then obtain s1 where s1: "migrated x s = Inr s1" "all_of migrated xs s1 = Inr t"
    by (auto simp: then_do_def split: sum.splits)
  have "extends s1 t" by (rule growing_migrations [OF s1(2)])
  then have "extends s1 u" using Cons.prems(2) by (rule extends_trans)
  then have "applied_version x u" using migrated_applies [OF s1(1)] by (auto simp: applied_versions extends_def)
  then show ?case using Cons.IH [OF s1(2) Cons.prems(2)] by (simp add: then_do_def migrated_again)
qed simp

lemma all_of_append: "all_of f (xs @ ys) = then_do (all_of f xs) (all_of f ys)"
  by (induction xs) (auto simp: fun_eq_iff then_do_def split: sum.splits)

text \<open>A run that stopped anywhere left the effect of the migrations it completed.\<close>

lemma migrations_prefix:
  "eachE (migrate_one Q) ms d = (r, d') \<Longrightarrow>
   \<exists>xs ys. ms = xs @ ys \<and> all_of migrated xs (dbSchema d) = Inr (dbSchema d') \<and> (\<forall>u. r = Inr u \<longrightarrow> ys = [])"
proof (induction ms arbitrary: d)
  case (Cons m ms)
  obtain r1 d1 where one: "migrate_one Q m d = (r1, d1)" by (cases "migrate_one Q m d")
  show ?case
  proof (cases r1)
    case (Inl e)
    then have "r = Inl e" "dbSchema d' = dbSchema d"
      using Cons.prems one migrate_one_atomic [OF one] by (auto simp: seqE_def bindE_def)
    then show ?thesis by (intro exI [of _ "[]"] exI [of _ "m # ms"]) simp
  next
    case (Inr u)
    then have s: "migrated m (dbSchema d) = Inr (dbSchema d1)" "eachE (migrate_one Q) ms d1 = (r, d')"
      using Cons.prems one migrate_one_atomic [OF one] by (auto simp: seqE_def bindE_def)
    from Cons.IH [OF s(2)] obtain xs ys where "ms = xs @ ys" "all_of migrated xs (dbSchema d1) = Inr (dbSchema d')"
      "\<forall>u. r = Inr u \<longrightarrow> ys = []" by blast
    then show ?thesis using s(1) by (intro exI [of _ "m # xs"] exI [of _ ys]) (simp add: then_do_def)
  qed
qed simp

text \<open>The preparation creates the table of versions, or leaves the schema alone.\<close>

lemma prepare_cases:
  assumes "prepare Q d = (r, d')"
  shows "(\<forall>u. r = Inr u \<longrightarrow> create_versions (dbSchema d) = Inr (dbSchema d')) \<and>
    (dbSchema d' = dbSchema d \<or> create_versions (dbSchema d) = Inr (dbSchema d'))"
  using assms
  by (auto simp: prepare_def exec_pragma_def on_schema_def db_call_def seqE_def bindE_def db_called_def create_versions_def
      split: option.splits sum.splits prod.splits pragma.splits)

lemma prepare_complete: "no_faults Q \<Longrightarrow> \<exists>d'. prepare Q d = (Inr (), d') \<and> create_versions (dbSchema d) = Inr (dbSchema d')"
  by (simp add: prepare_def exec_pragma_def on_schema_def db_call_def seqE_def bindE_def db_called_def no_faults_def create_versions_def)

lemma create_versions_again:
  "create_versions s = Inr t \<Longrightarrow> create_versions t = Inr t" "create_versions s = Inr t \<Longrightarrow> extends s t"
  "create_versions t \<noteq> Inl e"
  by (auto simp: create_versions_def extends_def versions_def split: if_splits)

lemma migrated_versions: "all_of migrated xs s = Inr t \<Longrightarrow> create_versions s = Inr s \<Longrightarrow> create_versions t = Inr t"
  using growing_migrations [of xs s t]
  by (auto simp: create_versions_def extends_def dest: arg_cong [of _ _ scVersions] split: if_splits)

text \<open>The effect of a whole run, and what a run that fails leaves to do.\<close>

definition migrated_schema :: "schema \<Rightarrow> string + schema" where
  "migrated_schema = then_do create_versions (all_of migrated migrations)"

lemma Migrate_effect:
  assumes "Migrate Q d = (r, d')"
  shows "(\<forall>u. r = Inr u \<longrightarrow> migrated_schema (dbSchema d) = Inr (dbSchema d')) \<and>
    migrated_schema (dbSchema d') = migrated_schema (dbSchema d)"
proof -
  obtain r0 d0 where p: "prepare Q d = (r0, d0)" by (cases "prepare Q d")
  show ?thesis
  proof (cases r0)
    case (Inl e)
    then have "r = Inl e" "d' = d0" using assms p by (auto simp: Migrate_def seqE_def bindE_def)
    then show ?thesis using prepare_cases [OF p] create_versions_again(1) by (auto simp: migrated_schema_def then_do_def)
  next
    case (Inr u)
    then have e: "eachE (migrate_one Q) migrations d0 = (r, d')" and c: "create_versions (dbSchema d) = Inr (dbSchema d0)"
      using assms p prepare_cases [OF p] by (auto simp: Migrate_def seqE_def bindE_def)
    from migrations_prefix [OF e] obtain xs ys where xy: "migrations = xs @ ys"
      "all_of migrated xs (dbSchema d0) = Inr (dbSchema d')" "\<forall>u. r = Inr u \<longrightarrow> ys = []" by blast
    have v: "create_versions (dbSchema d') = Inr (dbSchema d')"
      by (rule migrated_versions [OF xy(2) create_versions_again(1) [OF c]])
    have "all_of migrated xs (dbSchema d') = Inr (dbSchema d')" by (rule migrated_after [OF xy(2)]) simp
    then have "migrated_schema (dbSchema d') = migrated_schema (dbSchema d)"
      using v c xy(2) by (simp add: migrated_schema_def then_do_def xy(1) all_of_append)
    then show ?thesis using xy c by (auto simp: migrated_schema_def then_do_def)
  qed
qed

lemma Migrate_complete:
  assumes "no_faults Q" "migrated_schema (dbSchema d) = Inr t"
  shows "\<exists>d'. Migrate Q d = (Inr (), d') \<and> dbSchema d' = t"
proof -
  obtain d0 where p: "prepare Q d = (Inr (), d0)" "create_versions (dbSchema d) = Inr (dbSchema d0)"
    using prepare_complete [OF assms(1)] by blast
  then have "all_of migrated migrations (dbSchema d0) = Inr t" using assms(2) by (simp add: migrated_schema_def then_do_def)
  then obtain d' where "eachE (migrate_one Q) migrations d0 = (Inr (), d')" "dbSchema d' = t"
    using completeD [OF complete_each [of "migrate_one Q" migrated, OF complete_one [OF assms(1)]]] by blast
  then show ?thesis using p by (simp add: Migrate_def seqE_def bindE_def)
qed

text \<open>What a migration is for: its tables and its columns are there.\<close>

fun statement_done :: "statement \<Rightarrow> schema \<Rightarrow> bool" where
  "statement_done (CreateTable t cols) s \<longleftrightarrow> map_of (scTables s) t \<noteq> None"
| "statement_done (CreateIndex i t cols) s \<longleftrightarrow> True"

definition column_done :: "string \<times> string \<Rightarrow> schema \<Rightarrow> bool" where
  "column_done tc s \<longleftrightarrow> snd tc \<in> set (table_columns (fst tc) s)"

definition migration_done :: "migration \<Rightarrow> schema \<Rightarrow> bool" where
  "migration_done m s \<longleftrightarrow> (\<forall>st \<in> set (miStatements m). statement_done st s) \<and> (\<forall>tc \<in> set (miColumns m). column_done tc s)"

lemma extendsD: "extends s t \<Longrightarrow> map_of (scTables s) tab = Some cols \<Longrightarrow> \<exists>more. map_of (scTables t) tab = Some (cols @ more)"
  by (simp add: extends_def)

lemma done_extends:
  "statement_done st s \<Longrightarrow> extends s t \<Longrightarrow> statement_done st t"
  "column_done tc s \<Longrightarrow> extends s t \<Longrightarrow> column_done tc t"
proof -
  show "statement_done st s \<Longrightarrow> extends s t \<Longrightarrow> statement_done st t" by (cases st) (auto dest: extendsD)
  show "column_done tc s \<Longrightarrow> extends s t \<Longrightarrow> column_done tc t"
    by (cases "map_of (scTables s) (fst tc)") (auto simp: column_done_def table_columns_def dest!: extendsD [of s t "fst tc"])
qed

lemma migration_done_extends: "migration_done m s \<Longrightarrow> extends s t \<Longrightarrow> migration_done m t"
  using done_extends by (auto simp: migration_done_def)

lemma all_of_holds:
  assumes "\<And>x s t. f x s = Inr t \<Longrightarrow> P x t" "\<And>x s t. P x s \<Longrightarrow> extends s t \<Longrightarrow> P x t" "\<And>x. growing (f x)"
  shows "all_of f xs s = Inr t \<Longrightarrow> \<forall>x \<in> set xs. P x t"
proof (induction xs arbitrary: s)
  case (Cons x xs)
  then obtain s1 where s1: "f x s = Inr s1" "all_of f xs s1 = Inr t" by (auto simp: then_do_def split: sum.splits)
  have "extends s1 t" using growing_all [of f xs, OF assms(3)] s1(2) by (simp add: growing_def)
  then have "P x t" using assms(1) [OF s1(1)] by (rule assms(2) [rotated])
  then show ?case using Cons.IH [OF s1(2)] by simp
qed simp

lemma migrated_done:
  assumes "migrated m s = Inr t" "\<not> applied_version m s"
  shows "migration_done m t"
proof -
  from assms obtain s1 s2 where s: "all_of exec_statement (miStatements m) s = Inr s1"
    "all_of ensured (miColumns m) s1 = Inr s2" "record_version m s2 = Inr t"
    by (auto simp: migrated_def then_do_def split: if_splits sum.splits)
  have e: "extends s2 t" using growing_steps(3) s(3) by (auto simp: growing_def)
  have "growing (all_of ensured (miColumns m))" by (intro growing_all growing_steps)
  then have "extends s1 s2" using s(2) by (simp add: growing_def)
  then have e1: "extends s1 t" using e by (rule extends_trans)
  have "\<forall>st \<in> set (miStatements m). statement_done st s1"
  proof (rule all_of_holds [OF _ done_extends(1) growing_steps(1) s(1)])
    show "exec_statement x s = Inr t \<Longrightarrow> statement_done x t" for x s t by (cases x) (auto simp: map_add_Some_iff split: option.splits)
  qed
  moreover have "\<forall>tc \<in> set (miColumns m). column_done tc s2"
  proof (rule all_of_holds [OF _ done_extends(2) growing_steps(2) s(2)])
    show "ensured x s = Inr t \<Longrightarrow> column_done x t" for x s t
      by (auto simp: ensured_def add_column_def column_done_def table_columns_def update_conv' split: if_splits option.splits)
  qed
  ultimately show ?thesis using done_extends e e1 by (auto simp: migration_done_def)
qed

lemma migrations_done:
  "all_of migrated xs s = Inr t \<Longrightarrow> (\<forall>m \<in> set xs. \<not> applied_version m s \<or> migration_done m s) \<Longrightarrow> distinct (map miVersion xs) \<Longrightarrow>
   \<forall>m \<in> set xs. applied_version m t \<and> migration_done m t"
proof (induction xs arbitrary: s)
  case (Cons x xs)
  then obtain s1 where s1: "migrated x s = Inr s1" "all_of migrated xs s1 = Inr t"
    by (auto simp: then_do_def split: sum.splits)
  have x: "applied_version x s1 \<and> migration_done x s1"
    using migrated_applies [OF s1(1)] migrated_done [OF s1(1)] Cons.prems(2) s1(1)
    by (cases "applied_version x s") (auto simp: migrated_again)
  have e: "extends s1 t" by (rule growing_migrations [OF s1(2)])
  have xt: "applied_version x t \<and> migration_done x t"
    using x migration_done_extends [OF _ e] e by (auto simp: applied_versions extends_def)
  have v: "versions s1 \<subseteq> insert (miVersion x) (versions s)" by (rule migrated_new_version [OF s1(1)])
  have e0: "extends s s1" using growing_migrated s1(1) by (simp add: growing_def)
  have "\<forall>m \<in> set xs. \<not> applied_version m s1 \<or> migration_done m s1"
  proof
    fix m
    assume m: "m \<in> set xs"
    then have "miVersion m \<noteq> miVersion x" using Cons.prems(3) by (metis distinct.simps(2) image_eqI list.simps(9) set_map)
    then have "applied_version m s1 \<Longrightarrow> applied_version m s" using v by (auto simp: applied_versions)
    then show "\<not> applied_version m s1 \<or> migration_done m s1"
      using Cons.prems(2) m migration_done_extends [OF _ e0, of m] by auto
  qed
  then show ?case using Cons.IH [OF s1(2)] Cons.prems(3) xt by simp
qed simp

section \<open>Properties\<close>

text \<open>C39: Interrupted migrations converge: however many starts fail, at whatever calls, a start without failures brings
  the database to the schema an uninterrupted first start would have given it, and fails only if that one would
  have failed.\<close>

theorem Migrate_resumes:
  assumes "no_faults Q"
  shows "let d1 = fold (\<lambda>F d. snd (Migrate F d)) failing d in
     (\<forall>u. Migrate Q d = (Inr (), u) \<longrightarrow> (\<exists>u1. Migrate Q d1 = (Inr (), u1) \<and> dbSchema u1 = dbSchema u)) \<and>
     (\<forall>u1. Migrate Q d1 = (Inr (), u1) \<longrightarrow> (\<exists>u. Migrate Q d = (Inr (), u) \<and> dbSchema u = dbSchema u1))"
proof -
  let ?d1 = "fold (\<lambda>F d. snd (Migrate F d)) failing d"
  have e: "migrated_schema (dbSchema ?d1) = migrated_schema (dbSchema d)"
  proof (induction failing arbitrary: d)
    case (Cons F fs)
    show ?case using Cons.IH [of "snd (Migrate F d)"] Migrate_effect [of F d "fst (Migrate F d)" "snd (Migrate F d)"] by simp
  qed simp
  have run: "\<exists>v. Migrate Q b = (Inr (), v) \<and> dbSchema v = dbSchema u"
    if "migrated_schema (dbSchema a) = migrated_schema (dbSchema b)" "Migrate Q a = (Inr (), u)" for a b u
    by (rule Migrate_complete [OF assms]) (use Migrate_effect [OF that(2)] that(1) in simp)
  show ?thesis using run [OF e] run [OF e [symmetric]] unfolding Let_def by blast
qed

text \<open>A successful migration of a database without recorded versions, new or left by an old release, records the
  four versions, has every table and every added column, and keeps the tables that were there with their columns.\<close>

theorem Migrate_current:
  assumes "Migrate Q d = (Inr (), d')" and "scVersions (dbSchema d) = None"
  shows "{1, 2, 3, CurrentSchemaVersion} \<subseteq> versions (dbSchema d') \<and>
    (\<forall>m \<in> set migrations. (\<forall>t cols. CreateTable t cols \<in> set (miStatements m) \<longrightarrow> map_of (scTables (dbSchema d')) t \<noteq> None) \<and>
       (\<forall>(t, c) \<in> set (miColumns m). c \<in> set (table_columns t (dbSchema d')))) \<and>
    (\<forall>t cols. map_of (scTables (dbSchema d)) t = Some cols \<longrightarrow> set cols \<subseteq> set (table_columns t (dbSchema d')))"
proof -
  let ?s = "(dbSchema d)\<lparr>scVersions := Some []\<rparr>"
  have m: "all_of migrated migrations ?s = Inr (dbSchema d')"
    using Migrate_effect [OF assms(1)] assms(2) by (simp add: migrated_schema_def then_do_def create_versions_def)
  have "\<forall>m \<in> set migrations. applied_version m (dbSchema d') \<and> migration_done m (dbSchema d')"
    by (rule migrations_done [OF m]) (simp_all add: applied_versions versions_def migrations_def)
  then have all: "\<forall>m \<in> set migrations. miVersion m \<in> versions (dbSchema d') \<and> migration_done m (dbSchema d')"
    by (simp add: applied_versions)
  then have v: "{1, 2, 3, CurrentSchemaVersion} \<subseteq> versions (dbSchema d')"
    by (simp add: migrations_def CurrentSchemaVersion_def)
  have t: "\<forall>m \<in> set migrations. (\<forall>t cols. CreateTable t cols \<in> set (miStatements m) \<longrightarrow> map_of (scTables (dbSchema d')) t \<noteq> None) \<and>
       (\<forall>(t, c) \<in> set (miColumns m). c \<in> set (table_columns t (dbSchema d')))"
    using all by (fastforce simp: migration_done_def column_done_def)
  have "\<forall>t cols. map_of (scTables (dbSchema d)) t = Some cols \<longrightarrow> set cols \<subseteq> set (table_columns t (dbSchema d'))"
    using extendsD [OF growing_migrations [OF m]] by (fastforce simp: table_columns_def)
  with v t show ?thesis by blast
qed

text \<open>
  Each pragma reaches one connection of the pool, the one on which its call happened to run: every
  other connection keeps SQLite's defaults, no busy timeout and no enforcement of foreign keys.
\<close>

lemma pragmas_kept:
  "keeps (\<lambda>d. dbForeignKeys d = F \<and> dbBusyTimeout d = B) (on_schema Q f)"
  "keeps (\<lambda>d. dbForeignKeys d = F \<and> dbBusyTimeout d = B) (migrate_one Q m)"
proof -
  show o: "keeps (\<lambda>d. dbForeignKeys d = F \<and> dbBusyTimeout d = B) (on_schema Q f)" for f
    by (auto simp: keeps_def on_schema_def db_call_def db_called_def map_sum_def split: option.splits sum.splits)
  have q: "keeps (\<lambda>d. dbForeignKeys d = F \<and> dbBusyTimeout d = B) (db_call Q (\<lambda>d. Inr (g d, d)))" for g :: "database \<Rightarrow> 'x"
    by (auto simp: keeps_def db_call_def db_called_def split: option.splits)
  have q': "keeps (\<lambda>d. dbForeignKeys d = F \<and> dbBusyTimeout d = B) (db_call Q (\<lambda>d. if c d then Inl e else Inr (g d, d)))"
    for g :: "database \<Rightarrow> 'x" and c e
    by (auto simp: keeps_def db_call_def db_called_def split: option.splits)
  have e: "keeps (\<lambda>d. dbForeignKeys d = F \<and> dbBusyTimeout d = B) (ensureColumn Q tc)" for tc
    unfolding ensureColumn_def Let_def by (auto split: prod.split intro!: keeps_rules o q)
  have b: "keeps (\<lambda>d. dbForeignKeys d = F \<and> dbBusyTimeout d = B) (migration_body Q m)"
    unfolding migration_body_def by (intro keeps_rules o e)
  have r: "keeps (\<lambda>d. dbForeignKeys d = F \<and> dbBusyTimeout d = B) (run_migration Q m)"
    unfolding run_migration_def
    by (auto split: sum.split intro!: keeps_rules keeps_mod b q simp: rolled_back_def db_called_def)
  show "keeps (\<lambda>d. dbForeignKeys d = F \<and> dbBusyTimeout d = B) (migrate_one Q m)"
    unfolding migrate_one_def by (intro keeps_rules q' r)
qed

lemma pragmas_reach_one_connection:
  assumes "Migrate Q d = (Inr (), d')"
  shows "\<exists>j k. dbBusyTimeout d' = insert j (dbBusyTimeout d) \<and> dbForeignKeys d' = insert k (dbForeignKeys d)"
proof -
  from assms obtain d0 where p: "prepare Q d = (Inr (), d0)" "eachE (migrate_one Q) migrations d0 = (Inr (), d')"
    by (auto simp: Migrate_def elim!: seqE_InrE)
  have "keeps (\<lambda>x. dbForeignKeys x = dbForeignKeys d0 \<and> dbBusyTimeout x = dbBusyTimeout d0) (eachE (migrate_one Q) migrations)"
    by (intro keeps_rules pragmas_kept)
  then have "dbForeignKeys d' = dbForeignKeys d0 \<and> dbBusyTimeout d' = dbBusyTimeout d0"
    using p(2) unfolding keeps_def by fastforce
  moreover have "\<exists>j k. dbBusyTimeout d0 = insert j (dbBusyTimeout d) \<and> dbForeignKeys d0 = insert k (dbForeignKeys d)"
    using p(1) by (auto simp: prepare_def exec_pragma_def on_schema_def create_versions_def db_called_def
        elim!: seqE_InrE db_call_Inr)
  ultimately show ?thesis by simp
qed

section \<open>Examples\<close>

definition sample_sqlite :: "nat option \<Rightarrow> sqlite" where
  "sample_sqlite broken = \<lparr>mFault = (\<lambda>n. if Some n = broken then Some ''disk I/O error'' else None), mConnection = (\<lambda>_. 0)\<rparr>"

text \<open>A database of the first release: its table of trusted devices lacks the columns added since.\<close>

definition sample_database :: database where
  "sample_database = \<lparr>dbSchema = \<lparr>scTables = [(''trusted_devices'', [''device_id'', ''device_name'', ''platform'',
     ''pairing_key'', ''paired_at'', ''last_seen'', ''trust_state''])], scIndexes = [], scVersions = None\<rparr>,
     dbBusyTimeout = {}, dbForeignKeys = {}, dbCalls = 0\<rparr>"

lemma sample_migrates: "fst (Migrate (sample_sqlite None) sample_database) = Inr ()"
  by code_simp

theorem Migrate_current_witness:
  "\<exists>d'. Migrate (sample_sqlite None) sample_database = (Inr (), d') \<and>
     ''public_key'' \<in> set (table_columns ''trusted_devices'' (dbSchema d'))"
proof -
  obtain d' where d': "Migrate (sample_sqlite None) sample_database = (Inr (), d')"
    using sample_migrates by (cases "Migrate (sample_sqlite None) sample_database") auto
  have "scVersions (dbSchema sample_database) = None" by (simp add: sample_database_def)
  from Migrate_current [OF d' this] d' show ?thesis by (simp add: migrations_def)
qed

text \<open>The first start fails within the third migration.\<close>

theorem Migrate_resumes_witness:
  "\<exists>e u u1. fst (Migrate (sample_sqlite (Some 25)) sample_database) = Inl e \<and>
     Migrate (sample_sqlite None) sample_database = (Inr (), u) \<and>
     Migrate (sample_sqlite None) (snd (Migrate (sample_sqlite (Some 25)) sample_database)) = (Inr (), u1) \<and>
     dbSchema u1 = dbSchema u"
proof -
  have q: "no_faults (sample_sqlite None)" by (simp add: no_faults_def sample_sqlite_def)
  obtain u where u: "Migrate (sample_sqlite None) sample_database = (Inr (), u)"
    using sample_migrates by (cases "Migrate (sample_sqlite None) sample_database") auto
  have "isl (fst (Migrate (sample_sqlite (Some 25)) sample_database))" by code_simp
  then obtain e where "fst (Migrate (sample_sqlite (Some 25)) sample_database) = Inl e" by (auto simp: isl_def)
  then show ?thesis using Migrate_resumes [OF q, of "[sample_sqlite (Some 25)]" sample_database] u by (auto simp: Let_def)
qed

end
