(* ===== verification/Diagnostics.thy ===== *)
theory Diagnostics
  imports ApiHandlers DiscoveryRegistry
begin

text \<open>
  \<open>diagnostics/service.go\<close>: the bounded log, the health checks, the snapshot of the running daemon and
  the test transfer. The log handler behind the buffer, the format of times, the JSON encoder and the
  zip archive are parameters.
\<close>

section \<open>The log buffer\<close>

text \<open>An attribute is its key and the text \<open>fmt.Sprint\<close> gives its value; an entry has every key once.\<close>

record log_entry =
  leTime :: time
  leLevel :: string
  leMessage :: string
  leAttributes :: "(string \<times> string) list"

record log_record =
  lrTime :: time
  lrLevel :: int
  lrMessage :: string
  lrAttrs :: "(string \<times> string) list"

record log_state =
  lsEntries :: "log_entry list"
  lsLimit :: int

text \<open>A \<open>LogBuffer\<close> shares its state with the handlers derived from it.\<close>

record log_buffer =
  lbAttributes :: "(string \<times> string) list"
  lbGroup :: string

definition NewLogBuffer :: "int \<Rightarrow> log_buffer \<times> log_state" where
  "NewLogBuffer limit = (\<lparr>lbAttributes = [], lbGroup = []\<rparr>,
     \<lparr>lsEntries = [], lsLimit = (if limit \<le> 0 then 500 else limit)\<rparr>)"

text \<open>\<open>slog.Level.String\<close>.\<close>

definition level_name :: "string \<Rightarrow> int \<Rightarrow> string" where
  "level_name base v = (if v = 0 then base else if v < 0 then base @ int_dec v else base @ ''+'' @ int_dec v)"

definition level_string :: "int \<Rightarrow> string" where
  "level_string l =
     (if l < 0 then level_name ''DEBUG'' (l + 4)
      else if l < 4 then level_name ''INFO'' l
      else if l < 8 then level_name ''WARN'' (l - 4)
      else level_name ''ERROR'' (l - 8))"

definition entry_attributes :: "log_buffer \<Rightarrow> (string \<times> string) list \<Rightarrow> (string \<times> string) list" where
  "entry_attributes h attrs =
     fold (\<lambda>(k, v). AList.update (if lbGroup h \<noteq> [] then lbGroup h @ ''.'' @ k else k) v) attrs
       (fold (\<lambda>(k, v). AList.update k v) (lbAttributes h) [])"

definition entry_of :: "log_buffer \<Rightarrow> log_record \<Rightarrow> log_entry" where
  "entry_of h r = \<lparr>leTime = lrTime r, leLevel = level_string (lrLevel r), leMessage = lrMessage r,
     leAttributes = entry_attributes h (lrAttrs r)\<rparr>"

definition append_entry :: "log_entry \<Rightarrow> log_state \<Rightarrow> log_state" where
  "append_entry e s = (let es = lsEntries s @ [e] in
     s\<lparr>lsEntries := (if lsLimit s < int (length es) then drop (length es - nat (lsLimit s)) es else es)\<rparr>)"

definition HandleLog :: "(log_record \<Rightarrow> string option) \<Rightarrow> log_buffer \<Rightarrow> log_record \<Rightarrow> log_state \<Rightarrow> string option \<times> log_state" where
  "HandleLog delegate h r s = (delegate r, append_entry (entry_of h r) s)"

definition WithAttrs :: "(string \<times> string) list \<Rightarrow> log_buffer \<Rightarrow> log_buffer" where
  "WithAttrs attrs h = h\<lparr>lbAttributes := lbAttributes h @ attrs\<rparr>"

definition WithGroup :: "string \<Rightarrow> log_buffer \<Rightarrow> log_buffer" where
  "WithGroup name h = h\<lparr>lbGroup := (if lbGroup h \<noteq> [] then lbGroup h @ ''.'' @ name else name)\<rparr>"

definition Entries :: "int \<Rightarrow> log_state \<Rightarrow> log_entry list" where
  "Entries limit0 s =
     (let n = int (length (lsEntries s)); limit = (if limit0 \<le> 0 \<or> n < limit0 then n else limit0) in
      drop (nat (n - limit)) (lsEntries s))"

text \<open>
  The newest entries of level ERROR, at most \<open>limit\<close>, then sorted by time: \<open>sort.Slice\<close> may return
  entries of the same time in any order, so the sorting function is a parameter.
\<close>

definition Errors :: "(log_entry list \<Rightarrow> log_entry list) \<Rightarrow> int \<Rightarrow> log_state \<Rightarrow> log_entry list" where
  "Errors by_time limit s =
     by_time (take (nat limit) (filter (\<lambda>e. leLevel e = level_string 8) (rev (Entries 0 s))))"

definition formatAttributes :: "(string \<times> string) list \<Rightarrow> string" where
  "formatAttributes attrs =
     join_with '' '' (map (\<lambda>(k, v). k @ ''='' @ v) (sort_key fst attrs))"

section \<open>Health\<close>

record websocket_state =
  wsDiscovery :: int
  wsPairing :: int
  wsTransfers :: int

record check =
  ckOK :: bool
  ckDetail :: string

record health =
  heStatus :: string
  heChecks :: "(string \<times> check) list"
  heCheckedAt :: time

text \<open>What the service was given: \<open>dgWebSocketState\<close> and \<open>dgDiscoveryState\<close> are nil when \<open>None\<close>.\<close>

record diag_service = service +
  dgPairing :: pair_service
  dgPing :: "nat \<Rightarrow> string option"
  dgHealthTemp :: "nat \<Rightarrow> string"
  dgStoragePath :: string
  dgDatabasePath :: string
  dgBackendURL :: string
  dgIdentity :: identity
  dgSelf :: "nat \<Rightarrow> device"
  dgWebSocketState :: "(nat \<Rightarrow> websocket_state) option"
  dgDiscoveryState :: "(nat \<Rightarrow> bool) option"
  dgLogs :: "log_state option"
  dgSortLogs :: "log_entry list \<Rightarrow> log_entry list"
  dgDeveloperMode :: bool
  dgPlatform :: string
  dgTimeText :: "time \<Rightarrow> string"

text \<open>The pairing service and the transfer service have a state each.\<close>

type_synonym daemon = "pworld \<times> tworld"
type_synonym ('e, 'a) gm = "(daemon, 'e, 'a) gom"

definition on_pairing :: "(pworld, 'e, 'a) gom \<Rightarrow> ('e, 'a) gm" where
  "on_pairing m = (\<lambda>(p, t). case m p of (r, p') \<Rightarrow> (r, (p', t)))"

definition on_transfers :: "(tworld, 'e, 'a) gom \<Rightarrow> ('e, 'a) gm" where
  "on_transfers m = (\<lambda>(p, t). case m t of (r, t') \<Rightarrow> (r, (p, t')))"

definition writable :: "diag_service \<Rightarrow> string \<Rightarrow> (tworld, os_error, unit) gom" where
  "writable E path =
     seqE (fs_call E (os_mkdir_all path))
     (bindE (outside (dgHealthTemp E)) (\<lambda>name.
      let file = path_join [path, name] in
      seqE (fs_call E (os_open_excl file))
      (bindE (tryE (seqE (fs_write E file 0 ''ok'') (fs_sync E))) (\<lambda>err.
       bindE (tryE (fs_sync E)) (\<lambda>closeErr.
       bindE (tryE (fs_call E (os_remove file))) (\<lambda>removeErr.
       seqE (liftE err) (seqE (liftE closeErr) (liftE removeErr))))))))"

definition checked :: "string \<Rightarrow> ('e \<Rightarrow> string) \<Rightarrow> 'e + 'a \<Rightarrow> check" where
  "checked okDetail err_text r = (case r of
       Inl e \<Rightarrow> \<lparr>ckOK = False, ckDetail = err_text e\<rparr>
     | Inr _ \<Rightarrow> \<lparr>ckOK = True, ckDetail = okDetail\<rparr>)"

definition websocket_check :: "websocket_state option \<Rightarrow> check" where
  "websocket_check ws = (case ws of
       Some s \<Rightarrow> \<lparr>ckOK = True, ckDetail = ''active clients: discovery='' @ int_dec (wsDiscovery s) @
         '' pairing='' @ int_dec (wsPairing s) @ '' transfers='' @ int_dec (wsTransfers s)\<rparr>
     | None \<Rightarrow> \<lparr>ckOK = False, ckDetail = ''WebSocket brokers are unavailable''\<rparr>)"

definition discovery_check :: "bool \<Rightarrow> check" where
  "discovery_check running = \<lparr>ckOK = running,
     ckDetail = (if running then ''discovery service is running'' else ''discovery service is stopped'')\<rparr>"

definition discovery_running :: "diag_service \<Rightarrow> nat \<Rightarrow> bool" where
  "discovery_running E k = (case dgDiscoveryState E of None \<Rightarrow> True | Some f \<Rightarrow> f k)"

definition health_status :: "(string \<times> check) list \<Rightarrow> string" where
  "health_status checks = (if list_all (\<lambda>(_, c). ckOK c) checks then ''ok'' else ''degraded'')"

definition Health :: "diag_service \<Rightarrow> ('e, health) gm" where
  "Health E =
     bindE (on_transfers (outside (dgPing E))) (\<lambda>ping.
     bindE (on_transfers (tryE (writable E (dgStoragePath E)))) (\<lambda>storage.
     bindE (on_transfers (outside (\<lambda>k. map_option (\<lambda>f. f k) (dgWebSocketState E)))) (\<lambda>ws.
     bindE (on_transfers (outside (discovery_running E))) (\<lambda>running.
     bindE (on_transfers (tryE (listTransfers E))) (\<lambda>transfers.
     bindE (on_pairing (tryE (TrustedDevices (dgPairing E)))) (\<lambda>trusted.
     bindE (on_transfers (now E)) (\<lambda>n.
       let checks = [
         (''database'', checked ''SQLite is reachable'' id (case ping of None \<Rightarrow> Inr () | Some e \<Rightarrow> Inl e)),
         (''storage'', checked ''storage directory is writable'' os_text storage),
         (''websocket'', websocket_check ws),
         (''discovery'', discovery_check running),
         (''transfer'', checked ''transfer service and queue store are ready'' terr_text transfers),
         (''identity'', checked ''device identity exists'' os_text (Validate E (dgIdentity E))),
         (''trustedDeviceStore'', checked ''trusted device store is readable'' perr_text trusted),
         (''frontendBackend'', \<lparr>ckOK = True, ckDetail = ''this request reached the backend''\<rparr>)]
       in retE \<lparr>heStatus = health_status checks, heChecks = checks, heCheckedAt = n\<rparr>)))))))"

definition handleHealth :: "diag_service \<Rightarrow> ('e, int \<times> health) gm" where
  "handleHealth E = bindE (Health E) (\<lambda>h. retE (if heStatus h \<noteq> ''ok'' then 503 else 200, h))"

section \<open>The snapshot\<close>

record diag_snapshot =
  snHealth :: health
  snLocalDevice :: device
  snPlatform :: string
  snBackendURL :: string
  snWebSockets :: websocket_state
  snDiscoveryRunning :: bool
  snKnownDevices :: "device list"
  snTrustedDevices :: "trusted_device list"
  snActiveTransfers :: "transfer list"
  snTransferQueue :: "transfer list"
  snStoragePath :: string
  snDatabasePath :: string
  snProtocolVersion :: int
  snDeveloperMode :: bool
  snLogs :: "log_entry list"
  snLastErrors :: "log_entry list"

definition active_transfers :: "transfer list \<Rightarrow> transfer list" where
  "active_transfers ts = filter (\<lambda>t. tStatus t \<noteq> StatusCompleted \<and> tStatus t \<noteq> StatusCancelled) ts"

definition queued_transfers :: "transfer list \<Rightarrow> transfer list" where
  "queued_transfers ts = filter (\<lambda>t. tStatus t = StatusQueued \<or> tStatus t = StatusPaused \<or> tStatus t = StatusResuming) ts"

text \<open>A failing store is taken for an empty one.\<close>

definition or_empty :: "'e + 'a list \<Rightarrow> 'a list" where
  "or_empty r = (case r of Inl _ \<Rightarrow> [] | Inr xs \<Rightarrow> xs)"

definition Snapshot :: "diag_service \<Rightarrow> ('e, diag_snapshot) gm" where
  "Snapshot E =
     bindE (on_pairing (tryE (TrustedDevices (dgPairing E)))) (\<lambda>trusted.
     bindE (on_transfers (tryE (listTransfers E))) (\<lambda>transfers.
     bindE (on_transfers (outside (\<lambda>k. map_option (\<lambda>f. f k) (dgWebSocketState E)))) (\<lambda>ws.
     bindE (on_transfers (outside (discovery_running E))) (\<lambda>running.
     bindE (Health E) (\<lambda>h.
     bindE (on_transfers (outside (dgSelf E))) (\<lambda>self.
     bindE (on_transfers (outside (hDevices E))) (\<lambda>known.
       retE \<lparr>snHealth = h, snLocalDevice = self, snPlatform = dgPlatform E, snBackendURL = dgBackendURL E,
         snWebSockets = (case ws of Some s \<Rightarrow> s | None \<Rightarrow> \<lparr>wsDiscovery = 0, wsPairing = 0, wsTransfers = 0\<rparr>),
         snDiscoveryRunning = running, snKnownDevices = known, snTrustedDevices = or_empty trusted,
         snActiveTransfers = active_transfers (or_empty transfers),
         snTransferQueue = queued_transfers (or_empty transfers),
         snStoragePath = dgStoragePath E, snDatabasePath = dgDatabasePath E, snProtocolVersion = ProtocolVersion,
         snDeveloperMode = dgDeveloperMode E,
         snLogs = (case dgLogs E of None \<Rightarrow> [] | Some s \<Rightarrow> Entries 80 s),
         snLastErrors = (case dgLogs E of None \<Rightarrow> [] | Some s \<Rightarrow> Errors (dgSortLogs E) 20 s)\<rparr>)))))))"

text \<open>A line of \<open>logs.txt\<close> in the exported archive: \<open>%s %-5s %s %s\<close>.\<close>

definition log_line :: "diag_service \<Rightarrow> log_entry \<Rightarrow> string" where
  "log_line E e = dgTimeText E (leTime e) @ '' '' @ leLevel e @ replicate (5 - length (leLevel e)) CHR '' '' @ '' '' @
     leMessage e @ '' '' @ formatAttributes (leAttributes e) @ [CHR 0x0A]"

text \<open>The archive has the files it is given; encoder and archive may fail.\<close>

definition Export :: "(diag_snapshot \<Rightarrow> string + string) \<Rightarrow> ((string \<times> string) list \<Rightarrow> string + string) \<Rightarrow>
    diag_service \<Rightarrow> (string, string) gm" where
  "Export encode archive E =
     bindE (Snapshot E) (\<lambda>sn.
     bindE (liftE (encode sn)) (\<lambda>json.
       liftE (archive [(''diagnostics.json'', json), (''logs.txt'', concat (map (log_line E) (snLogs sn)))])))"

section \<open>The test transfer\<close>

definition test_path :: "diag_service \<Rightarrow> string" where
  "test_path E = path_join [path_join [dgStoragePath E, ''developer-seed''], ''syncspace-diagnostics-test.txt'']"

definition suitable :: "diag_service \<Rightarrow> device \<Rightarrow> (terr, bool) gm" where
  "suitable E d =
     bindE (on_pairing (tryE (IsTrusted (dgPairing E) (dID d)))) (\<lambda>trusted.
       retE (trusted = Inr True \<and> dOnline d \<and> dTransferCapability d))"

definition queue_test :: "diag_service \<Rightarrow> device \<Rightarrow> transfer tm" where
  "queue_test E d =
     seqE (osE (fs_call E (os_mkdir_all (path_join [dgStoragePath E, ''developer-seed'']))))
     (bindE (now E) (\<lambda>n.
      seqE (osE (fs_call E (os_open_trunc (test_path E))))
      (seqE (osE (fs_write E (test_path E) 0 (''SyncSpace diagnostics transfer generated at '' @ dgTimeText E n @ [CHR 0x0A])))
      (Queue (service.truncate E) \<lparr>qDeviceID = dID d, qPaths = [test_path E], qConflictPolicy = ConflictRename\<rparr>))))"

fun queue_test_to :: "diag_service \<Rightarrow> string \<Rightarrow> device list \<Rightarrow> (terr, transfer) gm" where
  "queue_test_to E i [] = throwE (other ''no online trusted transfer-capable device is available'')"
| "queue_test_to E i (d # ds) =
     (if i \<noteq> [] \<and> dID d \<noteq> i then queue_test_to E i ds
      else bindE (suitable E d) (\<lambda>ok. if \<not> ok then queue_test_to E i ds else on_transfers (queue_test E d)))"

definition QueueTestTransferTo :: "diag_service \<Rightarrow> string \<Rightarrow> (terr, transfer) gm" where
  "QueueTestTransferTo E i = bindE (on_transfers (outside (hDevices E))) (queue_test_to E i)"

definition QueueTestTransfer :: "diag_service \<Rightarrow> (terr, transfer) gm" where
  "QueueTestTransfer E = QueueTestTransferTo E []"

definition ClearTestData :: "diag_service \<Rightarrow> (terr, unit) gm" where
  "ClearTestData E = on_transfers (deleteHistory E)"

text \<open>A test transfer goes to the first listed device that matches and is trusted, online and able to receive.\<close>

lemma queue_test_to_suitable:
  "queue_test_to E i ds w = (Inr t, w') \<Longrightarrow> \<exists>d \<in> set ds. \<exists>w1 w2. (i = [] \<or> dID d = i) \<and>
     suitable E d w1 = (Inr True, w2) \<and> on_transfers (queue_test E d) w2 = (Inr t, w')"
proof (induction ds arbitrary: w)
  case (Cons d ds)
  show ?case
  proof (cases "i \<noteq> [] \<and> dID d \<noteq> i")
    case True
    then show ?thesis using Cons by auto
  next
    case False
    then have "bindE (suitable E d) (\<lambda>ok. if \<not> ok then queue_test_to E i ds else on_transfers (queue_test E d)) w = (Inr t, w')"
      using Cons.prems by auto
    then obtain ok w2 where s: "suitable E d w = (Inr ok, w2)"
      "(if \<not> ok then queue_test_to E i ds else on_transfers (queue_test E d)) w2 = (Inr t, w')"
      by (rule bindE_InrE)
    show ?thesis
    proof (cases ok)
      case True
      then have "(i = [] \<or> dID d = i) \<and> suitable E d w = (Inr True, w2) \<and> on_transfers (queue_test E d) w2 = (Inr t, w')"
        using s False by auto
      then show ?thesis by (intro bexI [of _ d] exI) auto
    next
      case ok_false: False
      have "queue_test_to E i ds w2 = (Inr t, w')" using s(2) ok_false by simp
      from Cons.IH [OF this] show ?thesis by (meson list.set_intros(2))
    qed
  qed
qed simp

section \<open>The log keeps the newest entries\<close>

lemma drop_append_one: "drop (length (drop k es @ [e]) - L) (drop k es @ [e]) = drop (length (es @ [e]) - L) (es @ [e])"
  if "k = length es - L" "0 < L"
proof (cases "length es \<le> L")
  case True
  then show ?thesis using that by simp
next
  case False
  then have "length (drop k es) = L" using that(1) by simp
  then show ?thesis using that False by (simp add: drop_append Suc_diff_le)
qed

lemma append_entries:
  assumes "0 < lsLimit s" "lsEntries s = drop (length old - nat (lsLimit s)) old"
  shows "lsEntries (fold append_entry es s) = drop (length (old @ es) - nat (lsLimit s)) (old @ es) \<and>
    lsLimit (fold append_entry es s) = lsLimit s"
  using assms
proof (induction es arbitrary: s old)
  case (Cons e es)
  let ?s = "append_entry e s" and ?L = "nat (lsLimit s)"
  have lim: "lsLimit ?s = lsLimit s" by (simp add: append_entry_def Let_def)
  have "lsEntries ?s = drop (length (lsEntries s @ [e]) - ?L) (lsEntries s @ [e])"
    by (auto simp: append_entry_def Let_def nat_less_iff not_less)
  also have "\<dots> = drop (length (old @ [e]) - ?L) (old @ [e])"
    unfolding Cons.prems(2) by (rule drop_append_one) (use Cons.prems(1) in simp_all)
  finally have "lsEntries ?s = drop (length (old @ [e]) - nat (lsLimit ?s)) (old @ [e])" by (simp add: lim)
  from Cons.IH [OF _ this] show ?case using Cons.prems(1) lim by simp
qed simp

text \<open>C40: The log buffer is the end of the log: however many records were handled, through whatever derived handlers, it
  holds the newest entries up to its limit in their order, and \<open>Entries\<close> returns the newest of those.\<close>

theorem log_keeps_latest:
  "let (h, s0) = NewLogBuffer limit; L = (if limit \<le> 0 then 500 else limit);
       s = fold (\<lambda>(h, r) s. snd (HandleLog delegate h r s)) log s0;
       es = map (\<lambda>(h, r). entry_of h r) log
   in lsEntries s = drop (length es - nat L) es \<and> int (length (lsEntries s)) \<le> L \<and>
      (\<forall>k. 0 < k \<and> k \<le> L \<longrightarrow> Entries k s = drop (length es - nat k) es)"
proof -
  let ?L = "if limit \<le> 0 then 500 else limit :: int" and ?es = "map (\<lambda>(h, r). entry_of h r) log"
  let ?start = "\<lparr>lsEntries = [], lsLimit = ?L\<rparr>" and ?s = "fold (\<lambda>(h, r) s. snd (HandleLog delegate h r s)) log \<lparr>lsEntries = [], lsLimit = ?L\<rparr>"
  have f: "?s = fold append_entry ?es ?start"
    by (simp add: fold_map comp_def HandleLog_def split_def)
  have L: "0 < ?L" by simp
  have e: "lsEntries ?s = drop (length ?es - nat ?L) ?es"
    unfolding f using append_entries [of ?start "[]" ?es] L by simp
  moreover have "int (length (lsEntries ?s)) \<le> ?L" unfolding e using L by auto
  moreover have "Entries k ?s = drop (length ?es - nat k) ?es" if "0 < k \<and> k \<le> ?L" for k
    unfolding Entries_def Let_def e using that by (auto simp: nat_diff_distrib drop_drop intro: arg_cong2 [where f = drop])
  ultimately show ?thesis by (simp add: NewLogBuffer_def Let_def)
qed

text \<open>
  Attributes that a derived logger adds after it opened a group lose the name of the group, while
  those of the records keep it.
\<close>

lemma log_group_lost:
  "leAttributes (entry_of (WithAttrs [(k, v)] (WithGroup g (fst (NewLogBuffer l)))) (r\<lparr>lrAttrs := []\<rparr>)) = [(k, v)]"
  "g \<noteq> [] \<Longrightarrow> leAttributes (entry_of (WithGroup g (fst (NewLogBuffer l))) (r\<lparr>lrAttrs := [(k, v)]\<rparr>)) = [(g @ ''.'' @ k, v)]"
  by (simp_all add: entry_of_def entry_attributes_def WithAttrs_def WithGroup_def NewLogBuffer_def)

section \<open>Examples\<close>

definition sample_log :: "(log_buffer \<times> log_record) list" where
  "sample_log = map (\<lambda>k. (\<lparr>lbAttributes = [], lbGroup = ''http''\<rparr>,
     \<lparr>lrTime = k, lrLevel = 4 * k, lrMessage = ''m'', lrAttrs = [(''k'', ''v'')]\<rparr>)) [0, 1, 2]"

theorem log_keeps_latest_witness:
  "map leLevel (Entries 1 (fold (\<lambda>(h, r) s. snd (HandleLog (\<lambda>_. None) h r s)) sample_log (snd (NewLogBuffer 2)))) = [''ERROR'']"
proof -
  let ?s = "fold (\<lambda>(h, r) s. snd (HandleLog (\<lambda>_. None) h r s)) sample_log (snd (NewLogBuffer 2))"
  have "Entries 1 ?s = drop (length sample_log - 1) (map (\<lambda>(h, r). entry_of h r) sample_log)"
    using log_keeps_latest [of 2 "\<lambda>_. None" sample_log] by (simp add: split_def Let_def)
  moreover have "map leLevel (drop (length sample_log - 1) (map (\<lambda>(h, r). entry_of h r) sample_log)) = [''ERROR'']"
    by code_simp
  ultimately show ?thesis by simp
qed

end
