(* ===== verification/DevSim.thy ===== *)
theory DevSim
  imports Diagnostics
begin

text \<open>
  \<open>devsim/service.go\<close>: the peer directory of the daemon, which adds static and simulated peers to the
  discovered ones, and the simulated peers themselves, small servers that speak the transfer protocol
  and fail as their scenario says; with the routes of \<open>api/diagnostics.go\<close> that drive them.

  The maps are association lists in the order Go happens to iterate over them. The port of a test
  server and new identifiers come from the outside.
\<close>

section \<open>The directory\<close>

datatype scenario =
  ScenarioOnline | ScenarioOffline | ScenarioTrusted | ScenarioUntrusted | ScenarioSlow | ScenarioFlaky
| ScenarioRejected | ScenarioInterrupted | ScenarioDiskFull | ScenarioChecksumFailure | ScenarioOther string

record sim_peer =
  spDevice :: device
  spScenario :: scenario

text \<open>A receiver keeps the offers it took and counts the attempts at every chunk.\<close>

record receiver =
  rvScenario :: scenario
  rvSessions :: "string \<rightharpoonup> offer"
  rvAttempts :: "string \<Rightarrow> nat"

record simulator =
  siEnabled :: bool
  siPeers :: "(string \<times> sim_peer) list"
  siServers :: "string \<rightharpoonup> receiver"

definition newReceiver :: "scenario \<Rightarrow> receiver" where
  "newReceiver sc = \<lparr>rvScenario = sc, rvSessions = Map.empty, rvAttempts = (\<lambda>_. 0)\<rparr>"

definition validScenario :: "scenario \<Rightarrow> bool" where
  "validScenario sc = (case sc of ScenarioOther _ \<Rightarrow> False | _ \<Rightarrow> True)"

fun scenario_text :: "scenario \<Rightarrow> string" where
  "scenario_text ScenarioOnline = ''online''"
| "scenario_text ScenarioOffline = ''offline''"
| "scenario_text ScenarioTrusted = ''trusted''"
| "scenario_text ScenarioUntrusted = ''untrusted''"
| "scenario_text ScenarioSlow = ''slow''"
| "scenario_text ScenarioFlaky = ''flaky''"
| "scenario_text ScenarioRejected = ''rejected''"
| "scenario_text ScenarioInterrupted = ''interrupted''"
| "scenario_text ScenarioDiskFull = ''disk_full''"
| "scenario_text ScenarioChecksumFailure = ''checksum_failure''"
| "scenario_text (ScenarioOther s) = s"

definition validateDevice :: "('r) host_scheme \<Rightarrow> device \<Rightarrow> string + unit" where
  "validateDevice E d =
     (if \<not> hUuidOk E (dID d) then Inl ''invalid UUID''
      else if dName d = [] \<or> dLocalIP d = [] \<or> dPort d < 1
      then Inl ''device identity, address, and port are required''
      else Inr ())"

fun add_static :: "('r) host_scheme \<Rightarrow> device list \<Rightarrow> simulator \<Rightarrow> string + simulator" where
  "add_static E [] s = Inr s"
| "add_static E (p # ps) s = (case validateDevice E p of
       Inl e \<Rightarrow> Inl (''invalid static peer: '' @ e)
     | Inr _ \<Rightarrow> add_static E ps (s\<lparr>siPeers := AList.update (dID p) \<lparr>spDevice = p, spScenario = ScenarioOnline\<rparr> (siPeers s)\<rparr>))"

definition NewSimulator :: "('r) host_scheme \<Rightarrow> bool \<Rightarrow> bool \<Rightarrow> device list \<Rightarrow> string + simulator" where
  "NewSimulator E enabled base staticPeers =
     (if \<not> base then Inl ''base discovery directory is required''
      else add_static E staticPeers \<lparr>siEnabled = enabled, siPeers = [], siServers = Map.empty\<rparr>)"

text \<open>The peers replace discovered devices with the same identifier; every peer counts as seen now.\<close>

definition merged :: "device list \<Rightarrow> time \<Rightarrow> (string \<times> sim_peer) list \<Rightarrow> (string \<times> device) list" where
  "merged base n peers =
     fold (\<lambda>(i, p). AList.update i ((spDevice p)\<lparr>dLastSeen := n\<rparr>)) peers
       (fold (\<lambda>d. AList.update (dID d) d) base [])"

definition SimDevices :: "('r) host_scheme \<Rightarrow> device list \<Rightarrow> time \<Rightarrow> simulator \<Rightarrow> device list" where
  "SimDevices E base n s = sort_key (\<lambda>d. to_lower (hLower E) (dName d)) (map snd (merged base n (siPeers s)))"

definition ListPeers :: "simulator \<Rightarrow> sim_peer list" where
  "ListPeers s = sort_key (\<lambda>p. dName (spDevice p)) (map snd (siPeers s))"

definition replace_underscores :: "string \<Rightarrow> string" where
  "replace_underscores = map (\<lambda>c. if c = CHR ''_'' then CHR '' '' else c)"

definition simulated_device :: "string \<Rightarrow> string \<Rightarrow> scenario \<Rightarrow> int \<Rightarrow> time \<Rightarrow> device" where
  "simulated_device i name sc port n = (let online = (sc \<noteq> ScenarioOffline) in
     \<lparr>dID = i, dName = name, dHostname = [], dType = ''simulator'', dPlatform = ''simulated'', dLocalIP = ''127.0.0.1'',
      dPort = port, dAppVersion = ''dev-simulator'', dLastSeen = n, dOnline = online,
      dConnectionState = (if online then ConnectionOnline else ConnectionOffline), dAvailableStorage = 2 ^ 40,
      dTransferCapability = online, dSupportedProtocolVersion = ProtocolVersion, dMaximumChunkSize = MaximumChunkSize,
      dCompressionSupport = True, dIdentityHint = [], dPairingAvailable = False\<rparr>)"

definition Simulate :: "string \<Rightarrow> scenario \<Rightarrow> string \<Rightarrow> int \<Rightarrow> time \<Rightarrow> simulator \<Rightarrow> (string + sim_peer) \<times> simulator" where
  "Simulate name0 sc i port n s =
     (if \<not> siEnabled s then (Inl ''developer mode is disabled'', s)
      else if \<not> validScenario sc then (Inl (''unknown simulator scenario '' @ scenario_text sc), s)
      else
        let trimmed = trim_space name0;
            name = (if trimmed = [] then ''Simulated '' @ replace_underscores (scenario_text sc) else trimmed);
            p = \<lparr>spDevice = simulated_device i name sc port n, spScenario = sc\<rparr>
        in (Inr p, s\<lparr>siPeers := AList.update i p (siPeers s), siServers := (siServers s)(i \<mapsto> newReceiver sc)\<rparr>))"

definition RemovePeer :: "string \<Rightarrow> simulator \<Rightarrow> (string + unit) \<times> simulator" where
  "RemovePeer i s =
     (if \<not> siEnabled s then (Inl ''developer mode is disabled'', s)
      else if map_of (siPeers s) i = None then (Inl ''simulated device not found'', s)
      else (Inr (), s\<lparr>siPeers := AList.delete i (siPeers s), siServers := (siServers s)(i := None)\<rparr>))"

definition CloseSimulator :: "simulator \<Rightarrow> simulator" where
  "CloseSimulator s = s\<lparr>siPeers := [], siServers := Map.empty\<rparr>"

section \<open>A simulated receiver\<close>

text \<open>
  The body of an offer is what the JSON decoder made of it. The answers carry a value of the protocol
  or a text; the delay of the slow scenario does not change them.
\<close>

record sim_request =
  sqMethod :: string
  sqPath :: string
  sqOffer :: "string + offer"

datatype sim_body = SimOffer offer_response | SimStatus resume_map | SimTransfer transfer | SimText string | SimNothing

definition sim_offer :: "sim_request \<Rightarrow> receiver \<Rightarrow> (int \<times> sim_body) \<times> receiver" where
  "sim_offer rq r =
     (if rvScenario r = ScenarioRejected then ((409, SimText ''simulated receiver rejected transfer''), r)
      else case sqOffer rq of
        Inl e \<Rightarrow> ((400, SimText e), r)
      | Inr oo \<Rightarrow> ((201, SimOffer \<lparr>orTransferID = oTransferID oo, orStatus = StatusReceiving, orApproved = True\<rparr>),
          r\<lparr>rvSessions := (rvSessions r)(oTransferID oo \<mapsto> oo)\<rparr>))"

definition sim_status :: "string \<Rightarrow> receiver \<Rightarrow> (int \<times> sim_body) \<times> receiver" where
  "sim_status i r = (if rvSessions r i = None then ((404, SimText ''404 page not found''), r)
     else ((200, SimStatus \<lparr>rmTransferID = i, rmStatus = StatusReceiving, rmApproved = True, rmChunks = Map.empty\<rparr>), r))"

definition sim_chunk :: "string \<Rightarrow> string \<Rightarrow> receiver \<Rightarrow> (int \<times> sim_body) \<times> receiver" where
  "sim_chunk i key r =
     (let attemptKey = i @ ''/'' @ key;
          attempt = rvAttempts r attemptKey + 1;
          r' = r\<lparr>rvAttempts := (rvAttempts r)(attemptKey := attempt)\<rparr>
      in if rvSessions r i = None then ((404, SimText ''404 page not found''), r')
         else case rvScenario r of
           ScenarioInterrupted \<Rightarrow> ((503, SimText ''simulated connection interruption''), r')
         | ScenarioDiskFull \<Rightarrow> ((507, SimText ''simulated disk full''), r')
         | ScenarioFlaky \<Rightarrow>
             if attempt = 1 then ((503, SimText ''simulated transient failure''), r') else ((204, SimNothing), r')
         | _ \<Rightarrow> ((204, SimNothing), r'))"

definition sim_complete :: "string \<Rightarrow> time \<Rightarrow> receiver \<Rightarrow> (int \<times> sim_body) \<times> receiver" where
  "sim_complete i n r = (case rvSessions r i of
       None \<Rightarrow> ((404, SimText ''404 page not found''), r)
     | Some oo \<Rightarrow>
         if rvScenario r = ScenarioChecksumFailure then ((422, SimText ''simulated checksum mismatch''), r)
         else ((200, SimTransfer (transfer_zero\<lparr>tID := i, tDirection := DirectionInbound, tDeviceID := oDeviceID oo,
           tDeviceName := oDeviceName oo, tFilename := oFilename oo, tSize := oSize oo, tProgress := oSize oo,
           tStatus := StatusCompleted, tCreatedAt := n, tUpdatedAt := n, tFinishedAt := Some n, tApproved := True,
           tProtocolVersion := ProtocolVersion\<rparr>)), r))"

definition ServeHTTP :: "time \<Rightarrow> sim_request \<Rightarrow> receiver \<Rightarrow> (int \<times> sim_body) \<times> receiver" where
  "ServeHTTP n rq r =
     (let parts = split_on CHR ''/'' (trim_set (sqPath rq) ''/''); k = length parts; m = sqMethod rq in
      if m = ''POST'' \<and> sqPath rq = ''/v1/transfers/offers'' then sim_offer rq r
      else if 3 \<le> k \<and> parts ! 0 = ''v1'' \<and> parts ! 1 = ''transfers'' \<and> k = 4 \<and> parts ! 3 = ''status'' \<and> m = ''GET''
      then sim_status (parts ! 2) r
      else if 3 \<le> k \<and> parts ! 0 = ''v1'' \<and> parts ! 1 = ''transfers'' \<and> k = 4 \<and> parts ! 3 = ''complete'' \<and> m = ''POST''
      then sim_complete (parts ! 2) n r
      else if 3 \<le> k \<and> parts ! 0 = ''v1'' \<and> parts ! 1 = ''transfers'' \<and> k = 7 \<and> parts ! 3 = ''files'' \<and>
        parts ! 5 = ''chunks'' \<and> m = ''PUT''
      then sim_chunk (parts ! 2) (parts ! 4 @ ''/'' @ parts ! 6) r
      else if 3 \<le> k \<and> parts ! 0 = ''v1'' \<and> parts ! 1 = ''transfers'' \<and> k = 3 \<and> m = ''DELETE''
      then ((204, SimNothing), r)
      else ((404, SimText ''404 page not found''), r))"

section \<open>The developer routes\<close>

type_synonym dev_state = "simulator \<times> daemon"

definition pair_with :: "pair_service \<Rightarrow> string \<Rightarrow> (perr, decision) gm" where
  "pair_with P i = on_pairing (bindE (RequestPairing P i) (\<lambda>rq. AcceptPairing P (prRequestID rq)))"

text \<open>The body names a peer, its scenario, and whether to pair with it.\<close>

definition handleSimulate :: "pair_service \<Rightarrow> string \<Rightarrow> int \<Rightarrow> time \<Rightarrow> string + string \<times> scenario \<times> bool \<Rightarrow> dev_state \<Rightarrow>
    sim_peer reply \<times> dev_state" where
  "handleSimulate P i port n body x = (let (s, w) = x in
     if \<not> siEnabled s then (Refuse 404 ''developer mode is disabled'', x)
     else case body of
       Inl e \<Rightarrow> (Refuse 400 e, x)
     | Inr (name, sc, wanted) \<Rightarrow>
         (case Simulate name sc i port n s of
            (Inl e, s') \<Rightarrow> (Refuse 400 e, (s', w))
          | (Inr p, s') \<Rightarrow>
              if wanted \<or> sc = ScenarioTrusted then
                (case pair_with P (dID (spDevice p)) w of
                   (Inl e, w') \<Rightarrow> (Refuse 500 (perr_text e), (snd (RemovePeer (dID (spDevice p)) s'), w'))
                 | (Inr _, w') \<Rightarrow> (Reply 201 p, (s', w')))
              else (Reply 201 p, (s', w))))"

definition handleSimulateRemove :: "string \<Rightarrow> dev_state \<Rightarrow> unit reply \<times> dev_state" where
  "handleSimulateRemove i x = (let (s, w) = x in
     case RemovePeer i s of
       (Inl e, s') \<Rightarrow> (Refuse 404 e, (s', w))
     | (Inr _, s') \<Rightarrow> (Reply 204 (), (s', w)))"

definition handleSimulateFailure :: "diag_service \<Rightarrow> string \<Rightarrow> int \<Rightarrow> time \<Rightarrow> dev_state \<Rightarrow> string reply \<times> dev_state" where
  "handleSimulateFailure E i port n x = (let (s, w) = x in
     if \<not> siEnabled s then (Refuse 404 ''developer mode is disabled'', x)
     else case Simulate ''Interrupted transfer peer'' ScenarioInterrupted i port n s of
       (Inl e, s') \<Rightarrow> (Refuse 409 e, (s', w))
     | (Inr p, s') \<Rightarrow>
         (case pair_with (dgPairing E) (dID (spDevice p)) w of
            (Inl e, w') \<Rightarrow> (Refuse 409 (perr_text e), (s', w'))
          | (Inr _, w') \<Rightarrow>
              (case QueueTestTransferTo E (dID (spDevice p)) w' of
                 (Inl e, w'') \<Rightarrow> (Refuse 409 (terr_text e), (s', w''))
               | (Inr _, w'') \<Rightarrow> (Reply 202 (dID (spDevice p)), (s', w'')))))"

definition handleTestTransfer :: "diag_service \<Rightarrow> daemon \<Rightarrow> transfer reply \<times> daemon" where
  "handleTestTransfer E = answer_with (\<lambda>e. Refuse 409 (terr_text e)) 201 (QueueTestTransfer E)"

text \<open>Errors of forgetting or removing a peer are ignored.\<close>

definition clear_peer :: "pair_service option \<Rightarrow> sim_peer \<Rightarrow> dev_state \<Rightarrow> dev_state" where
  "clear_peer P p x = (let (s, w) = x; i = dID (spDevice p) in
     (snd (RemovePeer i s), case P of None \<Rightarrow> w | Some Q \<Rightarrow> snd (on_pairing (RemoveTrustedDevice Q i) w)))"

definition handleClearTestData :: "diag_service \<Rightarrow> pair_service option \<Rightarrow> dev_state \<Rightarrow> unit reply \<times> dev_state" where
  "handleClearTestData E P x = (let (s, w) = x in
     case ClearTestData E w of
       (Inl e, w') \<Rightarrow> (Refuse 500 (terr_text e), (s, w'))
     | (Inr _, w') \<Rightarrow> (Reply 200 (), if siEnabled s then fold (clear_peer P) (ListPeers s) (s, w') else (s, w')))"

section \<open>What the directory offers\<close>

lemma map_of_updates:
  "distinct (map fst ps) \<Longrightarrow>
   map_of (fold (\<lambda>(i, p). AList.update i (f p)) ps m) = map_of m ++ (map_option f \<circ> map_of ps)"
proof (induction ps arbitrary: m)
  case (Cons q ps)
  obtain i p where q: "q = (i, p)" by (cases q)
  have "map_of ps i = None" using Cons.prems by (auto simp: q map_of_eq_None_iff)
  then show ?case using Cons by (auto simp: q update_conv' map_add_def fun_eq_iff split: option.split)
qed (simp add: fun_eq_iff map_add_def)

lemma merged_lookup:
  assumes "distinct (map dID base)" "distinct (map fst peers)"
  shows "map_of (merged base n peers) i = (case map_of peers i of
      Some p \<Rightarrow> Some ((spDevice p)\<lparr>dLastSeen := n\<rparr>)
    | None \<Rightarrow> map_of (map (\<lambda>d. (dID d, d)) base) i)"
proof -
  have "fold (\<lambda>d. AList.update (dID d) d) base [] =
      fold (\<lambda>(i, p). AList.update i (id p)) (map (\<lambda>d. (dID d, d)) base) []"
    by (simp add: fold_map comp_def)
  also have "map_of \<dots> = map_of (map (\<lambda>d. (dID d, d)) base)"
    using map_of_updates [of "map (\<lambda>d. (dID d, d)) base" id "[]"] assms(1)
    by (simp add: comp_def option.map_id)
  finally show ?thesis
    using map_of_updates [OF assms(2), of "\<lambda>p. (spDevice p)\<lparr>dLastSeen := n\<rparr>"]
    by (auto simp: merged_def map_add_def split: option.split)
qed

text \<open>A flaky receiver fails the first attempt at a chunk, and only that one.\<close>

lemma sim_chunk_flaky:
  assumes "rvScenario r = ScenarioFlaky" "rvSessions r i = Some oo"
  shows "fst (fst (sim_chunk i key r)) = (if rvAttempts r (i @ ''/'' @ key) = 0 then 503 else 204) \<and>
    rvAttempts (snd (sim_chunk i key r)) (i @ ''/'' @ key) = rvAttempts r (i @ ''/'' @ key) + 1"
  using assms by (simp add: sim_chunk_def Let_def)

section \<open>Simulated peers cannot be paired\<close>

text \<open>
  A simulated device has neither an identity hint nor the pairing flag, so no request for it is ever
  begun, and the failure simulation, which first pairs with its peer, refuses every call and leaves
  the peer it created in the directory.
\<close>

lemma RequestPairing_unavailable:
  assumes "\<forall>k. \<forall>d \<in> set (hDevices P k). dID d = i \<longrightarrow> \<not> dPairingAvailable d"
  shows "\<exists>e w'. RequestPairing P i w = (Inl e, w') \<and> (e = ErrPeerNotDiscovered \<or> validateUUID P i = Inl e)"
proof (cases "validateUUID P i")
  case (Inr u)
  have "\<not> dPairingAvailable d" if "find_first (\<lambda>d. dID d = i \<and> dOnline d) (hDevices P k) = Some d" for d k
    using that assms by (auto dest: find_first_SomeD)
  then show ?thesis using Inr
    by (auto simp: RequestPairing_def findOnlinePeer_def p_out_def gom_defs split: option.split)
qed (simp add: RequestPairing_def gom_defs)

lemma failure_simulation_refuses:
  assumes "siEnabled s"
    and "\<forall>k. \<forall>d \<in> set (hDevices (dgPairing E) k). dID d = i \<longrightarrow> \<not> dPairingAvailable d"
  shows "\<exists>e w'. handleSimulateFailure E i port n (s, w) = (Refuse 409 e,
    (snd (Simulate ''Interrupted transfer peer'' ScenarioInterrupted i port n s), w')) \<and>
    map_of (siPeers (snd (Simulate ''Interrupted transfer peer'' ScenarioInterrupted i port n s))) i \<noteq> None"
proof -
  obtain e p' where "RequestPairing (dgPairing E) i (fst w) = (Inl e, p')"
    using RequestPairing_unavailable [OF assms(2), of "fst w"] by blast
  then have "pair_with (dgPairing E) i w = (Inl e, (p', snd w))"
    by (simp add: pair_with_def on_pairing_def bindE_Inl split_def)
  then show ?thesis using assms(1)
    by (simp add: handleSimulateFailure_def Simulate_def Let_def validScenario_def simulated_device_def update_conv')
qed

end
