(* ===== verification/Directory.thy ===== *)
theory Directory
  imports DevSim
begin

text \<open>
  The interface \<open>PeerDirectory\<close> of \<open>pairing/service.go\<close> and \<open>transfer/service.go\<close>: the devices a
  service may contact. The registry of the discovery package provides it, and so does the simulator
  on top of another directory; the daemon uses the second over the first.
\<close>

section \<open>The contract\<close>

text \<open>Both clients look a device up by its identifier, the pairing service among those online.\<close>

locale peer_directory =
  fixes devices :: "'s \<Rightarrow> device list"
    and sound :: "'s \<Rightarrow> bool"
  assumes unique: "sound s \<Longrightarrow> distinct (map dID (devices s))"
begin

lemma lookup_iff:
  assumes "sound s"
  shows "find_first (\<lambda>d. dID d = i) (devices s) = Some d \<longleftrightarrow> d \<in> set (devices s) \<and> dID d = i"
proof
  assume a: "d \<in> set (devices s) \<and> dID d = i"
  then obtain x where x: "find_first (\<lambda>d. dID d = i) (devices s) = Some x"
    by (cases "find_first (\<lambda>d. dID d = i) (devices s)") (auto simp: find_first_None)
  then have "x \<in> set (devices s)" "dID x = i" by (auto dest: find_first_SomeD)
  then have "x = d" using a unique [OF assms] by (auto simp: distinct_map inj_on_def)
  then show "find_first (\<lambda>d. dID d = i) (devices s) = Some d" using x by simp
qed (auto dest: find_first_SomeD)

text \<open>What the pairing service finds is what the transfer service finds, as far as it is online.\<close>

lemma online_lookup:
  assumes "sound s"
  shows "find_first (\<lambda>d. dID d = i \<and> dOnline d) (devices s) =
    Option.bind (find_first (\<lambda>d. dID d = i) (devices s)) (\<lambda>d. if dOnline d then Some d else None)"
proof (cases "find_first (\<lambda>d. dID d = i \<and> dOnline d) (devices s)")
  case (Some d)
  then have "d \<in> set (devices s)" "dID d = i" "dOnline d" by (auto dest: find_first_SomeD)
  then have "find_first (\<lambda>d. dID d = i) (devices s) = Some d" using lookup_iff [OF assms] by blast
  then show ?thesis using Some \<open>dOnline d\<close> by simp
next
  case None
  show ?thesis
  proof (cases "find_first (\<lambda>d. dID d = i) (devices s)")
    case (Some d)
    then have "d \<in> set (devices s)" "dID d = i" by (auto dest: find_first_SomeD)
    then have "\<not> dOnline d" using None by (auto simp: find_first_None)
    then show ?thesis using None Some by simp
  qed (use None in simp)
qed

end

section \<open>The registry\<close>

lemma keyed_distinct:
  assumes "distinct (map fst ps)" "\<forall>(i, d) \<in> set ps. f d = i"
  shows "distinct (map f (map snd ps))"
proof -
  have "map (f \<circ> snd) ps = map fst ps" by (rule map_cong) (use assms(2) in auto)
  then show ?thesis using assms(1) by (simp only: map_map)
qed

lemma distinct_sort_key: "distinct (map f (sort_key g xs)) \<longleftrightarrow> distinct (map f xs)"
  by (simp add: distinct_map)

lemma registry_keys: "registry_ok E r \<Longrightarrow> \<forall>(i, d) \<in> set (rgDevices r). dID d = i"
  by (auto simp: registry_ok_def list_all_iff entry_ok_def)

interpretation registry_directory: peer_directory "ListDevices E" "registry_ok E"
proof
  fix r assume r: "registry_ok E r"
  have "distinct (map dID (map snd (rgDevices r)))"
    by (rule keyed_distinct) (use r registry_keys [OF r] in \<open>auto simp: registry_ok_def\<close>)
  then show "distinct (map dID (ListDevices E r))" unfolding ListDevices_def distinct_sort_key .
qed

section \<open>The simulator\<close>

definition simulator_ok :: "simulator \<Rightarrow> bool" where
  "simulator_ok s \<longleftrightarrow> distinct (map fst (siPeers s)) \<and> (\<forall>(i, p) \<in> set (siPeers s). dID (spDevice p) = i)"

lemma keyed_update:
  "distinct (map fst m) \<Longrightarrow> \<forall>(i, d) \<in> set m. f d = i \<Longrightarrow> f x = k \<Longrightarrow>
   distinct (map fst (AList.update k x m)) \<and> (\<forall>(i, d) \<in> set (AList.update k x m). f d = i)"
proof -
  assume a: "distinct (map fst m)" "\<forall>(i, d) \<in> set m. f d = i" "f x = k"
  have d: "distinct (map fst (AList.update k x m))" using a(1) by (rule distinct_update)
  have "f d = i" if "(i, d) \<in> set (AList.update k x m)" for i d
  proof -
    have "map_of (AList.update k x m) i = Some d" using that d by simp
    then show ?thesis using a by (auto simp: update_conv' split: if_splits dest: map_of_SomeD)
  qed
  then show ?thesis using d by auto
qed

lemma keyed_updates:
  "distinct (map fst m) \<Longrightarrow> \<forall>(i, d) \<in> set m. f d = i \<Longrightarrow> \<forall>x \<in> set xs. f (v x) = k x \<Longrightarrow>
   distinct (map fst (fold (\<lambda>x. AList.update (k x) (v x)) xs m)) \<and>
   (\<forall>(i, d) \<in> set (fold (\<lambda>x. AList.update (k x) (v x)) xs m). f d = i)"
proof (induction xs arbitrary: m)
  case (Cons x xs)
  show ?case using Cons.IH [of "AList.update (k x) (v x) m"] Cons.prems keyed_update [of m f "v x" "k x"] by simp
qed simp

lemma merged_keyed:
  assumes "simulator_ok s"
  shows "distinct (map fst (merged base n (siPeers s))) \<and> (\<forall>(i, d) \<in> set (merged base n (siPeers s)). dID d = i)"
proof -
  let ?b = "fold (\<lambda>d. AList.update (dID d) d) base []"
  have b: "distinct (map fst ?b) \<and> (\<forall>(i, d) \<in> set ?b. dID d = i)"
    using keyed_updates [of "[]" dID base "\<lambda>d. d" dID] by simp
  have "\<forall>x \<in> set (siPeers s). dID ((spDevice (snd x))\<lparr>dLastSeen := n\<rparr>) = fst x"
    using assms by (auto simp: simulator_ok_def)
  from keyed_updates [OF conjunct1 [OF b] conjunct2 [OF b] this]
  show ?thesis by (simp add: merged_def split_def)
qed

interpretation simulator_directory: peer_directory "\<lambda>(base, n, s). SimDevices E base n s" "\<lambda>(base, n, s). simulator_ok s"
proof
  fix x :: "device list \<times> time \<times> simulator" assume x: "case x of (base, n, s) \<Rightarrow> simulator_ok s"
  obtain base n s where e: "x = (base, n, s)" by (cases x)
  have "distinct (map dID (map snd (merged base n (siPeers s))))"
    by (rule keyed_distinct) (use x e merged_keyed in auto)
  then show "distinct (map dID (case x of (base, n, s) \<Rightarrow> SimDevices E base n s))"
    unfolding e SimDevices_def prod.case distinct_sort_key .
qed

section \<open>The operations keep the contract\<close>

lemma add_static_ok: "add_static E ps s = Inr s' \<Longrightarrow> simulator_ok s \<Longrightarrow> simulator_ok s'"
proof (induction ps arbitrary: s)
  case (Cons p ps)
  let ?s = "s\<lparr>siPeers := AList.update (dID p) \<lparr>spDevice = p, spScenario = ScenarioOnline\<rparr> (siPeers s)\<rparr>"
  have "simulator_ok ?s"
    using Cons.prems(2) keyed_update [of "siPeers s" "\<lambda>p. dID (spDevice p)" "\<lparr>spDevice = p, spScenario = ScenarioOnline\<rparr>" "dID p"]
    by (simp add: simulator_ok_def)
  then show ?case using Cons by (auto split: sum.splits)
qed simp

lemma NewSimulator_ok: "NewSimulator E enabled base ps = Inr s \<Longrightarrow> simulator_ok s"
  using add_static_ok [of E ps "\<lparr>siEnabled = enabled, siPeers = [], siServers = Map.empty\<rparr>" s]
  by (simp add: NewSimulator_def simulator_ok_def split: if_splits)

lemma Simulate_ok: "simulator_ok s \<Longrightarrow> simulator_ok (snd (Simulate name sc i port n s))"
proof -
  assume a: "simulator_ok s"
  have u: "simulator_ok (s\<lparr>siPeers := AList.update i \<lparr>spDevice = simulated_device i nm sc port n, spScenario = sc\<rparr> (siPeers s),
      siServers := v\<rparr>)" for nm v
    using a keyed_update [of "siPeers s" "\<lambda>p. dID (spDevice p)" "\<lparr>spDevice = simulated_device i nm sc port n, spScenario = sc\<rparr>" i]
    by (simp add: simulator_ok_def simulated_device_def Let_def)
  show ?thesis using a u by (simp add: Simulate_def Let_def)
qed

lemma RemovePeer_ok: "simulator_ok s \<Longrightarrow> simulator_ok (snd (RemovePeer i s))"
  by (auto simp: RemovePeer_def simulator_ok_def AList.delete_eq distinct_map_filter)

lemma CloseSimulator_ok: "simulator_ok (CloseSimulator s)"
  by (simp add: CloseSimulator_def simulator_ok_def)

section \<open>What the clients see\<close>

text \<open>A simulated peer hides a discovered device with its identifier, and is the one both services find.\<close>

lemma simulated_lookup:
  assumes "simulator_ok s" "map_of (siPeers s) i = Some p"
  shows "find_first (\<lambda>d. dID d = i) (SimDevices E base n s) = Some ((spDevice p)\<lparr>dLastSeen := n\<rparr>)"
proof -
  let ?m = "merged base n (siPeers s)" and ?d = "(spDevice p)\<lparr>dLastSeen := n\<rparr>"
  have "map_of ?m i = Some ?d"
    unfolding merged_def using assms
    by (simp add: map_of_updates [of "siPeers s" "\<lambda>p. (spDevice p)\<lparr>dLastSeen := n\<rparr>", simplified] simulator_ok_def map_add_Some_iff)
  then have "?d \<in> set (SimDevices E base n s)" by (force simp: SimDevices_def dest: map_of_SomeD)
  moreover have "dID ?d = i" using assms by (auto simp: simulator_ok_def dest: map_of_SomeD)
  ultimately show ?thesis
    using simulator_directory.lookup_iff [where s = "(base, n, s)" and i = i and d = ?d and E = E] assms(1) by simp
qed

text \<open>
  So a peer the simulator made is never paired while the daemon's directory is the simulator, in
  whatever state its lookups find it.
\<close>

lemma simulated_unpairable:
  assumes "\<forall>k. \<exists>base n s p. hDevices P k = SimDevices P base n s \<and> simulator_ok s \<and>
      map_of (siPeers s) i = Some p \<and> \<not> dPairingAvailable (spDevice p)"
  shows "\<exists>e w'. RequestPairing P i w = (Inl e, w') \<and> (e = ErrPeerNotDiscovered \<or> validateUUID P i = Inl e)"
proof (rule RequestPairing_unavailable, intro allI ballI impI)
  fix k d assume d: "d \<in> set (hDevices P k)" "dID d = i"
  obtain base n s p where s: "hDevices P k = SimDevices P base n s" "simulator_ok s" "map_of (siPeers s) i = Some p"
    "\<not> dPairingAvailable (spDevice p)" using assms by blast
  have "find_first (\<lambda>d. dID d = i) (SimDevices P base n s) = Some d"
    using simulator_directory.lookup_iff [where s = "(base, n, s)" and i = i and d = d and E = P] d s(1,2) by simp
  then show "\<not> dPairingAvailable d" using simulated_lookup [OF s(2,3), of P base n] s(4) by auto
qed

end
