(* ===== verification/Startup.thy ===== *)
theory Startup
  imports Server Database Directory
begin

text \<open>
  The composition root of \<open>serverapp/server.go\<close>: what \<open>Run\<close> loads and builds before it serves, in its
  order, with the error of each step. The start works on the files and the database of the machine;
  sockets, brokers, diagnostics and the router need nothing that can fail and get the services built here.
\<close>

section \<open>The machine\<close>

text \<open>
  The views of one machine by its components; \<open>one_host\<close> says that they agree. \<open>mcListen\<close> is the port a
  listener got at an address, or its error.
\<close>

record machine =
  mcEnv :: environment
  mcIdentity :: id_host
  mcSettings :: settings_host
  mcPairing :: pair_host
  mcTransfers :: host
  mcSqlite :: sqlite
  mcOpen :: "string option"
  mcListen :: "string \<Rightarrow> string + int"
  mcTrustedRows :: "trusted_row list"
  mcTransferRows :: tdb

definition one_host :: "machine \<Rightarrow> bool" where
  "one_host M \<longleftrightarrow> host.truncate (mcIdentity M) = mcTransfers M \<and> host.truncate (mcSettings M) = mcTransfers M \<and>
     host.truncate (mcPairing M) = mcTransfers M"

type_synonym 'a startup = "(tworld \<times> database, string, 'a) gom"

definition failing :: "string \<Rightarrow> string \<Rightarrow> string" where
  "failing step e = step @ '': '' @ e"

definition on_files :: "string \<Rightarrow> (tworld, os_error, 'a) gom \<Rightarrow> 'a startup" where
  "on_files step m = (\<lambda>(w, d). case m w of
       (Inl e, w') \<Rightarrow> (Inl (failing step (os_text e)), (w', d))
     | (Inr a, w') \<Rightarrow> (Inr a, (w', d)))"

definition on_database :: "string \<Rightarrow> 'a dm \<Rightarrow> 'a startup" where
  "on_database step m = (\<lambda>(w, d). case m d of
       (Inl e, d') \<Rightarrow> (Inl (failing step e), (w, d'))
     | (Inr a, d') \<Rightarrow> (Inr a, (w, d')))"

section \<open>Loading\<close>

text \<open>The identity takes its name from the settings, which take it from the identity when they have none.\<close>

definition load_preferences :: "machine \<Rightarrow> identity \<Rightarrow> settings_store \<Rightarrow> (identity \<times> settings_store) startup" where
  "load_preferences M i s = on_files ''initialise device display name''
     (\<lambda>w. case start_preferences (mcSettings M) i (s, w) of
        (Inl e, (_, w')) \<Rightarrow> (Inl e, w')
      | (Inr i', (s', w')) \<Rightarrow> (Inr (i', s'), w'))"

definition open_database :: "machine \<Rightarrow> unit startup" where
  "open_database M =
     seqE (liftE (case mcOpen M of Some e \<Rightarrow> Inl (failing ''open local database'' e) | None \<Rightarrow> Inr ()))
     (on_database ''migrate local database'' (Migrate (mcSqlite M)))"

definition listen_on :: "machine \<Rightarrow> string \<Rightarrow> string \<Rightarrow> int startup" where
  "listen_on M what address = liftE (case mcListen M address of
       Inl e \<Rightarrow> Inl (failing (''listen for '' @ what @ '' on '' @ address) e)
     | Inr port \<Rightarrow> Inr port)"

record loaded =
  ldConfig :: server_config
  ldIdentity :: identity
  ldSettings :: settings_store
  ldManagementPort :: int
  ldPeerPort :: int
  ldCertificate :: certificate

definition load_daemon :: "machine \<Rightarrow> string \<Rightarrow> loaded startup" where
  "load_daemon M version =
     bindE (liftE (loadConfig (mcEnv M) version)) (\<lambda>c.
     bindE (on_files ''load device identity'' (LoadOrCreate (mcIdentity M) (path_join [scDataDirectory c, ''identity.json'']))) (\<lambda>i0.
     bindE (on_files ''load settings'' (NewSettingsStore (mcSettings M) (path_join [scDataDirectory c, ''settings.json'']))) (\<lambda>s0.
     bindE (load_preferences M i0 s0) (\<lambda>(i, s).
     seqE (open_database M)
     (seqE (on_database ''create trusted device store'' (Migrate (mcSqlite M)))
     (bindE (listen_on M ''local management'' (scManagementAddress c)) (\<lambda>managementPort.
      bindE (listen_on M ''encrypted peers'' (scPeerAddress c)) (\<lambda>peerPort.
      bindE (on_files ''create peer TLS identity'' (bindE (now (mcTransfers M)) (TLSCertificate (mcIdentity M) i))) (\<lambda>cert.
      retE \<lparr>ldConfig = c, ldIdentity = i, ldSettings = s, ldManagementPort = managementPort, ldPeerPort = peerPort,
        ldCertificate = cert\<rparr>)))))))))"

section \<open>Building the services\<close>

definition discovery_settings :: "loaded \<Rightarrow> registry \<Rightarrow> capabilities \<Rightarrow> discovery_config" where
  "discovery_settings l r caps =
     \<lparr>dcIdentity = ldIdentity l, dcPort = ldPeerPort l, dcAppVersion = scAppVersion (ldConfig l), dcRegistry = Some r,
      dcMDNS = True, dcNetworkInterval = 0, dcRestartInterval = 0, dcSweepInterval = 0, dcTransferCapabilities = caps\<rparr>"

definition pairing_settings :: "loaded \<Rightarrow> pairing_config" where
  "pairing_settings l = \<lparr>pcStore = True, pcPeers = True, pcIdentity = ldIdentity l, pcRequestTTL = 0\<rparr>"

definition data_transfers :: "loaded \<Rightarrow> string" where
  "data_transfers l = path_join [scDataDirectory (ldConfig l), ''transfers'']"

definition transfer_settings :: "loaded \<Rightarrow> service_config" where
  "transfer_settings l =
     \<lparr>cfStore = True, cfPeers = True, cfAuthorizer = True, cfIdentity = ldIdentity l, cfDataDirectory = data_transfers l,
      cfHTTPClient = False, cfMaxConcurrent = 0, cfChunkWorkers = 0, cfChunkSize = 0\<rparr>"

record daemon_run =
  drLoaded :: loaded
  drDiscovery :: discovery_service
  drDirectory :: simulator
  drPairing :: "pair_service \<times> pworld"
  drTransfers :: "service \<times> tworld"
  drSupervisor :: supervisor

definition wrapped_with :: "string \<Rightarrow> ('e \<Rightarrow> string) \<Rightarrow> 'e + 'a \<Rightarrow> 'a startup" where
  "wrapped_with step text_of r = liftE (case r of Inl e \<Rightarrow> Inl (failing step (text_of e)) | Inr a \<Rightarrow> Inr a)"

fun discovery_text :: "discovery_error \<Rightarrow> string" where
  "discovery_text (DiscoveryError s) = s"

definition build_daemon :: "machine \<Rightarrow> loaded \<Rightarrow> daemon_run startup" where
  "build_daemon M l = (let i = ldIdentity l in
     bindE (wrapped_with ''create device registry'' discovery_text
       (NewRegistry (idID i) defaultOfflineAfter defaultRemoveAfter True)) (\<lambda>r.
     bindE (on_files ''detect capabilities'' (DetectCapabilities (mcTransfers M) (data_transfers l))) (\<lambda>caps.
     bindE (on_files ''now'' (now (mcTransfers M))) (\<lambda>n.
     bindE (wrapped_with ''create discovery service'' id (NewDiscoveryService (mcTransfers M) (discovery_settings l r caps) n)) (\<lambda>d.
     bindE (wrapped_with ''create developer peer directory'' id
       (NewSimulator (mcTransfers M) (scDeveloperMode (ldConfig l)) True (scStaticPeers (ldConfig l)))) (\<lambda>s.
     bindE (wrapped_with ''create pairing service'' perr_text (NewPairingService (mcPairing M) (pairing_settings l))) (\<lambda>p.
     seqE (on_database ''create transfer store'' (Migrate (mcSqlite M)))
     (bindE (wrapped_with ''create transfer service'' terr_text (NewService (mcTransfers M) (transfer_settings l))) (\<lambda>t.
      bindE (getE (\<lambda>(w, _). w)) (\<lambda>w.
      retE \<lparr>drLoaded = l, drDiscovery = d, drDirectory = s, drPairing = (p, initial_pairing i (mcTrustedRows M)),
        drTransfers = (t, (initial_world i (mcTransferRows M) (wFs w))\<lparr>wTick := wTick w\<rparr>),
        drSupervisor = supervisor_start\<rparr>))))))))))"

definition Run_start :: "machine \<Rightarrow> string \<Rightarrow> daemon_run startup" where
  "Run_start M version = bindE (load_daemon M version) (build_daemon M)"

lemma wrapped_with_Inr: "wrapped_with step f (Inr a) = retE a"
  by (simp add: wrapped_with_def liftE_def retE_def)

section \<open>One machine\<close>

lemma Validate_truncate: "Validate (host.truncate E) i = Validate E i"
proof -
  have f: "IdentityFingerprint (host.truncate E) = IdentityFingerprint E"
    by (rule ext) (simp add: IdentityFingerprint_def host.truncate_def)
  have u: "hUuidOk (host.truncate E) = hUuidOk E" by (simp add: host.truncate_def)
  show ?thesis unfolding Validate_def f u ..
qed

lemma one_host_Validate:
  assumes "one_host M"
  shows "Validate (mcIdentity M) i = Validate (mcTransfers M) i" "Validate (mcPairing M) i = Validate (mcTransfers M) i"
  using assms Validate_truncate [of "mcIdentity M" i] Validate_truncate [of "mcPairing M" i] by (simp_all add: one_host_def)

lemma on_files_Inr: "m w = (Inr a, w') \<Longrightarrow> on_files step m (w, d) = (Inr a, (w', d))"
  by (simp add: on_files_def)

lemma on_files_InrE:
  assumes "on_files step m x = (Inr a, y)"
  obtains w' where "m (fst x) = (Inr a, w')" "y = (w', snd x)"
  using assms by (auto simp: on_files_def split: prod.splits sum.splits)

lemma on_database_InrE:
  assumes "on_database step m x = (Inr a, y)"
  obtains d' where "m (snd x) = (Inr a, d')" "y = (fst x, d')"
  using assms by (auto simp: on_database_def split: prod.splits sum.splits)

lemma wrapped_with_InrE:
  assumes "wrapped_with step f r x = (Inr a, y)"
  obtains "r = Inr a" "y = x"
  using assms by (auto simp: wrapped_with_def liftE_def split: sum.splits)

lemma migrated_stays: "Migrate Q d = (Inr (), d') \<Longrightarrow> migrated_schema (dbSchema d') = Inr (dbSchema d')"
  using Migrate_effect [of Q d "Inr ()" d'] by simp

lemma not_isl_InrD: "\<not> isl r \<Longrightarrow> \<exists>a. r = Inr a"
  by (cases r) simp_all

section \<open>The name\<close>

definition good_name :: "string \<Rightarrow> bool" where
  "good_name s \<longleftrightarrow> trim_space s = s \<and> length s \<le> 128"

lemma NewSettingsStore_name:
  assumes "NewSettingsStore E path w = (Inr s, w')"
  shows "good_name (svDeviceName (GetSettings s))"
proof -
  obtain v where v: "ssValues s = migrate v" "ValidateSettings v = Inr () \<or> v = Defaults E"
    using assms unfolding NewSettingsStore_def load_values_def
    by (auto simp: tryE_def retE_def throwE_def elim!: bindE_InrE seqE_InrE split: prod.splits sum.splits os_error.splits
        simp: liftE_def)
  have "length (svDeviceName v) \<le> 128"
    using v(2) by (auto simp: ValidateSettings_iff Defaults_def Let_def)
  moreover have "svDeviceName (migrate v) = trim_space (svDeviceName v)" by (simp add: migrate_def Let_def)
  ultimately show ?thesis using length_trim_space [of "svDeviceName v"] v(1)
    by (simp add: good_name_def GetSettings_def)
qed

lemma UpdateSettings_name:
  assumes "UpdateSettings E v x = (Inr p, y)"
  shows "svDeviceName p = trim_space (svDeviceName v) \<and> length (svDeviceName p) \<le> 128 \<and> GetSettings (fst y) = p"
proof -
  have "settings_call_run E (CallUpdate v) x = (Inr p, y)" using assms by simp
  then show ?thesis
  proof (cases rule: call_InrE)
    case (update v0)
    then show ?thesis
      by (auto simp: ValidateSettings_iff GetSettings_def notify_def elim!: store_values_InrE)
  qed simp
qed

lemma Validate_rename:
  assumes "Validate F i = Inr ()" "trim_space n \<noteq> []" "length n \<le> 128"
  shows "Validate F (i\<lparr>idName := n\<rparr>) = Inr ()"
  using assms unfolding Validate_def by (cases "b64_decode (idPublicKey i)") (simp_all split: if_split_asm)

text \<open>The identity that runs has the name of the settings, and stays valid.\<close>

lemma start_preferences_valid:
  assumes "start_preferences E i (s, w) = (Inr i', (s', w'))" and "Validate F i = Inr ()"
    and "good_name (svDeviceName (GetSettings s))"
  shows "Validate F i' = Inr () \<and> idName i' = svDeviceName (GetSettings s') \<and> good_name (idName i') \<and>
    idID i' = idID i"
proof (cases "trim_space (svDeviceName (GetSettings s)) = []")
  case True
  then obtain p where u: "UpdateSettings E ((GetSettings s)\<lparr>svDeviceName := idName i\<rparr>) (s, w) = (Inr p, (s', w'))"
    and i: "i' = i\<lparr>idName := svDeviceName p\<rparr>"
    using assms(1) by (auto simp: start_preferences_def retE_def elim!: bindE_InrE)
  note n = UpdateSettings_name [OF u]
  have "trim_space (idName i) \<noteq> []" using assms(2) by (auto simp: Validate_def split: if_splits)
  then have "trim_space (svDeviceName p) \<noteq> []" "length (svDeviceName p) \<le> 128" using n by auto
  moreover have "length (trim_space (idName i)) \<le> 128"
    using conjunct1 [OF n] conjunct1 [OF conjunct2 [OF n]] by simp
  ultimately show ?thesis using Validate_rename [OF assms(2), of "svDeviceName p"] n by (simp add: i good_name_def)
next
  case False
  then have i: "i' = i\<lparr>idName := svDeviceName (GetSettings s)\<rparr>" and s: "s' = s"
    using assms(1) by (auto simp: start_preferences_def retE_def elim!: bindE_InrE)
  show ?thesis using Validate_rename [OF assms(2) False] assms(3) by (simp add: i s good_name_def)
qed

section \<open>What has been loaded\<close>

lemma load_daemon_valid:
  assumes "load_daemon M version x = (Inr l, y)" "one_host M"
  shows "loadConfig (mcEnv M) version = Inr (ldConfig l) \<and> Validate (mcTransfers M) (ldIdentity l) = Inr () \<and>
    idName (ldIdentity l) = svDeviceName (GetSettings (ldSettings l)) \<and> good_name (idName (ldIdentity l)) \<and>
    (\<exists>d d'. Migrate (mcSqlite M) d = (Inr (), d') \<and> snd y = d') \<and>
    mcListen M (scPeerAddress (ldConfig l)) = Inr (ldPeerPort l)"
proof -
  obtain c i0 s0 i s w w1 w2 d d' port w3 w4 where c: "loadConfig (mcEnv M) version = Inr c"
    and i0: "LoadOrCreate (mcIdentity M) (path_join [scDataDirectory c, ''identity.json'']) w = (Inr i0, w1)"
    and s0: "NewSettingsStore (mcSettings M) (path_join [scDataDirectory c, ''settings.json'']) w1 = (Inr s0, w2)"
    and p: "start_preferences (mcSettings M) i0 (s0, w2) = (Inr i, (s, w3))"
    and m: "Migrate (mcSqlite M) d = (Inr (), d')"
    and port: "mcListen M (scPeerAddress c) = Inr port" and y: "snd y = d'"
    and l: "ldConfig l = c" "ldIdentity l = i" "ldSettings l = s" "ldPeerPort l = port"
    using assms(1) unfolding load_daemon_def load_preferences_def listen_on_def
    by (auto simp: liftE_def retE_def elim!: bindE_InrE seqE_InrE on_files_InrE on_database_InrE
        split: sum.splits prod.splits)
  have "Validate (mcTransfers M) i0 = Inr ()"
    using valid_identity [OF i0] one_host_Validate [OF assms(2)] by simp
  from start_preferences_valid [OF p this NewSettingsStore_name [OF s0]]
  show ?thesis using c m port y l by auto
qed

section \<open>What is built\<close>

text \<open>The services the daemon runs with agree, and nothing runs yet.\<close>

definition consistent_daemon :: "machine \<Rightarrow> daemon_run \<Rightarrow> bool" where
  "consistent_daemon M r \<longleftrightarrow> (let l = drLoaded r; i = ldIdentity l; d = drDiscovery r in
     Validate (mcTransfers M) i = Inr () \<and>
     registry_ok (mcTransfers M) (dsRegistry d) \<and> rgSelfID (dsRegistry d) = idID i \<and> ListDevices (mcTransfers M) (dsRegistry d) = [] \<and>
     dID (dsSelf d) = idID i \<and> dName (dsSelf d) = idName i \<and> dPort (dsSelf d) = ldPeerPort l \<and>
     simulator_ok (drDirectory r) \<and>
     pIdentity (snd (drPairing r)) = i \<and> pSessions (snd (drPairing r)) = [] \<and>
     wIdentity (snd (drTransfers r)) = sender_of i \<and> wWorkers (snd (drTransfers r)) = [] \<and>
     sPeerScheme (fst (drTransfers r)) = ''https'' \<and> drSupervisor r = supervisor_start)"

lemma build_daemon_consistent:
  assumes "build_daemon M l x = (Inr r, y)" "Validate (mcTransfers M) (ldIdentity l) = Inr ()"
  shows "consistent_daemon M r \<and> drLoaded r = l"
proof -
  let ?i = "ldIdentity l"
  obtain reg caps n d s t where
    reg: "NewRegistry (idID ?i) defaultOfflineAfter defaultRemoveAfter True = Inr reg"
    and d: "NewDiscoveryService (mcTransfers M) (discovery_settings l reg caps) n = Inr d"
    and s: "NewSimulator (mcTransfers M) (scDeveloperMode (ldConfig l)) True (scStaticPeers (ldConfig l)) = Inr s"
    and t: "NewService (mcTransfers M) (transfer_settings l) = Inr t"
    and r: "drLoaded r = l \<and> drDiscovery r = d \<and> drDirectory r = s \<and> fst (drTransfers r) = t \<and>
      snd (drPairing r) = initial_pairing ?i (mcTrustedRows M) \<and> wIdentity (snd (drTransfers r)) = sender_of ?i \<and>
      wWorkers (snd (drTransfers r)) = [] \<and> drSupervisor r = supervisor_start"
    using assms(1) unfolding build_daemon_def Let_def
    apply (elim bindE_InrE seqE_InrE wrapped_with_InrE)
    apply (rule that)
        apply assumption
       apply assumption
      apply assumption
     apply assumption
    apply (auto simp: retE_def initial_world_def)
    done
  have "registry_ok (mcTransfers M) reg \<and> rgSelfID reg = idID ?i \<and> ListDevices (mcTransfers M) reg = []"
    using reg by (auto simp: NewRegistry_def registry_ok_def ListDevices_def split: if_splits)
  moreover have "dsRegistry d = reg \<and> dsSelf d = self_device (discovery_settings l reg caps) n"
    using d by (auto simp: NewDiscoveryService_def discovery_settings_def split: if_splits sum.splits)
  moreover have "simulator_ok s" using s by (rule NewSimulator_ok)
  moreover have "sPeerScheme t = ''https''"
    using t by (auto simp: NewService_def transfer_settings_def Let_def host.extend_def service.fields_def split: if_splits sum.splits)
  ultimately show ?thesis using assms(2)
    by (simp add: consistent_daemon_def r initial_pairing_def initial_world_def self_device_def discovery_settings_def Let_def)
qed

lemma build_daemon_migrated:
  "build_daemon M l x = (Inr r, y) \<Longrightarrow> \<exists>d d'. Migrate (mcSqlite M) d = (Inr (), d') \<and> snd y = d'"
  unfolding build_daemon_def Let_def
  by (auto simp: retE_def elim!: bindE_InrE seqE_InrE wrapped_with_InrE on_database_InrE)

lemma add_static_total: "\<forall>p \<in> set ps. validateDevice E p = Inr () \<Longrightarrow> \<exists>s'. add_static E ps s = Inr s'"
  by (induction ps arbitrary: s) auto

lemma build_daemon_total:
  assumes "Validate (mcTransfers M) (ldIdentity l) = Inr ()" "one_host M"
    and "1 \<le> ldPeerPort l" "ldPeerPort l \<le> 65535" "trim_space (scAppVersion (ldConfig l)) \<noteq> []"
    and "\<forall>p \<in> set (scStaticPeers (ldConfig l)). validateDevice (mcTransfers M) p = Inr ()"
    and "trim_space (data_transfers l) \<noteq> []"
    and "no_faults (mcSqlite M)" "migrated_schema (dbSchema (snd x)) = Inr t"
  shows "\<exists>r y. build_daemon M l x = (Inr r, y)"
proof -
  let ?i = "ldIdentity l"
  obtain reg where reg: "NewRegistry (idID ?i) defaultOfflineAfter defaultRemoveAfter True = Inr reg"
    by (simp add: NewRegistry_def defaultOfflineAfter_def defaultRemoveAfter_def second_def)
  obtain caps w1 where caps: "(DetectCapabilities (mcTransfers M) (data_transfers l) :: (tworld, os_error, capabilities) gom) (fst x) =
      (Inr caps, w1)"
    by (auto simp: DetectCapabilities_def availableStorage_def outside_def gom_defs)
  have "\<exists>d. NewDiscoveryService (mcTransfers M) (discovery_settings l reg caps) n = Inr d" for n
    using assms(1,3-5) by (simp add: NewDiscoveryService_def discovery_settings_def)
  then obtain d where d: "NewDiscoveryService (mcTransfers M) (discovery_settings l reg caps) (hNow (mcTransfers M) (wTick w1)) = Inr d"
    by blast
  obtain s where s: "NewSimulator (mcTransfers M) (scDeveloperMode (ldConfig l)) True (scStaticPeers (ldConfig l)) = Inr s"
    using add_static_total [OF assms(6)] by (fastforce simp: NewSimulator_def)
  obtain p where p: "NewPairingService (mcPairing M) (pairing_settings l) = Inr p"
    using assms(1) one_host_Validate [OF assms(2)] by (simp add: NewPairingService_def pairing_settings_def)
  obtain t where t: "NewService (mcTransfers M) (transfer_settings l) = Inr t"
    using assms(1,7)
    by (simp add: NewService_def transfer_settings_def Let_def DefaultChunkSize_def MaximumChunkSize_def)
  obtain d' where m: "Migrate (mcSqlite M) (snd x) = (Inr (), d')" using Migrate_complete [OF assms(8,9)] by blast
  have c: "on_files ''detect capabilities'' (DetectCapabilities (mcTransfers M) (data_transfers l)) x = (Inr caps, (w1, snd x))"
    using caps by (simp add: on_files_def split_def)
  have n: "on_files ''now'' (now (mcTransfers M)) (w1, snd x) = (Inr (hNow (mcTransfers M) (wTick w1)), (bump w1, snd x))"
    by (simp add: on_files_def now_run)
  have q: "on_database ''create transfer store'' (Migrate (mcSqlite M)) (bump w1, snd x) = (Inr (), (bump w1, d'))"
    using m by (simp add: on_database_def)
  show ?thesis
    unfolding build_daemon_def Let_def reg wrapped_with_Inr
    by (simp add: bindE_def retE_def seqE_def getE_def wrapped_with_Inr c n d s p q t)
qed

section \<open>Serving and stopping\<close>

text \<open>
  \<open>Run\<close> serves until its context ends or one of the two servers returns; \<open>None\<close> stands for a server that
  was closed. Then it cancels, shuts both servers down and returns, and its deferred calls close the
  database. The supervisor is a goroutine of its own: it can return once \<open>Run\<close> has cancelled, and \<open>Run\<close> does
  not wait for it.
\<close>

datatype serve_end = ContextDone | ServerEnded "string option"

definition Run_stop :: "serve_end \<Rightarrow> string option \<Rightarrow> string option \<Rightarrow> string + unit" where
  "Run_stop e managementErr peerErr =
     (case managementErr of
        Some m \<Rightarrow> Inl (failing ''shut down management server'' m)
      | None \<Rightarrow>
          (case peerErr of
             Some p \<Rightarrow> Inl (failing ''shut down peer server'' p)
           | None \<Rightarrow>
               (case e of
                  ServerEnded (Some x) \<Rightarrow> Inl (failing ''serve HTTP'' x)
                | _ \<Rightarrow> Inr ())))"

datatype serving = Serving | Stopping serve_end | RunReturned "string + unit"

record process =
  prServing :: serving
  prDatabaseOpen :: bool
  prSupervised :: "supervisor \<times> settings_store \<times> tworld"

abbreviation sup_phase :: "process \<Rightarrow> phase" where
  "sup_phase p \<equiv> spPhase (fst (prSupervised p))"

inductive process_step :: "('r) settings_host_scheme \<Rightarrow> process \<Rightarrow> process \<Rightarrow> bool" for E where
  supervised: "supervise E (prSupervised p) x \<Longrightarrow> spPhase (fst x) = Returned \<longrightarrow> prServing p \<noteq> Serving \<Longrightarrow>
    process_step E p (p\<lparr>prSupervised := x\<rparr>)"
| select: "prServing p = Serving \<Longrightarrow> process_step E p (p\<lparr>prServing := Stopping e\<rparr>)"
| return: "prServing p = Stopping e \<Longrightarrow>
    process_step E p (p\<lparr>prServing := RunReturned (Run_stop e managementErr peerErr), prDatabaseOpen := False\<rparr>)"

inductive_cases process_step_cases: "process_step E p q"

definition process_start :: "settings_store \<times> tworld \<Rightarrow> process" where
  "process_start x = \<lparr>prServing = Serving, prDatabaseOpen = True, prSupervised = (supervisor_start, x)\<rparr>"

lemma process_supervised:
  "(process_step E)\<^sup>*\<^sup>* p q \<Longrightarrow> (supervise E)\<^sup>*\<^sup>* (prSupervised p) (prSupervised q)"
proof (induction rule: rtranclp_induct)
  case (step y z)
  from step(2) have "prSupervised z = prSupervised y \<or> supervise E (prSupervised y) (prSupervised z)"
    by (auto elim!: process_step_cases)
  then show ?case using step(3) by (auto intro: rtranclp.rtrancl_into_rtrancl)
qed simp

lemma process_open:
  "(process_step E)\<^sup>*\<^sup>* (process_start x) q \<Longrightarrow>
     (prDatabaseOpen q \<longleftrightarrow> (\<forall>r. prServing q \<noteq> RunReturned r)) \<and> (prServing q = Serving \<longrightarrow> sup_phase q \<noteq> Returned)"
proof (induction rule: rtranclp_induct)
  case base
  show ?case by (simp add: process_start_def supervisor_start_def)
next
  case (step y z)
  then show ?case by (auto elim!: process_step_cases)
qed

text \<open>
  While \<open>Run\<close> serves the database is open and the supervisor at work, and once the supervisor has returned
  nothing runs. But \<open>Run\<close> may return and close the database under transfers that still run.
\<close>

theorem process_order:
  assumes "(process_step E)\<^sup>*\<^sup>* (process_start x) q"
  shows "(prServing q = Serving \<longrightarrow> prDatabaseOpen q \<and> sup_phase q \<noteq> Returned) \<and>
    (sup_phase q = Returned \<longrightarrow> spTransfers (fst (prSupervised q)) = Stopped \<and> spDiscovery (fst (prSupervised q)) = Stopped)"
proof -
  have "supervised (prSupervised q)"
    using process_supervised [OF assms] supervised_reachable [of E "fst x" "snd x"] by (simp add: process_start_def)
  then show ?thesis using process_open [OF assms] by (auto simp: supervised_def Let_def split: prod.splits)
qed

theorem database_closed_under_transfers:
  assumes "PrivacyAccepted st"
  shows "\<exists>q. (process_step E)\<^sup>*\<^sup>* (process_start (st, w)) q \<and> prServing q = RunReturned (Inr ()) \<and>
    \<not> prDatabaseOpen q \<and> spTransfers (fst (prSupervised q)) = Running"
proof -
  let ?r = "supervisor_start\<lparr>spPhase := ReadConsent (GetSettings st)\<rparr>"
  let ?t = "(supervise_discovery (GetSettings st) True (supervise_transfers True ?r))\<lparr>spPhase := Waiting\<rparr>"
  let ?p0 = "process_start (st, w)" and ?p1 = "(process_start (st, w))\<lparr>prSupervised := (?r, st, w)\<rparr>"
    and ?p2 = "(process_start (st, w))\<lparr>prSupervised := (?t, st, w)\<rparr>"
  let ?p3 = "?p2\<lparr>prServing := Stopping ContextDone\<rparr>"
  let ?p4 = "?p3\<lparr>prServing := RunReturned (Run_stop ContextDone None None), prDatabaseOpen := False\<rparr>"
  have "supervise E (prSupervised ?p0) (?r, st, w)"
    using read_values [of supervisor_start E st w] by (simp add: process_start_def supervisor_start_def)
  then have 1: "process_step E ?p0 ?p1" by (rule supervised) simp
  have "supervise E (prSupervised ?p1) (?t, st, w)" using act [of ?r "GetSettings st" E st w] assms by simp
  then have "process_step E ?p1 (?p1\<lparr>prSupervised := (?t, st, w)\<rparr>)" by (rule supervised) simp
  then have 2: "process_step E ?p1 ?p2" by simp
  have 3: "process_step E ?p2 ?p3" by (rule select) (simp add: process_start_def)
  have 4: "process_step E ?p3 ?p4" by (rule return) simp
  have "spTransfers ?t = Running"
    by (simp add: supervise_discovery_def supervise_transfers_def supervisor_start_def stopDiscovery_def)
  then show ?thesis
    using 1 2 3 4 by (intro exI [of _ ?p4]) (auto simp: Run_stop_def intro: converse_rtranclp_into_rtranclp)
qed

section \<open>Properties\<close>

text \<open>C20: A daemon that starts is consistent: its identity is valid and carries the name of the settings; the registry, the
  announcement, the pairing service and the transfer service are built for that identity and are empty, peers are
  reached by https only, nothing runs before the supervisor decides, the management API is on a loopback address,
  and the database has a schema which a further migration leaves as it is.\<close>

theorem started_daemon:
  assumes "Run_start M version x = (Inr r, y)" and "one_host M"
  shows "consistent_daemon M r \<and>
    idName (ldIdentity (drLoaded r)) = svDeviceName (GetSettings (ldSettings (drLoaded r))) \<and>
    (\<exists>host port. scManagementAddress (ldConfig (drLoaded r)) = join_host_port host (int_dec port) \<and> loopback_host host) \<and>
    (\<forall>Q. no_faults Q \<longrightarrow> (\<exists>d. Migrate Q (snd y) = (Inr (), d) \<and> dbSchema d = dbSchema (snd y)))"
proof -
  obtain l z where l: "load_daemon M version x = (Inr l, z)" "build_daemon M l z = (Inr r, y)"
    using assms(1) unfolding Run_start_def by (rule bindE_InrE)
  note v = load_daemon_valid [OF l(1) assms(2)]
  have c: "consistent_daemon M r \<and> drLoaded r = l" using build_daemon_consistent [OF l(2)] v by blast
  obtain d d' where "Migrate (mcSqlite M) d = (Inr (), d')" "snd y = d'" using build_daemon_migrated [OF l(2)] by blast
  then have "migrated_schema (dbSchema (snd y)) = Inr (dbSchema (snd y))" using migrated_stays by simp
  then have "\<forall>Q. no_faults Q \<longrightarrow> (\<exists>d. Migrate Q (snd y) = (Inr (), d) \<and> dbSchema d = dbSchema (snd y))"
    using Migrate_complete by blast
  moreover have "\<exists>host port. scManagementAddress (ldConfig l) = join_host_port host (int_dec port) \<and> loopback_host host"
    using loadConfig_bounds [of "mcEnv M" version "ldConfig l"] v by blast
  ultimately show ?thesis using c v by auto
qed

section \<open>A machine that starts\<close>

definition sample_pair_host :: pair_host where
  "sample_pair_host = host.extend (host.truncate sample_service)
     (pair_host.fields (\<lambda>_ _. []) (\<lambda>_ _ _. True) (\<lambda>_. ''b'') (\<lambda>_. ''r'') (\<lambda>_. ''p'') (\<lambda>_. ''d'')
       (\<lambda>_. Inl ErrProtocol) (\<lambda>_. Inl ErrProtocol) (\<lambda>_. Inr ''e'') pad32 (\<lambda>_ _. Inr ''shared'')
       (\<lambda>_ _ _. []) (\<lambda>_ _ _. Inl ErrProtocol) (\<lambda>_ _ _. Inl ErrProtocol) (\<lambda>_ _ _. Inl ErrProtocol))"

definition sample_machine :: machine where
  "sample_machine = \<lparr>mcEnv = \<lparr>envGet = (\<lambda>v. if v = ''SYNCSPACE_DATA_DIR'' then ''/data'' else []),
       envConfigDir = Inl ''unknown'', envDecodePeers = (\<lambda>_. Inl []), envFold = (\<lambda>_ _. False)\<rparr>,
     mcIdentity = sample_id_host, mcSettings = sample_settings_host, mcPairing = sample_pair_host,
     mcTransfers = host.truncate sample_service, mcSqlite = sample_sqlite None, mcOpen = None,
     mcListen = (\<lambda>_. Inr 8385), mcTrustedRows = [], mcTransferRows = wDb sample_world\<rparr>"

lemma sample_config:
  "\<exists>c. loadConfig (mcEnv sample_machine) v = Inr c \<and> scDataDirectory c = ''/data'' \<and> scStaticPeers c = [] \<and> scAppVersion c = v"
proof -
  have "trim_space [] = []" "loopback_host ''127.0.0.1''" by code_simp+
  then show ?thesis
    by (simp add: loadConfig_def sample_machine_def port_setting_def data_directory_def static_peers_def
        developer_mode_def defaultPort_def Let_def)
qed

lemma sample_paths:
  "path_join [''/data'', ''identity.json''] = sample_id_path" "path_join [''/data'', ''settings.json''] = ''/data/settings.json''"
  "path_join [''/data'', ''transfers''] = ''/data/transfers''"
  by code_simp+

definition sample_preferred :: "tworld \<Rightarrow> bool" where
  "sample_preferred w = (case NewSettingsStore sample_settings_host ''/data/settings.json'' w of
       (Inl _, _) \<Rightarrow> False
     | (Inr s, w1) \<Rightarrow> trim_space (svDeviceName (GetSettings s)) = [] \<and>
         \<not> isl (fst (UpdateSettings sample_settings_host ((GetSettings s)\<lparr>svDeviceName := ''Me''\<rparr>) (s, w1))))"

lemma sample_preferred: "sample_preferred (bump (bump (bump (bump sample_id_world))))"
  by code_simp

lemma sample_preferences:
  "\<exists>s0 w1 i s w2. NewSettingsStore sample_settings_host ''/data/settings.json'' (bump (bump (bump (bump sample_id_world)))) =
     (Inr s0, w1) \<and> start_preferences sample_settings_host sample_identity (s0, w1) = (Inr i, (s, w2))"
proof -
  obtain s0 w1 where s0: "NewSettingsStore sample_settings_host ''/data/settings.json'' (bump (bump (bump (bump sample_id_world)))) =
      (Inr s0, w1)"
    and e: "trim_space (svDeviceName (GetSettings s0)) = []"
    and u: "\<not> isl (fst (UpdateSettings sample_settings_host ((GetSettings s0)\<lparr>svDeviceName := ''Me''\<rparr>) (s0, w1)))"
    using sample_preferred unfolding sample_preferred_def by (auto split: prod.splits sum.splits)
  obtain p s w2 where p: "UpdateSettings sample_settings_host ((GetSettings s0)\<lparr>svDeviceName := ''Me''\<rparr>) (s0, w1) = (Inr p, (s, w2))"
    using u by (cases "UpdateSettings sample_settings_host ((GetSettings s0)\<lparr>svDeviceName := ''Me''\<rparr>) (s0, w1)") (auto dest!: not_isl_InrD)
  have n: "idName sample_identity = ''Me''" by (simp add: sample_identity_def)
  have "start_preferences sample_settings_host sample_identity (s0, w1) = (Inr (sample_identity\<lparr>idName := svDeviceName p\<rparr>), (s, w2))"
    by (simp add: start_preferences_def e n p bindE_def getE_def retE_def)
  then show ?thesis using s0 by blast
qed

lemma sample_one_host: "one_host sample_machine"
  by (simp add: one_host_def sample_machine_def sample_id_host_def sample_settings_host_def sample_pair_host_def
      host.extend_def host.truncate_def id_host.fields_def settings_host.fields_def pair_host.fields_def)

lemma sample_daemon_load:
  "\<exists>l w d. load_daemon sample_machine ''1.0'' (sample_id_world, sample_database) = (Inr l, (w, d)) \<and>
     scStaticPeers (ldConfig l) = [] \<and> scAppVersion (ldConfig l) = ''1.0'' \<and> data_transfers l = ''/data/transfers'' \<and>
     ldPeerPort l = 8385"
proof -
  obtain c where c: "loadConfig (mcEnv sample_machine) ''1.0'' = Inr c" "scDataDirectory c = ''/data''"
    "scStaticPeers c = []" "scAppVersion c = ''1.0''" using sample_config [of "''1.0''"] by auto
  obtain s0 w1 i s w2 where s0: "NewSettingsStore (mcSettings sample_machine) ''/data/settings.json''
      (bump (bump (bump (bump sample_id_world)))) = (Inr s0, w1)"
    and i: "start_preferences (mcSettings sample_machine) sample_identity (s0, w1) = (Inr i, (s, w2))"
    using sample_preferences by (auto simp: sample_machine_def)
  have "Validate sample_id_host i = Inr ()"
    using start_preferences_valid [OF i sample_identity_valid NewSettingsStore_name [OF s0]] by simp
  then have t: "\<exists>cert w'. bindE (now (mcTransfers sample_machine)) (TLSCertificate (mcIdentity sample_machine) i) w2 = (Inr cert, w')"
    by (simp add: bindE_def now_run TLSCertificate_def sample_machine_def outside_def gom_defs)
  then obtain cert w' where "bindE (now (mcTransfers sample_machine)) (TLSCertificate (mcIdentity sample_machine) i) w2 = (Inr cert, w')"
    by blast
  then have t: "on_files ''create peer TLS identity'' (bindE (now (mcTransfers sample_machine))
      (TLSCertificate (mcIdentity sample_machine) i)) (w2, x) = (Inr cert, (w', x))" for x :: database
    by (simp add: on_files_def)
  have q: "no_faults (mcSqlite sample_machine)" by (simp add: no_faults_def sample_sqlite_def sample_machine_def)
  obtain d1 where d1: "Migrate (mcSqlite sample_machine) sample_database = (Inr (), d1)"
    using sample_migrates by (cases "Migrate (mcSqlite sample_machine) sample_database") (auto simp: sample_machine_def)
  obtain d2 where d2: "Migrate (mcSqlite sample_machine) d1 = (Inr (), d2)"
    using Migrate_complete [OF q migrated_stays [OF d1]] by blast
  have o: "LoadOrCreate (mcIdentity sample_machine) sample_id_path sample_id_world =
      (Inr sample_identity, bump (bump (bump (bump sample_id_world))))"
    using sample_load_world by (simp add: sample_machine_def)
  have m: "mcOpen sample_machine = None" "mcListen sample_machine a = Inr 8385" for a by (simp_all add: sample_machine_def)
  show ?thesis
    unfolding load_daemon_def load_preferences_def open_database_def listen_on_def
    by (simp add: bindE_def seqE_def liftE_def retE_def on_files_Inr on_database_def c sample_paths o s0 i d1 d2 t [unfolded bindE_def] m data_transfers_def)
qed

text \<open>This machine starts.\<close>

theorem started_daemon_witness:
  "\<exists>r y. Run_start sample_machine ''1.0'' (sample_id_world, sample_database) = (Inr r, y) \<and> consistent_daemon sample_machine r"
proof -
  obtain l w d where l: "load_daemon sample_machine ''1.0'' (sample_id_world, sample_database) = (Inr l, (w, d))"
    "scStaticPeers (ldConfig l) = []" "scAppVersion (ldConfig l) = ''1.0''" "data_transfers l = ''/data/transfers''" "ldPeerPort l = 8385"
    using sample_daemon_load by blast
  note v = load_daemon_valid [OF l(1) sample_one_host]
  have "trim_space ''1.0'' \<noteq> []" "trim_space ''/data/transfers'' \<noteq> []" by code_simp+
  moreover have "migrated_schema (dbSchema d) = Inr (dbSchema d)"
    using v migrated_stays by auto
  moreover have "no_faults (mcSqlite sample_machine)" by (simp add: no_faults_def sample_sqlite_def sample_machine_def)
  ultimately have "\<exists>r y. build_daemon sample_machine l (w, d) = (Inr r, y)"
    using v l(2-5) by (intro build_daemon_total [OF _ sample_one_host]) simp_all
  then obtain r y where "Run_start sample_machine ''1.0'' (sample_id_world, sample_database) = (Inr r, y)"
    by (auto simp: Run_start_def bindE_def l(1))
  then show ?thesis using started_daemon [OF _ sample_one_host] by blast
qed

end
