(* ===== verification/Frontend.thy ===== *)
theory Frontend
  imports SafePath
begin

text \<open>
  \<open>frontend/frontend.go\<close>: the handler of the embedded user interface. The embedded files and the
  table of content types are arguments.
\<close>

section \<open>The handler\<close>

record frontend_reply =
  frCode :: int
  frHeaders :: "(string \<times> string) list"
  frBody :: string

text \<open>\<open>fs.ReadFile\<close> refuses what \<open>fs.ValidPath\<close> refuses: names with empty, dot or dot-dot elements.\<close>

definition valid_fs_path :: "string \<Rightarrow> bool" where
  "valid_fs_path p \<longleftrightarrow> p = ''.'' \<or> normal_elems (split_on slash p)"

definition embed_read :: "(string \<rightharpoonup> string) \<Rightarrow> string \<Rightarrow> string option" where
  "embed_read root p = (if valid_fs_path p then root p else None)"

definition asset_path :: "string \<Rightarrow> string" where
  "asset_path p = (let a = trim_prefix (clean (slash # p)) ''/'' in if a = ''.'' \<or> a = [] then ''index.html'' else a)"

text \<open>An asset that is not there is answered with the index.\<close>

definition found_asset :: "(string \<rightharpoonup> string) \<Rightarrow> string \<Rightarrow> string \<times> string option" where
  "found_asset root p = (case embed_read root p of
       Some c \<Rightarrow> (p, Some c)
     | None \<Rightarrow> (''index.html'', embed_read root ''index.html''))"

definition cache_control :: "string \<Rightarrow> string" where
  "cache_control a = (if has_prefix a ''assets/'' then ''public, max-age=31536000, immutable'' else ''no-cache'')"

text \<open>\<open>http.Error\<close>.\<close>

definition http_error :: "int \<Rightarrow> (string \<times> string) list \<Rightarrow> string \<Rightarrow> frontend_reply" where
  "http_error code headers message =
     \<lparr>frCode = code,
      frHeaders = headers @ [(''Content-Type'', ''text/plain; charset=utf-8''), (''X-Content-Type-Options'', ''nosniff'')],
      frBody = message @ [CHR 0x0A]\<rparr>"

definition FrontendHandler :: "(string \<rightharpoonup> string) \<Rightarrow> (string \<Rightarrow> string) \<Rightarrow> string \<Rightarrow> string \<Rightarrow> frontend_reply" where
  "FrontendHandler root mime meth p =
     (if meth \<noteq> ''GET'' \<and> meth \<noteq> ''HEAD''
      then http_error 405 [(''Allow'', ''GET, HEAD'')] ''method not allowed''
      else case found_asset root (asset_path p) of
        (_, None) \<Rightarrow> http_error 500 [] ''SyncSpace frontend is unavailable''
      | (a, Some contents) \<Rightarrow>
          \<lparr>frCode = 200,
           frHeaders = [(''Cache-Control'', cache_control a), (''X-Content-Type-Options'', ''nosniff'')] @
             (if mime (path_ext a) = [] then [] else [(''Content-Type'', mime (path_ext a))]),
           frBody = (if meth = ''HEAD'' then [] else contents)\<rparr>)"

section \<open>What it serves\<close>

lemma clean_root_trimmed:
  "\<exists>es. normal_elems es \<and> trim_prefix (clean (slash # p)) ''/'' = join_slash es"
proof -
  have "is_abs (slash # p)" by (simp add: is_abs_def)
  then show ?thesis using clean_elems_normal [of "slash # p"]
    by (auto simp: clean_abs abs_path_def trim_prefix_def intro!: exI [of _ "clean_elems (slash # p)"])
qed

text \<open>Whatever the request asks for, the name looked up is a valid one inside the embedded directory.\<close>

lemma asset_path_valid: "valid_fs_path (asset_path p)"
proof -
  obtain es where es: "normal_elems es" "trim_prefix (clean (slash # p)) ''/'' = join_slash es"
    using clean_root_trimmed by blast
  show ?thesis
  proof (cases "join_slash es = ''.'' \<or> join_slash es = []")
    case True
    then show ?thesis using es(2)
      by (auto simp: asset_path_def valid_fs_path_def split_on.simps normal_elem_def)
  next
    case False
    then have "es \<noteq> []" by auto
    then show ?thesis using False es by (simp add: asset_path_def Let_def valid_fs_path_def split_join_normal)
  qed
qed

text \<open>
  A file that exists is served under its own path; every other path is the application; only names
  below \<open>assets\<close> that exist may be cached for ever.
\<close>

lemma frontend_serves:
  assumes "root ''index.html'' = Some index"
  shows "FrontendHandler root mime ''GET'' p =
    (let a = asset_path p; b = (if root a = None then ''index.html'' else a) in
     \<lparr>frCode = 200,
      frHeaders = [(''Cache-Control'', cache_control b), (''X-Content-Type-Options'', ''nosniff'')] @
        (if mime (path_ext b) = [] then [] else [(''Content-Type'', mime (path_ext b))]),
      frBody = (case root a of Some c \<Rightarrow> c | None \<Rightarrow> index)\<rparr>)"
proof -
  have "valid_fs_path ''index.html''" by (simp add: valid_fs_path_def split_on.simps normal_elem_def)
  then show ?thesis using asset_path_valid [of p] assms
    by (simp add: FrontendHandler_def found_asset_def embed_read_def Let_def split: option.split)
qed

lemma immutable_only_assets:
  assumes "root ''index.html'' = Some index"
    and "(''Cache-Control'', ''public, max-age=31536000, immutable'') \<in> set (frHeaders (FrontendHandler root mime ''GET'' p))"
  shows "\<exists>c. root (asset_path p) = Some c \<and> prefix ''assets/'' (asset_path p) \<and>
    frBody (FrontendHandler root mime ''GET'' p) = c"
  using assms(2) unfolding frontend_serves [of root, OF assms(1)]
  by (auto simp: Let_def cache_control_def has_prefix_def split: if_splits option.split)

end
