(* ===== verification/HostProgram.thy ===== *)
theory HostProgram
  imports Identity PairingModels
begin

text \<open>
  What the commands under \<open>cmd\<close> share: a process that calls other programs over HTTP, works on the
  file tree, starts other processes and waits for them to become ready.

  The state is the file tree of the machine with the calls made so far. An HTTP call takes time in
  which other processes may change the tree. The clock is the one of the host plus the time spent
  sleeping. Errors are their texts.
\<close>

section \<open>The host\<close>

record cli_call =
  ccMethod :: string
  ccURL :: string
  ccBody :: "string option"

record cli_reply =
  cyCode :: int
  cyStatus :: string
  cyBody :: string

text \<open>A server process: the variables \<open>serverCommand\<close> adds to the environment.\<close>

record process =
  poBinary :: string
  poEnv :: "(string \<times> string) list"

datatype action =
  Called cli_call | Printed string | Slept int | Built "string list" | Started process | Killed nat | Cancelled | Closed_log

record cli_world =
  cvDisk :: tworld
  cvTrace :: "action list"
  cvSlept :: int

text \<open>
  The decoders of the answers, JSON encoding, quoting (\<open>%q\<close>), and what the outside does: the answers
  to calls, its changes of the tree, builds, starts and exits of processes, and signals.
\<close>

datatype json_value = JStr string | JBool bool | JNum int | JStrs "string list"

record cli_host = id_host +
  clQuote :: "string \<Rightarrow> string"
  clEncode :: "(string \<times> json_value) list \<Rightarrow> string"
  clDeviceJson :: "device list \<Rightarrow> string"
  clAccepted :: "string \<Rightarrow> string + bool"
  clTrusted :: "string \<Rightarrow> string + string list"
  clStage :: "string \<Rightarrow> string + string"
  clTransfers :: "string \<Rightarrow> string + transfer list"
  clTransfer :: "string \<Rightarrow> string + transfer"
  clRequest :: "string \<Rightarrow> string + pairing_request"
  clRequests :: "string \<Rightarrow> string + pairing_request list"
  clDecision :: "string \<Rightarrow> string + decision"
  clIndent :: "string \<Rightarrow> string + string"
  clPathEscape :: "string \<Rightarrow> string"
  clHttp :: "nat \<Rightarrow> cli_call \<Rightarrow> string + cli_reply"
  clEnv :: "nat \<Rightarrow> fsys \<Rightarrow> fsys"
  clBuild :: "nat \<Rightarrow> string list \<Rightarrow> string option"
  clStart :: "nat \<Rightarrow> process \<Rightarrow> string option"
  clExit :: "nat \<Rightarrow> string option option"
  clDone :: "nat \<Rightarrow> string option"

type_synonym 'a cm = "(cli_world, string, 'a) gom"

section \<open>Steps\<close>

definition act :: "action \<Rightarrow> unit cm" where
  "act a = modE (\<lambda>w. w\<lparr>cvTrace := cvTrace w @ [a]\<rparr>)"

definition println :: "string \<Rightarrow> unit cm" where
  "println s = act (Printed s)"

text \<open>An answer of the outside, with the number of the call.\<close>

definition cli_outside :: "(nat \<Rightarrow> 'a) \<Rightarrow> 'a cm" where
  "cli_outside f = (\<lambda>w. (Inr (f (wTick (cvDisk w))), w\<lparr>cvDisk := bump (cvDisk w)\<rparr>))"

definition cli_now :: "('r) host_scheme \<Rightarrow> time cm" where
  "cli_now E = (\<lambda>w. (Inr (hNow E (wTick (cvDisk w)) + cvSlept w), w\<lparr>cvDisk := bump (cvDisk w)\<rparr>))"

lemma cli_now_run:
  "cli_now E w = (Inr (hNow E (wTick (cvDisk w)) + cvSlept w), w\<lparr>cvDisk := bump (cvDisk w)\<rparr>)"
  by (simp add: cli_now_def)

definition cli_sleep :: "int \<Rightarrow> unit cm" where
  "cli_sleep d = seqE (act (Slept d)) (modE (\<lambda>w. w\<lparr>cvSlept := cvSlept w + d\<rparr>))"

text \<open>A call on the file tree.\<close>

definition on_disk :: "(tworld, os_error, 'a) gom \<Rightarrow> 'a cm" where
  "on_disk m = (\<lambda>w. case m (cvDisk w) of
       (Inl e, d) \<Rightarrow> (Inl (os_text e), w\<lparr>cvDisk := d\<rparr>)
     | (Inr a, d) \<Rightarrow> (Inr a, w\<lparr>cvDisk := d\<rparr>))"

text \<open>\<open>os.MkdirAll\<close>, \<open>os.ReadFile\<close> and \<open>os.WriteFile\<close>, which truncates before it writes.\<close>

definition mkdir_all :: "('r) host_scheme \<Rightarrow> string \<Rightarrow> unit cm" where
  "mkdir_all E p = on_disk (fs_call E (os_mkdir_all p))"

definition read_file :: "('r) host_scheme \<Rightarrow> string \<Rightarrow> string cm" where
  "read_file E p = on_disk (fs_read E (\<lambda>fs. os_read_file fs p))"

definition write_file :: "('r) host_scheme \<Rightarrow> string \<Rightarrow> string \<Rightarrow> unit cm" where
  "write_file E p c = on_disk (seqE (fs_call E (os_open_trunc p)) (fs_write E p 0 c))"

definition http_call :: "('r) cli_host_scheme \<Rightarrow> cli_call \<Rightarrow> cli_reply cm" where
  "http_call E c =
     seqE (act (Called c))
     (seqE (modE (\<lambda>w. w\<lparr>cvDisk := (cvDisk w)\<lparr>wFs := clEnv E (wTick (cvDisk w)) (wFs (cvDisk w))\<rparr>\<rparr>))
     (bindE (cli_outside (\<lambda>k. clHttp E k c)) liftE))"

definition http_get :: "('r) cli_host_scheme \<Rightarrow> string \<Rightarrow> cli_reply cm" where
  "http_get E url = http_call E \<lparr>ccMethod = ''GET'', ccURL = url, ccBody = None\<rparr>"

text \<open>\<open>fmt.Errorf("prefix: %w", err)\<close>.\<close>

definition wrapE :: "string \<Rightarrow> ('w, string, 'a) gom \<Rightarrow> ('w, string, 'a) gom" where
  "wrapE pre m = (\<lambda>w. case m w of (Inl e, w') \<Rightarrow> (Inl (pre @ '': '' @ e), w') | r \<Rightarrow> r)"

section \<open>Waiting\<close>

text \<open>
  A loop that tries until a deadline and sleeps between two attempts. The first argument bounds the
  number of attempts; \<open>None\<close> says that it is used up and the loop goes on.
\<close>

fun poll :: "nat \<Rightarrow> ('r) host_scheme \<Rightarrow> time \<Rightarrow> int \<Rightarrow> 'a option cm \<Rightarrow> string \<Rightarrow> 'a option cm" where
  "poll 0 E deadline pause attempt timeout = retE None"
| "poll (Suc k) E deadline pause attempt timeout =
     bindE (cli_now E) (\<lambda>n.
     if n < deadline then
       bindE attempt (\<lambda>r. case r of
         Some a \<Rightarrow> retE (Some a)
       | None \<Rightarrow> seqE (cli_sleep pause) (poll k E deadline pause attempt timeout))
     else throwE timeout)"

definition within :: "'a option cm \<Rightarrow> ('a \<Rightarrow> 'b option cm) \<Rightarrow> 'b option cm" where
  "within m f = bindE m (\<lambda>r. case r of None \<Rightarrow> retE None | Some a \<Rightarrow> f a)"

text \<open>What a program cannot undo: the time it read and the calls it made.\<close>

definition moves_on :: "cli_world \<Rightarrow> 'a cm \<Rightarrow> bool" where
  "moves_on w m \<longleftrightarrow> wTick (cvDisk w) \<le> wTick (cvDisk (snd (m w))) \<and> cvSlept w \<le> cvSlept (snd (m w))"

text \<open>
  On a clock that does not run backwards a wait of time \<open>t\<close> ends after at most \<open>t / pause + 1\<close>
  attempts: enough fuel makes it return or fail, whatever the attempts see.
\<close>

lemma poll_ends:
  assumes clock: "mono (hNow E)" and pause: "0 < pause" and attempt: "\<And>w. moves_on w attempt"
  shows "deadline - (hNow E (wTick (cvDisk w)) + cvSlept w) \<le> int k * pause \<Longrightarrow>
    fst (poll (Suc k) E deadline pause attempt timeout w) \<noteq> Inr None"
proof (induction k arbitrary: w)
  case 0
  then have "\<not> hNow E (wTick (cvDisk w)) + cvSlept w < deadline" by simp
  then show ?case by (simp add: cli_now_def gom_defs)
next
  case (Suc k)
  let ?n = "hNow E (wTick (cvDisk w)) + cvSlept w" and ?w = "w\<lparr>cvDisk := bump (cvDisk w)\<rparr>"
  show ?case
  proof (cases "?n < deadline")
    case False
    then show ?thesis by (simp add: cli_now_def gom_defs)
  next
    case True
    obtain r w1 where a: "attempt ?w = (r, w1)" by fastforce
    have m: "wTick (cvDisk ?w) \<le> wTick (cvDisk w1)" "cvSlept w \<le> cvSlept w1"
      using attempt [of ?w] by (simp_all add: moves_on_def a)
    have step: "poll (Suc (Suc k)) E deadline pause attempt timeout w =
        bindE attempt (\<lambda>r. case r of Some a \<Rightarrow> retE (Some a)
          | None \<Rightarrow> seqE (cli_sleep pause) (poll (Suc k) E deadline pause attempt timeout)) ?w"
      using True by (subst poll.simps(2)) (simp add: bindE_Inr [OF cli_now_run] del: poll.simps)
    show ?thesis
    proof (cases "r = Inr None")
      case False
      then show ?thesis unfolding step using a by (cases r) (auto simp: bindE_def retE_def split: option.split)
    next
      case True
      let ?w2 = "w1\<lparr>cvTrace := cvTrace w1 @ [Slept pause], cvSlept := cvSlept w1 + pause\<rparr>"
      have "hNow E (wTick (cvDisk w)) \<le> hNow E (wTick (cvDisk w1))"
        using m(1) by (intro monoD [OF clock]) simp
      then have "deadline - (hNow E (wTick (cvDisk ?w2)) + cvSlept ?w2) \<le> int k * pause"
        using Suc.prems m(2) by (simp add: algebra_simps)
      from Suc.IH [OF this] show ?thesis unfolding step using a True
        by (simp add: bindE_def seqE_def cli_sleep_def act_def modE_def del: poll.simps)
    qed
  qed
qed

lemma poll_InrD:
  assumes "poll k E deadline pause attempt timeout w = (Inr (Some a), w')"
  shows "\<exists>v. attempt v = (Inr (Some a), w')"
  using assms
proof (induction k arbitrary: w)
  case (Suc k)
  then show ?case
    by (auto simp: cli_now_def bindE_def seqE_def retE_def throwE_def split: if_splits prod.splits sum.splits option.splits)
qed (simp add: retE_def)

lemma within_InrD:
  assumes "within m f w = (Inr (Some b), w'')"
  shows "\<exists>a w'. m w = (Inr (Some a), w') \<and> f a w' = (Inr (Some b), w'')"
  using assms by (auto simp: within_def bindE_def retE_def split: prod.splits sum.splits option.splits)

end
