(* ===== verification/Desktop.thy ===== *)
theory Desktop
  imports HostProgram
begin

text \<open>
  \<open>cmd/desktop\<close> and \<open>cmd/server\<close>: the geometry of the window, kept over restarts, the start of the
  services inside the desktop process, and the arguments of the headless server. The window system
  is a parameter; what the program tells it is the list of its commands.
\<close>

section \<open>The window\<close>

record window_state =
  wsX :: int
  wsY :: int
  wsWidth :: int
  wsHeight :: int
  wsMaximised :: bool

record screen =
  scPrimary :: bool
  scWidth :: int
  scHeight :: int

datatype window_command = SetSize int int | SetPosition int int | Center | Maximise

record desk_host = cli_host +
  dkConfigDir :: "string option"
  dkCacheDir :: "string option"
  dkDecode :: "string \<Rightarrow> window_state option"
  dkEncode :: "window_state \<Rightarrow> string"
  dkScreens :: "nat \<Rightarrow> screen list option"
  dkStopped :: "nat \<Rightarrow> string option option"

definition normaliseWindowState :: "window_state \<Rightarrow> int \<Rightarrow> int \<Rightarrow> window_state" where
  "normaliseWindowState s screenWidth screenHeight =
     (let w1 = (if wsWidth s < 900 then 900 else wsWidth s);
          h1 = (if wsHeight s < 600 then 600 else wsHeight s);
          w2 = (if 0 < screenWidth \<and> screenWidth < w1 then screenWidth else w1);
          h2 = (if 0 < screenHeight \<and> screenHeight < h1 then screenHeight else h1);
          s1 = s\<lparr>wsWidth := w2, wsHeight := h2\<rparr>
      in if wsX s < 0 \<or> wsY s < 0 \<or> screenWidth < wrap64 (wsX s + 100) \<or> screenHeight < wrap64 (wsY s + 100)
         then s1\<lparr>wsX := -1, wsY := -1\<rparr> else s1)"

definition windowStatePath :: "('r) desk_host_scheme \<Rightarrow> string option" where
  "windowStatePath D = map_option (\<lambda>d. path_join [d, ''SyncSpace'', ''window.json'']) (dkConfigDir D)"

definition primary_screen :: "screen list \<Rightarrow> screen" where
  "primary_screen ss = (case find_first scPrimary ss of Some s \<Rightarrow> s | None \<Rightarrow> hd ss)"

definition window_commands :: "window_state \<Rightarrow> window_command list" where
  "window_commands s =
     [SetSize (wsWidth s) (wsHeight s), if 0 \<le> wsX s \<and> 0 \<le> wsY s then SetPosition (wsX s) (wsY s) else Center] @
     (if wsMaximised s then [Maximise] else [])"

text \<open>Without a readable state and a screen nothing is restored.\<close>

definition restoreWindowState :: "('r) desk_host_scheme \<Rightarrow> window_command list cm" where
  "restoreWindowState D = (case windowStatePath D of
       None \<Rightarrow> retE []
     | Some path \<Rightarrow>
         bindE (tryE (read_file D path)) (\<lambda>r. case r of
           Inl _ \<Rightarrow> retE []
         | Inr contents \<Rightarrow>
             (case dkDecode D contents of
                None \<Rightarrow> retE []
              | Some s \<Rightarrow>
                  bindE (cli_outside (dkScreens D)) (\<lambda>screens. case screens of
                    None \<Rightarrow> retE []
                  | Some [] \<Rightarrow> retE []
                  | Some (x # xs) \<Rightarrow> let p = primary_screen (x # xs) in
                      retE (window_commands (normaliseWindowState s (scWidth p) (scHeight p)))))))"

text \<open>The state to save is what the window system reports; a context that was never set saves nothing.\<close>

definition saveWindowState :: "('r) desk_host_scheme \<Rightarrow> window_state option \<Rightarrow> unit cm" where
  "saveWindowState D current = (case current of
       None \<Rightarrow> retE ()
     | Some s \<Rightarrow>
         (case windowStatePath D of
            None \<Rightarrow> retE ()
          | Some path \<Rightarrow>
              bindE (tryE (mkdir_all D (path_dir path))) (\<lambda>r. case r of
                Inl _ \<Rightarrow> retE ()
              | Inr _ \<Rightarrow> bindE (tryE (write_file D path (dkEncode D s @ [CHR 0x0A]))) (\<lambda>_. retE ()))))"

definition beforeClose :: "('r) desk_host_scheme \<Rightarrow> window_state option \<Rightarrow> bool cm" where
  "beforeClose D current = seqE (saveWindowState D current) (retE False)"

section \<open>The services\<close>

definition backendLog :: "('r) desk_host_scheme \<Rightarrow> string cm" where
  "backendLog D = (case dkCacheDir D of
       None \<Rightarrow> throwE ''neither $XDG_CACHE_HOME nor $HOME are defined''
     | Some cache \<Rightarrow>
         let directory = path_join [cache, ''SyncSpace'', ''logs'']; path = path_join [directory, ''desktop-runtime.log''] in
         seqE (mkdir_all D directory)
         (seqE (on_disk (fs_call D (os_open_create path)))
         (retE path)))"

text \<open>One look at the services: whether they ended, and whether the management API answers.\<close>

definition backend_ready :: "('r) desk_host_scheme \<Rightarrow> unit option cm" where
  "backend_ready D =
     bindE (cli_outside (dkStopped D)) (\<lambda>r. case r of
       Some None \<Rightarrow> throwE ''secure transfer services stopped during startup''
     | Some (Some e) \<Rightarrow> throwE (''secure transfer services stopped during startup: '' @ e)
     | None \<Rightarrow>
         bindE (tryE (http_get D ''http://127.0.0.1:8384/api/v1/privacy-policy'')) (\<lambda>r. case r of
           Inr rs \<Rightarrow> retE (if cyCode rs = 200 then Some () else None)
         | Inl _ \<Rightarrow> retE None))"

definition waitForBackend :: "nat \<Rightarrow> ('r) desk_host_scheme \<Rightarrow> int \<Rightarrow> unit option cm" where
  "waitForBackend k D timeout =
     bindE (cli_now D) (\<lambda>n.
       poll k D (n + timeout) (200 * millisecond) (backend_ready D) ''secure transfer services did not become ready'')"

text \<open>A start that fails cancels the services it began.\<close>

definition startBackend :: "nat \<Rightarrow> ('r) desk_host_scheme \<Rightarrow> unit option cm" where
  "startBackend k D =
     seqE (backendLog D)
     (bindE (tryE (waitForBackend k D (20 * second))) (\<lambda>r. case r of
        Inl e \<Rightarrow> seqE (act Cancelled) (seqE (act Closed_log) (throwE e))
      | Inr x \<Rightarrow> retE x))"

text \<open>The services get twelve seconds to end; \<open>dkStopped\<close> says whether they did in time.\<close>

definition stop :: "('r) desk_host_scheme \<Rightarrow> unit cm" where
  "stop D =
     seqE (act Cancelled)
     (bindE (cli_outside (dkStopped D)) (\<lambda>r. case r of
        Some _ \<Rightarrow> act Closed_log
      | None \<Rightarrow> seqE (cli_sleep (12 * second)) (act Closed_log)))"

record desktop_host =
  dhBackend :: bool
  dhErr :: "string option"

definition newDesktopHost :: desktop_host where
  "newDesktopHost = \<lparr>dhBackend = False, dhErr = None\<rparr>"

text \<open>
  The goroutine of \<open>startup\<close>, as one step; while the wait goes on the host is as before. \<open>shutdown\<close> stops
  the services it knows of.
\<close>

definition startup :: "nat \<Rightarrow> ('r) desk_host_scheme \<Rightarrow> desktop_host \<Rightarrow> cli_world \<Rightarrow> desktop_host \<times> cli_world" where
  "startup k D h w = (case startBackend k D w of
       (Inl e, w') \<Rightarrow> (\<lparr>dhBackend = False, dhErr = Some e\<rparr>, w')
     | (Inr (Some _), w') \<Rightarrow> (\<lparr>dhBackend = True, dhErr = None\<rparr>, w')
     | (Inr None, w') \<Rightarrow> (h, w'))"

definition shutdown :: "('r) desk_host_scheme \<Rightarrow> desktop_host \<Rightarrow> unit cm" where
  "shutdown D h = (if dhBackend h then stop D else retE ())"

definition StartupStatus :: "desktop_host \<Rightarrow> bool \<times> string option" where
  "StartupStatus h = (case dhErr h of Some e \<Rightarrow> (False, Some e) | None \<Rightarrow> (dhBackend h, None))"

section \<open>The headless server\<close>

text \<open>Whether the arguments were a command, with the exit code and what goes to the two streams.\<close>

definition handleCommand :: "string \<Rightarrow> string list \<Rightarrow> (bool \<times> int) \<times> string list \<times> string list" where
  "handleCommand buildVersion args =
     (if args = [] then ((False, 0), [], [])
      else if args = [''version''] \<or> args = [''--version''] then ((True, 0), [''SyncSpace '' @ buildVersion], [])
      else if args = [''help''] \<or> args = [''-h''] \<or> args = [''--help''] then
        ((True, 0), [''Usage: syncspace [--version|--help]'', ''Run without arguments to start the local SyncSpace service.''], [])
      else ((True, 2), [], [''syncspace: unsupported argument: '' @ join_with '' '' args, ''Run 'syncspace --help' for usage.'']))"

text \<open>The exit status of the headless server, where \<open>r\<close> is what \<open>Run\<close> returns.\<close>

definition server_main :: "string \<Rightarrow> string list \<Rightarrow> string + unit \<Rightarrow> int" where
  "server_main buildVersion args r =
     (case handleCommand buildVersion args of
        ((True, code), _) \<Rightarrow> code
      | ((False, _), _) \<Rightarrow> (case r of Inl _ \<Rightarrow> 1 | Inr _ \<Rightarrow> 0))"

section \<open>What they do\<close>

lemma server_main_success:
  "server_main v args r = 0 \<longleftrightarrow> args = [] \<and> r = Inr () \<or>
     args \<in> {[''version''], [''--version''], [''help''], [''-h''], [''--help'']}"
  by (auto simp: server_main_def handleCommand_def split: sum.splits)

text \<open>On a screen of at least 900 by 600 the window fits, and it is centred or its corner is on the screen.\<close>

lemma normalised_fits:
  assumes "900 \<le> w" "600 \<le> h" "in64 (wsX s + 100)" "in64 (wsY s + 100)"
  shows "let n = normaliseWindowState s w h in
    900 \<le> wsWidth n \<and> wsWidth n \<le> w \<and> 600 \<le> wsHeight n \<and> wsHeight n \<le> h \<and> wsMaximised n = wsMaximised s \<and>
    (wsX n = -1 \<and> wsY n = -1 \<or> 0 \<le> wsX n \<and> wsX n + 100 \<le> w \<and> 0 \<le> wsY n \<and> wsY n + 100 \<le> h)"
  using assms by (auto simp: normaliseWindowState_def Let_def)

lemma normalised_idem:
  "normaliseWindowState (normaliseWindowState s w h) w h = normaliseWindowState s w h"
  by (auto simp: normaliseWindowState_def Let_def)

text \<open>A corner near the largest integer wraps around and passes for visible.\<close>

lemma normalised_overflow:
  "normaliseWindowState \<lparr>wsX = 2 ^ 63 - 1, wsY = 0, wsWidth = 900, wsHeight = 600, wsMaximised = False\<rparr> 1920 1080 =
    \<lparr>wsX = 2 ^ 63 - 1, wsY = 0, wsWidth = 900, wsHeight = 600, wsMaximised = False\<rparr>"
  by (simp add: normaliseWindowState_def wrap64_def)

text \<open>The wait for the services ends: a hundred and one attempts use up twenty seconds.\<close>

lemma http_call_run:
  "http_call E c w = (clHttp E (wTick (cvDisk w)) c, w\<lparr>cvTrace := cvTrace w @ [Called c],
     cvDisk := bump ((cvDisk w)\<lparr>wFs := clEnv E (wTick (cvDisk w)) (wFs (cvDisk w))\<rparr>)\<rparr>)"
  by (simp add: http_call_def act_def cli_outside_def gom_defs split: sum.split)

lemma backend_ready_moves: "moves_on w (backend_ready D)"
  by (auto simp: moves_on_def backend_ready_def cli_outside_def http_get_def http_call_run gom_defs bump_def
      split: option.split sum.split)

lemma waitForBackend_ends:
  assumes "mono (hNow D)"
  shows "fst (waitForBackend 101 D (20 * second) w) \<noteq> Inr None"
proof -
  have k: "(101::nat) = Suc 100" by simp
  show ?thesis unfolding waitForBackend_def k bindE_Inr [OF cli_now_run]
  proof (rule poll_ends [OF assms])
    show "moves_on w (backend_ready D)" for w by (rule backend_ready_moves)
    show "hNow D (wTick (cvDisk w)) + cvSlept w + 20 * second -
        (hNow D (wTick (cvDisk (w\<lparr>cvDisk := bump (cvDisk w)\<rparr>))) + cvSlept (w\<lparr>cvDisk := bump (cvDisk w)\<rparr>))
        \<le> int 100 * (200 * millisecond)"
      using monoD [OF assms, of "wTick (cvDisk w)" "Suc (wTick (cvDisk w))"]
      by (simp add: bump_def second_def millisecond_def)
  qed (simp add: millisecond_def)
qed

text \<open>The interface is told that the services are ready only after the management API answered.\<close>

lemma startup_ready:
  assumes "startup k D newDesktopHost w = (h, w')" and "fst (StartupStatus h)"
  shows "\<exists>rs v. clHttp D v \<lparr>ccMethod = ''GET'', ccURL = ''http://127.0.0.1:8384/api/v1/privacy-policy'', ccBody = None\<rparr> = Inr rs \<and>
    cyCode rs = 200"
proof -
  have "h = \<lparr>dhBackend = True, dhErr = None\<rparr> \<and> startBackend k D w = (Inr (Some ()), w')"
    using assms by (auto simp: startup_def StartupStatus_def newDesktopHost_def split: prod.splits sum.splits option.splits)
  then obtain v v' where "waitForBackend k D (20 * second) v = (Inr (Some ()), v')"
    unfolding startBackend_def by (auto elim!: seqE_InrE bindE_InrE simp: tryE_def gom_defs split: prod.splits sum.splits)
  then obtain u where "backend_ready D u = (Inr (Some ()), v')"
    unfolding waitForBackend_def by (auto elim!: bindE_InrE dest!: poll_InrD)
  then show ?thesis
    by (auto simp: backend_ready_def cli_outside_def http_get_def http_call_run gom_defs
        split: option.splits sum.splits if_splits)
qed

end
