(* ===== verification/GoFlag.thy ===== *)
theory GoFlag
  imports GoValues "HOL-Library.AList"
begin

text \<open>
  What the commands use of package \<open>flag\<close>: a flag set with \<open>ContinueOnError\<close> over integer, string and
  boolean flags, and \<open>strconv.ParseInt\<close> with base 0, which reads its integers. A flag set is the list
  of its flags with their values; an error is its text, without the usage printed along with it.
\<close>

section \<open>Integers with a base prefix\<close>

definition go_digit :: "char \<Rightarrow> int" where
  "go_digit c = (let l = of_char (lower_ascii c) :: int in
     if 48 \<le> l \<and> l \<le> 57 then l - 48 else if 97 \<le> l \<and> l \<le> 122 then l - 87 else 99)"

fun scan_digits :: "int \<Rightarrow> string \<Rightarrow> int \<Rightarrow> string + int" where
  "scan_digits b [] n = Inr n"
| "scan_digits b (c # cs) n =
     (if c = CHR ''_'' then scan_digits b cs n
      else if b \<le> go_digit c then Inl ''parse error''
      else if 2 ^ 64 \<le> n * b + go_digit c then Inl ''value out of range''
      else scan_digits b cs (n * b + go_digit c))"

definition base_prefix :: "string \<Rightarrow> int \<times> string" where
  "base_prefix s =
     (if s = [] \<or> hd s \<noteq> CHR ''0'' then (10, s)
      else if 3 \<le> length s \<and> lower_ascii (s ! 1) = CHR ''b'' then (2, drop 2 s)
      else if 3 \<le> length s \<and> lower_ascii (s ! 1) = CHR ''o'' then (8, drop 2 s)
      else if 3 \<le> length s \<and> lower_ascii (s ! 1) = CHR ''x'' then (16, drop 2 s)
      else (8, tl s))"

text \<open>Underscores may only separate digits, where a base prefix counts as one.\<close>

fun underscores_ok :: "bool \<Rightarrow> char \<Rightarrow> string \<Rightarrow> bool" where
  "underscores_ok hex i [] = (i \<noteq> CHR ''_'')"
| "underscores_ok hex i (c # cs) =
     (if is_digit c \<or> hex \<and> 10 \<le> go_digit c \<and> go_digit c \<le> 15 then underscores_ok hex CHR ''0'' cs
      else if c = CHR ''_'' then i = CHR ''0'' \<and> underscores_ok hex CHR ''_'' cs
      else i \<noteq> CHR ''_'' \<and> underscores_ok hex CHR ''!'' cs)"

definition underscoreOK :: "string \<Rightarrow> bool" where
  "underscoreOK s =
     (if 2 \<le> length s \<and> hd s = CHR ''0'' \<and> lower_ascii (s ! 1) \<in> {CHR ''b'', CHR ''o'', CHR ''x''}
      then underscores_ok (lower_ascii (s ! 1) = CHR ''x'') CHR ''0'' (drop 2 s)
      else underscores_ok False CHR ''^'' s)"

definition parse_base0 :: "string \<Rightarrow> string + int" where
  "parse_base0 s =
     (let neg = (s \<noteq> [] \<and> hd s = CHR ''-''); ds = (if s \<noteq> [] \<and> hd s \<in> {CHR ''-'', CHR ''+''} then tl s else s);
          (b, digits) = base_prefix ds
      in if ds = [] then Inl ''parse error''
         else case scan_digits b digits 0 of
           Inl e \<Rightarrow> Inl e
         | Inr n \<Rightarrow>
             if CHR ''_'' \<in> set digits \<and> \<not> underscoreOK ds then Inl ''parse error''
             else if in64 (if neg then - n else n) then Inr (if neg then - n else n)
             else Inl ''value out of range'')"

definition parse_bool :: "string \<Rightarrow> bool option" where
  "parse_bool s =
     (if s \<in> {''1'', ''t'', ''T'', ''TRUE'', ''true'', ''True''} then Some True
      else if s \<in> {''0'', ''f'', ''F'', ''FALSE'', ''false'', ''False''} then Some False else None)"

section \<open>Flag sets\<close>

datatype flag_value = FInt int | FString string | FBool bool

type_synonym flags = "(string \<times> flag_value) list"

fun set_flag :: "flag_value \<Rightarrow> string \<Rightarrow> string + flag_value" where
  "set_flag (FInt _) v = (case parse_base0 v of Inl e \<Rightarrow> Inl e | Inr i \<Rightarrow> Inr (FInt i))"
| "set_flag (FString _) v = Inr (FString v)"
| "set_flag (FBool _) v = (case parse_bool v of None \<Rightarrow> Inl ''parse error'' | Some b \<Rightarrow> Inr (FBool b))"

text \<open>The name of an argument that is a flag, with the value after an equals sign.\<close>

definition flag_name :: "string \<Rightarrow> (string \<times> string option) option" where
  "flag_name s =
     (let n = (if s ! 1 = CHR ''-'' then drop 2 s else tl s) in
      if n = [] \<or> hd n = CHR ''-'' \<or> hd n = CHR ''='' then None
      else case cut CHR ''='' n of None \<Rightarrow> Some (n, None) | Some (name, v) \<Rightarrow> Some (name, Some v))"

definition assign :: "(string \<Rightarrow> string) \<Rightarrow> string \<Rightarrow> flag_value \<Rightarrow> string \<Rightarrow> flags \<Rightarrow> string + flags" where
  "assign quote name old v fs = (case set_flag old v of
       Inr x \<Rightarrow> Inr (AList.update name x fs)
     | Inl e \<Rightarrow> Inl (case old of
         FBool _ \<Rightarrow> ''invalid boolean value '' @ quote v @ '' for -'' @ name @ '': '' @ e
       | _ \<Rightarrow> ''invalid value '' @ quote v @ '' for flag -'' @ name @ '': '' @ e))"

text \<open>One flag: the arguments left and the flags after it; \<open>None\<close> at the first argument that is no flag.\<close>

definition flag_step :: "(string \<Rightarrow> string) \<Rightarrow> string \<Rightarrow> string list \<Rightarrow> flags \<Rightarrow> (string + string list \<times> flags) option" where
  "flag_step quote s args fs =
     (if length s < 2 \<or> hd s \<noteq> CHR ''-'' \<or> s = ''--'' then None
      else Some (case flag_name s of
        None \<Rightarrow> Inl (''bad flag syntax: '' @ s)
      | Some (name, given) \<Rightarrow>
          (case map_of fs name of
             None \<Rightarrow> Inl (if name = ''help'' \<or> name = ''h'' then ''flag: help requested''
                         else ''flag provided but not defined: -'' @ name)
           | Some old \<Rightarrow>
               (case given of
                  Some v \<Rightarrow> map_sum id (Pair args) (assign quote name old v fs)
                | None \<Rightarrow>
                    if old \<in> {FBool True, FBool False} then Inr (args, AList.update name (FBool True) fs)
                    else case args of
                      [] \<Rightarrow> Inl (''flag needs an argument: -'' @ name)
                    | v # rest \<Rightarrow> map_sum id (Pair rest) (assign quote name old v fs)))))"

lemma flag_step_shorter:
  "flag_step quote s args fs = Some (Inr (rest, gs)) \<Longrightarrow> length rest < Suc (length args)"
  unfolding flag_step_def
  by (cases "assign quote (fst (the (flag_name s))) (the (map_of fs (fst (the (flag_name s)))))
        (the (snd (the (flag_name s)))) fs";
      cases "assign quote (fst (the (flag_name s))) (the (map_of fs (fst (the (flag_name s))))) (hd args) fs")
     (auto split: if_splits option.splits list.splits)

function parse_flags :: "(string \<Rightarrow> string) \<Rightarrow> string list \<Rightarrow> flags \<Rightarrow> string + flags" where
  "parse_flags quote [] fs = Inr fs"
| "parse_flags quote (s # args) fs = (case flag_step quote s args fs of
       None \<Rightarrow> Inr fs
     | Some (Inl e) \<Rightarrow> Inl e
     | Some (Inr (rest, fs')) \<Rightarrow> parse_flags quote rest fs')"
  by pat_completeness auto
termination
  by (relation "measure (\<lambda>(_, args, _). length args)") (auto dest: flag_step_shorter)

definition flag_int :: "flags \<Rightarrow> string \<Rightarrow> int" where
  "flag_int fs name = (case map_of fs name of Some (FInt i) \<Rightarrow> i | _ \<Rightarrow> 0)"

definition flag_string :: "flags \<Rightarrow> string \<Rightarrow> string" where
  "flag_string fs name = (case map_of fs name of Some (FString s) \<Rightarrow> s | _ \<Rightarrow> [])"

definition flag_bool :: "flags \<Rightarrow> string \<Rightarrow> bool" where
  "flag_bool fs name = (case map_of fs name of Some (FBool b) \<Rightarrow> b | _ \<Rightarrow> False)"

section \<open>Parsing keeps the declared flags and their types\<close>

fun flag_kind :: "flag_value \<Rightarrow> nat" where
  "flag_kind (FInt _) = 0"
| "flag_kind (FString _) = 1"
| "flag_kind (FBool _) = 2"

definition flag_kinds :: "flags \<Rightarrow> string \<Rightarrow> nat option" where
  "flag_kinds fs n = map_option flag_kind (map_of fs n)"

lemma flag_kinds_update:
  "map_of fs name = Some old \<Longrightarrow> flag_kind x = flag_kind old \<Longrightarrow> flag_kinds (AList.update name x fs) = flag_kinds fs"
  by (auto simp: flag_kinds_def update_conv' fun_eq_iff)

lemma assign_kinds:
  assumes "assign quote name old v fs = Inr gs" "map_of fs name = Some old"
  shows "flag_kinds gs = flag_kinds fs"
proof -
  obtain x where "set_flag old v = Inr x" "gs = AList.update name x fs"
    using assms(1) by (auto simp: assign_def split: sum.splits)
  then show ?thesis using assms(2)
    by (cases old) (auto intro!: flag_kinds_update split: sum.splits option.splits)
qed

lemma map_sum_InrD: "map_sum id (Pair r) y = Inr (rest, gs) \<Longrightarrow> y = Inr gs \<and> rest = r"
  by (cases y) auto

lemma flag_step_kinds:
  assumes "flag_step quote s args fs = Some (Inr (rest, gs))"
  shows "flag_kinds gs = flag_kinds fs"
proof -
  obtain name given old where n: "flag_name s = Some (name, given)" and o: "map_of fs name = Some old"
    using assms by (auto simp: flag_step_def split: if_splits option.splits)
  show ?thesis using assms n o
    by (auto simp: flag_step_def flag_kinds_update [OF o] split: if_splits option.splits list.splits
        dest!: map_sum_InrD assign_kinds)
qed

lemma parse_flags_kinds: "parse_flags quote args fs = Inr gs \<Longrightarrow> flag_kinds gs = flag_kinds fs"
proof (induction quote args fs rule: parse_flags.induct)
  case (2 quote s args fs)
  then show ?case
    by (auto split: option.splits sum.splits prod.splits dest!: flag_step_kinds)
qed simp

text \<open>Base prefixes and separators.\<close>

lemma parse_base0_examples:
  "parse_base0 ''8384'' = Inr 8384" "parse_base0 ''-0x1F'' = Inr (-31)" "parse_base0 ''1_000'' = Inr 1000"
  "parse_base0 ''08'' = Inl ''parse error''" "parse_base0 ''1__0'' = Inl ''parse error''"
  "parse_base0 ''9223372036854775808'' = Inl ''value out of range''"
  by code_simp+

end
