(* ===== verification/DevCli.thy ===== *)
theory DevCli
  imports HostProgram GoFlag Settings
begin

text \<open>
  \<open>cmd/syncspace/main.go\<close>: the developer's command line. It builds and starts two local devices, pairs
  them, verifies a transfer between them, and asks a running daemon for its health and diagnostics.

  A command returns unless it is still waiting when the attempts its first argument allows are used
  up (\<open>None\<close>). Decoding, encoding and the outside are parameters of \<open>HostProgram\<close>.
\<close>

definition deviceAID :: string where "deviceAID = ''00000000-0000-4000-8000-00000000000a''"
definition deviceBID :: string where "deviceBID = ''00000000-0000-4000-8000-00000000000b''"

section \<open>Requests\<close>

definition success :: "cli_reply \<Rightarrow> bool" where
  "success rs \<longleftrightarrow> cyCode rs div 100 = 2"

text \<open>\<open>jsonRequest\<close>, up to the decoding of the answer, and with it.\<close>

definition plain_request :: "cli_host \<Rightarrow> string \<Rightarrow> string \<Rightarrow> (string \<times> json_value) list option \<Rightarrow> string cm" where
  "plain_request E meth url input =
     bindE (http_call E \<lparr>ccMethod = meth, ccURL = url, ccBody = map_option (clEncode E) input\<rparr>) (\<lambda>rs.
       if success rs then retE (cyBody rs)
       else throwE (cyStatus rs @ '': '' @ trim_space (take 4096 (cyBody rs))))"

definition cli_json :: "cli_host \<Rightarrow> (string \<Rightarrow> string + 'a) \<Rightarrow> string \<Rightarrow> string \<Rightarrow> (string \<times> json_value) list option \<Rightarrow> 'a cm" where
  "cli_json E decode meth url input = bindE (plain_request E meth url input) (\<lambda>body. liftE (decode body))"

definition api :: "string \<Rightarrow> string \<Rightarrow> string" where
  "api base path = base @ ''/api/v1'' @ path"

definition acceptCurrentPrivacyPolicy :: "cli_host \<Rightarrow> string \<Rightarrow> unit cm" where
  "acceptCurrentPrivacyPolicy E base =
     bindE (cli_json E (clAccepted E) ''POST'' (api base ''/privacy-policy/accept'')
       (Some [(''version'', JStr CurrentPrivacyPolicyVersion)])) (\<lambda>_. retE ())"

definition isTrusted :: "cli_host \<Rightarrow> string \<Rightarrow> string \<Rightarrow> bool cm" where
  "isTrusted E base deviceID =
     bindE (cli_json E (clTrusted E) ''GET'' (api base ''/pairing/trusted-devices'') None)
       (\<lambda>ids. retE (deviceID \<in> set ids))"

definition ready_at :: "cli_host \<Rightarrow> string \<Rightarrow> unit option cm" where
  "ready_at E url =
     bindE (cli_outside (clDone E)) (\<lambda>d. case d of
       Some e \<Rightarrow> throwE e
     | None \<Rightarrow> bindE (tryE (http_get E url)) (\<lambda>r. case r of
         Inr rs \<Rightarrow> retE (if cyCode rs = 200 then Some () else None)
       | Inl _ \<Rightarrow> retE None))"

definition waitHealthy :: "nat \<Rightarrow> cli_host \<Rightarrow> string \<Rightarrow> int \<Rightarrow> unit option cm" where
  "waitHealthy k E base timeout =
     bindE (cli_now E) (\<lambda>n. poll k E (n + timeout) (250 * millisecond) (ready_at E (api base ''/health''))
       ''health check timed out'')"

definition waitPrivacyPolicy :: "nat \<Rightarrow> cli_host \<Rightarrow> string \<Rightarrow> int \<Rightarrow> unit option cm" where
  "waitPrivacyPolicy k E base timeout =
     bindE (cli_now E) (\<lambda>n. poll k E (n + timeout) (250 * millisecond) (ready_at E (api base ''/privacy-policy''))
       ''privacy startup endpoint timed out'')"

definition waitFrontend :: "cli_host \<Rightarrow> string \<Rightarrow> unit cm" where
  "waitFrontend E base =
     bindE (http_get E (base @ ''/'')) (\<lambda>rs.
       if cyCode rs \<noteq> 200 then throwE (''frontend returned '' @ cyStatus rs)
       else if \<not> str_contains (take (2 ^ 20) (cyBody rs)) ''id=\"root\"''
       then throwE ''embedded React entrypoint is missing'' else retE ())"

section \<open>Pairing two devices\<close>

definition request_path :: "string \<Rightarrow> string" where
  "request_path requestID = ''/pairing/requests/'' @ requestID"

definition delete_trust :: "cli_host \<Rightarrow> bool \<Rightarrow> string \<Rightarrow> string \<Rightarrow> unit cm" where
  "delete_trust E wanted base deviceID =
     (if wanted then bindE (plain_request E ''DELETE'' (api base (''/pairing/trusted-devices/'' @ deviceID)) None) (\<lambda>_. retE ())
      else retE ())"

definition find_incoming :: "cli_host \<Rightarrow> string \<Rightarrow> string \<Rightarrow> pairing_request option cm" where
  "find_incoming E baseB requestID =
     bindE (tryE (cli_json E (clRequests E) ''GET'' (api baseB ''/pairing/requests'') None)) (\<lambda>r. case r of
       Inl _ \<Rightarrow> retE None
     | Inr rs \<Rightarrow> retE (case find_first (\<lambda>q. prRequestID q = requestID) rs of
           Some q \<Rightarrow> if prRequestID q = [] then None else Some q
         | None \<Rightarrow> None))"

definition accept_pairing :: "cli_host \<Rightarrow> string \<Rightarrow> string \<Rightarrow> decision cm" where
  "accept_pairing E base requestID =
     cli_json E (clDecision E) ''POST'' (api base ''/pairing/accept'') (Some [(''requestId'', JStr requestID)])"

definition paired_at :: "cli_host \<Rightarrow> string \<Rightarrow> string \<Rightarrow> unit option cm" where
  "paired_at E baseA requestID =
     bindE (tryE (cli_json E (clDecision E) ''GET'' (api baseA (request_path requestID)) None)) (\<lambda>r. case r of
       Inl _ \<Rightarrow> retE None
     | Inr d \<Rightarrow> retE (if dcTrustedDevice d \<noteq> None then Some () else None))"

text \<open>Both sides accept only after both show the same code.\<close>

definition compare_and_accept :: "nat \<Rightarrow> cli_host \<Rightarrow> string \<Rightarrow> string \<Rightarrow> time \<Rightarrow> pairing_request \<Rightarrow> pairing_request \<Rightarrow>
    unit option cm" where
  "compare_and_accept k E baseA baseB deadline initiated incoming =
     (if prVerificationCode incoming = [] \<or> prVerificationCode incoming \<noteq> prVerificationCode initiated
      then throwE ''pairing verification codes did not match''
      else
        seqE (println (''Verified development pairing code '' @ prVerificationCode initiated @ '' on both isolated devices.''))
        (seqE (bindE (accept_pairing E baseA (prRequestID initiated)) (\<lambda>_. retE ()))
        (seqE (bindE (accept_pairing E baseB (prRequestID initiated)) (\<lambda>_. retE ()))
        (poll k E deadline (100 * millisecond) (paired_at E baseA (prRequestID initiated))
           ''initiating device did not persist paired trust''))))"

definition pair_devices :: "nat \<Rightarrow> cli_host \<Rightarrow> string \<Rightarrow> string \<Rightarrow> unit option cm" where
  "pair_devices k E baseA baseB =
     bindE (cli_json E (clRequest E) ''POST'' (api baseA ''/pairing/request'') (Some [(''deviceId'', JStr deviceBID)])) (\<lambda>initiated.
     bindE (cli_now E) (\<lambda>n.
     let deadline = n + 15 * second in
     within (poll k E deadline (100 * millisecond) (find_incoming E baseB (prRequestID initiated))
         ''receiving device did not surface the pairing request'')
       (\<lambda>incoming. compare_and_accept k E baseA baseB deadline initiated incoming)))"

definition ensureMutualTrust :: "nat \<Rightarrow> cli_host \<Rightarrow> string \<Rightarrow> string \<Rightarrow> unit option cm" where
  "ensureMutualTrust k E baseA baseB =
     bindE (isTrusted E baseA deviceBID) (\<lambda>trustedA.
     bindE (isTrusted E baseB deviceAID) (\<lambda>trustedB.
     if trustedA \<and> trustedB then retE (Some ())
     else
       seqE (delete_trust E trustedA baseA deviceBID)
       (seqE (delete_trust E trustedB baseB deviceAID)
       (pair_devices k E baseA baseB))))"

section \<open>The development directory\<close>

text \<open>The file \<open>go.mod\<close> marks the root of the repository.\<close>

definition devRoot :: "cli_host \<Rightarrow> string cm" where
  "devRoot E =
     bindE (liftE (case hCwd E of None \<Rightarrow> Inl ''getwd: no such file or directory'' | Some d \<Rightarrow> Inr d)) (\<lambda>root.
     bindE (tryE (on_disk (fs_read E (\<lambda>fs. os_lstat fs (path_join [root, ''go.mod'']))))) (\<lambda>r. case r of
       Inl _ \<Rightarrow> throwE ''run this command from the SyncSpace repository root''
     | Inr _ \<Rightarrow> retE (path_join [root, ''.syncspace-dev''])))"

definition devReset :: "cli_host \<Rightarrow> unit cm" where
  "devReset E =
     bindE (devRoot E) (\<lambda>root.
     seqE (guardE (path_base root \<noteq> ''.syncspace-dev'') ''refusing to reset an unexpected path'')
     (seqE (on_disk (fs_call E (\<lambda>fs. Inr (os_remove_all root fs))))
     (println (''Reset '' @ root))))"

text \<open>The files of the seed, in one of the orders Go may iterate over its map.\<close>

definition seed_files :: "string \<Rightarrow> (string \<times> string) list" where
  "seed_files seed =
     [(path_join [seed, ''tiny.txt''], ''hello from SyncSpace'' @ [CHR 0x0A]),
      (path_join [seed, ''folder'', ''alpha.txt''], concat (replicate 200 (''alpha'' @ [CHR 0x0A]))),
      (path_join [seed, ''folder'', ''binary.bin''], concat (replicate (256 * 1024) ''SYNC''))]"

definition seedFiles :: "cli_host \<Rightarrow> string cm" where
  "seedFiles E =
     bindE (devRoot E) (\<lambda>root.
     let seed = path_join [root, ''seed''] in
     seqE (mkdir_all E (path_join [seed, ''folder'']))
     (seqE (eachE (\<lambda>(p, c). write_file E p c) (seed_files seed))
     (seqE (println (''Seeded '' @ seed)) (retE seed))))"

definition buildServer :: "cli_host \<Rightarrow> string \<Rightarrow> string cm" where
  "buildServer E root =
     (let path = path_join [root, ''bin'', ''syncspace-server'' @ (if hGOOS E = ''windows'' then ''.exe'' else [])];
          command = [''go'', ''build'', ''-o'', path, ''./backend/cmd/server'']
      in seqE (mkdir_all E (path_dir path))
         (seqE (act (Built command))
         (bindE (cli_outside (\<lambda>k. clBuild E k command)) (\<lambda>r. case r of
            Some e \<Rightarrow> throwE (''build local server: '' @ e)
          | None \<Rightarrow> retE path))))"

definition serverCommand :: "string \<Rightarrow> int \<Rightarrow> int \<Rightarrow> string \<Rightarrow> string \<Rightarrow> process" where
  "serverCommand binary port peerPort dataDir peers =
     \<lparr>poBinary = binary,
      poEnv = [(''SYNCSPACE_PORT'', int_dec port), (''SYNCSPACE_PEER_PORT'', int_dec peerPort),
        (''SYNCSPACE_HOST'', ''127.0.0.1''), (''SYNCSPACE_PEER_HOST'', ''127.0.0.1''), (''SYNCSPACE_DEV_MODE'', ''true''),
        (''SYNCSPACE_APP_VERSION'', ''dev-local''), (''SYNCSPACE_DATA_DIR'', dataDir), (''SYNCSPACE_STATIC_PEERS'', peers)]\<rparr>"

definition dev_identity :: "cli_host \<Rightarrow> string \<Rightarrow> string \<Rightarrow> identity" where
  "dev_identity E i name =
     \<lparr>idID = i, idName = name, idHostname = [], idType = ''desktop'', idPlatform = hGOOS E, idProtocolVersion = 0,
      idPublicKey = [], idFingerprint = [], idCreatedAt = time_zero, idModifiedAt = time_zero, idPrivateKey = []\<rparr>"

text \<open>The metadata of a device is overwritten; the store then binds it to the key it finds or makes.\<close>

definition writeIdentity :: "cli_host \<Rightarrow> string \<Rightarrow> identity \<Rightarrow> identity cm" where
  "writeIdentity E dataDir i =
     (let path = path_join [dataDir, ''identity.json''] in
      seqE (mkdir_all E dataDir)
      (seqE (write_file E path (hMetaEncode E i @ [CHR 0x0A]))
      (on_disk (LoadOrCreate (id_host.truncate E) path))))"

definition localPeer :: "identity \<Rightarrow> int \<Rightarrow> time \<Rightarrow> device" where
  "localPeer i port n =
     \<lparr>dID = idID i, dName = idName i, dHostname = idHostname i, dType = idType i, dPlatform = idPlatform i,
      dLocalIP = ''127.0.0.1'', dPort = port, dAppVersion = ''dev-local'', dLastSeen = n, dOnline = True,
      dConnectionState = ConnectionOnline, dAvailableStorage = 2 ^ 40, dTransferCapability = True,
      dSupportedProtocolVersion = ProtocolVersion, dMaximumChunkSize = MaximumChunkSize, dCompressionSupport = True,
      dIdentityHint = ShortFingerprint i, dPairingAvailable = True\<rparr>"

section \<open>A transfer between the devices\<close>

definition not_paired :: string where
  "not_paired = ''devices are not mutually paired; start them with `syncspace dev start` first''"

definition require_trust :: "cli_host \<Rightarrow> string \<Rightarrow> string \<Rightarrow> unit cm" where
  "require_trust E base deviceID = bindE (tryE (isTrusted E base deviceID)) (\<lambda>r. case r of
       Inr True \<Rightarrow> retE ()
     | _ \<Rightarrow> throwE not_paired)"

definition stage_tiny :: "cli_host \<Rightarrow> string \<Rightarrow> string \<Rightarrow> string cm" where
  "stage_tiny E source contents =
     bindE (cli_json E (clStage E) ''POST'' (api source ''/transfers/staging'') (Some [])) (\<lambda>stage.
     bindE (http_call E \<lparr>ccMethod = ''PUT'',
         ccURL = api source (''/transfers/staging/'' @ clPathEscape E stage @ ''/files?path=tiny.txt''), ccBody = Some contents\<rparr>) (\<lambda>rs.
     if success rs then retE stage else throwE (''stage upload returned '' @ cyStatus rs)))"

definition queue_tiny :: "cli_host \<Rightarrow> string \<Rightarrow> string \<Rightarrow> transfer cm" where
  "queue_tiny E source stage =
     cli_json E (clTransfer E) ''POST'' (api source (''/transfers/staging/'' @ clPathEscape E stage @ ''/queue''))
       (Some [(''deviceId'', JStr deviceBID), (''roots'', JStrs [''tiny.txt'']), (''conflictPolicy'', JStr ''overwrite'')])"

definition accept_incoming :: "cli_host \<Rightarrow> string \<Rightarrow> string \<Rightarrow> string \<Rightarrow> bool \<Rightarrow> transfer \<Rightarrow> bool cm" where
  "accept_incoming E destination received i accepted item =
     (if tID item = i \<and> \<not> accepted then
        bindE (tryE (cli_json E (clTransfer E) ''POST'' (api destination (''/transfers/'' @ tID item @ ''/accept''))
            (Some [(''destinationPath'', JStr received), (''conflictPolicy'', JStr ''overwrite'')])))
          (\<lambda>r. retE (case r of Inr _ \<Rightarrow> True | Inl _ \<Rightarrow> False))
      else retE accepted)"

definition accept_round :: "cli_host \<Rightarrow> string \<Rightarrow> string \<Rightarrow> string \<Rightarrow> bool \<Rightarrow> bool cm" where
  "accept_round E destination received i accepted =
     bindE (tryE (cli_json E (clTransfers E) ''GET'' (api destination ''/transfers'') None)) (\<lambda>r. case r of
       Inl _ \<Rightarrow> retE accepted
     | Inr items \<Rightarrow> foldE (accept_incoming E destination received i) accepted items)"

definition verifyCompletedHistory :: "cli_host \<Rightarrow> string \<Rightarrow> string \<Rightarrow> unit cm" where
  "verifyCompletedHistory E base i =
     bindE (cli_json E (clTransfers E) ''GET'' (api base ''/transfers'') None) (\<lambda>items.
       if \<exists>t \<in> set items. tID t = i \<and> tStatus t = StatusCompleted \<and> tProgress t = tSize t then retE ()
       else throwE ''completed transfer is missing from persistent history'')"

definition sha :: "cli_host \<Rightarrow> string \<Rightarrow> string" where
  "sha E contents = hex_encode (hSha256 E contents)"

definition verify_completed :: "cli_host \<Rightarrow> string \<Rightarrow> string \<Rightarrow> string \<Rightarrow> string \<Rightarrow> transfer \<Rightarrow> string \<Rightarrow> unit cm" where
  "verify_completed E source destination received contents current i =
     seqE (guardE (tSize current \<le> 0 \<or> tProgress current \<noteq> tSize current)
        (''completed transfer progress is '' @ int_dec (tProgress current) @ '' of '' @ int_dec (tSize current)))
     (let target = path_join [received, ''tiny.txt''] in
      bindE (read_file E target) (\<lambda>actual.
      seqE (guardE (sha E actual \<noteq> sha E contents) ''destination checksum does not match source'')
      (seqE (wrapE ''source history'' (verifyCompletedHistory E source i))
      (seqE (wrapE ''destination history'' (verifyCompletedHistory E destination i))
      (println (''Transfer '' @ i @ '' completed: '' @ target @ '' ('' @ sha E actual @ '')''))))))"

fun transfer_loop :: "nat \<Rightarrow> cli_host \<Rightarrow> string \<Rightarrow> string \<Rightarrow> string \<Rightarrow> string \<Rightarrow> string \<Rightarrow> time \<Rightarrow> bool \<Rightarrow>
    unit option cm" where
  "transfer_loop 0 E source destination received contents i deadline accepted = retE None"
| "transfer_loop (Suc k) E source destination received contents i deadline accepted =
     bindE (cli_now E) (\<lambda>n.
     if n < deadline then
       bindE (accept_round E destination received i accepted) (\<lambda>accepted'.
       bindE (tryE (cli_json E (clTransfer E) ''GET'' (api source (''/transfers/'' @ i)) None)) (\<lambda>r.
       let again = seqE (cli_sleep (200 * millisecond))
             (transfer_loop k E source destination received contents i deadline accepted')
       in case r of
         Inl _ \<Rightarrow> again
       | Inr current \<Rightarrow>
           if tStatus current = StatusCompleted
           then seqE (verify_completed E source destination received contents current i) (retE (Some ()))
           else if tStatus current = StatusFailed then throwE (''transfer failed: '' @ tError current)
           else again))
     else throwE ''timed out waiting for transfer completion'')"

definition transfer_between :: "nat \<Rightarrow> cli_host \<Rightarrow> string \<Rightarrow> string \<Rightarrow> unit option cm" where
  "transfer_between k E source destination =
     bindE (devRoot E) (\<lambda>root.
     bindE (seedFiles E) (\<lambda>seed.
     bindE (read_file E (path_join [seed, ''tiny.txt''])) (\<lambda>contents.
     seqE (require_trust E source deviceBID)
     (seqE (require_trust E destination deviceAID)
     (bindE (stage_tiny E source contents) (\<lambda>stage.
      bindE (queue_tiny E source stage) (\<lambda>queued.
      let received = path_join [root, ''device-b'', ''received''] in
      seqE (mkdir_all E received)
      (bindE (cli_now E) (\<lambda>n.
       transfer_loop k E source destination received contents (tID queued) (n + 45 * second) False))))))))) "

definition testTransfer :: "nat \<Rightarrow> cli_host \<Rightarrow> string list \<Rightarrow> unit option cm" where
  "testTransfer k E args =
     bindE (liftE (parse_flags (clQuote E) args
       [(''source'', FString ''http://127.0.0.1:8384''), (''destination'', FString ''http://127.0.0.1:8385'')])) (\<lambda>fs.
     transfer_between k E (flag_string fs ''source'') (flag_string fs ''destination''))"

section \<open>Running the devices\<close>

text \<open>A deferred call runs when the function returns, with or without an error.\<close>

definition deferE :: "'a option cm \<Rightarrow> unit cm \<Rightarrow> 'a option cm" where
  "deferE m f = (\<lambda>w. case m w of
       (Inr None, w') \<Rightarrow> (Inr None, w')
     | (r, w') \<Rightarrow> (r, snd (f w')))"

text \<open>Only processes that were started are killed.\<close>

definition stopCommands :: "nat \<Rightarrow> unit cm" where
  "stopCommands started = eachE (\<lambda>i. act (Killed i)) [0..<started]"

fun start_commands :: "cli_host \<Rightarrow> nat \<Rightarrow> process list \<Rightarrow> unit cm" where
  "start_commands E i [] = retE ()"
| "start_commands E i (c # cs) =
     bindE (cli_outside (\<lambda>k. clStart E k c)) (\<lambda>r. case r of
       Some e \<Rightarrow> seqE (stopCommands i) (throwE (''start device '' @ [char_of (65 + i)] @ '': '' @ e))
     | None \<Rightarrow> seqE (act (Started c)) (start_commands E (Suc i) cs))"

definition local_url :: "int \<Rightarrow> string" where
  "local_url port = ''http://127.0.0.1:'' @ int_dec port"

text \<open>From two running processes to two healthy, paired devices.\<close>

definition open_lab :: "nat \<Rightarrow> cli_host \<Rightarrow> string \<Rightarrow> string \<Rightarrow> unit option cm" where
  "open_lab k E urlA urlB =
     within (wrapE ''device A startup'' (waitPrivacyPolicy k E urlA (30 * second))) (\<lambda>_.
     within (wrapE ''device B startup'' (waitPrivacyPolicy k E urlB (30 * second))) (\<lambda>_.
     seqE (wrapE ''Device A frontend'' (waitFrontend E urlA))
     (seqE (wrapE ''Device B frontend'' (waitFrontend E urlB))
     (seqE (wrapE ''Device A privacy acceptance'' (acceptCurrentPrivacyPolicy E urlA))
     (seqE (wrapE ''Device B privacy acceptance'' (acceptCurrentPrivacyPolicy E urlB))
     (within (wrapE ''device A after privacy acceptance'' (waitHealthy k E urlA (30 * second))) (\<lambda>_.
      within (wrapE ''device B after privacy acceptance'' (waitHealthy k E urlB (30 * second))) (\<lambda>_.
      wrapE ''complete verified development pairing'' (ensureMutualTrust k E urlA urlB)))))))))"

definition verify_lab :: "nat \<Rightarrow> cli_host \<Rightarrow> string \<Rightarrow> string \<Rightarrow> unit option cm" where
  "verify_lab k E urlA urlB =
     seqE (println ''Two-device lab is healthy; running end-to-end transfer verification...'')
     (within (wrapE ''end-to-end verification''
         (testTransfer k E [''--source'', urlA, ''--destination'', urlB])) (\<lambda>_.
      seqE (println ''End-to-end verification passed; both local devices are stopping.'') (retE (Some ()))))"

text \<open>\<open>clExit\<close> is the first exit of a process, \<open>None\<close> when the signal comes first.\<close>

definition await_exit :: "cli_host \<Rightarrow> unit option cm" where
  "await_exit E =
     bindE (cli_outside (clExit E)) (\<lambda>r. case r of
       None \<Rightarrow> retE (Some ())
     | Some ended \<Rightarrow>
         bindE (cli_outside (clDone E)) (\<lambda>d.
           if d \<noteq> None then retE (Some ())
           else throwE (case ended of
             None \<Rightarrow> ''a local device stopped unexpectedly''
           | Some e \<Rightarrow> ''a local device stopped: '' @ e)))"

definition lab_ready :: "string \<Rightarrow> string \<Rightarrow> string \<Rightarrow> string" where
  "lab_ready urlA urlB root =
     ''Two-device lab is ready.  Device A: '' @ urlA @ ''  Device B: '' @ urlB @ ''  Data: '' @ root"

definition run_lab :: "nat \<Rightarrow> cli_host \<Rightarrow> bool \<Rightarrow> string \<Rightarrow> string \<Rightarrow> string \<Rightarrow> process list \<Rightarrow> unit option cm" where
  "run_lab k E verify urlA urlB root commands =
     seqE (start_commands E 0 commands)
     (deferE
       (within (open_lab k E urlA urlB) (\<lambda>_.
          if verify then verify_lab k E urlA urlB
          else seqE (println (lab_ready urlA urlB root)) (await_exit E)))
       (stopCommands (length commands)))"

definition devStart :: "nat \<Rightarrow> cli_host \<Rightarrow> string list \<Rightarrow> unit option cm" where
  "devStart k E args =
     bindE (liftE (parse_flags (clQuote E) args
       [(''port-a'', FInt 8384), (''port-b'', FInt 8385), (''verify'', FBool False)])) (\<lambda>fs.
     let portA = flag_int fs ''port-a''; portB = flag_int fs ''port-b'';
         peerPortA = wrap64 (portA + 10000); peerPortB = wrap64 (portB + 10000);
         urlA = local_url portA; urlB = local_url portB in
     bindE (devRoot E) (\<lambda>root.
     seqE (mkdir_all E root)
     (bindE (buildServer E root) (\<lambda>binary.
      let dirA = path_join [root, ''device-a'']; dirB = path_join [root, ''device-b''] in
      bindE (writeIdentity E dirA (dev_identity E deviceAID ''SyncSpace Device A'')) (\<lambda>identityA.
      bindE (writeIdentity E dirB (dev_identity E deviceBID ''SyncSpace Device B'')) (\<lambda>identityB.
      seqE (guardE (65535 < peerPortA \<or> 65535 < peerPortB) ''development ports are too high to allocate peer TLS ports'')
      (bindE (cli_now E) (\<lambda>nA. bindE (cli_now E) (\<lambda>nB.
       let peersOfA = clDeviceJson E [localPeer identityB peerPortB nB];
           peersOfB = clDeviceJson E [localPeer identityA peerPortA nA] in
       run_lab k E (flag_bool fs ''verify'') urlA urlB root
         [serverCommand binary portA peerPortA dirA peersOfA, serverCommand binary portB peerPortB dirB peersOfB])))))))))"

text \<open>
  One device in the foreground. Its exit is the result, and a signal kills it; \<open>label\<close> is \<open>a\<close> or \<open>b\<close>.
\<close>

definition run_device :: "cli_host \<Rightarrow> process \<Rightarrow> unit option cm" where
  "run_device E c =
     bindE (cli_outside (\<lambda>k. clStart E k c)) (\<lambda>r. case r of
       Some e \<Rightarrow> throwE e
     | None \<Rightarrow> seqE (act (Started c)) (bindE (cli_outside (clExit E)) (\<lambda>ended. case ended of
         Some None \<Rightarrow> retE (Some ())
       | Some (Some e) \<Rightarrow> throwE e
       | None \<Rightarrow> throwE ''signal: killed'')))"

definition devDevice :: "cli_host \<Rightarrow> string \<Rightarrow> string list \<Rightarrow> unit option cm" where
  "devDevice E label args =
     (let isB = (label = ''b''); port0 = (if isB then 8385 else 8384 :: int); peerPort0 = (if isB then 8384 else 8385) + 10000;
          (selfID, selfName, peerID, peerName) =
            (if isB then (deviceBID, ''SyncSpace Device B'', deviceAID, ''SyncSpace Device A'')
             else (deviceAID, ''SyncSpace Device A'', deviceBID, ''SyncSpace Device B''));
          other = (if label = ''a'' then ''b'' else if label = ''b'' then ''a'' else [])
      in
      bindE (liftE (parse_flags (clQuote E) args
        [(''port'', FInt port0), (''peer-port'', FInt peerPort0), (''listen-peer-port'', FInt (port0 + 10000))])) (\<lambda>fs.
      bindE (devRoot E) (\<lambda>root.
      bindE (buildServer E root) (\<lambda>binary.
      let dataDir = path_join [root, ''device-'' @ label] in
      bindE (writeIdentity E dataDir (dev_identity E selfID selfName)) (\<lambda>_.
      bindE (tryE (writeIdentity E (path_join [root, ''device-'' @ other]) (dev_identity E peerID peerName))) (\<lambda>r.
      let peerIdentity = (case r of Inr i \<Rightarrow> i | Inl _ \<Rightarrow> dev_identity E peerID peerName) in
      bindE (cli_now E) (\<lambda>n.
      seqE (println (''Starting '' @ selfName @ '' at http://127.0.0.1:'' @ int_dec (flag_int fs ''port'') @ '' with data in '' @ dataDir))
      (run_device E (serverCommand binary (flag_int fs ''port'') (flag_int fs ''listen-peer-port'') dataDir
         (clDeviceJson E [localPeer peerIdentity (flag_int fs ''peer-port'') n]))))))))))"

section \<open>The other commands\<close>

definition doctor :: "cli_host \<Rightarrow> string list \<Rightarrow> unit cm" where
  "doctor E args =
     bindE (liftE (parse_flags (clQuote E) args [(''url'', FString ''http://127.0.0.1:8384'')])) (\<lambda>fs.
     bindE (cli_json E (clIndent E) ''GET'' (api (flag_string fs ''url'') ''/health'') None) println)"

definition simulateDevice :: "cli_host \<Rightarrow> string list \<Rightarrow> unit cm" where
  "simulateDevice E args =
     bindE (liftE (parse_flags (clQuote E) args
       [(''url'', FString ''http://127.0.0.1:8384''), (''scenario'', FString ''flaky''), (''name'', FString []), (''trusted'', FBool False)]))
     (\<lambda>fs. bindE (cli_json E (clIndent E) ''POST'' (flag_string fs ''url'' @ ''/dev/simulated-devices'')
       (Some [(''name'', JStr (flag_string fs ''name'')), (''scenario'', JStr (flag_string fs ''scenario'')),
              (''trusted'', JBool (flag_bool fs ''trusted''))])) println)"

text \<open>A relative output path is one below the working directory.\<close>

definition resolved :: "cli_host \<Rightarrow> string \<Rightarrow> string" where
  "resolved E p = (case path_abs (hCwd E) p of Some q \<Rightarrow> q | None \<Rightarrow> p)"

definition exportDiagnostics :: "cli_host \<Rightarrow> string list \<Rightarrow> unit cm" where
  "exportDiagnostics E args =
     bindE (liftE (parse_flags (clQuote E) args
       [(''url'', FString ''http://127.0.0.1:8384''), (''output'', FString ''syncspace-diagnostics.zip'')])) (\<lambda>fs.
     bindE (http_get E (api (flag_string fs ''url'') ''/diagnostics/export'')) (\<lambda>rs.
     seqE (guardE (\<not> success rs) (''export returned '' @ cyStatus rs))
     (seqE (write_file E (resolved E (flag_string fs ''output'')) (cyBody rs))
     (println (''Wrote '' @ flag_string fs ''output'')))))"

definition usage :: "unit cm" where
  "usage = eachE println
     [''SyncSpace developer CLI'', [],
      ''  syncspace-cli --version'',
      ''  syncspace doctor [--url http://127.0.0.1:8384]'',
      ''  syncspace dev start [--port-a 8384 --port-b 8385]'',
      ''  syncspace dev verify [--port-a 8384 --port-b 8385]'',
      ''  syncspace dev device-a [--port 8384 --peer-port 18385 --listen-peer-port 18384]'',
      ''  syncspace dev device-b [--port 8385 --peer-port 18384 --listen-peer-port 18385]'',
      ''  syncspace dev reset'',
      ''  syncspace dev seed'',
      ''  syncspace test-transfer'',
      ''  syncspace export-diagnostics [--output diagnostics.zip]'']"

definition done_after :: "'a cm \<Rightarrow> unit option cm" where
  "done_after m = bindE m (\<lambda>_. retE (Some ()))"

definition dev :: "nat \<Rightarrow> cli_host \<Rightarrow> string list \<Rightarrow> unit option cm" where
  "dev k E args = (case args of
       [] \<Rightarrow> done_after usage
     | c # rest \<Rightarrow>
         if c = ''start'' then devStart k E rest
         else if c = ''verify'' then devStart k E (''--verify'' # rest)
         else if c = ''device-a'' then devDevice E ''a'' rest
         else if c = ''device-b'' then devDevice E ''b'' rest
         else if c = ''reset'' then done_after (devReset E)
         else if c = ''seed'' then done_after (seedFiles E)
         else if c = ''simulate-device'' then done_after (simulateDevice E rest)
         else throwE (''unknown dev command '' @ clQuote E c))"

definition run :: "nat \<Rightarrow> cli_host \<Rightarrow> string \<Rightarrow> string list \<Rightarrow> unit option cm" where
  "run k E buildVersion args = (case args of
       [] \<Rightarrow> done_after usage
     | c # rest \<Rightarrow>
         if c = ''version'' \<or> c = ''--version'' then done_after (println buildVersion)
         else if c = ''doctor'' then done_after (doctor E rest)
         else if c = ''dev'' then dev k E rest
         else if c = ''test-transfer'' then testTransfer k E rest
         else if c = ''export-diagnostics'' then done_after (exportDiagnostics E rest)
         else if c = ''help'' \<or> c = ''-h'' \<or> c = ''--help'' then done_after usage
         else throwE (''unknown command '' @ clQuote E c))"

section \<open>What the commands guarantee\<close>

text \<open>A successful answer of the outside to a call.\<close>

definition answered :: "cli_host \<Rightarrow> string \<Rightarrow> string \<Rightarrow> (string \<times> json_value) list option \<Rightarrow> string \<Rightarrow> bool" where
  "answered E meth url input body \<longleftrightarrow> (\<exists>n rs.
     clHttp E n \<lparr>ccMethod = meth, ccURL = url, ccBody = map_option (clEncode E) input\<rparr> = Inr rs \<and> success rs \<and> cyBody rs = body)"

lemma http_call_InrD: "http_call E c w = (Inr rs, w') \<Longrightarrow> \<exists>n. clHttp E n c = Inr rs"
  by (auto simp: http_call_def act_def cli_outside_def gom_defs split: sum.splits)

lemma plain_request_InrD:
  assumes "plain_request E meth url input w = (Inr body, w')"
  shows "answered E meth url input body"
proof -
  obtain rs v where "http_call E \<lparr>ccMethod = meth, ccURL = url, ccBody = map_option (clEncode E) input\<rparr> w = (Inr rs, v)"
    "success rs" "cyBody rs = body"
    using assms by (auto simp: plain_request_def retE_def throwE_def split: if_splits elim!: bindE_InrE)
  then show ?thesis unfolding answered_def using http_call_InrD by blast
qed

lemma cli_json_InrD:
  assumes "cli_json E decode meth url input w = (Inr x, w')"
  shows "\<exists>body. answered E meth url input body \<and> decode body = Inr x"
proof -
  obtain body v where "plain_request E meth url input w = (Inr body, v)" "decode body = Inr x"
    using assms by (auto simp: cli_json_def liftE_def elim!: bindE_InrE)
  then show ?thesis using plain_request_InrD by blast
qed

definition trusts :: "cli_host \<Rightarrow> string \<Rightarrow> string \<Rightarrow> bool" where
  "trusts E base deviceID \<longleftrightarrow> (\<exists>body ids. answered E ''GET'' (api base ''/pairing/trusted-devices'') None body \<and>
     clTrusted E body = Inr ids \<and> deviceID \<in> set ids)"

lemma isTrusted_InrD:
  assumes "isTrusted E base i w = (Inr True, w')"
  shows "trusts E base i"
proof -
  obtain ids v where "cli_json E (clTrusted E) ''GET'' (api base ''/pairing/trusted-devices'') None w = (Inr ids, v)" "i \<in> set ids"
    using assms by (auto simp: isTrusted_def retE_def elim!: bindE_InrE)
  then show ?thesis unfolding trusts_def using cli_json_InrD by fast
qed

lemma find_incoming_InrD:
  assumes "find_incoming E baseB i w = (Inr (Some q), w')"
  shows "\<exists>body rs. answered E ''GET'' (api baseB ''/pairing/requests'') None body \<and> clRequests E body = Inr rs \<and>
     q \<in> set rs \<and> prRequestID q = i"
proof -
  obtain rs v where "cli_json E (clRequests E) ''GET'' (api baseB ''/pairing/requests'') None w = (Inr rs, v)"
    "find_first (\<lambda>q. prRequestID q = i) rs = Some q"
    using assms by (auto simp: find_incoming_def tryE_def retE_def elim!: bindE_InrE
        split: sum.splits option.splits if_splits prod.splits)
  then show ?thesis using cli_json_InrD find_first_SomeD by fast
qed

lemma paired_at_InrD:
  assumes "paired_at E baseA i w = (Inr (Some u), w')"
  shows "\<exists>body d. answered E ''GET'' (api baseA (request_path i)) None body \<and> clDecision E body = Inr d \<and>
    dcTrustedDevice d \<noteq> None"
proof -
  obtain d v where "cli_json E (clDecision E) ''GET'' (api baseA (request_path i)) None w = (Inr d, v)" "dcTrustedDevice d \<noteq> None"
    using assms by (auto simp: paired_at_def tryE_def retE_def elim!: bindE_InrE split: sum.splits if_splits prod.splits)
  then show ?thesis using cli_json_InrD by fast
qed

definition accepts :: "cli_host \<Rightarrow> string \<Rightarrow> string \<Rightarrow> bool" where
  "accepts E base requestID \<longleftrightarrow>
     (\<exists>body. answered E ''POST'' (api base ''/pairing/accept'') (Some [(''requestId'', JStr requestID)]) body)"

lemma accept_pairing_InrD: "accept_pairing E base i w = (Inr d, w') \<Longrightarrow> accepts E base i"
  unfolding accept_pairing_def accepts_def using cli_json_InrD by fast

text \<open>The devices showed the same code to both sides and both accepted it.\<close>

definition verified_pairing :: "cli_host \<Rightarrow> string \<Rightarrow> string \<Rightarrow> bool" where
  "verified_pairing E baseA baseB \<longleftrightarrow> (\<exists>started initiated listed rs incoming.
     answered E ''POST'' (api baseA ''/pairing/request'') (Some [(''deviceId'', JStr deviceBID)]) started \<and>
     clRequest E started = Inr initiated \<and>
     answered E ''GET'' (api baseB ''/pairing/requests'') None listed \<and> clRequests E listed = Inr rs \<and>
     incoming \<in> set rs \<and> prRequestID incoming = prRequestID initiated \<and>
     prVerificationCode incoming = prVerificationCode initiated \<and> prVerificationCode initiated \<noteq> [] \<and>
     accepts E baseA (prRequestID initiated) \<and> accepts E baseB (prRequestID initiated) \<and>
     (\<exists>body d. answered E ''GET'' (api baseA (request_path (prRequestID initiated))) None body \<and>
        clDecision E body = Inr d \<and> dcTrustedDevice d \<noteq> None))"

lemma compare_and_accept_InrD:
  assumes "compare_and_accept k E baseA baseB deadline initiated incoming w = (Inr (Some u), w')"
  shows "prVerificationCode incoming = prVerificationCode initiated \<and> prVerificationCode initiated \<noteq> [] \<and>
    accepts E baseA (prRequestID initiated) \<and> accepts E baseB (prRequestID initiated) \<and>
    (\<exists>v. paired_at E baseA (prRequestID initiated) v = (Inr (Some u), w'))"
  using assms unfolding compare_and_accept_def
  by (auto simp: throwE_def split: if_splits elim!: seqE_InrE bindE_InrE dest!: accept_pairing_InrD poll_InrD)

text \<open>
  Two devices count as mutually trusted only when both said so, or when both showed the same
  non-empty code for one request, both accepted it and the first stored the second.
\<close>

lemma ensureMutualTrust_verified:
  assumes "ensureMutualTrust k E baseA baseB w = (Inr (Some ()), w')"
  shows "trusts E baseA deviceBID \<and> trusts E baseB deviceAID \<or> verified_pairing E baseA baseB"
proof -
  obtain a w1 b w2 where t: "isTrusted E baseA deviceBID w = (Inr a, w1)" "isTrusted E baseB deviceAID w1 = (Inr b, w2)"
    "(if a \<and> b then retE (Some ()) else seqE (delete_trust E a baseA deviceBID)
       (seqE (delete_trust E b baseB deviceAID) (pair_devices k E baseA baseB))) w2 = (Inr (Some ()), w')"
    using assms unfolding ensureMutualTrust_def by (auto elim!: bindE_InrE)
  show ?thesis
  proof (cases "a \<and> b")
    case True
    then show ?thesis using t(1,2) isTrusted_InrD by auto
  next
    case False
    then obtain v where "pair_devices k E baseA baseB v = (Inr (Some ()), w')"
      using t(3) by (auto elim!: seqE_InrE)
    then obtain q v1 n v2 where
      r: "cli_json E (clRequest E) ''POST'' (api baseA ''/pairing/request'') (Some [(''deviceId'', JStr deviceBID)]) v = (Inr q, v1)"
      and w: "within (poll k E (n + 15 * second) (100 * millisecond) (find_incoming E baseB (prRequestID q))
         ''receiving device did not surface the pairing request'')
       (\<lambda>incoming. compare_and_accept k E baseA baseB (n + 15 * second) q incoming) v2 = (Inr (Some ()), w')"
      unfolding pair_devices_def Let_def by (auto elim!: bindE_InrE)
    obtain q' v3 v4 where i: "find_incoming E baseB (prRequestID q) v4 = (Inr (Some q'), v3)"
      and c: "compare_and_accept k E baseA baseB (n + 15 * second) q q' v3 = (Inr (Some ()), w')"
      using within_InrD [OF w] by (auto dest: poll_InrD)
    obtain started where s: "answered E ''POST'' (api baseA ''/pairing/request'') (Some [(''deviceId'', JStr deviceBID)]) started"
      "clRequest E started = Inr q" using cli_json_InrD [OF r] by blast
    obtain v5 where p: "paired_at E baseA (prRequestID q) v5 = (Inr (Some ()), w')" using compare_and_accept_InrD [OF c] by blast
    show ?thesis unfolding verified_pairing_def
      using s find_incoming_InrD [OF i] compare_and_accept_InrD [OF c] paired_at_InrD [OF p] by blast
  qed
qed

text \<open>A verified transfer: the bytes at the destination have the checksum of the source, on both records.\<close>

definition completed_at :: "cli_host \<Rightarrow> string \<Rightarrow> string \<Rightarrow> bool" where
  "completed_at E base i \<longleftrightarrow> (\<exists>body ts t. answered E ''GET'' (api base ''/transfers'') None body \<and> clTransfers E body = Inr ts \<and>
     t \<in> set ts \<and> tID t = i \<and> tStatus t = StatusCompleted \<and> tProgress t = tSize t)"

lemma wrapE_InrD: "wrapE pre m w = (Inr a, w') \<Longrightarrow> m w = (Inr a, w')"
  by (auto simp: wrapE_def split: prod.splits sum.splits)

lemma verifyCompletedHistory_InrD:
  assumes "verifyCompletedHistory E base i w = (Inr u, w')"
  shows "completed_at E base i"
proof -
  obtain ts v t where "cli_json E (clTransfers E) ''GET'' (api base ''/transfers'') None w = (Inr ts, v)"
    "t \<in> set ts" "tID t = i" "tStatus t = StatusCompleted" "tProgress t = tSize t"
    using assms by (auto simp: verifyCompletedHistory_def throwE_def elim!: bindE_InrE split: if_splits)
  then show ?thesis unfolding completed_at_def using cli_json_InrD by fast
qed

lemma verify_completed_InrD:
  assumes "verify_completed E source destination received contents current i w = (Inr u, w')"
  shows "completed_at E source i \<and> completed_at E destination i \<and>
    (\<exists>v v' actual. read_file E (path_join [received, ''tiny.txt'']) v = (Inr actual, v') \<and> sha E actual = sha E contents)"
proof -
  obtain actual v v' v1 v2 v3 where "read_file E (path_join [received, ''tiny.txt'']) v = (Inr actual, v')"
    "sha E actual = sha E contents" "verifyCompletedHistory E source i v1 = (Inr (), v2)"
    "verifyCompletedHistory E destination i v2 = (Inr (), v3)"
    using assms unfolding verify_completed_def Let_def
    by (auto simp: guardE_def throwE_def split: if_splits elim!: seqE_InrE bindE_InrE dest!: wrapE_InrD)
  then show ?thesis using verifyCompletedHistory_InrD by blast
qed

lemma transfer_loop_InrD:
  "transfer_loop k E source destination received contents i deadline accepted w = (Inr (Some u), w') \<Longrightarrow>
   \<exists>current v. verify_completed E source destination received contents current i v = (Inr (), w')"
proof (induction k arbitrary: accepted w)
  case (Suc k)
  show ?case
  proof (rule ccontr)
    assume "\<not> ?thesis"
    then show False using Suc.prems Suc.IH
      by (fastforce simp: Let_def throwE_def retE_def elim!: bindE_InrE seqE_InrE split: if_splits sum.splits)
  qed
qed (simp add: retE_def)

lemma require_trust_InrD: "require_trust E base i w = (Inr u, w') \<Longrightarrow> trusts E base i"
  by (auto simp: require_trust_def tryE_def throwE_def elim!: bindE_InrE dest: isTrusted_InrD
      split: prod.splits sum.splits bool.splits)

lemma transfer_between_verified:
  assumes "transfer_between k E source destination w = (Inr (Some ()), w')"
  shows "trusts E source deviceBID \<and> trusts E destination deviceAID \<and>
    (\<exists>i received contents actual v v'. completed_at E source i \<and> completed_at E destination i \<and>
       read_file E (path_join [received, ''tiny.txt'']) v = (Inr actual, v') \<and> sha E actual = sha E contents)"
proof -
  obtain root contents i n acc v v1 v2 v3 v4 where
    "require_trust E source deviceBID v1 = (Inr (), v2)" "require_trust E destination deviceAID v2 = (Inr (), v3)"
    and l: "transfer_loop k E source destination (path_join [root, ''device-b'', ''received'']) contents i n acc v = (Inr (Some ()), w')"
    using assms unfolding transfer_between_def Let_def by (elim bindE_InrE seqE_InrE) (rule that; simp)
  moreover obtain current v5 where
    "verify_completed E source destination (path_join [root, ''device-b'', ''received'']) contents current i v5 = (Inr (), w')"
    using transfer_loop_InrD [OF l] by blast
  ultimately show ?thesis using require_trust_InrD verify_completed_InrD by meson
qed

section \<open>No process is left behind\<close>

text \<open>What a command did to other processes, and the commands that do nothing to them.\<close>

definition proc_actions :: "cli_world \<Rightarrow> action list" where
  "proc_actions w = filter (\<lambda>a. case a of Started _ \<Rightarrow> True | Killed _ \<Rightarrow> True | _ \<Rightarrow> False) (cvTrace w)"

abbreviation silent :: "action list \<Rightarrow> 'a cm \<Rightarrow> bool" where
  "silent v m \<equiv> keeps (\<lambda>w. proc_actions w = v) m"

lemma silent_act [keeps_rules]:
  "silent v (act (Called c))" "silent v (act (Printed s))" "silent v (act (Slept d))" "silent v (act (Built b))"
  by (simp_all add: act_def keeps_mod proc_actions_def)

lemma silent_steps [keeps_rules]:
  "silent v (cli_outside f)" "silent v (cli_now E)" "silent v (on_disk m)"
  by (simp_all add: keeps_def cli_outside_def cli_now_def on_disk_def proc_actions_def split: prod.split sum.split)

lemma silent_wrap [keeps_rules]: "silent v m \<Longrightarrow> silent v (wrapE pre m)"
  by (auto simp: keeps_def wrapE_def split: prod.splits sum.splits)

lemma silent_within [keeps_rules]: "silent v m \<Longrightarrow> (\<And>a. silent v (f a)) \<Longrightarrow> silent v (within m f)"
  unfolding within_def by (intro keeps_rules)

lemma silent_sleep [keeps_rules]: "silent v (cli_sleep d)"
  unfolding cli_sleep_def by (intro keeps_rules) (simp add: keeps_mod proc_actions_def)

lemma silent_http [keeps_rules]: "silent v (http_call E c)"
  unfolding http_call_def by (intro keeps_rules keeps_mod) (simp add: proc_actions_def)

lemma silent_poll [keeps_rules]: "silent v att \<Longrightarrow> silent v (poll k E deadline pause att timeout)"
  by (induction k) (auto intro!: keeps_rules)

lemma silent_files [keeps_rules]:
  "silent v (mkdir_all E p)" "silent v (read_file E p)" "silent v (write_file E p c)" "silent v (println s)"
  "silent v (http_get E u)"
  unfolding mkdir_all_def read_file_def write_file_def println_def http_get_def by (intro keeps_rules)+

lemma silent_json [keeps_rules]: "silent v (plain_request E meth url input)" "silent v (cli_json E dec meth url input)"
  unfolding plain_request_def cli_json_def by (intro keeps_rules)+

lemma silent_pairing [keeps_rules]:
  "silent v (isTrusted E b i)" "silent v (acceptCurrentPrivacyPolicy E b)" "silent v (ready_at E u)" "silent v (waitFrontend E b)"
  "silent v (delete_trust E x b i)" "silent v (find_incoming E b i)" "silent v (accept_pairing E b i)" "silent v (paired_at E b i)"
  unfolding isTrusted_def acceptCurrentPrivacyPolicy_def ready_at_def waitFrontend_def delete_trust_def find_incoming_def
    accept_pairing_def paired_at_def by (intro keeps_rules)+

lemma silent_trust [keeps_rules]:
  "silent v (waitHealthy k E b t)" "silent v (waitPrivacyPolicy k E b t)" "silent v (ensureMutualTrust k E a b)"
  unfolding waitHealthy_def waitPrivacyPolicy_def ensureMutualTrust_def pair_devices_def compare_and_accept_def
  by (intro keeps_rules)+

lemma silent_transfer [keeps_rules]:
  "silent v (devRoot E)" "silent v (seedFiles E)" "silent v (accept_round E d r i a)" "silent v (verifyCompletedHistory E b i)"
  "silent v (stage_tiny E s c)" "silent v (queue_tiny E s st)" "silent v (require_trust E b i)"
  unfolding devRoot_def seedFiles_def accept_round_def accept_incoming_def verifyCompletedHistory_def stage_tiny_def
    queue_tiny_def require_trust_def by (intro keeps_rules | simp split: bool.split add: keeps_rules)+

lemma silent_loop [keeps_rules]: "silent v (transfer_loop k E s d r c i dl a)"
  by (induction k arbitrary: a) (auto simp: verify_completed_def intro!: keeps_rules)

lemma silent_lab [keeps_rules]:
  "silent v (testTransfer k E args)" "silent v (open_lab k E a b)" "silent v (verify_lab k E a b)" "silent v (await_exit E)"
  "silent v (buildServer E root)" "silent v (writeIdentity E dir i)"
  unfolding testTransfer_def transfer_between_def open_lab_def verify_lab_def await_exit_def buildServer_def writeIdentity_def
  by (intro keeps_rules)+

text \<open>When a command returns, the processes it started are those it killed, in the same order.\<close>

definition tidy :: "'a option cm \<Rightarrow> bool" where
  "tidy m \<longleftrightarrow> (\<forall>w r w'. m w = (r, w') \<and> r \<noteq> Inr None \<longrightarrow>
     (\<exists>cs. proc_actions w' = proc_actions w @ map Started cs @ map Killed [0..<length cs]))"

lemma tidy_bind:
  assumes "\<And>v. silent v m" "\<And>a. tidy (f a)"
  shows "tidy (bindE m f)"
  unfolding tidy_def
proof (intro allI impI, elim conjE)
  fix w r w' assume b: "bindE m f w = (r, w')" "r \<noteq> Inr None"
  obtain x v where m: "m w = (x, v)" by fastforce
  have v: "proc_actions v = proc_actions w" using assms(1) [of "proc_actions w"] m by (auto simp: keeps_def)
  show "\<exists>cs. proc_actions w' = proc_actions w @ map Started cs @ map Killed [0..<length cs]"
  proof (cases x)
    case (Inl e)
    then show ?thesis using b m v by (auto simp: bindE_def intro: exI [of _ "[]"])
  next
    case (Inr a)
    then have "f a v = (r, w')" using b m by (simp add: bindE_def)
    then show ?thesis using assms(2) [of a] b(2) unfolding tidy_def v [symmetric] by blast
  qed
qed

lemma tidy_seq: "(\<And>v. silent v m) \<Longrightarrow> tidy n \<Longrightarrow> tidy (seqE m n)"
  unfolding seqE_def by (rule tidy_bind)

lemma proc_stop: "stopCommands n w = (r, w') \<Longrightarrow> r = Inr () \<and> proc_actions w' = proc_actions w @ map Killed [0..<n]"
proof -
  have "eachE (\<lambda>i. act (Killed i)) is w = (r, w') \<Longrightarrow> r = Inr () \<and> proc_actions w' = proc_actions w @ map Killed is" for "is"
    by (induction "is" arbitrary: w) (auto simp: act_def gom_defs proc_actions_def)
  then show "stopCommands n w = (r, w') \<Longrightarrow> ?thesis" unfolding stopCommands_def .
qed

lemma proc_start:
  "start_commands E i cs w = (r, w') \<Longrightarrow>
   (r = Inr () \<and> proc_actions w' = proc_actions w @ map Started cs) \<or>
   ((\<exists>e. r = Inl e) \<and> (\<exists>ds. proc_actions w' = proc_actions w @ map Started ds @ map Killed [0..<i + length ds]))"
proof (induction cs arbitrary: i w)
  case (Cons c cs)
  let ?w = "w\<lparr>cvDisk := bump (cvDisk w)\<rparr>"
  have same: "proc_actions ?w = proc_actions w" by (simp add: proc_actions_def)
  show ?case
  proof (cases "clStart E (wTick (cvDisk w)) c")
    case (Some e)
    then obtain w1 where "stopCommands i ?w = (Inr (), w1)" "r = Inl (''start device '' @ [char_of (65 + i)] @ '': '' @ e)" "w' = w1"
      using Cons.prems proc_stop [of i ?w]
      by (cases "stopCommands i ?w") (auto simp: cli_outside_def bindE_def seqE_def throwE_def)
    then show ?thesis using proc_stop [of i ?w "Inr ()" w1] same by (auto intro!: exI [of _ "[]"])
  next
    case None
    let ?v = "?w\<lparr>cvTrace := cvTrace w @ [Started c]\<rparr>"
    have "start_commands E (Suc i) cs ?v = (r, w')"
      using Cons.prems None by (simp add: cli_outside_def bindE_def seqE_def act_def modE_def)
    moreover have "proc_actions ?v = proc_actions w @ [Started c]" by (simp add: proc_actions_def)
    ultimately show ?thesis using Cons.IH [of "Suc i" ?v]
      by (auto intro: exI [of _ "c # ds" for ds])
  qed
qed (simp add: retE_def)

lemma tidy_run_lab: "tidy (run_lab k E verify urlA urlB root commands)"
  unfolding tidy_def
proof (intro allI impI, elim conjE)
  fix w r w' assume b: "run_lab k E verify urlA urlB root commands w = (r, w')" "r \<noteq> Inr None"
  define body where "body = within (open_lab k E urlA urlB) (\<lambda>_. if verify then verify_lab k E urlA urlB
    else seqE (println (lab_ready urlA urlB root)) (await_exit E))"
  have quiet: "silent v body" for v unfolding body_def by (intro keeps_rules)
  obtain x v where s: "start_commands E 0 commands w = (x, v)" by fastforce
  have b': "seqE (start_commands E 0 commands) (deferE body (stopCommands (length commands))) w = (r, w')"
    using b(1) unfolding run_lab_def body_def .
  show "\<exists>cs. proc_actions w' = proc_actions w @ map Started cs @ map Killed [0..<length cs]"
  proof (cases x)
    case (Inl e)
    then show ?thesis using b' s proc_start [OF s] by (auto simp: seqE_Inl)
  next
    case (Inr u)
    then have p: "proc_actions v = proc_actions w @ map Started commands" using proc_start [OF s] by auto
    obtain y v1 where y: "body v = (y, v1)" by fastforce
    have q: "proc_actions v1 = proc_actions v" using quiet [of "proc_actions v"] y by (auto simp: keeps_def)
    obtain z v2 where z: "stopCommands (length commands) v1 = (z, v2)" by fastforce
    have "y \<noteq> Inr None \<and> w' = v2" using b' b(2) s Inr y z
      by (auto simp: seqE_Inr deferE_def split: sum.splits option.splits)
    then show ?thesis using proc_stop [OF z] p q by auto
  qed
qed

lemma devStart_tidy: "tidy (devStart k E args)"
  unfolding devStart_def Let_def
  by (intro tidy_bind tidy_seq tidy_run_lab keeps_rules)

end
