(* ===== verification/Spec2Isabelle.thy ===== *)
theory Spec2Isabelle
  imports TransferJourney TransferStaging PairingCeremony DiscoveryBrowse Sockets Startup
    Frontend Desktop DevCli
begin

text \<open>
  A verification development of SyncSpace: a daemon that discovers devices on the local network,
  pairs with them and exchanges files, with the programs that host it. It models the Go code under
  \<open>src/backend\<close>.

  \<^bold>\<open>The program.\<close> \<open>serverapp.Run\<close> builds one process. A discovery service announces the device over
  mDNS and feeds a registry with what it hears; the registry publishes every change. A pairing service
  runs a signed key exchange with a discovered device, in which both users compare a code, and keeps
  the devices they trusted in SQLite. A transfer engine queues files for trusted devices, sends them in
  checksummed chunks over TLS pinned to the paired key, and takes the offers of others; its transfers
  live in SQLite and its files in a data directory. An HTTP router exposes management to this machine
  and a small protocol to peers, behind a gate that stays closed until the privacy policy is accepted;
  WebSocket brokers push the events to the user interface. A supervisor starts and stops discovery and
  transfers as the settings say.

  \<^bold>\<open>Conventions.\<close> A Go function that may fail is a computation \<open>(w, e, a) gom\<close> of \<open>Prelude\<close>: it takes the
  world and returns an error or a result with the new world, so a failing call keeps the effects it had.
  Every answer of the outside (clock, randomness, disk and network faults, the other device) is an
  argument of a host record, read at the number of the call (\<open>wTick\<close>, \<open>pTick\<close>), so that theorems hold for
  every behaviour of the outside unless they name a hypothesis such as \<open>quiet\<close> (no faults). An \<open>int64\<close> is
  an \<open>int\<close> with its wrap-around written out (\<open>wrap64\<close>). Strings are byte strings. A \<open>sync.Mutex\<close> makes a
  method one step; where the code works between two critical sections the model has two steps.

  \<^bold>\<open>Theories and sources.\<close>

  \<^item> \<open>Prelude\<close>, \<open>GoLib\<close>, \<open>GoNet\<close>, \<open>GoValues\<close>, \<open>GoFlag\<close>: the error monad with its rules (\<open>keeps_rules\<close>,
    \<open>throws_rules\<close>), and what the code uses of Go's standard library.
  \<^item> \<open>Models\<close>, \<open>TransferModels\<close>, \<open>PairingModels\<close>: the records of \<open>models\<close>, \<open>transfer/models.go\<close>,
    \<open>transfer/errors.go\<close> and \<open>pairing/models.go\<close>.
  \<^item> \<open>SafePath\<close>, \<open>FileSystem\<close>, \<open>TransferFiles\<close>: \<open>transfer/files.go\<close> over a model of the file tree.
  \<^item> \<open>TransferStore\<close>, \<open>Database\<close>: \<open>transfer/sqlite_store.go\<close> and \<open>database/migrations.go\<close>.
  \<^item> \<open>TransferWorld\<close>, \<open>TransferWire\<close>, \<open>TransferReceive\<close>, \<open>TransferOffers\<close>, \<open>TransferDelivery\<close>,
    \<open>TransferControl\<close>, \<open>TransferLifecycle\<close>, \<open>TransferSchedule\<close>: \<open>transfer/service.go\<close>, \<open>auth.go\<close>, and the
    pinned client of \<open>sender.go\<close>; \<open>TransferSender\<close> the outbound worker of \<open>sender.go\<close>; \<open>TransferStaging\<close>
    \<open>staging.go\<close> and the main loop.
  \<^item> \<open>TransferExchange\<close>, \<open>TransferWhole\<close>, \<open>TransferJourney\<close>: no code of their own, but two engines that share the wire formats, the
    codecs and the hash (\<open>same_libraries\<close>): an offer of one at the other, its chunks from the first to the last, and the
    way from the offer over the approval to the files.
  \<^item> \<open>Identity\<close>, \<open>Settings\<close>: \<open>services/identity*.go\<close>, \<open>settings/*.go\<close>.
  \<^item> \<open>PairingCrypto\<close>, \<open>PairingService\<close>, \<open>PairingTrust\<close>, \<open>PairingCeremony\<close>: \<open>pairing/*.go\<close>.
  \<^item> \<open>DiscoveryNet\<close>, \<open>DiscoveryRegistry\<close>, \<open>Discovery\<close>, \<open>DiscoveryBrowse\<close>: \<open>discovery/*.go\<close>; \<open>DevSim\<close>,
    \<open>Directory\<close>: \<open>devsim/service.go\<close> and the directory interface both provide.
  \<^item> \<open>Api\<close>, \<open>ApiHandlers\<close>, \<open>WebSocket\<close>, \<open>Sockets\<close>, \<open>Diagnostics\<close>, \<open>Frontend\<close>: \<open>api/*.go\<close>,
    \<open>websocket/*.go\<close>, \<open>diagnostics/service.go\<close>, \<open>frontend/frontend.go\<close>.
  \<^item> \<open>Server\<close>, \<open>Startup\<close>: configuration, supervisor, start and end of \<open>serverapp/server.go\<close>; \<open>HostProgram\<close>, \<open>Desktop\<close>,
    \<open>DevCli\<close>: \<open>cmd/desktop\<close>, \<open>cmd/server\<close>, \<open>cmd/syncspace\<close>.

  A definition has the name of the Go function it models where Isabelle allows it, or the name of the
  block of that function it stands for.

  \<^bold>\<open>What is proved.\<close>

  \<^item> Files: \<open>secureJoin\<close> never leaves its root, conflict resolution finds a free name, a finalized transfer
    stands with its checksums at its destination, uploads are all or nothing.
  \<^item> Transfers: the tables implement a map (locale \<open>transfer_store\<close>), every call moves transfers along the
    edges of one state machine, nothing is received before the user approved it, offers are authentic and
    not replayed, the offer of an honest sender is accepted, a completed worker delivered everything, and no
    peer request touches a session without its token.
  \<^item> End to end: the chunks a status answer lacks, in any order and with repetitions, followed by the call to complete,
    bring every file of the sender byte for byte to its destination, whatever was received before
    (\<open>honest_transfer_delivered\<close>), and an offer that is taken and accepted leads there (\<open>offered_transfer_delivered\<close>). The receiver's
    disk must not fail, and its files must have a layout without collisions (\<open>laid_out\<close>): partial file names can
    clash with directory names (\<open>partial_names_collide\<close>).
  \<^item> Pairing: trust needs the user's consent with the keys of that ceremony, both ends derive the same code
    and key, and trusted devices have usable keys (locale \<open>authorizer\<close>).
  \<^item> Identity and settings survive restarts; consent to the policy is only given explicitly.
  \<^item> Discovery: a peer that announces itself is found as announced, the registry keeps its invariant, both
    directories list a device once (locale \<open>peer_directory\<close>).
  \<^item> Interfaces: the privacy gate, the separation of management and peer protocol, a connected client knows
    the registry or is cut off, no handler leaves a subscription behind.
  \<^item> Running: what the daemon starts with is consistent, the supervisor follows the settings, interrupted migrations converge, the log buffer keeps
    the end of the log, the waits of the host programs end, and the two-device lab leaves no process behind.
  \<^item> Behaviour that is not what the code means to do is stated as a theorem too, so that a fix will have to
    change it: the overflow of an offer's size, a commit that stopped half-way, a cancelled transfer
    completed by an older reading, a worker started twice, a rejected request paired by a refresh, a stale
    pending request, rebinding of the management API, a database closed under running transfers, events published out of order.

  \<^bold>\<open>Bounds and fuel.\<close> Loops with a bound in the code keep it: \<open>rename_loop\<close> tries the numbers up to 9999, chunks
  are tried \<open>chunkRetryLimit\<close> times. \<open>await_approval\<close> polls until the other user decides, which may never
  happen, so it takes a number of polls and returns \<open>None\<close> when they are used up; what is proved of a worker
  that ends holds for every such number. \<open>poll\<close> and \<open>transfer_loop\<close> of the host programs wait for a deadline;
  \<open>poll_ends\<close> shows that a wait of time \<open>t\<close> ends within \<open>t / pause + 1\<close> attempts on a clock that does not run
  backwards. All other recursion is structural or comes with a measure.

  \<^bold>\<open>Not modelled.\<close> Cryptographic primitives, JSON and gzip codecs, SQLite below the statement, the route
  search of gin, zeroconf, gorilla/websocket and Wails are parameters, with what is used of them as named
  hypotheses. The time limits \<open>Run\<close> gives its HTTP servers are theirs. Chunk workers run one after
  the other in an arbitrary order. The file tree has no permissions and no symbolic links that resolve.
  The files for Windows and other platforms, and the clients in TypeScript and Swift, are left out.
\<close>

end
